(* ===== verification/Prelude.thy ===== *)
theory Prelude
  imports Complex_Main "HOL-Library.Monad_Syntax"
begin

text \<open>
  What every component of the development shares.

  \<^item> The JavaScript values the sources compute with: \<open>js_number\<close> is the type
    \<^verbatim>\<open>number\<close> where a value may be NaN or infinite; integers that stay inside the safe
    range (timestamps, indices, counters) are \<open>int\<close> or \<open>nat\<close> in the components.
  \<^item> Printing and reading of decimal digits (\<^verbatim>\<open>String(n)\<close> of an integer, the
    digits of a numeric literal) with their round trip.
  \<^item> The \<open>option\<close> type in two roles. A function that may throw returns
    \<open>'a option\<close> with \<open>None\<close> for the exception, and is written with the
    \<open>do\<close> notation of \<open>Monad_Syntax\<close>. A value that may be \<^verbatim>\<open>null\<close>
    or \<^verbatim>\<open>undefined\<close> is an option too. The two are never merged: a function that
    may throw and may return null has type \<open>'a option option\<close>.
  \<^item> The collections \<open>dec_simps\<close> (facts of the decimal library) and \<open>store_defs\<close>
    (definitions of store operations that proofs unfold together).
\<close>

named_theorems dec_simps
named_theorems store_defs

section \<open>Numbers\<close>

datatype js_number = Fin rat | PosInf | NegInf | NaN

definition js_int :: "int \<Rightarrow> js_number" where
  "js_int n = Fin (of_int n)"

fun js_is_finite :: "js_number \<Rightarrow> bool" where
  "js_is_finite (Fin _) = True"
| "js_is_finite _ = False"

text \<open>\<^verbatim>\<open>a > b\<close> on numbers; every comparison with NaN is false.\<close>

fun js_less :: "js_number \<Rightarrow> js_number \<Rightarrow> bool" where
  "js_less NaN _ = False"
| "js_less _ NaN = False"
| "js_less (Fin a) (Fin b) = (a < b)"
| "js_less NegInf b = (b \<noteq> NegInf)"
| "js_less _ NegInf = False"
| "js_less PosInf _ = False"
| "js_less _ PosInf = True"

lemma js_less_NaN [simp]: "\<not> js_less a NaN"
  by (cases a) simp_all

text \<open>
  A JavaScript value of type \<^verbatim>\<open>unknown\<close>, as JSON and the gateway's payloads deliver it;
  an object is the list of its own properties in order.
\<close>

datatype js_value = JUndefined | JNull | JBool bool | JNum js_number | JStr string | JBigInt int
  | JArr "js_value list" | JObj "(string \<times> js_value) list"

section \<open>Decimal digits\<close>

text \<open>
  Digits are computed on \<open>int\<close>, whose numerals are binary, so that the kernel evaluates
  prices of twenty digits quickly.
\<close>

definition digit_char :: "int \<Rightarrow> char" where
  "digit_char d = (
     if d = 0 then CHR ''0'' else if d = 1 then CHR ''1'' else if d = 2 then CHR ''2''
     else if d = 3 then CHR ''3'' else if d = 4 then CHR ''4'' else if d = 5 then CHR ''5''
     else if d = 6 then CHR ''6'' else if d = 7 then CHR ''7'' else if d = 8 then CHR ''8''
     else CHR ''9'')"

definition digit_val :: "char \<Rightarrow> int option" where
  "digit_val = map_of (zip ''0123456789'' [0, 1, 2, 3, 4, 5, 6, 7, 8, 9])"

definition is_digit :: "char \<Rightarrow> bool" where
  "is_digit c = (digit_val c \<noteq> None)"

lemma digit_val_char [simp]: "0 \<le> d \<Longrightarrow> d < 10 \<Longrightarrow> digit_val (digit_char d) = Some d"
proof -
  assume "0 \<le> d" "d < 10"
  then have "d = 0 \<or> d = 1 \<or> d = 2 \<or> d = 3 \<or> d = 4 \<or> d = 5 \<or> d = 6 \<or> d = 7 \<or> d = 8 \<or> d = 9"
    by arith
  then show ?thesis by (auto simp: digit_char_def digit_val_def)
qed

lemma is_digit_digit_char [simp]: "is_digit (digit_char d)"
  by (simp add: digit_char_def is_digit_def digit_val_def)

function show_pos :: "int \<Rightarrow> string" where
  "show_pos n = (if n < 10 then [digit_char n]
                 else show_pos (n div 10) @ [digit_char (n mod 10)])"
  by pat_completeness auto
termination by (relation "measure nat") auto

declare show_pos.simps [simp del]

definition show_int :: "int \<Rightarrow> string" where
  "show_int n = (if n < 0 then CHR ''-'' # show_pos (- n) else show_pos n)"

text \<open>The number a run of digits denotes, \<open>acc\<close> being what has been read so far.\<close>

fun read_digits :: "int \<Rightarrow> string \<Rightarrow> int option" where
  "read_digits acc [] = Some acc"
| "read_digits acc (c # cs) =
     (case digit_val c of None \<Rightarrow> None | Some d \<Rightarrow> read_digits (10 * acc + d) cs)"

lemma read_digits_append:
  "read_digits acc (xs @ ys) = Option.bind (read_digits acc xs) (\<lambda>a. read_digits a ys)"
  by (induction xs arbitrary: acc) (auto split: option.splits)

lemma read_digits_acc:
  "read_digits acc xs = map_option (\<lambda>n. acc * 10 ^ length xs + n) (read_digits 0 xs)"
proof (induction xs arbitrary: acc)
  case Nil
  then show ?case by simp
next
  case (Cons c cs)
  show ?case
  proof (cases "digit_val c")
    case None
    then show ?thesis by simp
  next
    case (Some d)
    from Cons [of "10 * acc + d"] Cons [of d] Some show ?thesis
      by (cases "read_digits 0 cs") (simp_all add: algebra_simps)
  qed
qed

lemma read_show_pos [simp]: "0 \<le> n \<Longrightarrow> read_digits 0 (show_pos n) = Some n"
proof (induction n rule: show_pos.induct)
  case (1 n)
  then show ?case
    by (subst show_pos.simps) (auto simp: read_digits_append)
qed

lemma show_pos_digits: "c \<in> set (show_pos n) \<Longrightarrow> is_digit c"
proof (induction n rule: show_pos.induct)
  case (1 n)
  then show ?case
    by (subst (asm) show_pos.simps) (auto split: if_splits)
qed

lemma show_pos_Nil [simp]: "show_pos n \<noteq> []"
  by (subst show_pos.simps) simp

lemma show_pos_inject: "0 \<le> m \<Longrightarrow> 0 \<le> n \<Longrightarrow> show_pos m = show_pos n \<longleftrightarrow> m = n"
  by (metis option.inject read_show_pos)

lemma is_digit_zero [simp]: "is_digit CHR ''0''"
  by (simp add: is_digit_def digit_val_def)

lemma not_digit_minus [simp]: "\<not> is_digit CHR ''-''"
  and not_digit_dot [simp]: "\<not> is_digit CHR ''.''"
  by (simp_all add: is_digit_def digit_val_def)

lemma show_pos_not_minus: "show_pos n \<noteq> CHR ''-'' # xs"
  using show_pos_digits [of "CHR ''-''" n] by auto

lemma show_int_inject [simp]: "show_int m = show_int n \<longleftrightarrow> m = n"
  by (auto simp: show_int_def show_pos_not_minus show_pos_not_minus [symmetric] show_pos_inject)

lemma read_digits_is_digit: "read_digits a xs = Some n \<Longrightarrow> c \<in> set xs \<Longrightarrow> is_digit c"
  by (induction xs arbitrary: a) (auto simp: is_digit_def split: option.splits)

text \<open>Zero padding on the left, \<^verbatim>\<open>padStart(n, '0')\<close>.\<close>

definition pad_zeros :: "nat \<Rightarrow> string \<Rightarrow> string" where
  "pad_zeros n xs = replicate (n - length xs) CHR ''0'' @ xs"

lemma length_pad_zeros [simp]: "length (pad_zeros n xs) = max n (length xs)"
  by (simp add: pad_zeros_def)

lemma read_zeros [simp]: "read_digits 0 (replicate n CHR ''0'' @ xs) = read_digits 0 xs"
  by (induction n) (simp_all add: digit_val_def)

lemma read_pad_zeros [simp]: "read_digits 0 (pad_zeros n xs) = read_digits 0 xs"
  by (simp add: pad_zeros_def)

lemma pad_zeros_digits: "(\<And>c. c \<in> set xs \<Longrightarrow> is_digit c) \<Longrightarrow> c \<in> set (pad_zeros n xs) \<Longrightarrow> is_digit c"
  by (auto simp: pad_zeros_def)

lemma show_pos_length: "n < 10 ^ Suc k \<Longrightarrow> length (show_pos n) \<le> Suc k"
proof (induction k arbitrary: n)
  case 0
  then show ?case by (subst show_pos.simps) simp
next
  case (Suc k)
  then have "n div 10 < 10 ^ Suc k" by simp
  then show ?case using Suc.IH [of "n div 10"] by (subst show_pos.simps) simp
qed

section \<open>Lists, maps and options\<close>

text \<open>A \<^verbatim>\<open>Map\<close> keeps insertion order: setting an existing key keeps its place.\<close>

fun alist_set :: "'k \<Rightarrow> 'v \<Rightarrow> ('k \<times> 'v) list \<Rightarrow> ('k \<times> 'v) list" where
  "alist_set k v [] = [(k, v)]"
| "alist_set k v ((k', v') # ps) =
     (if k' = k then (k, v) # ps else (k', v') # alist_set k v ps)"

definition alist_del :: "'k \<Rightarrow> ('k \<times> 'v) list \<Rightarrow> ('k \<times> 'v) list" where
  "alist_del k ps = filter (\<lambda>p. fst p \<noteq> k) ps"

lemma map_of_alist_set [simp]: "map_of (alist_set k v ps) = (map_of ps)(k \<mapsto> v)"
  by (induction k v ps rule: alist_set.induct) (auto simp: fun_eq_iff)

lemma map_of_alist_del: "map_of (alist_del k ps) k' = (if k' = k then None else map_of ps k')"
  by (induction ps) (auto simp: alist_del_def)

lemma fst_set_alist_set [simp]: "fst ` set (alist_set k v ps) = insert k (fst ` set ps)"
  by (induction k v ps rule: alist_set.induct) auto

lemma set_alist_set: "x \<in> set (alist_set k v ps) \<Longrightarrow> x = (k, v) \<or> x \<in> set ps"
  by (induction k v ps rule: alist_set.induct) (auto split: if_splits)

lemma distinct_alist_set [intro]:
  "distinct (map fst ps) \<Longrightarrow> distinct (map fst (alist_set k v ps))"
proof (induction k v ps rule: alist_set.induct)
  case (2 k v k' v' ps)
  have "set (map fst (alist_set k v ps)) = insert k (set (map fst ps))" by simp
  with 2 show ?case by (cases "k' = k") auto
qed simp

lemma distinct_alist_del [intro]:
  "distinct (map fst ps) \<Longrightarrow> distinct (map fst (alist_del k ps))"
  by (simp add: alist_del_def distinct_map_filter)

lemma fst_set_alist_del [simp]: "fst ` set (alist_del k ps) = fst ` set ps - {k}"
  by (auto simp: alist_del_def)

text \<open>\<^verbatim>\<open>a ?? b\<close>\<close>

definition or_else :: "'a option \<Rightarrow> 'a \<Rightarrow> 'a" where
  "or_else x d = (case x of None \<Rightarrow> d | Some a \<Rightarrow> a)"

lemma or_else_simps [simp]: "or_else None d = d" "or_else (Some a) d = a"
  by (simp_all add: or_else_def)

section \<open>Strings\<close>

text \<open>
  The white space \<^verbatim>\<open>trim()\<close> and \<^verbatim>\<open>\s\<close> recognise, within the range of \<open>char\<close>: tab to
  carriage return, space and the no-break space. Message texts of the sources hold the em
  dash; a \<open>char\<close> cannot, and the models write \<open>--\<close> for it.
\<close>

definition js_ws :: "char \<Rightarrow> bool" where
  "js_ws c = (c \<in> set [CHR 0x09, CHR 0x0A, CHR 0x0B, CHR 0x0C, CHR 0x0D, CHR '' '', CHR 0xA0])"

definition js_newline :: "char \<Rightarrow> bool" where
  "js_newline c = (c = CHR 0x0A \<or> c = CHR 0x0D)"

definition js_trim :: "string \<Rightarrow> string" where
  "js_trim s = rev (dropWhile js_ws (rev (dropWhile js_ws s)))"

definition ends_with :: "string \<Rightarrow> string \<Rightarrow> bool" where
  "ends_with s suf = (length suf \<le> length s \<and> drop (length s - length suf) s = suf)"

lemma ends_with_append [simp]: "ends_with (s @ suf) suf"
  by (simp add: ends_with_def)

lemma ends_withE:
  assumes "ends_with s suf"
  obtains t where "s = t @ suf"
  using assms by (metis append_take_drop_id ends_with_def)

text \<open>\<^verbatim>\<open>a || b\<close> on strings: the empty string is falsy.\<close>

definition or_str :: "string \<Rightarrow> string \<Rightarrow> string" where
  "or_str a b = (if a = '''' then b else a)"

lemma js_ws_not_digit: "js_ws c \<Longrightarrow> \<not> is_digit c"
  by (auto simp: js_ws_def is_digit_def digit_val_def)

end
