(* ===== verification/DecimalLib.thy ===== *)
theory DecimalLib
  imports Prelude
begin

text \<open>
  The interface of \<^verbatim>\<open>decimal.js\<close>, the package every money, price and volume
  computation of \<^verbatim>\<open>frontend/src\<close> goes through. The package is not part of the
  repository, so it is a parameter of the model: a record \<open>'d decimal_lib\<close> of the
  operations the sources call, over a type \<open>'d\<close> of Decimal values. What the sources
  rely on is the locale \<open>decimal_js\<close>, whose assumptions are the documented behaviour
  under the configuration of \<^verbatim>\<open>domain/common/decimal.ts\<close> (28 significant digits,
  rounding half up): every arithmetic operation on finite values returns the exact result
  rounded to 28 significant digits, comparisons are exact, \<^verbatim>\<open>toFixed()\<close> prints exactly.

  Two documented corners are left out. The exponent limit of \<open>9e15\<close> is not modelled: no
  string of memory size reaches it through the plain notation \<^verbatim>\<open>toFixed\<close> prints. The
  sign of a zero is left open but for the zeros written without a minus: \<open>d_is_pos\<close> is
  true of them (\<open>isPositive()\<close> tests the sign, and a plain zero has a positive one).

  The second half holds the numerical facts the components use: the error bound of the
  rounding, the values it leaves alone, and that a quotient of two short decimals is
  rounded without crossing or reaching an integer.
\<close>

section \<open>The operations\<close>

record 'd decimal_lib =
  d_parse :: "string \<Rightarrow> 'd option"      \<comment> \<open>\<open>new Decimal(s)\<close>, \<open>None\<close> when it throws\<close>
  d_num :: "js_number \<Rightarrow> 'd"            \<comment> \<open>\<open>new Decimal(n)\<close> of a number\<close>
  d_plus :: "'d \<Rightarrow> 'd \<Rightarrow> 'd"
  d_minus :: "'d \<Rightarrow> 'd \<Rightarrow> 'd"
  d_times :: "'d \<Rightarrow> 'd \<Rightarrow> 'd"
  d_div :: "'d \<Rightarrow> 'd \<Rightarrow> 'd"            \<comment> \<open>\<open>dividedBy\<close>\<close>
  d_mod :: "'d \<Rightarrow> 'd \<Rightarrow> 'd"
  d_pow :: "'d \<Rightarrow> int \<Rightarrow> 'd"
  d_floor :: "'d \<Rightarrow> 'd"
  d_abs :: "'d \<Rightarrow> 'd"
  d_round :: "'d \<Rightarrow> 'd"                  \<comment> \<open>\<open>toDecimalPlaces(0)\<close>, half up\<close>
  d_compared :: "'d \<Rightarrow> 'd \<Rightarrow> int"        \<comment> \<open>\<open>comparedTo\<close>\<close>
  d_less :: "'d \<Rightarrow> 'd \<Rightarrow> bool"           \<comment> \<open>\<open>a.lessThan(b)\<close>, \<open>b.greaterThan(a)\<close>\<close>
  d_leq :: "'d \<Rightarrow> 'd \<Rightarrow> bool"            \<comment> \<open>\<open>a.lessThanOrEqualTo(b)\<close>\<close>
  d_equals :: "'d \<Rightarrow> 'd \<Rightarrow> bool"
  d_is_zero :: "'d \<Rightarrow> bool"
  d_is_neg :: "'d \<Rightarrow> bool"
  d_is_pos :: "'d \<Rightarrow> bool"
  d_is_finite :: "'d \<Rightarrow> bool"
  d_fixed :: "'d \<Rightarrow> string"              \<comment> \<open>\<open>toFixed()\<close>\<close>
  d_fixed_dp :: "'d \<Rightarrow> nat \<Rightarrow> string"    \<comment> \<open>\<open>toFixed(dp)\<close>\<close>
  d_places :: "'d \<Rightarrow> nat"                \<comment> \<open>\<open>decimalPlaces()\<close>\<close>
  d_to_number :: "'d \<Rightarrow> js_number"       \<comment> \<open>\<open>toNumber()\<close>\<close>

section \<open>Rounding to significant digits\<close>

text \<open>\<^verbatim>\<open>ROUND_HALF_UP\<close>: to the nearest integer, a tie goes away from zero.\<close>

definition round_half_up :: "rat \<Rightarrow> int" where
  "round_half_up x = (if 0 \<le> x then \<lfloor>x + 1 / 2\<rfloor> else - \<lfloor>- x + 1 / 2\<rfloor>)"

text \<open>The decimal exponent of the leading digit: \<open>10 powi mag x \<le> \<bar>x\<bar> < 10 powi (mag x + 1)\<close>.\<close>

definition mag :: "rat \<Rightarrow> int" where
  "mag x = (let (n, d) = quotient_of \<bar>x\<bar>;
                e = int (length (show_pos n)) - int (length (show_pos d))
            in if 10 powi e \<le> \<bar>x\<bar> then e else e - 1)"

definition round_sig :: "nat \<Rightarrow> rat \<Rightarrow> rat" where
  "round_sig p x = (if x = 0 then 0
                    else let u = 10 powi (mag x + 1 - int p)
                         in of_int (round_half_up (x / u)) * u)"

text \<open>\<^verbatim>\<open>Decimal.set({ precision: 28, ... })\<close>\<close>

definition precision :: nat where
  "precision = 28"

definition rnd :: "rat \<Rightarrow> rat" where
  "rnd x = round_sig precision x"

definition trunc_rat :: "rat \<Rightarrow> int" where
  "trunc_rat x = (if 0 \<le> x then \<lfloor>x\<rfloor> else - \<lfloor>- x\<rfloor>)"

section \<open>The documented laws\<close>

locale decimal_js =
  fixes D :: "'d decimal_lib" and val :: "'d \<Rightarrow> rat"
  assumes fixed_parses: "d_is_finite D a \<Longrightarrow>
      \<exists>b. d_parse D (d_fixed D a) = Some b \<and> d_is_finite D b \<and> val b = val a"
    and fixed_canonical: "d_is_finite D a \<Longrightarrow> d_is_finite D b \<Longrightarrow> val a = val b \<Longrightarrow>
      d_fixed D a = d_fixed D b"
    and fixed_dp_parses: "d_is_finite D a \<Longrightarrow>
      \<exists>b. d_parse D (d_fixed_dp D a n) = Some b \<and> d_is_finite D b \<and>
          val b = of_int (round_half_up (val a * 10 ^ n)) / 10 ^ n"
    and num_int: "\<bar>i\<bar> \<le> 2 ^ 53 \<Longrightarrow> d_is_finite D (d_num D (js_int i)) \<and>
      val (d_num D (js_int i)) = of_int i"
    and plus_val: "d_is_finite D a \<Longrightarrow> d_is_finite D b \<Longrightarrow>
      d_is_finite D (d_plus D a b) \<and> val (d_plus D a b) = rnd (val a + val b)"
    and minus_val: "d_is_finite D a \<Longrightarrow> d_is_finite D b \<Longrightarrow>
      d_is_finite D (d_minus D a b) \<and> val (d_minus D a b) = rnd (val a - val b)"
    and times_val: "d_is_finite D a \<Longrightarrow> d_is_finite D b \<Longrightarrow>
      d_is_finite D (d_times D a b) \<and> val (d_times D a b) = rnd (val a * val b)"
    and div_val: "d_is_finite D a \<Longrightarrow> d_is_finite D b \<Longrightarrow> val b \<noteq> 0 \<Longrightarrow>
      d_is_finite D (d_div D a b) \<and> val (d_div D a b) = rnd (val a / val b)"
    and div_zero: "d_is_finite D a \<Longrightarrow> d_is_finite D b \<Longrightarrow> val b = 0 \<Longrightarrow>
      \<not> d_is_finite D (d_div D a b)"
    and mod_val: "d_is_finite D a \<Longrightarrow> d_is_finite D b \<Longrightarrow> val b \<noteq> 0 \<Longrightarrow>
      d_is_finite D (d_mod D a b) \<and>
      val (d_mod D a b) = rnd (val a - val b * of_int (trunc_rat (val a / val b)))"
    and pow_ten: "d_is_finite D a \<Longrightarrow> val a = 10 \<Longrightarrow>
      d_is_finite D (d_pow D a e) \<and> val (d_pow D a e) = 10 powi e"
    and floor_val: "d_is_finite D a \<Longrightarrow>
      d_is_finite D (d_floor D a) \<and> val (d_floor D a) = of_int \<lfloor>val a\<rfloor>"
    and abs_val: "d_is_finite D a \<Longrightarrow> d_is_finite D (d_abs D a) \<and> val (d_abs D a) = \<bar>val a\<bar>"
    and round_val: "d_is_finite D a \<Longrightarrow>
      d_is_finite D (d_round D a) \<and> val (d_round D a) = of_int (round_half_up (val a))"
    and compared_val: "d_is_finite D a \<Longrightarrow> d_is_finite D b \<Longrightarrow>
      d_compared D a b = (if val a < val b then -1 else if val a = val b then 0 else 1)"
    and less_val: "d_is_finite D a \<Longrightarrow> d_is_finite D b \<Longrightarrow> d_less D a b \<longleftrightarrow> val a < val b"
    and leq_val: "d_is_finite D a \<Longrightarrow> d_is_finite D b \<Longrightarrow> d_leq D a b \<longleftrightarrow> val a \<le> val b"
    and equals_val: "d_is_finite D a \<Longrightarrow> d_is_finite D b \<Longrightarrow> d_equals D a b \<longleftrightarrow> val a = val b"
    and zero_val: "d_is_finite D a \<Longrightarrow> d_is_zero D a \<longleftrightarrow> val a = 0"
    and neg_val: "d_is_finite D a \<Longrightarrow> val a \<noteq> 0 \<Longrightarrow> d_is_neg D a \<longleftrightarrow> val a < 0"
    and pos_val: "d_is_finite D a \<Longrightarrow> val a \<noteq> 0 \<Longrightarrow> d_is_pos D a \<longleftrightarrow> 0 < val a"
    and zero_pos: "d_parse D (c # cs) = Some a \<Longrightarrow> c \<noteq> CHR ''-'' \<Longrightarrow> d_is_finite D a \<Longrightarrow>
      val a = 0 \<Longrightarrow> d_is_pos D a \<and> \<not> d_is_neg D a"
    and floor_nonfinite: "\<not> d_is_finite D a \<Longrightarrow> \<not> d_is_finite D (d_floor D a)"
    and nan_less: "\<not> d_is_finite D a \<Longrightarrow> d_is_finite D b \<Longrightarrow> val b = 0 \<Longrightarrow>
      \<not> d_less D z (d_times D a b)"
    and places_val: "d_is_finite D a \<Longrightarrow> \<exists>m::int. val a * 10 ^ d_places D a = of_int m"
    and to_number_int: "d_is_finite D a \<Longrightarrow> val a = of_int i \<Longrightarrow> \<bar>i\<bar> \<le> 2 ^ 53 \<Longrightarrow>
      d_to_number D a = js_int i"

text \<open>The string \<open>s\<close> is accepted by the library and denotes the rational \<open>r\<close>.\<close>

definition denotes :: "'d decimal_lib \<Rightarrow> ('d \<Rightarrow> rat) \<Rightarrow> string \<Rightarrow> rat \<Rightarrow> bool" where
  "denotes D val s r \<longleftrightarrow> (\<exists>d. d_parse D s = Some d \<and> d_is_finite D d \<and> val d = r)"

section \<open>Numerical facts about the rounding\<close>

lemma round_half_up_int [simp]: "round_half_up (of_int m) = m"
  unfolding round_half_up_def by (auto simp: floor_eq_iff)

lemma round_half_up_error: "\<bar>of_int (round_half_up x) - x\<bar> \<le> 1 / 2"
proof (cases "0 \<le> x")
  case True
  then have "of_int (round_half_up x) = (of_int \<lfloor>x + 1 / 2\<rfloor> :: rat)"
    by (simp add: round_half_up_def)
  then show ?thesis using floor_correct [of "x + 1 / 2"] by linarith
next
  case False
  then have "of_int (round_half_up x) = (- of_int \<lfloor>- x + 1 / 2\<rfloor> :: rat)"
    by (simp add: round_half_up_def)
  then show ?thesis using floor_correct [of "- x + 1 / 2"] by linarith
qed

lemma round_half_up_nonneg: "0 \<le> x \<Longrightarrow> 0 \<le> round_half_up x"
  by (simp add: round_half_up_def)

lemma show_pos_bounds:
  "0 < n \<Longrightarrow> 10 ^ (length (show_pos n) - 1) \<le> n \<and> n < 10 ^ length (show_pos n)"
proof (induction n rule: show_pos.induct)
  case (1 n)
  show ?case
  proof (cases "n < 10")
    case True
    with 1 show ?thesis by (subst (1 2) show_pos.simps) simp
  next
    case False
    define k where "k = length (show_pos (n div 10))"
    have "0 < k" by (simp add: k_def)
    have len: "length (show_pos n) = Suc k"
      using False by (subst show_pos.simps) (simp add: k_def)
    from 1 False have "10 ^ (k - 1) \<le> n div 10" "n div 10 < 10 ^ k"
      by (auto simp: k_def)
    then have "10 ^ (k - 1) * 10 \<le> n" "n < 10 ^ k * 10" by linarith+
    moreover have "(10::int) ^ (k - 1) * 10 = 10 ^ k"
      using \<open>0 < k\<close> by (cases k) simp_all
    ultimately show ?thesis by (simp add: len mult.commute)
  qed
qed

text \<open>Powers of ten.\<close>

lemma ten_powi_pos [simp]: "(0::rat) < 10 powi e"
  by (simp add: zero_less_power_int)

lemma ten_powi_ne [simp]: "(10::rat) powi e \<noteq> 0"
  by simp

lemma ten_powi_less_iff [simp]: "(10::rat) powi a < 10 powi b \<longleftrightarrow> a < b"
proof
  assume "(10::rat) powi a < 10 powi b"
  moreover have "\<not> (10::rat) powi a < 10 powi b" if "b \<le> a"
    using power_int_increasing [OF that, of "10::rat"] by simp
  ultimately show "a < b" by (meson not_le)
qed (simp add: power_int_strict_increasing)

lemma ten_powi_add: "(10::rat) powi (a + b) = 10 powi a * 10 powi b"
  by (simp add: power_int_add)

lemma ten_powi_nat: "(10::rat) powi int n = 10 ^ n"
  by simp

lemma int_digits_bounds:
  assumes "0 < n"
  shows "(10::rat) powi (int (length (show_pos n)) - 1) \<le> of_int n \<and>
         of_int n < (10::rat) powi int (length (show_pos n))"
proof -
  define k where "k = length (show_pos n)"
  obtain j where k: "k = Suc j" by (metis k_def length_0_conv not0_implies_Suc show_pos_Nil)
  have "10 ^ j \<le> n" "n < 10 ^ Suc j"
    using show_pos_bounds [OF assms] k by (simp_all add: k_def)
  then have "(of_int (10 ^ j) :: rat) \<le> of_int n" "(of_int n :: rat) < of_int (10 ^ Suc j)"
    by (simp_all only: of_int_le_iff of_int_less_iff)
  moreover have "(10::rat) powi (int k - 1) = of_int (10 ^ j)" "(10::rat) powi int k = of_int (10 ^ Suc j)"
    by (simp add: k, simp only: k ten_powi_nat of_int_power of_int_numeral)
  ultimately show ?thesis
    unfolding k_def [symmetric] by simp
qed

lemma mag_bounds:
  assumes "x \<noteq> 0"
  shows "10 powi mag x \<le> \<bar>x\<bar> \<and> \<bar>x\<bar> < 10 powi (mag x + 1)"
proof -
  obtain n d where nd: "quotient_of \<bar>x\<bar> = (n, d)" by fastforce
  have d: "0 < d" using quotient_of_denom_pos [OF nd] .
  have x: "\<bar>x\<bar> = of_int n / of_int d" using quotient_of_div [OF nd] .
  have "0 < \<bar>x\<bar>" using assms by simp
  then have n: "0 < n" using d by (simp add: x zero_less_divide_iff)
  define p q where "p = length (show_pos n)" and "q = length (show_pos d)"
  note nr = int_digits_bounds [OF n, folded p_def] and dr = int_digits_bounds [OF d, folded q_def]
  define e where "e = int p - int q"
  have lo: "10 powi (e - 1) \<le> \<bar>x\<bar>"
  proof -
    have "(10::rat) powi (e - 1) * of_int d \<le> 10 powi (e - 1) * 10 powi int q"
      using dr by (intro mult_left_mono) auto
    also have "\<dots> = (10::rat) powi (e - 1 + int q)" by (simp only: ten_powi_add)
    also have "e - 1 + int q = int p - 1" by (simp add: e_def)
    also have "(10::rat) powi (int p - 1) \<le> of_int n" by (rule nr [THEN conjunct1])
    finally show ?thesis using d by (simp add: x pos_le_divide_eq)
  qed
  have hi: "\<bar>x\<bar> < 10 powi (e + 1)"
  proof -
    have "of_int n < (10::rat) powi int p" by (rule nr [THEN conjunct2])
    also have "int p = (e + 1) + (int q - 1)" by (simp add: e_def)
    also have "(10::rat) powi \<dots> = 10 powi (e + 1) * 10 powi (int q - 1)" by (simp only: ten_powi_add)
    also have "\<dots> \<le> 10 powi (e + 1) * of_int d"
      using dr by (intro mult_left_mono) auto
    finally show ?thesis using d by (simp add: x pos_divide_less_eq)
  qed
  have m: "mag x = (if 10 powi e \<le> \<bar>x\<bar> then e else e - 1)"
    by (simp add: mag_def nd e_def p_def q_def)
  show ?thesis using lo hi by (auto simp: m)
qed

text \<open>The unit in the last place, the error bound and the values rounding leaves alone.\<close>

definition ulp :: "nat \<Rightarrow> rat \<Rightarrow> rat" where
  "ulp p x = 10 powi (mag x + 1 - int p)"

lemma ulp_pos [simp]: "0 < ulp p x"
  by (simp add: ulp_def)

lemma round_sig_ulp: "x \<noteq> 0 \<Longrightarrow> round_sig p x = of_int (round_half_up (x / ulp p x)) * ulp p x"
  by (simp add: round_sig_def ulp_def Let_def)

lemma round_sig_0 [simp]: "round_sig p 0 = 0"
  by (simp add: round_sig_def)

lemma round_sig_error:
  assumes "0 < p"
  shows "\<bar>round_sig p x - x\<bar> \<le> \<bar>x\<bar> / (2 * 10 ^ (p - 1))"
proof (cases "x = 0")
  case False
  define u where "u = ulp p x"
  have u: "0 < u" by (simp add: u_def)
  have "round_sig p x - x = (of_int (round_half_up (x / u)) - x / u) * u"
    using u by (simp add: round_sig_ulp [OF False, of p, folded u_def] left_diff_distrib)
  then have "\<bar>round_sig p x - x\<bar> = \<bar>of_int (round_half_up (x / u)) - x / u\<bar> * u"
    using u by (simp add: abs_mult)
  also have "\<dots> \<le> 1 / 2 * u"
    using u round_half_up_error [of "x / u"] by (intro mult_right_mono) auto
  also have "u = 10 powi mag x / 10 ^ (p - 1)"
  proof -
    have "10 powi mag x = u * 10 powi int (p - 1)"
      unfolding u_def ulp_def ten_powi_add [symmetric] using assms by (simp add: of_nat_diff)
    then show ?thesis by simp
  qed
  also have "1 / 2 * \<dots> \<le> 1 / 2 * (\<bar>x\<bar> / 10 ^ (p - 1))"
    using mag_bounds [OF False] by (intro mult_left_mono divide_right_mono) auto
  finally show ?thesis by (simp add: ac_simps)
qed simp

lemma round_sig_exact:
  assumes "x = of_int m * 10 powi e" "\<bar>m\<bar> < 10 ^ p"
  shows "round_sig p x = x"
proof (cases "x = 0")
  case False
  define u where "u = ulp p x"
  have "10 powi mag x \<le> \<bar>x\<bar>" using mag_bounds [OF False] by simp
  also have "\<bar>x\<bar> = of_int \<bar>m\<bar> * 10 powi e" by (simp add: assms abs_mult)
  also have "\<dots> < 10 ^ p * 10 powi e"
  proof -
    have "(of_int \<bar>m\<bar> :: rat) < of_int (10 ^ p)" using assms(2) by (simp only: of_int_less_iff)
    then show ?thesis by simp
  qed
  also have "\<dots> = 10 powi (int p + e)" by (simp only: ten_powi_add ten_powi_nat)
  finally have "mag x < int p + e" by simp
  then have "0 \<le> e - (mag x + 1 - int p)" by simp
  then obtain j where "e - (mag x + 1 - int p) = int j" by (rule nonneg_int_cases)
  then have j: "e = mag x + 1 - int p + int j" by simp
  have x: "x = of_int (m * 10 ^ j) * u"
  proof -
    have "(10::rat) powi e = 10 ^ j * u"
      unfolding u_def ulp_def by (subst j, subst ten_powi_add) simp
    then show ?thesis by (simp add: assms(1))
  qed
  have "0 < u" by (simp add: u_def)
  then have "x / u = of_int (m * 10 ^ j)" by (subst x) simp
  then show ?thesis
    unfolding round_sig_ulp [OF False] u_def [symmetric] by (metis x round_half_up_int)
qed simp

lemma rnd_0 [simp]: "rnd 0 = 0"
  by (simp add: rnd_def)

lemma rnd_error: "\<bar>rnd x - x\<bar> \<le> \<bar>x\<bar> / (2 * 10 ^ 27)"
  using round_sig_error [of precision x] by (simp add: rnd_def precision_def)

lemma rnd_exact: "x = of_int m * 10 powi e \<Longrightarrow> \<bar>m\<bar> < 10 ^ 28 \<Longrightarrow> rnd x = x"
  by (simp add: rnd_def precision_def round_sig_exact)

lemma rnd_int [dec_simps]: "\<bar>m\<bar> < 10 ^ 28 \<Longrightarrow> rnd (of_int m) = of_int m"
  by (rule rnd_exact [of _ m 0]) simp_all

text \<open>Rounding keeps the sign: the error is a small fraction of the value.\<close>

lemma rnd_pos_iff [simp]: "0 < rnd x \<longleftrightarrow> 0 < x"
  and rnd_neg_iff [simp]: "rnd x < 0 \<longleftrightarrow> x < 0"
  using rnd_error [of x] by (auto simp: abs_le_iff abs_if field_simps split: if_splits)

lemma rnd_zero_iff [simp]: "rnd x = 0 \<longleftrightarrow> x = 0"
  by (metis rnd_neg_iff rnd_pos_iff linorder_neqE_linordered_idom less_irrefl rnd_0)

lemma rnd_nonneg [simp]: "0 \<le> rnd x \<longleftrightarrow> 0 \<le> x"
  by (metis not_less rnd_neg_iff)

lemma round_half_up_minus: "round_half_up (- x) = - round_half_up x"
proof (cases "x = 0")
  case True then show ?thesis using round_half_up_int [of 0] by simp
next
  case False then show ?thesis by (auto simp: round_half_up_def)
qed

lemma round_half_up_mono: "x \<le> y \<Longrightarrow> round_half_up x \<le> round_half_up y"
proof -
  assume le: "x \<le> y"
  consider "0 \<le> x" | "x < 0" "0 \<le> y" | "x < 0" "y < 0" by linarith
  then show ?thesis
  proof cases
    case 1 then show ?thesis using le by (simp add: round_half_up_def floor_mono)
  next
    case 2
    then have "0 \<le> round_half_up y" "0 \<le> round_half_up (- x)" by (simp_all add: round_half_up_nonneg)
    then show ?thesis by (simp add: round_half_up_minus)
  next
    case 3 then show ?thesis using le by (simp add: round_half_up_def floor_mono)
  qed
qed

lemma mag_minus [simp]: "mag (- x) = mag x"
  by (simp add: mag_def)

lemma rnd_minus: "rnd (- x) = - rnd x"
  by (simp add: rnd_def round_sig_def Let_def round_half_up_minus)

lemma mag_mono: "0 < x \<Longrightarrow> x \<le> y \<Longrightarrow> mag x \<le> mag y"
proof -
  assume "0 < x" "x \<le> y"
  then have "(10::rat) powi mag x < 10 powi (mag y + 1)"
    using mag_bounds [of x] mag_bounds [of y] by linarith
  then show ?thesis by simp
qed

lemma rnd_mag_bounds:
  assumes "0 < x"
  shows "10 powi mag x \<le> rnd x \<and> rnd x \<le> 10 powi (mag x + 1)"
proof -
  define u where "u = ulp 28 x"
  have u: "0 < u" by (simp add: u_def)
  have p: "10 powi mag x = of_int (10 ^ 27) * u" "10 powi (mag x + 1) = of_int (10 ^ 28) * u"
    unfolding u_def ulp_def of_int_power of_int_numeral ten_powi_nat [symmetric] ten_powi_add [symmetric]
    by (simp_all add: add.commute)
  have r: "rnd x = of_int (round_half_up (x / u)) * u"
    using assms by (simp add: rnd_def precision_def round_sig_ulp u_def)
  have x: "10 powi mag x \<le> x" "x < 10 powi (mag x + 1)" using mag_bounds [of x] assms by simp_all
  have "of_int (10 ^ 27) \<le> x / u" "x / u \<le> of_int (10 ^ 28)"
    using x u unfolding p by (simp_all add: pos_le_divide_eq pos_divide_le_eq)
  then have "10 ^ 27 \<le> round_half_up (x / u)" "round_half_up (x / u) \<le> 10 ^ 28"
    using round_half_up_mono [of "of_int (10 ^ 27)" "x / u"] round_half_up_mono [of "x / u" "of_int (10 ^ 28)"]
    by (simp_all only: round_half_up_int)
  then show ?thesis unfolding r p
    by (intro conjI mult_right_mono) (use u in \<open>simp_all only: of_int_le_iff less_imp_le\<close>)
qed

lemma rnd_mono_pos: "0 < x \<Longrightarrow> x \<le> y \<Longrightarrow> rnd x \<le> rnd y"
proof (cases "mag x = mag y")
  case True
  assume "0 < x" "x \<le> y"
  moreover from this have "x / ulp 28 x \<le> y / ulp 28 x" by (simp add: divide_right_mono less_imp_le)
  moreover have "ulp 28 y = ulp 28 x" using True by (simp add: ulp_def)
  ultimately show ?thesis
    using round_half_up_mono [of "x / ulp 28 x" "y / ulp 28 x"]
    by (simp add: rnd_def precision_def round_sig_ulp mult_right_mono less_imp_le)
next
  case False
  assume a: "0 < x" "x \<le> y"
  then have "mag x + 1 \<le> mag y" using False mag_mono [of x y] by linarith
  then have "(10::rat) powi (mag x + 1) \<le> 10 powi mag y" by (simp add: power_int_increasing)
  then show ?thesis using rnd_mag_bounds [of x] rnd_mag_bounds [of y] a by linarith
qed

text \<open>The rounding is monotone, so it never carries a value past one it leaves alone.\<close>

lemma rnd_mono: "x \<le> y \<Longrightarrow> rnd x \<le> rnd y"
proof -
  assume le: "x \<le> y"
  consider "0 < x" | "x \<le> 0" "0 \<le> y" | "y < 0" by linarith
  then show ?thesis
  proof cases
    case 1 then show ?thesis using le by (rule rnd_mono_pos)
  next
    case 2
    then have "\<not> 0 < rnd x" "\<not> rnd y < 0" by simp_all
    then show ?thesis by linarith
  next
    case 3 then show ?thesis using rnd_mono_pos [of "- y" "- x"] le by (simp add: rnd_minus)
  qed
qed

lemma rnd_le_slack: "0 \<le> x \<Longrightarrow> rnd x \<le> x * (1 + 1 / (2 * 10 ^ 27))"
proof -
  assume "0 \<le> x"
  then have "\<bar>x\<bar> / (2 * 10 ^ 27) = x * (1 / (2 * 10 ^ 27))" by simp
  with rnd_error [of x] have "rnd x - x \<le> x * (1 / (2 * 10 ^ 27))" by linarith
  then show ?thesis unfolding distrib_left by linarith
qed

text \<open>
  \<open>short k x\<close>: \<open>x\<close> is a multiple of \<open>10 ^ (-k)\<close> whose digits, read as an integer at
  that scale, stay below \<open>10 ^ 27\<close>. Every price, volume and tick of an MT5 server is short
  for a small \<open>k\<close> (eight decimals leave nineteen digits before the point).
\<close>

definition short :: "nat \<Rightarrow> rat \<Rightarrow> bool" where
  "short k x \<longleftrightarrow> (\<exists>a::int. x = of_int a / 10 ^ k \<and> \<bar>a\<bar> < 10 ^ 27)"

lemma shortE:
  assumes "short k x"
  obtains a :: int where "x = of_int a / 10 ^ k" "\<bar>a\<bar> < 10 ^ 27"
  using assms by (auto simp: short_def)

lemma shortI: "x = of_int a / 10 ^ k \<Longrightarrow> \<bar>a\<bar> < 10 ^ 27 \<Longrightarrow> short k x"
  by (auto simp: short_def)

lemma short_rnd: "short k x \<Longrightarrow> rnd x = x"
proof (erule shortE)
  fix a assume "x = of_int a / 10 ^ k" "\<bar>a\<bar> < 10 ^ 27"
  moreover from this have "\<bar>a\<bar> < 10 ^ 28" by simp
  ultimately show "rnd x = x"
    by (intro rnd_exact [of _ a "- int k"]) (simp_all add: power_int_minus divide_inverse)
qed

lemma short_multiple:
  assumes "short k y" "0 < y" "0 \<le> x" "short k x"
  shows "short k (of_int \<lfloor>x / y\<rfloor> * y)"
proof -
  obtain a b where a: "x = of_int a / 10 ^ k" "\<bar>a\<bar> < 10 ^ 27" and b: "y = of_int b / 10 ^ k"
    using assms by (metis shortE)
  have ten: "(0::rat) < 10 ^ k" by simp
  have pos: "0 \<le> a" "0 < b"
    using assms(2,3) ten by (simp_all add: a b zero_le_divide_iff zero_less_divide_iff del: zero_less_power)
  define n where "n = \<lfloor>x / y\<rfloor>"
  have "0 \<le> x / y" using assms by simp
  then have n: "0 \<le> n" by (simp add: n_def)
  have "of_int n * y \<le> x"
    using assms(2) of_int_floor_le [of "x / y"]
    by (simp only: n_def pos_le_divide_eq [symmetric])
  then have "of_int (n * b) \<le> (of_int a :: rat)"
    by (simp add: a b pos_le_divide_eq divide_le_cancel)
  then have "n * b \<le> a" by (simp only: of_int_le_iff)
  then have "\<bar>n * b\<bar> < 10 ^ 27" using n pos a(2) by simp
  then show ?thesis by (intro shortI [of _ "n * b"]) (simp_all add: b n_def)
qed

lemma rnd_quotient_side:
  assumes "0 < b" "\<bar>a\<bar> < 2 * 10 ^ 27"
  shows "rnd (of_int a / of_int b) < of_int n \<longleftrightarrow> (of_int a / of_int b :: rat) < of_int n"
    and "rnd (of_int a / of_int b) = of_int n \<longleftrightarrow> (of_int a / of_int b :: rat) = of_int n"
proof -
  define x where "x = (of_int a / of_int b :: rat)"
  have b: "(0::rat) < of_int b" using assms by simp
  have xb: "x * of_int b = of_int a" using b by (simp add: x_def)
  have near: "x = of_int n" if h: "\<bar>of_int n - x\<bar> < 1 / of_int b"
  proof -
    have "of_int (n * b - a) = (of_int n - x) * of_int b" by (simp add: left_diff_distrib xb)
    then have "of_int \<bar>n * b - a\<bar> = \<bar>of_int n - x\<bar> * of_int b"
      using b by (metis abs_mult abs_of_pos of_int_abs)
    also have "\<dots> < 1" using h b by (simp add: pos_less_divide_eq)
    finally have "n * b = a" by linarith
    then have "of_int n * of_int b = x * of_int b" using xb by (metis of_int_mult)
    then show ?thesis using b by simp
  qed
  have err: "\<bar>rnd x - x\<bar> < 1 / of_int b"
  proof -
    have "\<bar>rnd x - x\<bar> \<le> \<bar>x\<bar> / (2 * 10 ^ 27)" by (rule rnd_error)
    also have "\<dots> = of_int \<bar>a\<bar> / (2 * 10 ^ 27) / of_int b"
      using b by (simp add: x_def abs_divide)
    also have "\<dots> < 1 / of_int b"
    proof -
      have "(of_int \<bar>a\<bar> :: rat) < of_int (2 * 10 ^ 27)" using assms(2) by (simp only: of_int_less_iff)
      then show ?thesis using b by (intro divide_strict_right_mono) simp_all
    qed
    finally show ?thesis .
  qed
  have int: "rnd x = x" if "x = of_int n"
  proof -
    have "of_int a = (of_int (n * b) :: rat)" using xb that by simp
    then have "a = n * b" by (simp only: of_int_eq_iff)
    then have "\<bar>n\<bar> \<le> \<bar>a\<bar>" using assms(1) mult_left_mono [of 1 b "\<bar>n\<bar>"] by (simp add: abs_mult)
    then show ?thesis using assms(2) that by (simp add: rnd_int)
  qed
  show "rnd x < of_int n \<longleftrightarrow> x < of_int n"
  proof (cases "x = of_int n")
    case False
    then have "1 / of_int b \<le> \<bar>of_int n - x\<bar>" using near by force
    then show ?thesis using err by linarith
  next
    case True
    then show ?thesis using int [OF True] by simp
  qed
  show "rnd x = of_int n \<longleftrightarrow> x = of_int n"
  proof (cases "x = of_int n")
    case False
    then have "1 / of_int b \<le> \<bar>of_int n - x\<bar>" using near by force
    then show ?thesis using err False by linarith
  next
    case True
    then show ?thesis using int [OF True] by simp
  qed
qed

text \<open>
  The quotient of two short decimals, rounded, is an integer exactly when the real quotient
  is, and has the same floor: rounding neither reaches nor crosses an integer.
\<close>

lemma short_quotient:
  assumes "short k x" "short k y" "0 < y"
  obtains a b :: int where "x / y = of_int a / of_int b" "0 < b" "\<bar>a\<bar> < 2 * 10 ^ 27"
proof -
  obtain a b where a: "x = of_int a / 10 ^ k" "\<bar>a\<bar> < 10 ^ 27" and b: "y = of_int b / 10 ^ k"
    using assms by (metis shortE)
  have "0 < b" using assms(3) b by (simp add: zero_less_divide_iff)
  with that [of a b] a b show ?thesis by simp
qed

lemma rnd_quotient_floor:
  assumes "short k x" "short k y" "0 < y"
  shows "\<lfloor>rnd (x / y)\<rfloor> = \<lfloor>x / y\<rfloor>"
proof -
  obtain a b where q: "x / y = of_int a / of_int b" "0 < b" "\<bar>a\<bar> < 2 * 10 ^ 27"
    using assms by (rule short_quotient)
  note side = rnd_quotient_side(1) [OF q(2,3), folded q(1)]
  have "of_int \<lfloor>x / y\<rfloor> \<le> rnd (x / y)"
    using side [of "\<lfloor>x / y\<rfloor>"] by (metis not_less of_int_floor_le)
  moreover have "rnd (x / y) < of_int (\<lfloor>x / y\<rfloor> + 1)"
    using side [of "\<lfloor>x / y\<rfloor> + 1"] floor_correct [of "x / y"] by blast
  ultimately show ?thesis by (intro floor_unique) simp_all
qed

lemma rnd_quotient_int:
  assumes "short k x" "short k y" "0 < y"
  shows "rnd (x / y) = of_int n \<longleftrightarrow> x = of_int n * y"
proof -
  obtain a b where q: "x / y = of_int a / of_int b" "0 < b" "\<bar>a\<bar> < 2 * 10 ^ 27"
    using assms by (rule short_quotient)
  have "rnd (x / y) = of_int n \<longleftrightarrow> x / y = of_int n"
    using rnd_quotient_side(2) [OF q(2,3), folded q(1)] .
  also have "\<dots> \<longleftrightarrow> x = of_int n * y" using assms(3) by (auto simp: field_simps)
  finally show ?thesis .
qed

text \<open>
  The nearest multiple of a step, computed through the rounded quotient, is a true nearest
  multiple: the rounding error of the quotient is too small to pick another one.
\<close>

lemma rnd_quotient_nearest:
  assumes x: "short k x" and y: "short k y" "0 < y" and n: "n = round_half_up (rnd (x / y))"
  shows "\<bar>of_int n * y - x\<bar> \<le> y / 2"
proof -
  obtain a b where a: "x = of_int a / 10 ^ k" "\<bar>a\<bar> < 10 ^ 27" and b: "y = of_int b / 10 ^ k"
    using x y by (metis shortE)
  have bpos: "0 < b" using y(2) b by (simp add: zero_less_divide_iff)
  have q: "x / y = of_int a / of_int b" by (simp add: a b)
  have "\<bar>of_int n - rnd (x / y)\<bar> \<le> 1 / 2" unfolding n by (rule round_half_up_error)
  moreover have "\<bar>rnd (x / y) - x / y\<bar> < 1 / (2 * of_int b)"
  proof -
    have "\<bar>rnd (x / y) - x / y\<bar> \<le> \<bar>x / y\<bar> / (2 * 10 ^ 27)" by (rule rnd_error)
    also have "\<dots> = of_int \<bar>a\<bar> / 10 ^ 27 * (1 / (2 * of_int b))"
      using bpos by (simp add: q abs_divide)
    also have "\<dots> < 1 * (1 / (2 * of_int b))"
    proof (rule mult_strict_right_mono)
      have "(of_int \<bar>a\<bar> :: rat) < of_int (10 ^ 27)" using a(2) by (simp only: of_int_less_iff)
      then show "of_int \<bar>a\<bar> / 10 ^ 27 < (1::rat)" by simp
    qed (use bpos in simp)
    finally show ?thesis by simp
  qed
  ultimately have "\<bar>of_int n - x / y\<bar> < 1 / 2 + 1 / (2 * of_int b)" by linarith
  then have "\<bar>of_int n - x / y\<bar> * (2 * of_int b) < of_int b + 1"
    using bpos by (simp add: pos_less_divide_eq [symmetric] add_divide_distrib)
  moreover have "\<bar>of_int n - x / y\<bar> * (2 * of_int b) = of_int (2 * \<bar>n * b - a\<bar>)"
  proof -
    have "of_int (n * b - a) = (of_int n - x / y) * of_int b"
      using bpos by (simp add: q left_diff_distrib)
    then have "of_int \<bar>n * b - a\<bar> = \<bar>of_int n - x / y\<bar> * of_int b"
      using bpos by (metis abs_mult abs_of_pos of_int_0_less_iff of_int_abs)
    then show ?thesis by simp
  qed
  ultimately have "(of_int (2 * \<bar>n * b - a\<bar>) :: rat) < of_int (b + 1)" by simp
  then have "2 * \<bar>n * b - a\<bar> \<le> b" by (simp only: of_int_less_iff)
  then have "(2 * of_int \<bar>n * b - a\<bar> :: rat) \<le> of_int b"
    by (metis of_int_le_iff of_int_mult of_int_numeral)
  then have "of_int \<bar>n * b - a\<bar> / 10 ^ k \<le> of_int b / 10 ^ k / (2::rat)"
    by (simp add: divide_right_mono pos_le_divide_eq)
  moreover have "of_int n * y - x = of_int (n * b - a) / 10 ^ k"
    by (simp add: a b diff_divide_distrib)
  ultimately show ?thesis by (simp add: b abs_divide)
qed

lemma short_near:
  assumes "short k x" "short k y" "0 < y" "short k (\<bar>x\<bar> + y)" "\<bar>of_int n * y - x\<bar> \<le> y / 2"
  shows "short k (of_int n * y)"
proof -
  obtain c where c: "\<bar>x\<bar> + y = of_int c / 10 ^ k" "\<bar>c\<bar> < 10 ^ 27" using assms(4) by (rule shortE)
  obtain b where b: "y = of_int b / 10 ^ k" using assms(2) by (rule shortE)
  have "\<bar>of_int n * y\<bar> \<le> \<bar>x\<bar> + y" using assms(3,5) by linarith
  then have "\<bar>of_int n * y\<bar> * 10 ^ k \<le> (\<bar>x\<bar> + y) * 10 ^ k" by (intro mult_right_mono) simp_all
  moreover have "(\<bar>x\<bar> + y) * 10 ^ k = of_int c" by (simp add: c(1))
  moreover have "\<bar>of_int n * y\<bar> * 10 ^ k = of_int \<bar>n * b\<bar>" by (simp add: b abs_mult abs_divide)
  ultimately have "(of_int \<bar>n * b\<bar> :: rat) \<le> of_int c" by simp
  then have "\<bar>n * b\<bar> \<le> c" by (simp only: of_int_le_iff)
  then have "\<bar>n * b\<bar> < 10 ^ 27" using c(2) by simp
  then show ?thesis by (intro shortI [of _ "n * b"]) (simp_all add: b)
qed

end
