(* ===== verification/DecimalRef.thy ===== *)
theory DecimalRef
  imports DecimalLib
begin

text \<open>
  An executable decimal arithmetic that satisfies the laws of \<open>decimal_js\<close>: values are
  \<open>m * 10 ^ e\<close>, operations compute the exact rational result and round it to 28 digits,
  strings follow the decimal literal grammar. It shows that the laws can hold together and is
  what the witnesses of the other theories run on. Operations on a non-finite operand give
  NaN; no law speaks of them.
\<close>

datatype ref_dec = RFin int int | RNaN | RInf bool

fun ref_val :: "ref_dec \<Rightarrow> rat" where
  "ref_val (RFin m e) = of_int m * 10 powi e"
| "ref_val _ = 0"

fun ref_finite :: "ref_dec \<Rightarrow> bool" where
  "ref_finite (RFin _ _) = True"
| "ref_finite _ = False"

fun ref_ext :: "ref_dec \<Rightarrow> js_number" where
  "ref_ext (RFin m e) = Fin (ref_val (RFin m e))"
| "ref_ext RNaN = NaN"
| "ref_ext (RInf neg) = (if neg then NegInf else PosInf)"

section \<open>Rounded results\<close>

text \<open>Powers of ten for evaluation: one fraction of integers instead of a chain of products.\<close>

definition p10 :: "int \<Rightarrow> rat" where
  "p10 e = (if 0 \<le> e then of_int (10 ^ nat e) else Fract 1 (10 ^ nat (- e)))"

lemma p10_powi: "10 powi e = p10 e"
  by (simp add: p10_def power_int_def Fract_of_int_quotient flip: power_one_over)

lemma ref_val_code [code]: "ref_val (RFin m e) = of_int m * p10 e" "ref_val RNaN = 0"
    "ref_val (RInf b) = 0"
  by (simp_all add: p10_powi)

lemma mag_code [code]:
  "mag x = (let (n, d) = quotient_of \<bar>x\<bar>;
                e = int (length (show_pos n)) - int (length (show_pos d))
            in if p10 e \<le> \<bar>x\<bar> then e else e - 1)"
  by (simp add: mag_def p10_powi)

definition ref_rounded :: "rat \<Rightarrow> ref_dec" where
  "ref_rounded x = (if x = 0 then RFin 0 0
     else let e = mag x + 1 - int precision in RFin (round_half_up (x / 10 powi e)) e)"

lemma ref_rounded [simp]: "ref_finite (ref_rounded x)" "ref_val (ref_rounded x) = rnd x"
  by (simp_all add: ref_rounded_def rnd_def round_sig_def Let_def)

definition ref_num :: "js_number \<Rightarrow> ref_dec" where
  "ref_num n = (case n of Fin x \<Rightarrow> (if x = of_int \<lfloor>x\<rfloor> then RFin \<lfloor>x\<rfloor> 0 else ref_rounded x)
     | NaN \<Rightarrow> RNaN | PosInf \<Rightarrow> RInf False | NegInf \<Rightarrow> RInf True)"

definition ref_op :: "(rat \<Rightarrow> rat \<Rightarrow> rat) \<Rightarrow> ref_dec \<Rightarrow> ref_dec \<Rightarrow> ref_dec" where
  "ref_op f a b = (if ref_finite a \<and> ref_finite b then ref_rounded (f (ref_val a) (ref_val b)) else RNaN)"

definition ref_div :: "ref_dec \<Rightarrow> ref_dec \<Rightarrow> ref_dec" where
  "ref_div a b = (if ref_finite b \<and> ref_val b = 0
     then (if ref_finite a \<and> ref_val a \<noteq> 0 then RInf (ref_val a < 0) else RNaN)
     else ref_op (/) a b)"

definition ref_int :: "(rat \<Rightarrow> int) \<Rightarrow> ref_dec \<Rightarrow> ref_dec" where
  "ref_int f a = (if ref_finite a then RFin (f (ref_val a)) 0 else a)"

fun ref_abs :: "ref_dec \<Rightarrow> ref_dec" where
  "ref_abs (RFin m e) = RFin \<bar>m\<bar> e"
| "ref_abs (RInf _) = RInf False"
| "ref_abs RNaN = RNaN"

lemma ref_rounded_code [code]:
  "ref_rounded x = (if x = 0 then RFin 0 0
     else let e = mag x + 1 - 28 in RFin (round_half_up (x * p10 (- e))) e)"
  by (simp add: ref_rounded_def precision_def Let_def power_int_minus divide_inverse flip: p10_powi)

section \<open>Strings\<close>

text \<open>\<open>n / 10 ^ k\<close> in plain notation.\<close>

definition plain :: "bool \<Rightarrow> int \<Rightarrow> nat \<Rightarrow> string" where
  "plain neg n k = (if neg then ''-'' else '''') @
     (if k = 0 then show_pos n
      else show_pos (n div 10 ^ k) @ ''.'' @ pad_zeros k (show_pos (n mod 10 ^ k)))"

definition parse_exp :: "string \<Rightarrow> int option" where
  "parse_exp s = (case s of [] \<Rightarrow> Some 0
     | c # cs \<Rightarrow> if c \<noteq> CHR ''e'' \<and> c \<noteq> CHR ''E'' then None
        else (case cs of [] \<Rightarrow> None
          | d # ds \<Rightarrow>
             let digits = (if d = CHR ''-'' \<or> d = CHR ''+'' then ds else cs)
             in if digits = [] then None
                else map_option (\<lambda>n. if d = CHR ''-'' then - n else n)
                       (read_digits 0 digits)))"

definition parse_unsigned :: "bool \<Rightarrow> string \<Rightarrow> ref_dec option" where
  "parse_unsigned neg s =
     (let ip = takeWhile is_digit s; rest = dropWhile is_digit s;
          dot = (rest \<noteq> [] \<and> hd rest = CHR ''.'');
          fp = (if dot then takeWhile is_digit (tl rest) else []);
          rest' = (if dot then dropWhile is_digit (tl rest) else rest)
      in if ip @ fp = [] then None
         else do { n \<leftarrow> read_digits 0 (ip @ fp); e \<leftarrow> parse_exp rest';
                   Some (RFin (if neg then - n else n) (e - int (length fp))) })"

definition ref_parse :: "string \<Rightarrow> ref_dec option" where
  "ref_parse s =
     (let neg = (s \<noteq> [] \<and> hd s = CHR ''-'');
          t = (if s \<noteq> [] \<and> (hd s = CHR ''-'' \<or> hd s = CHR ''+'') then tl s else s)
      in if t = ''NaN'' then Some RNaN
         else if t = ''Infinity'' then Some (RInf neg)
         else parse_unsigned neg t)"

text \<open>The fewest decimals that show \<open>m / 10 ^ k\<close> exactly: trailing zeros are dropped.\<close>

fun strip_places :: "int \<Rightarrow> nat \<Rightarrow> nat" where
  "strip_places m 0 = 0"
| "strip_places m (Suc k) = (if m mod 10 = 0 then strip_places (m div 10) k else Suc k)"

fun ref_places :: "ref_dec \<Rightarrow> nat" where
  "ref_places (RFin m e) = strip_places m (nat (- e))"
| "ref_places _ = 0"

definition plain_dp :: "rat \<Rightarrow> nat \<Rightarrow> string" where
  "plain_dp x n = (let r = round_half_up (x * 10 ^ n) in plain (r < 0) \<bar>r\<bar> n)"

fun ref_fixed :: "ref_dec \<Rightarrow> string" where
  "ref_fixed (RFin m e) = plain_dp (ref_val (RFin m e)) (ref_places (RFin m e))"
| "ref_fixed RNaN = ''NaN''"
| "ref_fixed (RInf neg) = (if neg then ''-Infinity'' else ''Infinity'')"

fun ref_fixed_dp :: "ref_dec \<Rightarrow> nat \<Rightarrow> string" where
  "ref_fixed_dp (RFin m e) n = plain_dp (ref_val (RFin m e)) n"
| "ref_fixed_dp a n = ref_fixed a"

definition ref_lib :: "ref_dec decimal_lib" where
  "ref_lib = \<lparr>
     d_parse = ref_parse, d_num = ref_num,
     d_plus = ref_op (+), d_minus = ref_op (-), d_times = ref_op (*), d_div = ref_div,
     d_mod = (\<lambda>a b. if ref_finite b \<and> ref_val b = 0 then RNaN
                    else ref_op (\<lambda>x y. x - y * of_int (trunc_rat (x / y))) a b),
     d_pow = (\<lambda>a e. if ref_finite a then ref_rounded (ref_val a powi e) else RNaN),
     d_floor = ref_int floor, d_abs = ref_abs, d_round = ref_int round_half_up,
     d_compared = (\<lambda>a b. if js_less (ref_ext a) (ref_ext b) then -1
                         else if js_less (ref_ext b) (ref_ext a) then 1 else 0),
     d_less = (\<lambda>a b. js_less (ref_ext a) (ref_ext b)),
     d_leq = (\<lambda>a b. a \<noteq> RNaN \<and> b \<noteq> RNaN \<and> \<not> js_less (ref_ext b) (ref_ext a)),
     d_equals = (\<lambda>a b. a \<noteq> RNaN \<and> ref_ext a = ref_ext b),
     d_is_zero = (\<lambda>a. ref_finite a \<and> ref_val a = 0),
     d_is_neg = (\<lambda>a. js_less (ref_ext a) (Fin 0)),
     d_is_pos = (\<lambda>a. a \<noteq> RNaN \<and> \<not> js_less (ref_ext a) (Fin 0)),
     d_is_finite = ref_finite, d_fixed = ref_fixed, d_fixed_dp = ref_fixed_dp,
     d_places = ref_places, d_to_number = ref_ext\<rparr>"

section \<open>Printing and reading\<close>

lemma takeWhile_digits: "(\<And>c. c \<in> set xs \<Longrightarrow> is_digit c) \<Longrightarrow> takeWhile is_digit xs = xs"
  by (simp add: takeWhile_eq_all_conv)

lemma dropWhile_digits: "(\<And>c. c \<in> set xs \<Longrightarrow> is_digit c) \<Longrightarrow> dropWhile is_digit xs = []"
  by simp

lemma takeWhile_show_pos [simp]: "takeWhile is_digit (show_pos n) = show_pos n"
  and dropWhile_show_pos [simp]: "dropWhile is_digit (show_pos n) = []"
  by (simp_all add: takeWhile_digits dropWhile_digits show_pos_digits)

lemma parse_unsigned_plain: "0 \<le> n \<Longrightarrow> parse_unsigned neg (plain False n k) =
    Some (RFin (if neg then - n else n) (- int k))"
proof (cases "k = 0")
  assume n: "0 \<le> n"
  case True
  with n show ?thesis
    by (simp add: parse_unsigned_def plain_def parse_exp_def)
next
  assume n: "0 \<le> n"
  case False
  define ip fp where "ip = show_pos (n div 10 ^ k)" and "fp = pad_zeros k (show_pos (n mod 10 ^ k))"
  have ip: "\<And>c. c \<in> set ip \<Longrightarrow> is_digit c" by (simp add: ip_def show_pos_digits)
  have fp: "\<And>c. c \<in> set fp \<Longrightarrow> is_digit c"
    unfolding fp_def by (erule pad_zeros_digits [rotated]) (simp add: show_pos_digits)
  have "length (show_pos (n mod 10 ^ k)) \<le> k"
    using show_pos_length [of "n mod 10 ^ k" "k - 1"] False by simp
  then have len: "length fp = k" by (simp add: fp_def)
  have "read_digits 0 (ip @ fp) = Some (n div 10 ^ k * 10 ^ k + n mod 10 ^ k)"
    using n by (subst read_digits_append, simp add: ip_def pos_imp_zdiv_nonneg_iff, subst read_digits_acc)
       (simp add: len, simp add: fp_def)
  then have rd: "read_digits 0 (ip @ fp) = Some n" by (simp only: div_mult_mod_eq)
  have plain: "plain False n k = ip @ CHR ''.'' # fp"
    using False by (simp add: plain_def ip_def fp_def)
  have tw: "takeWhile is_digit (ip @ CHR ''.'' # fp) = ip"
    and dw: "dropWhile is_digit (ip @ CHR ''.'' # fp) = CHR ''.'' # fp"
    using ip by (simp_all add: takeWhile_append2 dropWhile_append2)
  have "ip \<noteq> []" by (simp add: ip_def)
  moreover have twf: "takeWhile is_digit fp = fp" using fp by (rule takeWhile_digits)
  moreover have dwf: "dropWhile is_digit fp = []" using fp by (rule dropWhile_digits)
  ultimately show ?thesis
    by (simp only: parse_unsigned_def plain tw dw rd twf dwf parse_exp_def len Let_def
        list.sel list.simps if_True simp_thms if_False append_is_Nil_conv) simp
qed

lemma plain_hd: "\<exists>c cs. plain False n k = c # cs \<and> is_digit c"
proof -
  obtain c cs where "show_pos (if k = 0 then n else n div 10 ^ k) = c # cs"
    by (metis list.exhaust show_pos_Nil)
  moreover from this have "is_digit c" by (metis list.set_intros(1) show_pos_digits)
  ultimately show ?thesis by (auto simp: plain_def split: if_splits)
qed

lemma ref_parse_plain:
  assumes "0 \<le> n"
  shows "ref_parse (plain neg n k) = Some (RFin (if neg then - n else n) (- int k))"
proof -
  obtain c cs where c: "plain False n k = c # cs" "is_digit c" using plain_hd by blast
  then have "c \<noteq> CHR ''-''" "c \<noteq> CHR ''+''" "c \<noteq> CHR ''N''" "c \<noteq> CHR ''I''"
    by (auto simp: is_digit_def digit_val_def)
  moreover have "plain True n k = CHR ''-'' # plain False n k" by (simp add: plain_def)
  ultimately show ?thesis
    using parse_unsigned_plain [OF assms, of _ k, unfolded c(1)]
    by (cases neg) (simp_all add: ref_parse_def c(1))
qed

lemma ref_parse_plain_dp: "ref_parse (plain_dp x n) = Some (RFin (round_half_up (x * 10 ^ n)) (- int n))"
  by (simp add: plain_dp_def Let_def ref_parse_plain)

lemma val_RFin_scaled: "ref_val (RFin m (- int n)) = of_int m / 10 ^ n"
  by (simp add: power_int_minus field_simps)

definition least_places :: "rat \<Rightarrow> nat \<Rightarrow> bool" where
  "least_places x j \<longleftrightarrow> x * 10 ^ j \<in> \<int> \<and> (\<forall>i<j. x * 10 ^ i \<notin> \<int>)"

lemma least_places_unique: "least_places x i \<Longrightarrow> least_places x j \<Longrightarrow> i = j"
  unfolding least_places_def by (metis linorder_neqE_nat)

lemma int_places_mono: "x * 10 ^ i \<in> \<int> \<Longrightarrow> i \<le> j \<Longrightarrow> (x::rat) * 10 ^ j \<in> \<int>"
proof -
  assume x: "x * 10 ^ i \<in> \<int>" and "i \<le> j"
  then obtain d where "j = i + d" using le_Suc_ex by blast
  then have "x * 10 ^ j = (x * 10 ^ i) * 10 ^ d" by (simp add: power_add)
  moreover have "(10::rat) ^ d \<in> \<int>" by (intro Ints_power Ints_numeral)
  ultimately show "x * 10 ^ j \<in> \<int>" using x by (metis Ints_mult)
qed

lemma strip_places_least: "least_places (of_int m / 10 ^ k) (strip_places m k)"
proof (induction m k rule: strip_places.induct)
  case (1 m)
  then show ?case by (simp add: least_places_def)
next
  case (2 m k)
  show ?case
  proof (cases "m mod 10 = 0")
    case True
    then have "m = m div 10 * 10" by (simp add: dvd_eq_mod_eq_0 [symmetric])
    then have "(of_int m :: rat) = of_int (m div 10) * 10"
      by (metis of_int_mult of_int_numeral)
    then have "(of_int m / 10 ^ Suc k :: rat) = of_int (m div 10) / 10 ^ k" by simp
    with 2 True show ?thesis by simp
  next
    case False
    have "of_int m / 10 ^ Suc k * 10 ^ k \<notin> (\<int> :: rat set)"
    proof
      assume "of_int m / 10 ^ Suc k * 10 ^ k \<in> (\<int> :: rat set)"
      then obtain j where "of_int m / 10 = (of_int j :: rat)" by (auto elim: Ints_cases)
      then have "(of_int m :: rat) = of_int (j * 10)" by simp
      then have "m = j * 10" by (simp only: of_int_eq_iff)
      with False show False by simp
    qed
    then have "\<forall>i<Suc k. of_int m / 10 ^ Suc k * 10 ^ i \<notin> (\<int> :: rat set)"
      using int_places_mono by (metis less_Suc_eq_le)
    then show ?thesis using False by (simp add: least_places_def)
  qed
qed

lemma ref_places_least: "least_places (ref_val (RFin m e)) (ref_places (RFin m e))"
proof (cases "0 \<le> e")
  case True
  then have "ref_val (RFin m e) = of_int (m * 10 ^ nat e)" by (simp add: power_int_def)
  moreover have "ref_places (RFin m e) = 0" using True by simp
  ultimately show ?thesis by (simp add: least_places_def del: ref_places.simps ref_val.simps)
next
  case False
  then have "ref_val (RFin m e) = of_int m / 10 ^ nat (- e)"
    using val_RFin_scaled [of m "nat (- e)"] by simp
  then show ?thesis using strip_places_least [of m "nat (- e)"] by simp
qed

lemma ref_places_exact: "ref_val (RFin m e) * 10 ^ ref_places (RFin m e) \<in> \<int>"
  using ref_places_least by (auto simp: least_places_def)

lemma ref_fixed_parse:
  "\<exists>b. ref_parse (ref_fixed (RFin m e)) = Some b \<and> ref_finite b \<and> ref_val b = ref_val (RFin m e)"
proof -
  define x k where "x = ref_val (RFin m e)" and "k = ref_places (RFin m e)"
  obtain i where i: "x * 10 ^ k = of_int i"
    using ref_places_exact [of m e] by (auto simp: x_def k_def elim!: Ints_cases)
  have "ref_parse (ref_fixed (RFin m e)) = Some (RFin i (- int k))"
    by (simp add: ref_parse_plain_dp i del: ref_val.simps ref_places.simps flip: x_def k_def)
  moreover have "ref_val (RFin i (- int k)) = x"
    using i by (simp only: val_RFin_scaled flip: i) simp
  ultimately show ?thesis by (simp add: x_def del: ref_val.simps)
qed

section \<open>The laws hold\<close>

lemma val_RFin_0 [simp]: "ref_val (RFin m 0) = of_int m"
  by simp

lemma ref_finite_cases: "ref_finite a \<Longrightarrow> \<exists>m e. a = RFin m e"
  by (cases a) auto

interpretation ref: decimal_js ref_lib ref_val
proof (unfold_locales, goal_cases)
  case (1 a)
  then show ?case using ref_fixed_parse by (auto simp: ref_lib_def dest!: ref_finite_cases)
next
  case (2 a b)
  then obtain m e m' e' where ab: "a = RFin m e" "b = RFin m' e'"
    by (auto simp: ref_lib_def dest!: ref_finite_cases)
  with 2 have "ref_val (RFin m e) = ref_val (RFin m' e')" by simp
  moreover from this have "ref_places (RFin m e) = ref_places (RFin m' e')"
    by (metis least_places_unique ref_places_least)
  ultimately show ?case by (simp add: ab ref_lib_def del: ref_val.simps ref_places.simps)
next
  case (3 a n)
  then show ?case
    by (auto simp: ref_lib_def ref_parse_plain_dp val_RFin_scaled simp del: ref_val.simps
        dest!: ref_finite_cases)
next
  case (11 a e)
  have "rnd (10 powi e) = 10 powi e" by (rule rnd_exact [of _ 1 e]) simp_all
  with 11 show ?case by (simp add: ref_lib_def)
next
  case (13 a)
  then show ?case by (auto simp: ref_lib_def abs_mult dest!: ref_finite_cases)
next
  case (25 a)
  then show ?case
    using ref_places_exact by (auto simp: ref_lib_def simp del: ref_val.simps ref_places.simps
        dest!: ref_finite_cases elim!: Ints_cases)
qed (auto simp: ref_lib_def js_int_def ref_num_def ref_op_def ref_div_def ref_int_def val_RFin_0
       simp del: ref_val.simps dest!: ref_finite_cases)

lemmas ref_laws = ref.decimal_js_axioms

end
