(* ===== verification/Decimal.thy ===== *)
theory Decimal
  imports DecimalRef
begin

text \<open>
  \<^verbatim>\<open>frontend/src/domain/common/decimal.ts\<close>: money, price and volume primitives. A
  \<^verbatim>\<open>DecimalString\<close> is a string; every function takes the decimal library \<open>D\<close> first and
  returns \<open>None\<close> where \<^verbatim>\<open>new Decimal\<close> throws on one of its arguments.

  The lemmas state each function on the rationals its arguments denote: sums, differences and
  products are the exact result rounded to 28 digits, comparisons are exact, a volume is
  quantised down onto its step, the grid tests decide membership of the grid, and a snapped
  price is on the grid, no further than half a step away.
\<close>

section \<open>The functions\<close>

definition dec :: "'d decimal_lib \<Rightarrow> string \<Rightarrow> 'd option" where
  "dec D value = d_parse D value"

definition decimalStringOf :: "'d decimal_lib \<Rightarrow> 'd \<Rightarrow> string" where
  "decimalStringOf D value = d_fixed D value"

text \<open>The \<^verbatim>\<open>try\<close> turns an invalid argument into \<^verbatim>\<open>null\<close>; nothing is thrown.\<close>

fun toDecimalString :: "'d decimal_lib \<Rightarrow> js_value \<Rightarrow> string option" where
  "toDecimalString D (JStr s) =
     (if s = '''' then None
      else case d_parse D s of None \<Rightarrow> None
           | Some d \<Rightarrow> if d_is_finite D d then Some (d_fixed D d) else None)"
| "toDecimalString D (JNum n) =
     (let d = d_num D n in if d_is_finite D d then Some (d_fixed D d) else None)"
| "toDecimalString D _ = None"

definition ZERO :: string where
  "ZERO = ''0''"

definition toDecimalStringOrZero :: "'d decimal_lib \<Rightarrow> js_value \<Rightarrow> string" where
  "toDecimalStringOrZero D value = or_else (toDecimalString D value) ''0''"

definition isZero :: "'d decimal_lib \<Rightarrow> string option \<Rightarrow> bool option" where
  "isZero D value = (case value of None \<Rightarrow> Some True
     | Some s \<Rightarrow> map_option (d_is_zero D) (dec D s))"

definition add :: "'d decimal_lib \<Rightarrow> string \<Rightarrow> string \<Rightarrow> string option" where
  "add D a b = do { x \<leftarrow> dec D a; y \<leftarrow> dec D b; Some (decimalStringOf D (d_plus D x y)) }"

definition sub :: "'d decimal_lib \<Rightarrow> string \<Rightarrow> string \<Rightarrow> string option" where
  "sub D a b = do { x \<leftarrow> dec D a; y \<leftarrow> dec D b; Some (decimalStringOf D (d_minus D x y)) }"

definition mul :: "'d decimal_lib \<Rightarrow> string \<Rightarrow> string \<Rightarrow> string option" where
  "mul D a b = do { x \<leftarrow> dec D a; y \<leftarrow> dec D b; Some (decimalStringOf D (d_times D x y)) }"

definition div_dec :: "'d decimal_lib \<Rightarrow> string \<Rightarrow> string \<Rightarrow> string option option" where
  "div_dec D a b = do {
     divisor \<leftarrow> dec D b;
     if d_is_zero D divisor then Some None
     else do { x \<leftarrow> dec D a; Some (Some (decimalStringOf D (d_div D x divisor))) } }"

definition cmp :: "'d decimal_lib \<Rightarrow> string \<Rightarrow> string \<Rightarrow> int option" where
  "cmp D a b = do { x \<leftarrow> dec D a; y \<leftarrow> dec D b; Some (d_compared D x y) }"

definition isNegative :: "'d decimal_lib \<Rightarrow> string \<Rightarrow> bool option" where
  "isNegative D value = do { d \<leftarrow> dec D value; Some (d_is_neg D d \<and> \<not> d_is_zero D d) }"

definition quantizeVolume ::
  "'d decimal_lib \<Rightarrow> string \<Rightarrow> string \<Rightarrow> string \<Rightarrow> string \<Rightarrow> string option" where
  "quantizeVolume D value step mn mx = do {
     s \<leftarrow> dec D step;
     v0 \<leftarrow> dec D value;
     let v1 = (if d_is_pos D s \<and> \<not> d_is_zero D s
               then d_times D (d_floor D (d_div D v0 s)) s else v0);
     lo \<leftarrow> dec D mn;
     hi \<leftarrow> dec D mx;
     let v2 = (if d_less D v1 lo then lo else v1);
     let v3 = (if d_is_pos D hi \<and> d_less D hi v2 then hi else v2);
     Some (decimalStringOf D v3) }"

definition isOnVolumeStep :: "'d decimal_lib \<Rightarrow> string \<Rightarrow> string \<Rightarrow> string \<Rightarrow> bool option" where
  "isOnVolumeStep D value step mn = do {
     s \<leftarrow> dec D step;
     if d_is_zero D s \<or> d_is_neg D s then Some True
     else do {
       v \<leftarrow> dec D value;
       m \<leftarrow> dec D mn;
       Some (d_is_zero D (d_mod D (d_div D (d_minus D v m) s) (d_num D (js_int 1)))) } }"

definition isOnPriceStep :: "'d decimal_lib \<Rightarrow> string \<Rightarrow> string \<Rightarrow> bool option" where
  "isOnPriceStep D value step = do {
     s \<leftarrow> dec D step;
     if d_is_zero D s \<or> d_is_neg D s then Some True
     else do {
       v \<leftarrow> dec D value;
       Some (d_is_zero D (d_mod D (d_div D v s) (d_num D (js_int 1)))) } }"

definition roundToDigits :: "'d decimal_lib \<Rightarrow> string \<Rightarrow> int \<Rightarrow> string option" where
  "roundToDigits D value digits = do { d \<leftarrow> dec D value; Some (d_fixed_dp D d (nat (max 0 digits))) }"

definition snapPriceToTick :: "'d decimal_lib \<Rightarrow> string \<Rightarrow> string \<Rightarrow> string option" where
  "snapPriceToTick D value tickSize = do {
     tick \<leftarrow> dec D tickSize;
     if d_is_zero D tick \<or> d_is_neg D tick then Some value
     else do {
       v \<leftarrow> dec D value;
       Some (decimalStringOf D (d_times D (d_round D (d_div D v tick)) tick)) } }"

definition toNumber :: "'d decimal_lib \<Rightarrow> string \<Rightarrow> js_number option" where
  "toNumber D value = map_option (d_to_number D) (dec D value)"

section \<open>The functions on the values their arguments denote\<close>

text \<open>
  \<open>is_dec D s\<close>: the library reads \<open>s\<close> as a finite number; \<open>dval D val s\<close> is that number.
  Together they say what \<open>denotes\<close> says, in a form the simplifier can use.
\<close>

definition is_dec :: "'d decimal_lib \<Rightarrow> string \<Rightarrow> bool" where
  "is_dec D s \<longleftrightarrow> (case d_parse D s of None \<Rightarrow> False | Some d \<Rightarrow> d_is_finite D d)"

definition dnum :: "'d decimal_lib \<Rightarrow> string \<Rightarrow> 'd" where
  "dnum D s = the (d_parse D s)"

definition dval :: "'d decimal_lib \<Rightarrow> ('d \<Rightarrow> rat) \<Rightarrow> string \<Rightarrow> rat" where
  "dval D val s = val (dnum D s)"

definition is_dec_opt :: "'d decimal_lib \<Rightarrow> string option \<Rightarrow> bool" where
  "is_dec_opt D x = (case x of None \<Rightarrow> True | Some s \<Rightarrow> is_dec D s)"

lemma is_dec_opt_simps [simp]: "is_dec_opt D None" "is_dec_opt D (Some s) = is_dec D s"
  by (simp_all add: is_dec_opt_def)

lemma denotes_iff: "denotes D val s r \<longleftrightarrow> is_dec D s \<and> dval D val s = r"
  by (auto simp: denotes_def is_dec_def dval_def dnum_def split: option.splits)

definition cmp3 :: "rat \<Rightarrow> rat \<Rightarrow> int" where
  "cmp3 x y = (if x < y then -1 else if x = y then 0 else 1)"

lemma cmp3_simps [simp]:
  "cmp3 x y < 0 \<longleftrightarrow> x < y" "0 < cmp3 x y \<longleftrightarrow> y < x" "cmp3 x y \<le> 0 \<longleftrightarrow> x \<le> y"
  "0 \<le> cmp3 x y \<longleftrightarrow> y \<le> x" "cmp3 x y = 0 \<longleftrightarrow> x = y"
  by (auto simp: cmp3_def)

definition clamp_volume :: "rat \<Rightarrow> rat \<Rightarrow> rat \<Rightarrow> rat" where
  "clamp_volume lo hi v = (let w = (if v < lo then lo else v) in if 0 < hi \<and> hi < w then hi else w)"

context decimal_js
begin

lemma dec_is_dec [simp, dec_simps]: "is_dec D s \<Longrightarrow> dec D s = Some (dnum D s)"
  by (simp add: is_dec_def dec_def dnum_def split: option.splits)

lemma finite_dnum [simp, dec_simps]: "is_dec D s \<Longrightarrow> d_is_finite D (dnum D s)"
  by (simp add: is_dec_def dnum_def split: option.splits)

lemma val_dnum [simp, dec_simps]: "val (dnum D s) = dval D val s"
  by (simp add: dval_def)

lemma num_val [simp, dec_simps]:
  "\<bar>i\<bar> \<le> 2 ^ 53 \<Longrightarrow> d_is_finite D (d_num D (js_int i))"
  "\<bar>i\<bar> \<le> 2 ^ 53 \<Longrightarrow> val (d_num D (js_int i)) = of_int i"
  using num_int by blast+

lemma is_dec_fixed [simp, dec_simps]: "d_is_finite D d \<Longrightarrow> is_dec D (decimalStringOf D d)"
  using fixed_parses by (fastforce simp: is_dec_def decimalStringOf_def)

lemma dval_fixed [simp, dec_simps]: "d_is_finite D d \<Longrightarrow> dval D val (decimalStringOf D d) = val d"
  using fixed_parses by (fastforce simp: dval_def dnum_def decimalStringOf_def)

lemma cmp_dec [simp, dec_simps]:
  "is_dec D a \<Longrightarrow> is_dec D b \<Longrightarrow> cmp D a b = Some (cmp3 (dval D val a) (dval D val b))"
  by (simp add: cmp_def compared_val cmp3_def)

lemma toDecimalString_is_dec [dest]: "toDecimalString D v = Some s \<Longrightarrow> is_dec D s"
  by (cases v) (auto simp: Let_def split: if_splits option.splits
      intro: is_dec_fixed [unfolded decimalStringOf_def])

lemma denotesE:
  assumes "denotes D val s r"
  obtains d where "dec D s = Some d" "d_is_finite D d" "val d = r"
  using assms by (auto simp: denotes_def dec_def)

lemma denotes_unique: "denotes D val s r \<Longrightarrow> denotes D val s r' \<Longrightarrow> r = r'"
  by (auto simp: denotes_def)

lemma denotes_fixed: "d_is_finite D d \<Longrightarrow> denotes D val (decimalStringOf D d) (val d)"
  using fixed_parses by (fastforce simp: denotes_def decimalStringOf_def)

lemma denotes_fixed_eq: "d_is_finite D d \<Longrightarrow> val d = r \<Longrightarrow> denotes D val (decimalStringOf D d) r"
  using denotes_fixed by blast

text \<open>The laws as one bundle of conditional rewrite rules over finite values.\<close>

lemmas finite_ops = plus_val minus_val times_val div_val mod_val floor_val abs_val round_val

lemmas test_ops = less_val leq_val equals_val zero_val compared_val

lemma one_val: "d_is_finite D (d_num D (js_int 1))" "val (d_num D (js_int 1)) = 1"
  using num_int [of 1] by auto

lemma toDecimalString_denotes:
  "toDecimalString D v = Some s \<Longrightarrow> \<exists>r. denotes D val s r"
  by (cases v) (auto simp: Let_def split: if_splits option.splits
      intro: denotes_fixed [unfolded decimalStringOf_def])

lemma toDecimalString_value:
  assumes "denotes D val s r" "s \<noteq> ''''"
  shows "\<exists>t. toDecimalString D (JStr s) = Some t \<and> denotes D val t r"
  using assms denotes_fixed_eq [unfolded decimalStringOf_def] by (auto simp: denotes_def dec_def)

lemma add_denotes:
  assumes "denotes D val a x" "denotes D val b y"
  shows "\<exists>s. add D a b = Some s \<and> denotes D val s (rnd (x + y))"
  using assms by (auto simp: add_def plus_val intro!: denotes_fixed_eq elim!: denotesE)

lemma sub_denotes:
  assumes "denotes D val a x" "denotes D val b y"
  shows "\<exists>s. sub D a b = Some s \<and> denotes D val s (rnd (x - y))"
  using assms by (auto simp: sub_def minus_val intro!: denotes_fixed_eq elim!: denotesE)

lemma mul_denotes:
  assumes "denotes D val a x" "denotes D val b y"
  shows "\<exists>s. mul D a b = Some s \<and> denotes D val s (rnd (x * y))"
  using assms by (auto simp: mul_def times_val intro!: denotes_fixed_eq elim!: denotesE)

lemma div_denotes:
  assumes "denotes D val a x" "denotes D val b y"
  shows "y = 0 \<Longrightarrow> div_dec D a b = Some None"
    and "y \<noteq> 0 \<Longrightarrow> \<exists>s. div_dec D a b = Some (Some s) \<and> denotes D val s (rnd (x / y))"
  using assms by (auto simp: div_dec_def zero_val div_val intro!: denotes_fixed_eq elim!: denotesE)

lemma cmp_denotes:
  assumes "denotes D val a x" "denotes D val b y"
  shows "cmp D a b = Some (if x < y then -1 else if x = y then 0 else 1)"
  using assms by (auto simp: cmp_def compared_val elim!: denotesE)

lemma isNegative_denotes: "denotes D val a x \<Longrightarrow> isNegative D a = Some (x < 0)"
  by (auto simp: isNegative_def zero_val neg_val elim!: denotesE)

lemma isZero_denotes: "denotes D val a x \<Longrightarrow> isZero D (Some a) = Some (x = 0)"
  by (auto simp: isZero_def zero_val elim!: denotesE)

text \<open>\<open>x.mod(1).isZero()\<close> decides that \<open>x\<close> is an integer.\<close>

lemma mod_one_zero:
  assumes "d_is_finite D a"
  shows "d_is_zero D (d_mod D a (d_num D (js_int 1))) \<longleftrightarrow> (\<exists>n::int. val a = of_int n)"
proof -
  have "d_is_zero D (d_mod D a (d_num D (js_int 1))) \<longleftrightarrow> val a = of_int (trunc_rat (val a))"
    using assms by (simp add: mod_val zero_val one_val)
  also have "\<dots> \<longleftrightarrow> (\<exists>n::int. val a = of_int n)"
    by (auto simp: trunc_rat_def) (metis of_int_minus)
  finally show ?thesis .
qed

lemma isOnPriceStep_denotes:
  assumes "denotes D val a x" "denotes D val st y" "0 < y" "short k x" "short k y"
  shows "isOnPriceStep D a st = Some (\<exists>n::int. x = of_int n * y)"
proof -
  obtain v s where v: "dec D a = Some v" "d_is_finite D v" "val v = x"
    and s: "dec D st = Some s" "d_is_finite D s" "val s = y"
    using assms(1,2) by (metis denotesE)
  then show ?thesis
    using assms(3-5) by (simp add: isOnPriceStep_def zero_val neg_val mod_one_zero div_val rnd_quotient_int)
qed

lemma isOnVolumeStep_denotes:
  assumes "denotes D val a x" "denotes D val st y" "denotes D val mn m" "0 < y"
    "short k (x - m)" "short k y"
  shows "isOnVolumeStep D a st mn = Some (\<exists>n::int. x = m + of_int n * y)"
proof -
  obtain v s l where v: "dec D a = Some v" "d_is_finite D v" "val v = x"
    and s: "dec D st = Some s" "d_is_finite D s" "val s = y"
    and l: "dec D mn = Some l" "d_is_finite D l" "val l = m"
    using assms(1-3) by (metis denotesE)
  have r: "rnd (x - m) = x - m" using assms(5) by (rule short_rnd)
  have "isOnVolumeStep D a st mn = Some (\<exists>n::int. rnd ((x - m) / y) = of_int n)"
    using v s l assms(4)
    by (simp add: isOnVolumeStep_def zero_val neg_val mod_one_zero div_val minus_val r)
  also have "\<dots> = Some (\<exists>n::int. x = m + of_int n * y)"
    using rnd_quotient_int [OF assms(5,6,4)] by (simp add: diff_eq_eq add.commute)
  finally show ?thesis .
qed

text \<open>
  Quantising: on values whose digits fit, the result is the largest multiple of the step that
  is not above the value, clamped into the range; a step of zero leaves the value alone.
\<close>

lemma quantizeVolume_denotes:
  assumes "denotes D val a x" "denotes D val st y" "denotes D val mn lo" "denotes D val mx hi"
    and "0 \<le> x" "0 \<le> y" "short k x" "short k y" "0 < hi"
  shows "\<exists>q. quantizeVolume D a st mn mx = Some q \<and>
    denotes D val q (clamp_volume lo hi (if y = 0 then x else of_int \<lfloor>x / y\<rfloor> * y))"
proof -
  obtain v s l h where v: "dec D a = Some v" "d_is_finite D v" "val v = x"
    and s: "dec D st = Some s" "d_is_finite D s" "val s = y"
    and l: "dec D mn = Some l" "d_is_finite D l" "val l = lo"
    and h: "dec D mx = Some h" "d_is_finite D h" "val h = hi"
    using assms(1-4) by (metis denotesE)
  define w where "w = (if d_is_pos D s \<and> \<not> d_is_zero D s
    then d_times D (d_floor D (d_div D v s)) s else v)"
  have w: "d_is_finite D w" "val w = (if y = 0 then x else of_int \<lfloor>x / y\<rfloor> * y)"
  proof -
    have "d_is_pos D s \<and> \<not> d_is_zero D s \<longleftrightarrow> 0 < y"
      using s assms(6) pos_val [of s] zero_val [of s] by auto
    moreover have "d_is_finite D (d_times D (d_floor D (d_div D v s)) s) \<and>
        val (d_times D (d_floor D (d_div D v s)) s) = of_int \<lfloor>x / y\<rfloor> * y" if "0 < y"
      using v s that rnd_quotient_floor [OF assms(7,8) that]
        short_rnd [OF short_multiple [OF assms(8) that assms(5,7)]]
      by (simp add: times_val floor_val div_val)
    ultimately show "d_is_finite D w" "val w = (if y = 0 then x else of_int \<lfloor>x / y\<rfloor> * y)"
      using v assms(6) by (auto simp: w_def)
  qed
  define w2 where "w2 = (if d_less D w l then l else w)"
  have w2: "d_is_finite D w2" "val w2 = (if val w < lo then lo else val w)"
    using w(1) l by (auto simp: w2_def less_val)
  define w3 where "w3 = (if d_is_pos D h \<and> d_less D h w2 then h else w2)"
  have w3: "d_is_finite D w3" "val w3 = clamp_volume lo hi (val w)"
    using w2 h assms(9) pos_val [of h] by (auto simp: w3_def less_val clamp_volume_def Let_def)
  have "quantizeVolume D a st mn mx = Some (decimalStringOf D w3)"
    using v(1) s(1) l(1) h(1) by (simp add: quantizeVolume_def w_def w2_def w3_def Let_def)
  with denotes_fixed_eq [OF w3] show ?thesis by (auto simp: w(2))
qed

text \<open>Snapping: on the grid, and within half a tick of the price that was given.\<close>

lemma snapPriceToTick_denotes:
  assumes "denotes D val a x" "denotes D val st y" "0 < y" "short k x" "short k y"
    "short k (\<bar>x\<bar> + y)"
  shows "\<exists>t n. snapPriceToTick D a st = Some t \<and> denotes D val t (of_int n * y) \<and>
    \<bar>of_int n * y - x\<bar> \<le> y / 2"
proof -
  obtain v s where v: "dec D a = Some v" "d_is_finite D v" "val v = x"
    and s: "dec D st = Some s" "d_is_finite D s" "val s = y"
    using assms(1,2) by (metis denotesE)
  define n where "n = round_half_up (rnd (x / y))"
  have near: "\<bar>of_int n * y - x\<bar> \<le> y / 2" by (rule rnd_quotient_nearest [OF assms(4,5,3) n_def])
  have exact: "rnd (of_int n * y) = of_int n * y"
    using short_near [OF assms(4,5,3,6) near] by (rule short_rnd)
  have "d_is_finite D (d_times D (d_round D (d_div D v s)) s) \<and>
      val (d_times D (d_round D (d_div D v s)) s) = of_int n * y"
    using v s assms(3) exact by (simp add: times_val round_val div_val n_def)
  moreover have "snapPriceToTick D a st = Some (decimalStringOf D (d_times D (d_round D (d_div D v s)) s))"
    using v s assms(3) by (simp add: snapPriceToTick_def zero_val neg_val)
  ultimately show ?thesis using denotes_fixed_eq near by fastforce
qed

end

declare toDecimalString.simps [simp del]

section \<open>Properties\<close>

text \<open>Quantising a volume rounds down: on decimals of fewer than 28 digits the result is the
  largest multiple of the step that is not above the value, clamped into the range, whatever
  the 28-digit roundings of the division do on the way.\<close>

theorem quantizeVolume_rounds_down:
  assumes "decimal_js D val" "denotes D val a x" "denotes D val st y" "denotes D val mn lo" "denotes D val mx hi"
    "0 \<le> x" "0 \<le> y" "short k x" "short k y" "0 < hi"
  shows "\<exists>q. quantizeVolume D a st mn mx = Some q \<and>
    denotes D val q (clamp_volume lo hi (if y = 0 then x else of_int \<lfloor>x / y\<rfloor> * y))"
  using assms by (rule decimal_js.quantizeVolume_denotes)

lemma sample_denotes:
  "denotes ref_lib ref_val ''0.157'' (157 / 1000)" "denotes ref_lib ref_val ''0.01'' (1 / 100)"
  "denotes ref_lib ref_val ''100'' 100" "denotes ref_lib ref_val ''1.165005'' (1165005 / 1000000)"
  "denotes ref_lib ref_val ''0.00001'' (1 / 100000)"
  unfolding denotes_iff by code_simp+

theorem quantizeVolume_rounds_down_witness:
  "\<exists>q. quantizeVolume ref_lib ''0.157'' ''0.01'' ''0.01'' ''100'' = Some q \<and> denotes ref_lib ref_val q (15 / 100)"
proof -
  have s: "short 3 (157 / 1000)" "short 3 (1 / 100)"
    by (rule shortI [of _ 157], simp_all, rule shortI [of _ 10], simp_all)
  have fl: "\<lfloor>157 / 1000 / (1 / 100) :: rat\<rfloor> = 15" by (simp add: floor_eq_iff)
  show ?thesis
    using quantizeVolume_rounds_down [OF ref_laws sample_denotes(1,2,2,3) _ _ s] fl
    by (simp add: clamp_volume_def Let_def)
qed

text \<open>A volume is found on the step exactly when it is the minimum plus a whole number of
  steps: the rounded division decides membership of the grid without false answers.\<close>

theorem isOnVolumeStep_iff:
  assumes "decimal_js D val" "denotes D val a x" "denotes D val st y" "denotes D val mn m" "0 < y"
    "short k (x - m)" "short k y"
  shows "isOnVolumeStep D a st mn = Some (\<exists>n::int. x = m + of_int n * y)"
  using assms by (rule decimal_js.isOnVolumeStep_denotes)

theorem isOnVolumeStep_iff_witness: "isOnVolumeStep ref_lib ''100'' ''0.01'' ''0.01'' = Some True"
proof -
  have s: "short 2 (100 - 1 / 100)" "short 2 (1 / 100)"
    by (rule shortI [of _ 9999], simp_all, rule shortI [of _ 1], simp_all)
  have "\<exists>n::int. (100::rat) = 1 / 100 + of_int n * (1 / 100)" by (rule exI [of _ 9999]) simp
  with isOnVolumeStep_iff [OF ref_laws sample_denotes(3,2,2) _ s] show ?thesis by simp
qed

text \<open>A snapped price is on the tick grid, and no further than half a tick from the price
  that was given.\<close>

theorem snapPriceToTick_nearest:
  assumes "decimal_js D val" "denotes D val a x" "denotes D val st y" "0 < y" "short k x" "short k y"
    "short k (\<bar>x\<bar> + y)"
  shows "\<exists>t n. snapPriceToTick D a st = Some t \<and> denotes D val t (of_int n * y) \<and>
    \<bar>of_int n * y - x\<bar> \<le> y / 2"
  using assms by (rule decimal_js.snapPriceToTick_denotes)

theorem snapPriceToTick_nearest_witness:
  "\<exists>t n. snapPriceToTick ref_lib ''1.165005'' ''0.00001'' = Some t \<and>
     denotes ref_lib ref_val t (of_int n * (1 / 100000)) \<and>
     \<bar>of_int n * (1 / 100000) - 1165005 / 1000000\<bar> \<le> (1 / 100000 / 2 :: rat)"
proof (rule snapPriceToTick_nearest [OF ref_laws sample_denotes(4,5)])
  show "short 6 (1165005 / 1000000)" by (rule shortI [of _ 1165005]) simp_all
  show "short 6 (1 / 100000)" by (rule shortI [of _ 10]) simp_all
  show "short 6 (\<bar>1165005 / 1000000\<bar> + 1 / 100000)" by (rule shortI [of _ 1165015]) simp_all
qed simp

end
