(* ===== verification/Models.thy ===== *)
theory Models
  imports Decimal
begin

text \<open>
  \<^verbatim>\<open>frontend/src/domain/common/models.ts\<close> and \<^verbatim>\<open>ids.ts\<close>: the domain types, with the
  sources' fields and alternatives, and the normalisation of identifiers. A field typed
  \<^verbatim>\<open>T | null\<close> is a \<open>T option\<close>. Timestamps are integral milliseconds.
\<close>

datatype side = Buy | Sell

datatype order_kind = Market | Limit | Stop | StopLimit

datatype submission_state = Draft | Submitting | Accepted | Rejected | Unknown

datatype order_status = Working | Filled | Canceled | OrderRejected | Expired | Placing | StatusUnknown

type_synonym decimal_string = string

record trading_account =
  ta_login :: string
  ta_name :: string
  ta_currency :: "string option"
  ta_server :: "string option"
  ta_balance :: decimal_string
  ta_credit :: "decimal_string option"
  ta_equity :: decimal_string
  ta_profit :: decimal_string
  ta_margin :: decimal_string
  ta_marginFree :: decimal_string
  ta_marginLevel :: "decimal_string option"
  ta_leverage :: "decimal_string option"
  ta_readOnly :: bool
  ta_asOf :: int

record trading_symbol =
  sy_name :: string
  sy_displayName :: string
  sy_description :: string
  sy_type :: string
  sy_exchange :: string
  sy_digits :: int
  sy_pricescale :: int
  sy_minMove :: int
  sy_volumeMin :: "decimal_string option"
  sy_volumeMax :: "decimal_string option"
  sy_volumeStep :: "decimal_string option"
  sy_contractSize :: "decimal_string option"
  sy_tickSize :: "decimal_string option"
  sy_tickValue :: "decimal_string option"
  sy_currencyCode :: "string option"
  sy_session :: string
  sy_timezone :: string
  sy_supportedResolutions :: "string list"
  sy_sector :: "string option"
  sy_industry :: "string option"

datatype direction = Up | Down | Flat

record quote =
  q_symbol :: string
  q_bid :: decimal_string
  q_ask :: decimal_string
  q_last :: decimal_string
  q_volume :: "decimal_string option"
  q_receivedAt :: int
  q_brokerTime :: "int option"
  q_direction :: direction

record position =
  p_id :: string
  p_symbol :: string
  p_displaySymbol :: string
  p_side :: side
  p_volume :: decimal_string
  p_openPrice :: decimal_string
  p_currentPrice :: "decimal_string option"
  p_stopLoss :: "decimal_string option"
  p_takeProfit :: "decimal_string option"
  p_profit :: "decimal_string option"
  p_swap :: "decimal_string option"
  p_commission :: "decimal_string option"
  p_openTime :: "int option"
  p_comment :: "string option"

record trading_order =
  o_id :: string
  o_symbol :: string
  o_displaySymbol :: string
  o_side :: side
  o_kind :: order_kind
  o_status :: order_status
  o_volume :: decimal_string
  o_filledVolume :: "decimal_string option"
  o_price :: "decimal_string option"
  o_currentPrice :: "decimal_string option"
  o_stopLoss :: "decimal_string option"
  o_takeProfit :: "decimal_string option"
  o_expiration :: "int option"
  o_createdAt :: "int option"
  o_comment :: "string option"

section \<open>Identifiers\<close>

definition is_safe_integer :: "rat \<Rightarrow> bool" where
  "is_safe_integer x = (x = of_int \<lfloor>x\<rfloor> \<and> \<bar>x\<bar> \<le> 9007199254740991)"

fun toIdString :: "js_value \<Rightarrow> string option" where
  "toIdString (JStr s) = (let t = js_trim s in if t = '''' then None else Some t)"
| "toIdString (JNum (Fin x)) = (if is_safe_integer x then Some (show_int \<lfloor>x\<rfloor>) else None)"
| "toIdString (JBigInt n) = Some (show_int n)"
| "toIdString _ = None"

text \<open>
  Two numbers that are accepted as identifiers and give the same text are the same number:
  no two tickets are merged by the conversion.
\<close>

lemma toIdString_number_inj:
  assumes "toIdString (JNum (Fin x)) = Some s" "toIdString (JNum (Fin y)) = Some s"
  shows "x = y"
  using assms by (auto simp: is_safe_integer_def split: if_splits)

end
