(* ===== verification/Errors.thy ===== *)
theory Errors
  imports Models
begin

text \<open>
  \<^verbatim>\<open>frontend/src/domain/common/errors.ts\<close>: the one error model every failure is turned
  into, and the reading of MT5 retcodes. The clock and the request id generator are the
  environment \<open>err_env\<close>, read once by the constructor.
\<close>

datatype error_kind = Network | Timeout | ErrCanceled | Unauthorized | Forbidden | Validation
  | Contract | ErrRejected | Unavailable | ErrUnknown

fun kind_name :: "error_kind \<Rightarrow> string" where
  "kind_name Network = ''network''"
| "kind_name Timeout = ''timeout''"
| "kind_name ErrCanceled = ''canceled''"
| "kind_name Unauthorized = ''unauthorized''"
| "kind_name Forbidden = ''forbidden''"
| "kind_name Validation = ''validation''"
| "kind_name Contract = ''contract''"
| "kind_name ErrRejected = ''rejected''"
| "kind_name Unavailable = ''unavailable''"
| "kind_name ErrUnknown = ''unknown''"

record 'p error_init =
  ei_kind :: error_kind
  ei_message :: string
  ei_code :: "string option"
  ei_requestId :: "string option"
  ei_detail :: "string option"
  ei_retryable :: "bool option"
  ei_payload :: "'p option"

record 'p trading_error =
  te_kind :: error_kind
  te_message :: string
  te_code :: string
  te_requestId :: string
  te_detail :: "string option"
  te_retryable :: bool
  te_at :: int
  te_payload :: "'p option"

record err_env =
  env_now :: int
  env_uuid :: string

definition new_TradingError :: "err_env \<Rightarrow> 'p error_init \<Rightarrow> 'p trading_error" where
  "new_TradingError env i = \<lparr>
     te_kind = ei_kind i,
     te_message = ei_message i,
     te_code = or_else (ei_code i) (kind_name (ei_kind i)),
     te_requestId = or_else (ei_requestId i) (env_uuid env),
     te_detail = ei_detail i,
     te_retryable = or_else (ei_retryable i) (ei_kind i = Network \<or> ei_kind i = Unavailable),
     te_at = env_now env,
     te_payload = ei_payload i\<rparr>"

text \<open>What a \<^verbatim>\<open>catch\<close> may receive.\<close>

datatype 'p thrown = ThrownTrading "'p trading_error" | ThrownAbort | ThrownOther string

record error_fallback =
  fb_kind :: "error_kind option"
  fb_message :: "string option"
  fb_code :: "string option"
  fb_requestId :: "string option"

definition no_fallback :: error_fallback where
  "no_fallback = \<lparr>fb_kind = None, fb_message = None, fb_code = None, fb_requestId = None\<rparr>"

fun TradingError_from :: "err_env \<Rightarrow> 'p thrown \<Rightarrow> error_fallback \<Rightarrow> 'p trading_error" where
  "TradingError_from env (ThrownTrading e) fb = e"
| "TradingError_from env ThrownAbort fb = new_TradingError env
     \<lparr>ei_kind = or_else (fb_kind fb) ErrCanceled,
      ei_message = or_else (fb_message fb) ''Request canceled.'',
      ei_code = fb_code fb, ei_requestId = fb_requestId fb, ei_detail = None,
      ei_retryable = None, ei_payload = None\<rparr>"
| "TradingError_from env (ThrownOther m) fb = new_TradingError env
     \<lparr>ei_kind = or_else (fb_kind fb) ErrUnknown,
      ei_message = or_else (fb_message fb) ''Something went wrong. Please try again.'',
      ei_code = fb_code fb, ei_requestId = fb_requestId fb, ei_detail = Some m,
      ei_retryable = None, ei_payload = None\<rparr>"

section \<open>MT5 retcodes\<close>

definition MT5_RETCODE_MESSAGES :: "(string \<times> string) list" where
  "MT5_RETCODE_MESSAGES = [
     (''10004'', ''Requote -- the price moved. Review the price and try again.''),
     (''10006'', ''The order was rejected.''),
     (''10007'', ''The order was canceled.''),
     (''10008'', ''The order was placed.''),
     (''10009'', ''The request was completed.''),
     (''10010'', ''Only part of the requested volume was filled.''),
     (''10011'', ''The request could not be processed. Please try again.''),
     (''10013'', ''Invalid request.''),
     (''10014'', ''Invalid volume for this symbol.''),
     (''10015'', ''Invalid price.''),
     (''10016'', ''Invalid stop-loss or take-profit level.''),
     (''10017'', ''Trading is disabled for this account.''),
     (''10018'', ''The market is closed for this symbol.''),
     (''10019'', ''Not enough money to complete this request.''),
     (''10020'', ''Prices changed. Please review and resubmit.''),
     (''10021'', ''No quotes available for this symbol.''),
     (''10024'', ''Too many requests. Please slow down.''),
     (''10025'', ''No changes were made to the request.''),
     (''10026'', ''Automated trading is disabled on the server.''),
     (''10027'', ''Automated trading is disabled by the client terminal.''),
     (''10029'', ''The order or position is locked and being processed.''),
     (''10030'', ''Unsupported fill policy for this symbol.''),
     (''10031'', ''No connection to the trade server.''),
     (''10033'', ''The maximum number of pending orders has been reached.''),
     (''10034'', ''The order volume limit for this symbol has been reached.''),
     (''10036'', ''The position has already been closed.''),
     (''10038'', ''The close volume exceeds the position volume.''),
     (''10039'', ''A close order for this position already exists.''),
     (''10040'', ''The maximum number of open positions has been reached.'')]"

definition MT5_SUCCESS_RETCODES :: "string list" where
  "MT5_SUCCESS_RETCODES = [''10008'', ''10009'', ''10010'']"

definition MT5_UNKNOWN_RETCODES :: "string list" where
  "MT5_UNKNOWN_RETCODES = [''10012'']"

text \<open>
  The pattern \<^verbatim>\<open>^\s*(\d+)\s*(.*)$\<close>: the dot stops at line ends, so a text that
  spans lines does not match. The code comes first, the trimmed text second.
\<close>

definition parseRetcode :: "string option \<Rightarrow> string \<times> string" where
  "parseRetcode raw = (case raw of None \<Rightarrow> ('''', '''')
     | Some r \<Rightarrow> if r = '''' then ('''', '''') else
         let s = dropWhile js_ws r; ds = takeWhile is_digit s;
             t = dropWhile js_ws (dropWhile is_digit s)
         in if ds \<noteq> [] \<and> (\<forall>c\<in>set t. \<not> js_newline c) then (ds, js_trim t)
            else (js_trim r, ''''))"

definition isSuccessRetcode :: "string option \<Rightarrow> bool" where
  "isSuccessRetcode raw = List.member MT5_SUCCESS_RETCODES (fst (parseRetcode raw))"

definition isUnknownRetcode :: "string option \<Rightarrow> bool" where
  "isUnknownRetcode raw = List.member MT5_UNKNOWN_RETCODES (fst (parseRetcode raw))"

definition tradeErrorFromRetcode ::
  "err_env \<Rightarrow> string \<Rightarrow> string option \<Rightarrow> string option \<Rightarrow> 'p trading_error" where
  "tradeErrorFromRetcode env retcode serverComment requestId =
     (let (code, text) = parseRetcode (Some retcode);
          known = map_of MT5_RETCODE_MESSAGES code
      in new_TradingError env
        \<lparr>ei_kind = ErrRejected,
         ei_message = or_else known
           (''The trade server rejected this request (code '' @ or_str code retcode @ '').''),
         ei_code = Some (''mt5.'' @ or_str code retcode),
         ei_requestId = requestId,
         ei_detail = (case serverComment of Some c \<Rightarrow> Some c
            | None \<Rightarrow> if text = '''' then None else Some text),
         ei_retryable = Some False,
         ei_payload = None\<rparr>)"

definition isInsufficientFunds :: "'p trading_error \<Rightarrow> bool" where
  "isInsufficientFunds e = (te_code e = ''mt5.10019'')"

section \<open>What the reading guarantees\<close>

text \<open>
  The wire form \<^verbatim>\<open>"<code> <text>"\<close>: the code is read back whatever text follows,
  as long as the text does not start with a digit and stays on one line.
\<close>

lemma parseRetcode_wire:
  assumes "code \<noteq> []" "\<forall>c\<in>set code. is_digit c" "\<forall>c\<in>set text. \<not> js_newline c"
  shows "parseRetcode (Some (code @ CHR '' '' # text)) = (code, js_trim (dropWhile js_ws text))"
proof -
  have ws: "js_ws CHR '' ''" by (simp add: js_ws_def)
  have nd: "\<not> is_digit CHR '' ''" by (simp add: is_digit_def digit_val_def)
  obtain c cs where code: "code = c # cs" using assms(1) by (cases code) auto
  have "\<not> js_ws c" using assms(2) js_ws_not_digit by (auto simp: code)
  then have "dropWhile js_ws (code @ CHR '' '' # text) = code @ CHR '' '' # text" by (simp add: code)
  moreover have "takeWhile is_digit (code @ CHR '' '' # text) = code"
    "dropWhile is_digit (code @ CHR '' '' # text) = CHR '' '' # text"
    using assms(2) nd by (simp_all add: takeWhile_append2 dropWhile_append2)
  moreover have "\<forall>c\<in>set (dropWhile js_ws text). \<not> js_newline c"
    using assms(3) set_dropWhileD by fastforce
  ultimately show ?thesis using ws assms(1) by (simp add: parseRetcode_def Let_def)
qed

lemma retcode_sets_disjoint: "\<not> (isSuccessRetcode raw \<and> isUnknownRetcode raw)"
  by (auto simp: isSuccessRetcode_def isUnknownRetcode_def MT5_SUCCESS_RETCODES_def
      MT5_UNKNOWN_RETCODES_def)

text \<open>A rejection is never retried automatically, and keeps the number in its code.\<close>

lemma tradeErrorFromRetcode_code:
  assumes "code \<noteq> []" "\<forall>c\<in>set code. is_digit c" "\<forall>c\<in>set text. \<not> js_newline c"
  shows "te_code (tradeErrorFromRetcode env (code @ CHR '' '' # text) sc rid) = ''mt5.'' @ code"
    and "te_kind (tradeErrorFromRetcode env (code @ CHR '' '' # text) sc rid) = ErrRejected"
    and "\<not> te_retryable (tradeErrorFromRetcode env (code @ CHR '' '' # text) sc rid)"
  using assms by (simp_all add: tradeErrorFromRetcode_def parseRetcode_wire new_TradingError_def or_str_def)

end
