(* ===== verification/JsFloat.thy ===== *)
theory JsFloat
  imports Prelude
begin

text \<open>
  The double-precision numbers of JavaScript, where the sources compute with them: \<open>fl\<close> is
  the rounding of an exact result to the nearest double (ties to even, gradual underflow,
  overflow to infinity). The sign of zero is not represented. A sum of doubles \<open>a + b\<close> is
  \<open>fl (a + b)\<close>, and so on. Every integer up to \<open>2 ^ 53\<close> is a double, and rounding is monotone.
\<close>

section \<open>Rounding to a double\<close>

function bits :: "int \<Rightarrow> int" where
  "bits n = (if n \<le> 0 then 0 else 1 + bits (n div 2))"
  by pat_completeness auto
termination by (relation "measure nat") auto

declare bits.simps [simp del]

definition p2 :: "int \<Rightarrow> rat" where
  "p2 e = (if 0 \<le> e then 2 ^ nat e else 1 / 2 ^ nat (- e))"

text \<open>The binary exponent: \<open>p2 (lg x) \<le> \<bar>x\<bar> < p2 (lg x + 1)\<close>.\<close>

definition lg :: "rat \<Rightarrow> int" where
  "lg x = (let (n, d) = quotient_of \<bar>x\<bar>; e = bits n - bits d in if p2 e \<le> \<bar>x\<bar> then e else e - 1)"

definition round_even :: "rat \<Rightarrow> int" where
  "round_even x = (let f = \<lfloor>x\<rfloor>; r = x - of_int f in
     if r < 1 / 2 then f else if 1 / 2 < r then f + 1 else if even f then f else f + 1)"

definition fl :: "rat \<Rightarrow> js_number" where
  "fl x = (if x = 0 then Fin 0 else
     let u = p2 (max (lg x - 52) (- 1074)); r = of_int (round_even (x / u)) * u
     in if r = 0 \<or> lg r < 1024 then Fin r else if 0 < x then PosInf else NegInf)"

section \<open>Integers are exact\<close>

lemma bits_bounds: "0 < n \<Longrightarrow> 0 < bits n \<and> 2 ^ nat (bits n - 1) \<le> n \<and> n < 2 ^ nat (bits n)"
proof (induction n rule: bits.induct)
  case (1 n)
  show ?case
  proof (cases "n = 1")
    case True
    then show ?thesis by (simp add: bits.simps [of 1] bits.simps [of 0])
  next
    case False
    then have half: "0 < n div 2" using 1(2) by linarith
    then have IH: "0 < bits (n div 2)" "2 ^ nat (bits (n div 2) - 1) \<le> n div 2" "n div 2 < 2 ^ nat (bits (n div 2))"
      using 1(1) 1(2) by simp_all
    have b: "bits n = 1 + bits (n div 2)" using 1(2) by (subst bits.simps) simp
    have "2 ^ nat (bits n - 1) = (2::int) * 2 ^ nat (bits (n div 2) - 1)"
      using IH(1) by (simp add: b power_Suc [symmetric] Suc_nat_eq_nat_zadd1 del: power_Suc)
    moreover have "2 ^ nat (bits n) = (2::int) * 2 ^ nat (bits (n div 2))"
      using IH(1) by (simp add: b nat_add_distrib)
    ultimately show ?thesis using IH half b by (intro conjI; linarith)
  qed
qed

lemma lg_int:
  assumes "0 < n"
  shows "lg (of_int n) = bits n - 1"
proof -
  have b1: "bits 1 = 1" by (simp add: bits.simps [of 1] bits.simps [of 0])
  have q: "quotient_of (of_int n) = (n, 1)" by (metis Rat.of_int_def quotient_of_int)
  have "p2 (bits n - 1) \<le> of_int n"
  proof -
    have "(of_int (2 ^ nat (bits n - 1)) :: rat) \<le> of_int n"
      using bits_bounds [OF assms] by (simp only: of_int_le_iff)
    then show ?thesis using bits_bounds [OF assms] by (simp add: p2_def)
  qed
  then show ?thesis using assms q b1 by (simp add: lg_def)
qed

lemma round_even_int [simp]: "round_even (of_int m) = m"
  by (simp add: round_even_def)

lemma round_even_minus_zero [simp]: "round_even 0 = 0"
  using round_even_int [of 0] by simp

lemma lg_minus [simp]: "lg (- x) = lg x"
  by (simp add: lg_def)

lemma bits_le_53: "0 < n \<Longrightarrow> n \<le> 2 ^ 53 \<Longrightarrow> bits n \<le> 54"
proof (rule ccontr)
  assume n: "0 < n" "n \<le> 2 ^ 53" "\<not> bits n \<le> 54"
  then have "(2::int) ^ 54 \<le> 2 ^ nat (bits n - 1)" by (intro power_increasing) auto
  also have "\<dots> \<le> n" using bits_bounds [OF n(1)] by simp
  finally show False using n(2) by simp
qed

text \<open>Every integer up to \<open>2 ^ 53\<close> is a double.\<close>

lemma fl_int: "\<bar>n\<bar> \<le> 2 ^ 53 \<Longrightarrow> fl (of_int n) = js_int n"
proof (cases "n = 0")
  case False
  assume n: "\<bar>n\<bar> \<le> 2 ^ 53"
  define k where "k = lg (of_int n)"
  have k: "k = bits \<bar>n\<bar> - 1"
    using lg_int [of "\<bar>n\<bar>"] False by (cases "0 < n") (simp_all add: k_def)
  have kb: "0 \<le> k" "k \<le> 53"
    using k bits_bounds [of "\<bar>n\<bar>"] bits_le_53 [of "\<bar>n\<bar>"] n False by simp_all
  define u where "u = p2 (max (k - 52) (- 1074))"
  have u: "u \<noteq> 0" by (simp add: u_def p2_def)
  have "\<exists>m. of_int n / u = of_int m"
  proof (cases "k \<le> 52")
    case True
    then have "u = 1 / 2 ^ nat (52 - k)" using kb by (simp add: u_def p2_def)
    then have "of_int n / u = of_int (n * 2 ^ nat (52 - k))" by simp
    then show ?thesis ..
  next
    case False
    then have "k = 53" using kb by simp
    then have "2 ^ 53 \<le> \<bar>n\<bar>" using bits_bounds [of "\<bar>n\<bar>"] k \<open>n \<noteq> 0\<close> by simp
    then have "\<bar>n\<bar> = 2 ^ 53" using n by simp
    then have "n = 2 * 2 ^ 52 \<or> n = 2 * - (2 ^ 52)" by (simp add: abs_if split: if_splits)
    moreover have "u = 2" using \<open>k = 53\<close> by (simp add: u_def p2_def)
    ultimately show ?thesis by (metis nonzero_mult_div_cancel_left of_int_mult of_int_numeral zero_neq_numeral)
  qed
  then obtain m where m: "of_int n / u = of_int m" ..
  then have r: "of_int (round_even (of_int n / u)) * u = of_int n" using u by (simp add: field_simps)
  show ?thesis
    unfolding fl_def Let_def k_def [symmetric] u_def [symmetric] r js_int_def using False kb by simp
qed (simp add: fl_def js_int_def)

section \<open>Exactness and monotonicity\<close>

lemma p2_pos [simp]: "0 < p2 e"
  by (simp add: p2_def)

lemma p2_ne [simp]: "p2 e \<noteq> 0"
  using p2_pos [of e] by (simp add: less_imp_neq [symmetric] del: p2_pos)

lemma p2_add: "p2 (a + b) = p2 a * p2 b"
proof -
  have "p2 e = 2 powi e" for e by (simp add: p2_def power_int_def field_simps)
  then show ?thesis by (simp add: power_int_add)
qed

lemma p2_zero [simp]: "p2 0 = 1"
  by (simp add: p2_def)

lemma p2_mono: "a \<le> b \<Longrightarrow> p2 a \<le> p2 b"
proof -
  have "p2 e = 2 powi e" for e by (simp add: p2_def power_int_def field_simps)
  then show "a \<le> b \<Longrightarrow> p2 a \<le> p2 b" by (simp add: power_int_increasing)
qed

lemma p2_less_cancel: "p2 a < p2 b \<Longrightarrow> a < b"
  using p2_mono [of b a] by linarith

lemma p2_nat: "0 \<le> e \<Longrightarrow> p2 e = of_int (2 ^ nat e)"
  by (simp add: p2_def)

lemma bits_p2: "0 < n \<Longrightarrow> p2 (bits n - 1) \<le> of_int n \<and> of_int n < p2 (bits n)"
  using bits_bounds [of n] by (simp add: p2_nat del: of_int_power)

text \<open>The binary exponent is what it is said to be.\<close>

lemma lg_bounds:
  assumes "x \<noteq> 0"
  shows "p2 (lg x) \<le> \<bar>x\<bar>" "\<bar>x\<bar> < p2 (lg x + 1)"
proof -
  obtain n d where q: "quotient_of \<bar>x\<bar> = (n, d)" by (cases "quotient_of \<bar>x\<bar>")
  have d: "0 < d" using quotient_of_denom_pos [OF q] .
  have x: "\<bar>x\<bar> = of_int n / of_int d" using quotient_of_div [OF q] .
  then have n: "0 < n" using assms d by (simp add: zero_less_divide_iff flip: zero_less_abs_iff [of x])
  define e where "e = bits n - bits d"
  have up: "\<bar>x\<bar> < p2 (e + 1)"
  proof -
    have "of_int n < p2 (bits n)" "p2 (bits d - 1) \<le> of_int d" using bits_p2 n d by auto
    moreover have "p2 (bits n) = p2 (e + 1) * p2 (bits d - 1)" by (simp add: e_def flip: p2_add)
    moreover have "p2 (e + 1) * p2 (bits d - 1) \<le> p2 (e + 1) * of_int d"
      using calculation(2) by (intro mult_left_mono) (simp_all add: less_imp_le)
    ultimately have "of_int n < p2 (e + 1) * (of_int d :: rat)" by linarith
    then show ?thesis using d unfolding x by (simp add: divide_less_eq)
  qed
  have lo: "p2 (e - 1) \<le> \<bar>x\<bar>"
  proof -
    have "p2 (bits n - 1) \<le> of_int n" "of_int d < p2 (bits d)" using bits_p2 n d by auto
    moreover have "p2 (bits n - 1) = p2 (e - 1) * p2 (bits d)" by (simp add: e_def flip: p2_add)
    moreover have "p2 (e - 1) * of_int d \<le> p2 (e - 1) * p2 (bits d)"
      using calculation(2) by (intro mult_left_mono) (simp_all add: less_imp_le)
    ultimately have "p2 (e - 1) * (of_int d :: rat) \<le> of_int n" by linarith
    then show ?thesis using d unfolding x by (simp add: le_divide_eq)
  qed
  have "lg x = (if p2 e \<le> \<bar>x\<bar> then e else e - 1)" by (simp add: lg_def q e_def Let_def)
  then show "p2 (lg x) \<le> \<bar>x\<bar>" "\<bar>x\<bar> < p2 (lg x + 1)" using up lo by (auto split: if_splits)
qed

lemma lg_mono: "0 < x \<Longrightarrow> x \<le> y \<Longrightarrow> lg x \<le> lg y"
  using lg_bounds(1) [of x] lg_bounds(2) [of y] p2_less_cancel [of "lg x" "lg y + 1"] by simp

lemma lg_unique: "0 < x \<Longrightarrow> p2 e \<le> x \<Longrightarrow> x < p2 (e + 1) \<Longrightarrow> lg x = e"
  using lg_bounds [of x] p2_less_cancel [of "lg x" "e + 1"] p2_less_cancel [of e "lg x + 1"] by simp

lemma round_even_bounds: "x - 1 / 2 \<le> of_int (round_even x)" "of_int (round_even x) \<le> x + 1 / 2"
  unfolding round_even_def Let_def by (auto; linarith)+

lemma round_even_mono: "x \<le> y \<Longrightarrow> round_even x \<le> round_even y"
proof (cases "\<lfloor>x\<rfloor> = \<lfloor>y\<rfloor>")
  case True
  then show "x \<le> y \<Longrightarrow> round_even x \<le> round_even y" unfolding round_even_def Let_def by auto
next
  case False
  assume "x \<le> y"
  then have "\<lfloor>x\<rfloor> + 1 \<le> \<lfloor>y\<rfloor>" using False floor_mono [of x y] by linarith
  moreover have "round_even x \<le> \<lfloor>x\<rfloor> + 1" "\<lfloor>y\<rfloor> \<le> round_even y" unfolding round_even_def Let_def by auto
  ultimately show ?thesis by linarith
qed

definition ulp_exp :: "rat \<Rightarrow> int" where
  "ulp_exp x = max (lg x - 52) (- 1074)"

definition nearest :: "rat \<Rightarrow> rat" where
  "nearest x = of_int (round_even (x / p2 (ulp_exp x))) * p2 (ulp_exp x)"

lemma fl_nearest: "x \<noteq> 0 \<Longrightarrow> fl x = (if nearest x = 0 \<or> lg (nearest x) < 1024 then Fin (nearest x) else if 0 < x then PosInf else NegInf)"
  by (simp add: fl_def nearest_def ulp_exp_def Let_def)

lemma p2_multiple: "ulp_exp x \<le> k \<Longrightarrow> p2 k / p2 (ulp_exp x) = of_int (2 ^ nat (k - ulp_exp x))"
  using p2_add [of "k - ulp_exp x" "ulp_exp x"] by (simp add: p2_nat field_simps)

lemma nearest_le_p2: "x \<le> p2 k \<Longrightarrow> ulp_exp x \<le> k \<Longrightarrow> nearest x \<le> p2 k"
proof -
  assume a: "x \<le> p2 k" "ulp_exp x \<le> k"
  have "round_even (x / p2 (ulp_exp x)) \<le> round_even (p2 k / p2 (ulp_exp x))"
    using a(1) by (intro round_even_mono divide_right_mono) (simp_all add: less_imp_le)
  also have "\<dots> = 2 ^ nat (k - ulp_exp x)" using p2_multiple [OF a(2)] by (metis round_even_int)
  finally have "of_int (round_even (x / p2 (ulp_exp x))) \<le> p2 k / p2 (ulp_exp x)"
    using p2_multiple [OF a(2)] by (metis of_int_le_iff)
  then show ?thesis by (simp add: nearest_def field_simps)
qed

lemma p2_le_nearest: "p2 k \<le> x \<Longrightarrow> ulp_exp x \<le> k \<Longrightarrow> p2 k \<le> nearest x"
proof -
  assume a: "p2 k \<le> x" "ulp_exp x \<le> k"
  have "round_even (p2 k / p2 (ulp_exp x)) \<le> round_even (x / p2 (ulp_exp x))"
    using a(1) by (intro round_even_mono divide_right_mono) (simp_all add: less_imp_le)
  moreover have "round_even (p2 k / p2 (ulp_exp x)) = 2 ^ nat (k - ulp_exp x)"
    using p2_multiple [OF a(2)] by (metis round_even_int)
  ultimately have "p2 k / p2 (ulp_exp x) \<le> of_int (round_even (x / p2 (ulp_exp x)))"
    using p2_multiple [OF a(2)] by (metis of_int_le_iff)
  then show ?thesis by (simp add: nearest_def field_simps)
qed

lemma nearest_mono:
  assumes "0 < x" "x \<le> y"
  shows "nearest x \<le> nearest y"
proof (cases "ulp_exp x = ulp_exp y")
  case True
  have "round_even (x / p2 (ulp_exp y)) \<le> round_even (y / p2 (ulp_exp y))"
    using assms(2) by (intro round_even_mono divide_right_mono) (simp_all add: less_imp_le)
  then show ?thesis using True by (simp add: nearest_def)
next
  case False
  have l: "lg x \<le> lg y" using assms by (rule lg_mono)
  then have ue: "ulp_exp x \<le> lg y" "ulp_exp y \<le> lg y" "lg x + 1 \<le> lg y" using False by (auto simp: ulp_exp_def)
  have "x \<le> p2 (lg y)" using lg_bounds(2) [of x] p2_mono [OF ue(3)] assms(1) by simp
  then have "nearest x \<le> p2 (lg y)" using ue(1) by (rule nearest_le_p2)
  also have "\<dots> \<le> nearest y" using lg_bounds(1) [of y] assms ue(2) by (intro p2_le_nearest) auto
  finally show ?thesis .
qed

lemma nearest_nonneg: "0 < x \<Longrightarrow> 0 \<le> nearest x"
  using round_even_mono [of 0 "x / p2 (ulp_exp x)"] by (simp add: nearest_def less_imp_le)

text \<open>Rounding is monotone, and what is below a double does not overflow.\<close>

lemma fl_mono:
  assumes "0 \<le> x" "x \<le> y" "fl y = Fin b"
  shows "\<exists>a. fl x = Fin a \<and> 0 \<le> a \<and> a \<le> b"
proof (cases "x = 0")
  case True
  have "0 \<le> b" using assms nearest_nonneg [of y] by (cases "y = 0") (auto simp: fl_nearest fl_def [of 0] split: if_splits)
  then show ?thesis using True by (simp add: fl_def)
next
  case False
  then have x: "0 < x" and y: "y \<noteq> 0" using assms by auto
  have b: "b = nearest y" "nearest y = 0 \<or> lg (nearest y) < 1024"
    using assms(3) y by (auto simp: fl_nearest split: if_splits)
  have le: "nearest x \<le> nearest y" using x assms(2) by (rule nearest_mono)
  have "nearest x = 0 \<or> lg (nearest x) < 1024"
    using b(2) le lg_mono [of "nearest x" "nearest y"] nearest_nonneg [OF x] by (cases "nearest x = 0") auto
  then show ?thesis using False b(1) le nearest_nonneg [OF x] by (simp add: fl_nearest)
qed

text \<open>A short multiple of a power of two is a double.\<close>

lemma fl_exact:
  assumes "x = of_int m * p2 e" "\<bar>m\<bar> \<le> 2 ^ 53" "- 1074 \<le> e" "\<bar>x\<bar> < p2 1024"
  shows "fl x = Fin x"
proof (cases "x = 0")
  case False
  have k: "lg x < 1024" using p2_less_cancel [of "lg x" 1024] lg_bounds(1) [OF False] assms(4) by simp
  have "\<exists>i. x / p2 (ulp_exp x) = of_int i"
  proof (cases "ulp_exp x \<le> e")
    case True
    then have "x / p2 (ulp_exp x) = of_int (m * 2 ^ nat (e - ulp_exp x))"
      using p2_multiple [OF True] assms(1) by (simp flip: times_divide_eq_right)
    then show ?thesis ..
  next
    case False
    then have u: "ulp_exp x = lg x - 52" "e + 1 \<le> ulp_exp x" using assms(3) by (auto simp: ulp_exp_def)
    have m: "(of_int \<bar>m\<bar> :: rat) \<le> p2 53" using assms(2) by (simp add: p2_def)
    have ax: "\<bar>x\<bar> = of_int \<bar>m\<bar> * p2 e" using assms(1) by (simp add: abs_mult abs_of_pos)
    also have "\<dots> \<le> p2 53 * p2 e" using m by (intro mult_right_mono) (simp_all add: less_imp_le)
    finally have ub: "\<bar>x\<bar> \<le> p2 (e + 53)" by (simp add: p2_add mult.commute)
    have lb: "p2 (e + 53) \<le> \<bar>x\<bar>" using lg_bounds(1) [OF \<open>x \<noteq> 0\<close>] p2_mono [of "e + 53" "lg x"] u by simp
    then have "\<bar>x\<bar> = p2 (e + 53)" using ub by simp
    moreover from this have "lg x = e + 53"
      using lg_unique [of "\<bar>x\<bar>" "e + 53"] p2_add [of "e + 53" 1] by (simp add: lg_def p2_def)
    ultimately have "\<bar>x\<bar> / p2 (ulp_exp x) = of_int (2 ^ 52)" using p2_multiple [of x "e + 53"] u by simp
    then have "x / p2 (ulp_exp x) = of_int (2 ^ 52) \<or> x / p2 (ulp_exp x) = of_int (- (2 ^ 52))"
      by (cases "0 \<le> x") simp_all
    then show ?thesis by blast
  qed
  then obtain i where i: "x / p2 (ulp_exp x) = of_int i" ..
  then have "nearest x = x" by (simp add: nearest_def) (simp add: field_simps)
  then show ?thesis using False k by (simp add: fl_nearest)
qed (simp add: fl_def)

lemma fl_half: "\<bar>n\<bar> \<le> 2 ^ 53 \<Longrightarrow> fl (of_int n / 2) = Fin (of_int n / 2)"
proof (rule fl_exact [of _ n "- 1"])
  assume n: "\<bar>n\<bar> \<le> 2 ^ 53"
  have "\<bar>of_int n / 2 :: rat\<bar> \<le> of_int (2 ^ 53)" using n by (simp flip: of_int_abs)
  also have "\<dots> < p2 1024" by (simp add: p2_def)
  finally show "\<bar>of_int n / 2\<bar> < p2 1024" .
qed (simp_all add: p2_def)

end
