(* ===== verification/JsText.thy ===== *)
theory JsText
  imports JsFloat Decimal "HOL-Library.Char_ord"
begin

text \<open>
  Texts of the JavaScript standard library: \<open>js_Number\<close> is \<^verbatim>\<open>Number(s)\<close> of a string - the
  numeric literals of the language, rounded to the nearest double, anything else NaN - and
  \<open>js_lower\<close> is \<^verbatim>\<open>toLowerCase()\<close>.
\<close>

section \<open>Reading a number\<close>

definition radix_digit :: "char \<Rightarrow> int option" where
  "radix_digit c = (case digit_val c of Some d \<Rightarrow> Some d
     | None \<Rightarrow> if CHR ''a'' \<le> c \<and> c \<le> CHR ''f'' then Some (int (of_char c) - 87)
              else if CHR ''A'' \<le> c \<and> c \<le> CHR ''F'' then Some (int (of_char c) - 55) else None)"

fun read_radix :: "int \<Rightarrow> int \<Rightarrow> string \<Rightarrow> int option" where
  "read_radix b acc [] = Some acc"
| "read_radix b acc (c # cs) = (case radix_digit c of None \<Rightarrow> None
     | Some d \<Rightarrow> if d < b then read_radix b (b * acc + d) cs else None)"

definition prefix_radix :: "string \<Rightarrow> int option" where
  "prefix_radix s = (let p = take 2 s in
     if p = ''0x'' \<or> p = ''0X'' then Some 16 else if p = ''0o'' \<or> p = ''0O'' then Some 8
     else if p = ''0b'' \<or> p = ''0B'' then Some 2 else None)"

text \<open>A decimal literal without a sign, as an exact value.\<close>

definition decimal_literal :: "string \<Rightarrow> rat option" where
  "decimal_literal s =
     (let ip = takeWhile is_digit s; rest = dropWhile is_digit s;
          dot = (rest \<noteq> [] \<and> hd rest = CHR ''.'');
          fp = (if dot then takeWhile is_digit (tl rest) else []);
          rest' = (if dot then dropWhile is_digit (tl rest) else rest)
      in if ip @ fp = [] then None
         else do { n \<leftarrow> read_digits 0 (ip @ fp); e \<leftarrow> parse_exp rest';
                   Some (of_int n * p10 (e - int (length fp))) })"

definition js_Number :: "string \<Rightarrow> js_number" where
  "js_Number s =
     (let t = js_trim s;
          neg = (t \<noteq> [] \<and> hd t = CHR ''-'');
          u = (if t \<noteq> [] \<and> (hd t = CHR ''-'' \<or> hd t = CHR ''+'') then tl t else t)
      in if t = '''' then Fin 0
         else case prefix_radix t of
           Some b \<Rightarrow> (if drop 2 t = [] then NaN
                     else case read_radix b 0 (drop 2 t) of None \<Rightarrow> NaN | Some n \<Rightarrow> fl (of_int n))
         | None \<Rightarrow> if u = ''Infinity'' then (if neg then NegInf else PosInf)
             else case decimal_literal u of None \<Rightarrow> NaN
               | Some x \<Rightarrow> fl (if neg then - x else x))"

text \<open>\<^verbatim>\<open>toLowerCase()\<close> within the range of \<open>char\<close>.\<close>

definition char_lower :: "char \<Rightarrow> char" where
  "char_lower c = (if CHR ''A'' \<le> c \<and> c \<le> CHR ''Z'' \<or> CHR 0xC0 \<le> c \<and> c \<le> CHR 0xDE \<and> c \<noteq> CHR 0xD7
                   then char_of (of_char c + (32::nat)) else c)"

definition js_lower :: "string \<Rightarrow> string" where
  "js_lower s = map char_lower s"

end
