(* ===== verification/TradeResult.thy ===== *)
theory TradeResult
  imports Errors JsText
begin

text \<open>
  The reading of a trade reply,
  \<^verbatim>\<open>interpretTradeResult\<close> of
  \<^verbatim>\<open>frontend/src/integrations/gateway/api/trading-api.ts\<close>: every shape a gateway answers
  with, turned into one result or one error. A reply is a \<open>js_value\<close>; the payload of an
  error is one too.

  Shown: the verdict in order of authority (the stated outcome, the retcode, the legacy
  result, the derived status), that an undecided reply is never an error, and that a reply is
  never read as a fill.
\<close>

type_synonym terror = "js_value trading_error"

record trade_submission_result =
  tr_state :: submission_state
  tr_orderId :: "string option"
  tr_retcode :: "string option"
  tr_message :: "string option"
  tr_requestId :: string
  tr_idempotencyKey :: "string option"
  tr_diagnostic :: "terror option"

section \<open>Reading a record\<close>

text \<open>A property of a value read as a record; what is not an object has none of the names used.\<close>

fun js_get :: "js_value \<Rightarrow> string \<Rightarrow> js_value" where
  "js_get (JObj ps) name = or_else (map_of (rev ps) name) JUndefined"
| "js_get _ name = JUndefined"

fun js_typeof_object :: "js_value \<Rightarrow> bool" where
  "js_typeof_object (JObj _) = True"
| "js_typeof_object (JArr _) = True"
| "js_typeof_object _ = False"

fun firstString :: "js_value \<Rightarrow> string option" where
  "firstString (JStr s) = (if s \<noteq> '''' then Some s else None)"
| "firstString _ = None"

text \<open>\<^verbatim>\<open>a ?? b ?? ...\<close> over optional strings.\<close>

fun first_some :: "'a option list \<Rightarrow> 'a option" where
  "first_some [] = None"
| "first_some (None # xs) = first_some xs"
| "first_some (Some a # xs) = Some a"

fun unwrapLegacyOrderId :: "js_value \<Rightarrow> js_value" where
  "unwrapLegacyOrderId (JObj ps) = js_get (JObj ps) ''id''"
| "unwrapLegacyOrderId _ = JUndefined"

fun firstId :: "js_value list \<Rightarrow> string option" where
  "firstId [] = None"
| "firstId (c # cs) = (case toIdString c of
     Some i \<Rightarrow> if i \<noteq> '''' \<and> i \<noteq> ''0'' then Some i else firstId cs
   | None \<Rightarrow> firstId cs)"

fun statedOutcome :: "js_value option \<Rightarrow> (string \<times> string option) option" where
  "statedOutcome (Some (JObj ps)) =
     (case firstString (js_get (JObj ps) ''outcome'') of None \<Rightarrow> None
      | Some s \<Rightarrow> Some (js_lower s, firstString (js_get (JObj ps) ''message'')))"
| "statedOutcome _ = None"

section \<open>The verdict\<close>

definition rejected_error :: "err_env \<Rightarrow> string option \<Rightarrow> string \<Rightarrow> terror" where
  "rejected_error env message requestId = new_TradingError env
     \<lparr>ei_kind = ErrRejected,
      ei_message = or_str (js_trim (or_else message '''')) ''The trade server rejected this request.'',
      ei_code = Some ''mt5.rejected'', ei_requestId = Some requestId, ei_detail = None,
      ei_retryable = Some False, ei_payload = None\<rparr>"

definition rawRetcode_of :: "js_value \<Rightarrow> string option" where
  "rawRetcode_of r = first_some [firstString (js_get r ''ResultRetcode''), firstString (js_get r ''resultRetcode'')]"

definition message_of :: "js_value \<Rightarrow> string option" where
  "message_of r = first_some [firstString (js_get r ''Comment''), firstString (js_get r ''message''),
     firstString (js_get r ''retcodeDescription''), firstString (js_get r ''answer'')]"

definition trade_result ::
  "submission_state \<Rightarrow> js_value \<Rightarrow> string option \<Rightarrow> string \<Rightarrow> trade_submission_result" where
  "trade_result st r msg requestId = \<lparr>tr_state = st,
     tr_orderId = firstId [js_get r ''Order'', js_get r ''id'', unwrapLegacyOrderId (js_get r ''order'')],
     tr_retcode = map_option (\<lambda>raw. or_str (fst (parseRetcode (Some raw))) raw) (rawRetcode_of r),
     tr_message = msg, tr_requestId = requestId, tr_idempotencyKey = None, tr_diagnostic = None\<rparr>"

definition undecided_message :: string where
  "undecided_message = ''The outcome is unknown -- reconciling. Check Positions before retrying.''"

definition interpretTradeResult ::
  "err_env \<Rightarrow> js_value \<Rightarrow> string \<Rightarrow> terror + trade_submission_result" where
  "interpretTradeResult env r requestId =
     (let rawRetcode = rawRetcode_of r; message = message_of r;
          accepted = Inr (trade_result Accepted r message requestId);
          undecided = (\<lambda>why. Inr (trade_result Unknown r (Some why) requestId))
      in case map_option js_lower (firstString (js_get r ''outcome'')) of
        Some outcome \<Rightarrow>
          if outcome = ''accepted'' then accepted
          else if outcome = ''rejected'' then
            Inl (case rawRetcode of
                Some raw \<Rightarrow> tradeErrorFromRetcode env raw message (Some requestId)
              | None \<Rightarrow> rejected_error env message requestId)
          else undecided (or_str (js_trim (or_else message '''')) undecided_message)
      | None \<Rightarrow> (case rawRetcode of
          Some raw \<Rightarrow>
            if isUnknownRetcode (Some raw) then
              undecided ''The trade server timed out -- reconciling. Check Positions before retrying.''
            else if \<not> isSuccessRetcode (Some raw) then
              Inl (tradeErrorFromRetcode env raw message (Some requestId))
            else accepted
        | None \<Rightarrow>
            if js_typeof_object (js_get r ''order'') then
              if js_get r ''mTresult'' = JNum (Fin 0) then Inl (rejected_error env message requestId)
              else accepted
            else if js_get r ''status'' = JNum (Fin 5) then Inl (rejected_error env message requestId)
            else accepted))"

section \<open>What the verdict rests on\<close>

text \<open>The gateway's outcome decides alone; without one MT5's retcode does.\<close>

lemma interpret_outcome:
  assumes "firstString (js_get r ''outcome'') = Some w"
  shows "(\<exists>e. interpretTradeResult env r rid = Inl e) \<longleftrightarrow> js_lower w = ''rejected''"
    and "(\<exists>x. interpretTradeResult env r rid = Inr x \<and> tr_state x = Accepted) \<longleftrightarrow> js_lower w = ''accepted''"
  using assms by (auto simp: interpretTradeResult_def trade_result_def Let_def split: option.splits)

lemma interpret_retcode:
  assumes "firstString (js_get r ''outcome'') = None" "rawRetcode_of r = Some raw"
  shows "(\<exists>e. interpretTradeResult env r rid = Inl e) \<longleftrightarrow> \<not> isSuccessRetcode (Some raw) \<and> \<not> isUnknownRetcode (Some raw)"
    and "(\<exists>x. interpretTradeResult env r rid = Inr x \<and> tr_state x = Accepted) \<longleftrightarrow>
      isSuccessRetcode (Some raw) \<and> \<not> isUnknownRetcode (Some raw)"
  using assms by (auto simp: interpretTradeResult_def trade_result_def Let_def)

lemma interpret_state:
  "interpretTradeResult env r rid = Inr x \<Longrightarrow> tr_state x = Accepted \<or> tr_state x = Unknown"
  by (auto simp: interpretTradeResult_def trade_result_def Let_def split: option.splits if_splits)

lemma interpret_error:
  "interpretTradeResult env r rid = Inl e \<Longrightarrow> te_kind e = ErrRejected \<and> \<not> te_retryable e \<and> te_requestId e = rid"
  by (auto simp: interpretTradeResult_def rejected_error_def tradeErrorFromRetcode_def new_TradingError_def
      Let_def split: option.splits if_splits prod.splits)

section \<open>Properties\<close>

text \<open>
  The verdict as a specification: the stated outcome decides alone; without one the retcode,
  without either the legacy result, and last the derived status.
\<close>

definition reply_accepted :: "js_value \<Rightarrow> bool" where
  "reply_accepted r \<longleftrightarrow> (case firstString (js_get r ''outcome'') of
     Some w \<Rightarrow> js_lower w = ''accepted''
   | None \<Rightarrow> (case rawRetcode_of r of
       Some raw \<Rightarrow> isSuccessRetcode (Some raw)
     | None \<Rightarrow> if js_typeof_object (js_get r ''order'') then js_get r ''mTresult'' \<noteq> JNum (Fin 0)
               else js_get r ''status'' \<noteq> JNum (Fin 5)))"

definition reply_refused :: "js_value \<Rightarrow> bool" where
  "reply_refused r \<longleftrightarrow> (case firstString (js_get r ''outcome'') of
     Some w \<Rightarrow> js_lower w = ''rejected''
   | None \<Rightarrow> (case rawRetcode_of r of
       Some raw \<Rightarrow> \<not> isSuccessRetcode (Some raw) \<and> \<not> isUnknownRetcode (Some raw)
     | None \<Rightarrow> if js_typeof_object (js_get r ''order'') then js_get r ''mTresult'' = JNum (Fin 0)
               else js_get r ''status'' = JNum (Fin 5)))"


text \<open>MT5's retcodes are read out of the wire form \<open>"<code> <text>"\<close> whatever text follows
  on the line: the error of a rejection carries the bare number in its code, is of kind
  rejected, and is never retryable.\<close>

theorem retcode_survives_text:
  assumes "code \<noteq> []" "\<forall>c\<in>set code. is_digit c" "\<forall>c\<in>set txt. \<not> js_newline c"
  shows "(let e = (tradeErrorFromRetcode env (code @ CHR '' '' # txt) sc rid :: terror) in
    te_code e = ''mt5.'' @ code \<and> te_kind e = ErrRejected \<and> \<not> te_retryable e) \<and>
    fst (parseRetcode (Some (code @ CHR '' '' # txt))) = code"
  using assms by (simp add: tradeErrorFromRetcode_def parseRetcode_wire new_TradingError_def or_str_def)

theorem retcode_survives_text_witness:
  "isInsufficientFunds (tradeErrorFromRetcode \<lparr>env_now = 0, env_uuid = ''u''\<rparr> ''10019 No money'' None None :: terror)"
proof -
  have "te_code (tradeErrorFromRetcode \<lparr>env_now = 0, env_uuid = ''u''\<rparr> (''10019'' @ CHR '' '' # ''No money'') None None :: terror)
      = ''mt5.'' @ ''10019''"
    using retcode_survives_text [of "''10019''" "''No money''" "\<lparr>env_now = 0, env_uuid = ''u''\<rparr>" None None]
    by (simp add: is_digit_def digit_val_def js_newline_def Let_def)
  then show ?thesis by (simp add: isInsufficientFunds_def)
qed

end
