(* ===== verification/TradeCodes.thy ===== *)
theory TradeCodes
  imports Models "HOL-Library.Char_ord"
begin

text \<open>
  The MT5 and TradingView code tables
  (\<^verbatim>\<open>frontend/src/integrations/gateway/mappers/trade-codes.ts\<close>) and the symbol suffix
  policy (\<^verbatim>\<open>frontend/src/integrations/gateway/mappers/symbol-suffix.ts\<close>).

  Shown: a code read back gives the kind and the side it was made from; lots survive the trip
  through MT5's volume units; a display name survives the trip through the gateway's
  suffixed name, so no two instruments share one.
\<close>

section \<open>Actions, types and volumes\<close>

text \<open>The wire values of \<^verbatim>\<open>MT5_ACTION\<close> and \<^verbatim>\<open>MT5_ORDER_TYPE\<close>.\<close>

datatype mt5_action = ExecutePosition | PlacePendingOrder | ModifyPosition | ModifyOrder | RemoveOrder

fun MT5_ACTION :: "mt5_action \<Rightarrow> string" where
  "MT5_ACTION ExecutePosition = ''200''"
| "MT5_ACTION PlacePendingOrder = ''201''"
| "MT5_ACTION ModifyPosition = ''202''"
| "MT5_ACTION ModifyOrder = ''203''"
| "MT5_ACTION RemoveOrder = ''204''"

datatype mt5_order_type = MarketBuy | MarketSell | LimitBuy | LimitSell | StopBuy | StopSell
  | StopLimitBuy | StopLimitSell

fun MT5_ORDER_TYPE :: "mt5_order_type \<Rightarrow> int" where
  "MT5_ORDER_TYPE MarketBuy = 0"
| "MT5_ORDER_TYPE MarketSell = 1"
| "MT5_ORDER_TYPE LimitBuy = 2"
| "MT5_ORDER_TYPE LimitSell = 3"
| "MT5_ORDER_TYPE StopBuy = 4"
| "MT5_ORDER_TYPE StopSell = 5"
| "MT5_ORDER_TYPE StopLimitBuy = 6"
| "MT5_ORDER_TYPE StopLimitSell = 7"

definition MT5_VOLUME_UNITS_PER_LOT :: int where
  "MT5_VOLUME_UNITS_PER_LOT = 10000"

definition lotsToMt5Volume :: "'d decimal_lib \<Rightarrow> string \<Rightarrow> js_number option" where
  "lotsToMt5Volume D lots = do { l \<leftarrow> dec D lots;
     Some (d_to_number D (d_round D (d_times D l (d_num D (js_int MT5_VOLUME_UNITS_PER_LOT))))) }"

text \<open>\<^verbatim>\<open>dec\<close> of a \<^verbatim>\<open>string | number\<close>.\<close>

fun dec_value :: "'d decimal_lib \<Rightarrow> js_value \<Rightarrow> 'd option" where
  "dec_value D (JStr s) = dec D s"
| "dec_value D (JNum n) = Some (d_num D n)"
| "dec_value D _ = None"

definition mt5VolumeToLots :: "'d decimal_lib \<Rightarrow> js_value \<Rightarrow> string option" where
  "mt5VolumeToLots D units = do { u \<leftarrow> dec_value D units;
     Some (decimalStringOf D (d_div D u (d_num D (js_int MT5_VOLUME_UNITS_PER_LOT)))) }"

definition MT5_VOLUME_EXT_UNITS_PER_LOT :: int where
  "MT5_VOLUME_EXT_UNITS_PER_LOT = 100000000"

definition mt5VolumeExtToLots :: "'d decimal_lib \<Rightarrow> js_value \<Rightarrow> string option" where
  "mt5VolumeExtToLots D units = do { u \<leftarrow> dec_value D units;
     Some (decimalStringOf D (d_div D u (d_num D (js_int MT5_VOLUME_EXT_UNITS_PER_LOT)))) }"

definition symbolVolumeToLots ::
  "'d decimal_lib \<Rightarrow> string option \<Rightarrow> string option \<Rightarrow> string option option" where
  "symbolVolumeToLots D standard extended =
     (case standard of Some s \<Rightarrow>
        if s \<noteq> '''' then map_option Some (mt5VolumeToLots D (JStr s))
        else (case extended of Some e \<Rightarrow>
          if e \<noteq> '''' then map_option Some (mt5VolumeExtToLots D (JStr e)) else Some None
          | None \<Rightarrow> Some None)
      | None \<Rightarrow> (case extended of Some e \<Rightarrow>
          if e \<noteq> '''' then map_option Some (mt5VolumeExtToLots D (JStr e)) else Some None
          | None \<Rightarrow> Some None))"

section \<open>Intents\<close>

datatype trade_intent = IOpen | IClose | IPlacePending | IModifyPending | ICancelPending | IModifyPosition

fun pendingOrderType :: "order_kind \<Rightarrow> side \<Rightarrow> string + int" where
  "pendingOrderType Limit side = Inr (MT5_ORDER_TYPE (if side = Buy then LimitBuy else LimitSell))"
| "pendingOrderType Stop side = Inr (MT5_ORDER_TYPE (if side = Buy then StopBuy else StopSell))"
| "pendingOrderType StopLimit side = Inr (MT5_ORDER_TYPE (if side = Buy then StopLimitBuy else StopLimitSell))"
| "pendingOrderType Market side = Inl ''A market order cannot be placed as a pending order''"

fun kind_text :: "order_kind \<Rightarrow> string" where
  "kind_text Market = ''market''"
| "kind_text Limit = ''limit''"
| "kind_text Stop = ''stop''"
| "kind_text StopLimit = ''stop-limit''"

definition pending_intents :: "trade_intent list" where
  "pending_intents = [IPlacePending, IModifyPending, ICancelPending]"

definition resolveMt5ActionAndType ::
  "trade_intent \<Rightarrow> order_kind \<Rightarrow> side \<Rightarrow> string + (mt5_action \<times> int)" where
  "resolveMt5ActionAndType intent kind side =
     (if \<not> List.member pending_intents intent then
        if kind \<noteq> Market
        then Inl (''Position actions require a market order type, got \"'' @ kind_text kind @ ''\"'')
        else Inr (if intent = IModifyPosition then ModifyPosition else ExecutePosition,
                  MT5_ORDER_TYPE (if side = Buy then MarketBuy else MarketSell))
      else case pendingOrderType kind side of Inl e \<Rightarrow> Inl e
        | Inr t \<Rightarrow> Inr (if intent = IPlacePending then PlacePendingOrder
                        else if intent = IModifyPending then ModifyOrder else RemoveOrder, t))"

fun oppositeSide :: "side \<Rightarrow> side" where
  "oppositeSide Buy = Sell"
| "oppositeSide Sell = Buy"

definition sideFromMt5Type :: "int \<Rightarrow> side" where
  "sideFromMt5Type mt5Type = (if mt5Type mod 2 = 0 then Buy else Sell)"

definition kindFromMt5Type :: "int \<Rightarrow> order_kind" where
  "kindFromMt5Type t = (
     if t = 0 \<or> t = 1 then Market else if t = 2 \<or> t = 3 then Limit
     else if t = 4 \<or> t = 5 then Stop else if t = 6 \<or> t = 7 then StopLimit else Market)"

definition sideFromTvSide :: "int \<Rightarrow> side" where
  "sideFromTvSide tvSide = (if tvSide \<ge> 0 then Buy else Sell)"

fun tvSideOf :: "side \<Rightarrow> int" where
  "tvSideOf Buy = 1"
| "tvSideOf Sell = -1"

definition kindFromTvType :: "int \<Rightarrow> order_kind" where
  "kindFromTvType t = (if t = 1 then Limit else if t = 2 then Market else if t = 3 then Stop
     else if t = 4 then StopLimit else Market)"

fun tvTypeOf :: "order_kind \<Rightarrow> int" where
  "tvTypeOf Limit = 1"
| "tvTypeOf Market = 2"
| "tvTypeOf Stop = 3"
| "tvTypeOf StopLimit = 4"

definition statusFromTvStatus :: "int \<Rightarrow> order_status" where
  "statusFromTvStatus t = (if t = 1 then Canceled else if t = 2 then Filled else if t = 3 then Expired
     else if t = 4 then Placing else if t = 5 then OrderRejected else if t = 6 then Working
     else StatusUnknown)"

definition statusFromMt5State :: "int \<Rightarrow> order_status" where
  "statusFromMt5State t = (if t = 0 then Placing else if t = 1 then Working else if t = 2 then Canceled
     else if t = 3 then Working else if t = 4 then Filled else if t = 5 then OrderRejected
     else if t = 6 then Expired else StatusUnknown)"

definition mt5StatesForTvType :: "int \<Rightarrow> int list" where
  "mt5StatesForTvType t = (if t = 2 then [0, 1] else if t = 1 then [2, 3] else if t = 3 then [4, 5]
     else if t = 4 then [6, 7] else [])"

definition digitsFromPrice :: "'d decimal_lib \<Rightarrow> string option \<Rightarrow> nat option" where
  "digitsFromPrice D price = (case price of None \<Rightarrow> Some 0 | Some p \<Rightarrow> map_option (d_places D) (dec D p))"

section \<open>The suffix policy\<close>

definition SYMBOLS_REQUIRING_SUFFIX :: "string list" where
  "SYMBOLS_REQUIRING_SUFFIX = [
     ''EURCZK'', ''EURHUF'', ''EURNOK'', ''EURPLN'', ''EURSEK'', ''EURTRY'', ''SGDJPY'', ''USDCNH'',
     ''USDCZK'', ''USDHKD'', ''USDHUF'', ''USDMXN'', ''USDNOK'', ''USDPLN'', ''USDRUB'', ''USDSEK'',
     ''USDSGD'', ''USDTRY'', ''USDZAR'', ''AUDUSD'', ''EURUSD'', ''GBPUSD'', ''NZDUSD'', ''USDCAD'',
     ''USDCHF'', ''USDJPY'', ''AUDCAD'', ''AUDCHF'', ''AUDJPY'', ''AUDNZD'', ''CADCHF'', ''CADJPY'',
     ''CHFJPY'', ''EURAUD'', ''EURCAD'', ''EURCHF'', ''EURGBP'', ''EURJPY'', ''EURNZD'', ''GBPAUD'',
     ''GBPCAD'', ''GBPCHF'', ''GBPJPY'', ''GBPNZD'', ''NZDCAD'', ''NZDCHF'', ''NZDJPY'', ''ASXAUD'',
     ''DAXEUR'', ''DJIUSD'', ''ESXEUR'', ''F40EUR'', ''FTSGBP'', ''HSIHKD'', ''IBXEUR'', ''NDXUSD'',
     ''NIKJPY'', ''SPXUSD'', ''BRNUSD'', ''NGCUSD'', ''WTIUSD'', ''XAGUSD'', ''XAUUSD'', ''XPDUSD'',
     ''XPTUSD'', ''DXY'']"

definition SUFFIX_DELIMITERS :: "string list" where
  "SUFFIX_DELIMITERS = [''.'', ''!'', ''#'']"

definition ACCOUNT_TYPE_SUFFIXES :: "(int \<times> string) list" where
  "ACCOUNT_TYPE_SUFFIXES = [(57, ''.''), (61, ''.''), (65, ''.''), (58, ''!''), (62, ''!''), (66, ''!''),
     (59, ''''), (63, ''''), (67, ''''), (60, ''#''), (64, ''#'')]"

definition SUPPORTED_ACCOUNT_TYPE_IDS :: "int list" where
  "SUPPORTED_ACCOUNT_TYPE_IDS = [57, 58, 59, 60, 61, 62, 63, 64, 65, 66, 67]"

definition suffixForAccountType :: "int option \<Rightarrow> string option" where
  "suffixForAccountType typeId = (case typeId of None \<Rightarrow> None | Some t \<Rightarrow> map_of ACCOUNT_TYPE_SUFFIXES t)"

text \<open>\<^verbatim>\<open>replace(/^[A-Za-z]+:/, '')\<close>\<close>

definition is_letter :: "char \<Rightarrow> bool" where
  "is_letter c = (CHR ''A'' \<le> c \<and> c \<le> CHR ''Z'' \<or> CHR ''a'' \<le> c \<and> c \<le> CHR ''z'')"

definition strip_exchange :: "string \<Rightarrow> string" where
  "strip_exchange s = (case dropWhile is_letter s of
     c # rest \<Rightarrow> if c = CHR '':'' \<and> takeWhile is_letter s \<noteq> [] then rest else s
   | [] \<Rightarrow> s)"

record suffix_policy =
  sp_suffix :: string

definition forAccountType :: "int option \<Rightarrow> suffix_policy" where
  "forAccountType typeId = \<lparr>sp_suffix = or_else (suffixForAccountType typeId) ''''\<rparr>"

definition NO_SUFFIX_POLICY :: suffix_policy where
  "NO_SUFFIX_POLICY = \<lparr>sp_suffix = ''''\<rparr>"

definition toGateway :: "suffix_policy \<Rightarrow> string \<Rightarrow> string" where
  "toGateway p displaySymbol =
     (let stem = strip_exchange displaySymbol
      in if sp_suffix p = '''' then stem
         else if \<not> List.member SYMBOLS_REQUIRING_SUFFIX stem then stem
         else if ends_with stem (sp_suffix p) then stem
         else stem @ sp_suffix p)"

fun strip_delimiters :: "string list \<Rightarrow> string \<Rightarrow> string" where
  "strip_delimiters [] name = name"
| "strip_delimiters (d # ds) name =
     (if ends_with name d \<and> List.member SYMBOLS_REQUIRING_SUFFIX (take (length name - length d) name)
      then take (length name - length d) name else strip_delimiters ds name)"

definition stripKnownSuffix :: "string \<Rightarrow> string" where
  "stripKnownSuffix symbol = strip_delimiters SUFFIX_DELIMITERS (strip_exchange symbol)"

definition toDisplay :: "suffix_policy \<Rightarrow> string \<Rightarrow> string" where
  "toDisplay p gatewaySymbol = stripKnownSuffix gatewaySymbol"

section \<open>Codes read back\<close>

lemma code_readback [simp]:
  "kindFromTvType (tvTypeOf k) = k" "sideFromTvSide (tvSideOf s) = s" "oppositeSide (oppositeSide s) = s"
  "tvSideOf (oppositeSide s) = - tvSideOf s"
  by (cases k; cases s; simp add: kindFromTvType_def sideFromTvSide_def)+

lemma resolve_codes:
  "resolveMt5ActionAndType intent kind side = Inr (a, t) \<Longrightarrow>
     kindFromMt5Type t = kind \<and> sideFromMt5Type t = side"
  by (cases intent; cases kind; cases side)
     (auto simp: resolveMt5ActionAndType_def pending_intents_def kindFromMt5Type_def sideFromMt5Type_def)

lemma resolve_refuses:
  "(\<exists>e. resolveMt5ActionAndType intent kind side = Inl e) \<longleftrightarrow>
     (kind = Market \<longleftrightarrow> List.member pending_intents intent)"
  by (cases intent; cases kind; cases side)
     (auto simp: resolveMt5ActionAndType_def pending_intents_def)

section \<open>Volumes read back\<close>

context decimal_js
begin

text \<open>A division by a power of ten is exact while the digits fit.\<close>

lemma rnd_scaled: "\<bar>n\<bar> < 10 ^ 28 \<Longrightarrow> rnd (of_int n / 10 ^ k) = of_int n / 10 ^ k"
  by (rule rnd_exact [of _ n "- int k"]) (simp_all add: power_int_minus divide_inverse)

lemma mt5VolumeToLots_value:
  assumes "\<bar>n\<bar> \<le> 2 ^ 53"
  shows "\<exists>s. mt5VolumeToLots D (JNum (js_int n)) = Some s \<and> is_dec D s \<and> dval D val s = of_int n / 10000"
proof -
  have "d_is_finite D (d_num D (js_int 10000))" "val (d_num D (js_int 10000)) = 10000"
    using num_val [of 10000] by simp_all
  then show ?thesis
    using num_val [OF assms] rnd_scaled [of n 4] assms
    by (simp add: mt5VolumeToLots_def MT5_VOLUME_UNITS_PER_LOT_def div_val)
qed

lemma lotsToMt5Volume_value:
  assumes "is_dec D s" "dval D val s * 10000 = of_int n" "\<bar>n\<bar> \<le> 2 ^ 53"
  shows "lotsToMt5Volume D s = Some (js_int n)"
proof -
  have "d_is_finite D (d_num D (js_int 10000))" "val (d_num D (js_int 10000)) = 10000"
    using num_val [of 10000] by simp_all
  moreover have "rnd (of_int n) = of_int n" using assms(3) by (intro rnd_int) simp
  ultimately show ?thesis
    using assms by (simp add: lotsToMt5Volume_def MT5_VOLUME_UNITS_PER_LOT_def times_val round_val to_number_int)
qed

end

section \<open>The suffix policy\<close>

lemma member_symbols: "List.member SYMBOLS_REQUIRING_SUFFIX s \<longleftrightarrow> s \<in> set SYMBOLS_REQUIRING_SUFFIX"
  by simp

text \<open>No listed symbol contains the characters the policy gives a meaning to.\<close>

lemma symbols_plain:
  assumes "s \<in> set SYMBOLS_REQUIRING_SUFFIX" "c \<in> set s"
  shows "c \<noteq> CHR '':'' \<and> c \<noteq> CHR ''.'' \<and> c \<noteq> CHR ''!'' \<and> c \<noteq> CHR ''#''"
proof -
  have "list_all (list_all (\<lambda>c. c \<noteq> CHR '':'' \<and> c \<noteq> CHR ''.'' \<and> c \<noteq> CHR ''!'' \<and> c \<noteq> CHR ''#''))
      SYMBOLS_REQUIRING_SUFFIX"
    by code_simp
  then show ?thesis using assms by (auto simp: list_all_iff)
qed

lemma strip_exchange_plain: "CHR '':'' \<notin> set s \<Longrightarrow> strip_exchange s = s"
proof (cases "dropWhile is_letter s")
  case (Cons c rest)
  assume "CHR '':'' \<notin> set s"
  moreover have "c \<in> set s" using set_dropWhileD [of c is_letter s] Cons by simp
  ultimately show ?thesis using Cons by (auto simp: strip_exchange_def)
next
  case Nil
  then show ?thesis unfolding strip_exchange_def by (simp only: list.case)
qed

lemma ends_with_last: "ends_with s [c] \<longleftrightarrow> s \<noteq> [] \<and> last s = c"
  by (cases s rule: rev_cases) (auto simp: ends_with_def)

lemma strip_delimiters_none:
  "\<forall>d\<in>set ds. \<not> ends_with name d \<Longrightarrow> strip_delimiters ds name = name"
  by (induction ds) auto

lemma stripKnownSuffix_stem:
  assumes "s \<in> set SYMBOLS_REQUIRING_SUFFIX" "d \<in> set (''''# SUFFIX_DELIMITERS)"
  shows "stripKnownSuffix (s @ d) = s"
proof -
  have plain: "CHR '':'' \<notin> set (s @ d)" "s = [] \<or> last s \<notin> {CHR ''.'', CHR ''!'', CHR ''#''}"
    using symbols_plain [OF assms(1)] assms(2) last_in_set [of s] by (auto simp: SUFFIX_DELIMITERS_def)
  have "\<not> ends_with s d" if "d \<in> set SUFFIX_DELIMITERS" for d
    using plain(2) that by (auto simp: SUFFIX_DELIMITERS_def ends_with_last)
  then have "strip_delimiters SUFFIX_DELIMITERS s = s" by (intro strip_delimiters_none) blast
  moreover have "strip_delimiters SUFFIX_DELIMITERS (s @ d) = s" if "d \<in> set SUFFIX_DELIMITERS"
    using that assms(1) by (auto simp: SUFFIX_DELIMITERS_def ends_with_last member_symbols)
  ultimately show ?thesis
    using assms(2) strip_exchange_plain [OF plain(1)] by (auto simp: stripKnownSuffix_def)
qed

lemma toDisplay_toGateway:
  assumes "sp_suffix p \<in> set ('''' # SUFFIX_DELIMITERS)" "CHR '':'' \<notin> set (strip_exchange s)"
  shows "toDisplay p (toGateway p s) = toDisplay p s"
proof (cases "sp_suffix p \<noteq> '''' \<and> strip_exchange s \<in> set SYMBOLS_REQUIRING_SUFFIX \<and>
    \<not> ends_with (strip_exchange s) (sp_suffix p)")
  case True
  then have "toDisplay p (toGateway p s) = strip_exchange s"
    using stripKnownSuffix_stem assms(1) by (simp add: toDisplay_def toGateway_def member_symbols)
  also have "\<dots> = stripKnownSuffix s"
    using stripKnownSuffix_stem [of "strip_exchange s" "''''"] True strip_exchange_plain [OF assms(2)]
    by (simp add: stripKnownSuffix_def)
  finally show ?thesis by (simp add: toDisplay_def)
next
  case False
  then have "toGateway p s = strip_exchange s" by (auto simp: toGateway_def member_symbols Let_def)
  then show ?thesis using strip_exchange_plain [OF assms(2)] by (simp add: toDisplay_def stripKnownSuffix_def)
qed

lemma forAccountType_suffix: "sp_suffix (forAccountType t) \<in> set ('''' # SUFFIX_DELIMITERS)"
  by (auto simp: forAccountType_def suffixForAccountType_def ACCOUNT_TYPE_SUFFIXES_def SUFFIX_DELIMITERS_def
      or_else_def split: option.splits if_splits)

section \<open>Properties\<close>

text \<open>Every (action, type) pair sent to MT5 reads back as the order kind and the side it was
  built from, and the combinations MT5 does not take - a market order as a pending one, any
  other kind as a position action - are refused, and only they.\<close>

theorem mt5_codes_roundtrip:
  "case resolveMt5ActionAndType intent kind side of
     Inr (a, t) \<Rightarrow> kindFromMt5Type t = kind \<and> sideFromMt5Type t = side
   | Inl e \<Rightarrow> (kind = Market) = List.member pending_intents intent"
  using resolve_codes resolve_refuses
  by (cases "resolveMt5ActionAndType intent kind side") (fastforce split: prod.splits)+

text \<open>MT5 volume units survive the trip through lots: read as lots and sent back, every whole
  number of units a JavaScript number holds exactly is itself again.\<close>

theorem volume_units_roundtrip:
  assumes "decimal_js D val" "\<bar>n\<bar> \<le> 2 ^ 53"
  shows "\<exists>s. mt5VolumeToLots D (JNum (js_int n)) = Some s \<and> lotsToMt5Volume D s = Some (js_int n)"
proof -
  obtain s where s: "mt5VolumeToLots D (JNum (js_int n)) = Some s" "is_dec D s" "dval D val s = of_int n / 10000"
    using decimal_js.mt5VolumeToLots_value [OF assms] by blast
  then have "lotsToMt5Volume D s = Some (js_int n)"
    using assms(2) by (intro decimal_js.lotsToMt5Volume_value [OF assms(1)]) simp_all
  with s show ?thesis by blast
qed

theorem volume_units_roundtrip_witness:
  "\<exists>s. mt5VolumeToLots ref_lib (JNum (js_int 123)) = Some s \<and> lotsToMt5Volume ref_lib s = Some (js_int 123)"
  by (rule volume_units_roundtrip [OF ref_laws]) simp

text \<open>A display name survives the gateway: under the policy of any account type, the gateway
  name made from it displays as the name itself would, so two names the interface tells
  apart are never sent as one.\<close>

theorem symbol_name_roundtrip:
  assumes "CHR '':'' \<notin> set (strip_exchange s)"
  shows "toDisplay (forAccountType t) (toGateway (forAccountType t) s) = toDisplay (forAccountType t) s"
  using toDisplay_toGateway [OF forAccountType_suffix assms] .

theorem symbol_name_roundtrip_witness:
  "toDisplay (forAccountType (Some 58)) (toGateway (forAccountType (Some 58)) ''FX:EURUSD'') = ''EURUSD'' \<and>
   toGateway (forAccountType (Some 58)) ''FX:EURUSD'' = ''EURUSD!''"
proof -
  have "CHR '':'' \<notin> set (strip_exchange ''FX:EURUSD'')" by code_simp
  moreover have "toDisplay (forAccountType (Some 58)) ''FX:EURUSD'' = ''EURUSD''"
      "toGateway (forAccountType (Some 58)) ''FX:EURUSD'' = ''EURUSD!''"
    by code_simp+
  ultimately show ?thesis using symbol_name_roundtrip [of "''FX:EURUSD''" "Some 58"] by simp
qed

end
