(* ===== verification/TradingApi.thy ===== *)
theory TradingApi
  imports TradeResult TradeCodes
begin

text \<open>
  The mutations of \<^verbatim>\<open>TradingApi\<close>
  (\<^verbatim>\<open>frontend/src/integrations/gateway/api/trading-api.ts\<close>): the six trade requests, the
  payload each one sends, and \<open>sendRequest\<close> with its reading of failures. The transport is a
  function argument from the request to what came back: what it threw, or the decoded body.

  Shown: which transport outcomes are reported as undecided rather than failed, and what the
  wire carries for the side, the kind and the brackets of each request.
\<close>

section \<open>Requests\<close>

record open_request =
  rq_login :: string
  rq_symbol :: string
  rq_side :: side
  rq_volumeLots :: string
  rq_price :: string
  rq_stopLoss :: "string option"
  rq_takeProfit :: "string option"
  rq_digits :: int

record pending_request = open_request +
  rq_kind :: order_kind

record modify_order_request = pending_request +
  rq_orderId :: string

record modify_position_request =
  mp_login :: string
  mp_symbol :: string
  mp_positionId :: string
  mp_side :: side
  mp_stopLoss :: "string option"
  mp_takeProfit :: "string option"
  mp_digits :: int

record close_request =
  cr_login :: string
  cr_symbol :: string
  cr_positionId :: string
  cr_side :: side
  cr_volumeLots :: string

record cancel_request =
  cq_login :: string
  cq_symbol :: string
  cq_orderId :: string
  cq_side :: side
  cq_kind :: order_kind

datatype trade_request = ReqOpen open_request | ReqPending pending_request
  | ReqModifyPosition modify_position_request | ReqClose close_request
  | ReqModifyOrder modify_order_request | ReqCancel cancel_request

section \<open>Payloads\<close>

text \<open>
  \<^verbatim>\<open>level === null ? 0 : Number(level)\<close>: zero is MT5's encoding of no level. A call that
  throws on the way to the request gives the text of its exception.
\<close>

definition level_value :: "string option \<Rightarrow> js_value" where
  "level_value x = JNum (case x of None \<Rightarrow> Fin 0 | Some s \<Rightarrow> js_Number s)"

definition or_throw :: "string \<Rightarrow> 'a option \<Rightarrow> string + 'a" where
  "or_throw message x = (case x of None \<Rightarrow> Inl message | Some a \<Rightarrow> Inr a)"

fun sum_bind :: "'e + 'a \<Rightarrow> ('a \<Rightarrow> 'e + 'b) \<Rightarrow> 'e + 'b" where
  "sum_bind (Inl e) f = Inl e"
| "sum_bind (Inr a) f = f a"

definition open_payload :: "'d decimal_lib \<Rightarrow> string \<Rightarrow> open_request \<Rightarrow> string + (string \<times> js_value) list" where
  "open_payload D bad r = sum_bind (resolveMt5ActionAndType IOpen Market (rq_side r)) (\<lambda>(action, type).
     sum_bind (or_throw bad (lotsToMt5Volume D (rq_volumeLots r))) (\<lambda>volume.
     Inr [(''action'', JStr (MT5_ACTION action)), (''login'', JStr (rq_login r)),
       (''symbol'', JStr (rq_symbol r)), (''type'', JNum (js_int type)), (''volume'', JNum volume),
       (''typeFill'', JNum (js_int 0)), (''priceOrder'', JNum (js_Number (rq_price r))),
       (''priceSL'', level_value (rq_stopLoss r)), (''priceTP'', level_value (rq_takeProfit r)),
       (''digits'', JNum (js_int (rq_digits r)))]))"

definition pending_payload :: "'d decimal_lib \<Rightarrow> string \<Rightarrow> pending_request \<Rightarrow> string + (string \<times> js_value) list" where
  "pending_payload D bad r = sum_bind (resolveMt5ActionAndType IPlacePending (rq_kind r) (rq_side r)) (\<lambda>(action, type).
     sum_bind (or_throw bad (lotsToMt5Volume D (rq_volumeLots r))) (\<lambda>volume.
     Inr [(''action'', JStr (MT5_ACTION action)), (''login'', JStr (rq_login r)),
       (''symbol'', JStr (rq_symbol r)), (''type'', JNum (js_int type)), (''volume'', JNum volume),
       (''typeFill'', JNum (js_int 2)), (''priceOrder'', JNum (js_Number (rq_price r))),
       (''priceTrigger'', JNum (js_int 0)),
       (''priceSL'', level_value (rq_stopLoss r)), (''priceTP'', level_value (rq_takeProfit r)),
       (''digits'', JNum (js_int (rq_digits r))), (''typetime'', JNum (js_int 0))]))"

definition modify_position_payload :: "modify_position_request \<Rightarrow> string + (string \<times> js_value) list" where
  "modify_position_payload r = sum_bind (resolveMt5ActionAndType IModifyPosition Market (mp_side r)) (\<lambda>(action, type).
     Inr [(''action'', JStr (MT5_ACTION action)), (''login'', JStr (mp_login r)),
       (''symbol'', JStr (mp_symbol r)), (''type'', JNum (js_int type)),
       (''position'', JStr (mp_positionId r)),
       (''priceSL'', level_value (mp_stopLoss r)), (''priceTP'', level_value (mp_takeProfit r)),
       (''digits'', JNum (js_int (mp_digits r)))])"

definition close_payload :: "'d decimal_lib \<Rightarrow> string \<Rightarrow> close_request \<Rightarrow> string + (string \<times> js_value) list" where
  "close_payload D bad r = sum_bind (resolveMt5ActionAndType IClose Market (oppositeSide (cr_side r))) (\<lambda>(action, type).
     sum_bind (or_throw bad (lotsToMt5Volume D (cr_volumeLots r))) (\<lambda>volume.
     Inr [(''action'', JStr (MT5_ACTION action)), (''login'', JStr (cr_login r)),
       (''symbol'', JStr (cr_symbol r)), (''type'', JNum (js_int type)), (''volume'', JNum volume),
       (''typeFill'', JNum (js_int 0)), (''position'', JStr (cr_positionId r))]))"

text \<open>\<^verbatim>\<open>request.digits || digitsFromPrice(request.price)\<close>: zero is falsy.\<close>

definition modify_order_payload ::
  "'d decimal_lib \<Rightarrow> string \<Rightarrow> modify_order_request \<Rightarrow> string + (string \<times> js_value) list" where
  "modify_order_payload D bad r = sum_bind (resolveMt5ActionAndType IModifyPending (rq_kind r) (rq_side r)) (\<lambda>(action, type).
     sum_bind (if rq_digits r \<noteq> 0 then Inr (rq_digits r)
               else or_throw bad (map_option int (digitsFromPrice D (Some (rq_price r))))) (\<lambda>digits.
     sum_bind (or_throw bad (lotsToMt5Volume D (rq_volumeLots r))) (\<lambda>volume.
     Inr [(''action'', JStr (MT5_ACTION action)), (''login'', JStr (rq_login r)),
       (''order'', JStr (rq_orderId r)), (''symbol'', JStr (rq_symbol r)), (''type'', JNum (js_int type)),
       (''priceOrder'', JNum (js_Number (rq_price r))), (''priceTrigger'', JNum (js_int 0)),
       (''priceSL'', level_value (rq_stopLoss r)), (''priceTP'', level_value (rq_takeProfit r)),
       (''digits'', JNum (js_int digits)), (''typetime'', JNum (js_int 0)), (''volume'', JNum volume)])))"

definition cancel_payload :: "cancel_request \<Rightarrow> string + (string \<times> js_value) list" where
  "cancel_payload r = sum_bind (resolveMt5ActionAndType ICancelPending (cq_kind r) (cq_side r)) (\<lambda>(action, type).
     Inr [(''action'', JStr (MT5_ACTION action)), (''login'', JStr (cq_login r)),
       (''order'', JStr (cq_orderId r)), (''symbol'', JStr (cq_symbol r)), (''type'', JNum (js_int type))])"

fun request_payload :: "'d decimal_lib \<Rightarrow> string \<Rightarrow> trade_request \<Rightarrow> string + (string \<times> js_value) list" where
  "request_payload D bad (ReqOpen r) = open_payload D bad r"
| "request_payload D bad (ReqPending r) = pending_payload D bad r"
| "request_payload D bad (ReqModifyPosition r) = modify_position_payload r"
| "request_payload D bad (ReqClose r) = close_payload D bad r"
| "request_payload D bad (ReqModifyOrder r) = modify_order_payload D bad r"
| "request_payload D bad (ReqCancel r) = cancel_payload r"

section \<open>Sending\<close>

text \<open>
  What the client reads of its surroundings: the clock and the request id, the text of the
  decimal library's exception, and whether the gateway advertises idempotency, asked before
  the request and again after a timeout.
\<close>

record api_env =
  ae_err :: err_env
  ae_requestId :: string
  ae_decimalError :: string
  ae_idempotent :: bool
  ae_idempotent_after :: bool

record http_request =
  hr_endpoint :: string
  hr_path :: string
  hr_method :: string
  hr_body :: js_value
  hr_idempotencyKey :: "string option"
  hr_timeoutMs :: int

type_synonym http_reply = "js_value thrown + js_value"

definition send_http :: "api_env \<Rightarrow> (string \<times> js_value) list \<Rightarrow> http_request" where
  "send_http env payload = \<lparr>hr_endpoint = ''trade-send-request'', hr_path = ''/api/Trade/send_request'',
     hr_method = ''POST'',
     hr_body = JObj (payload @ [(''source'', JStr ''tv''), (''clientRequestId'', JStr (ae_requestId env))]),
     hr_idempotencyKey = (if ae_idempotent env then Some (ae_requestId env) else None),
     hr_timeoutMs = 25000\<rparr>"

definition unknown_result :: "api_env \<Rightarrow> string \<Rightarrow> terror option \<Rightarrow> trade_submission_result" where
  "unknown_result env message diagnostic = \<lparr>tr_state = Unknown, tr_orderId = None, tr_retcode = None,
     tr_message = Some message, tr_requestId = ae_requestId env,
     tr_idempotencyKey = (if ae_idempotent env then Some (ae_requestId env) else None),
     tr_diagnostic = diagnostic\<rparr>"

definition interpretFailure :: "api_env \<Rightarrow> js_value thrown \<Rightarrow> terror + trade_submission_result" where
  "interpretFailure env error =
     (let e = TradingError_from (ae_err env) error (no_fallback\<lparr>fb_requestId := Some (ae_requestId env)\<rparr>)
      in if te_kind e = Timeout then Inr (unknown_result env
           (if ae_idempotent_after env
            then ''The outcome is unknown -- reconciling. Retrying with the same key is safe.''
            else ''The outcome is unknown -- reconciling with the trading server.'') None)
         else if te_kind e = Contract then Inr (unknown_result env
           ''The trading server's reply could not be read -- reconciling. Check Positions before retrying.''
           (Some e))
         else case statedOutcome (te_payload e) of
           Some (outcome, message) \<Rightarrow>
             if outcome = ''unknown'' then Inr (unknown_result env (or_else message undecided_message) (Some e))
             else Inl e
         | None \<Rightarrow> Inl e)"

definition sendRequest ::
  "api_env \<Rightarrow> (http_request \<Rightarrow> http_reply) \<Rightarrow> (string \<times> js_value) list \<Rightarrow> terror + trade_submission_result" where
  "sendRequest env http payload = (case http (send_http env payload) of
     Inl error \<Rightarrow> interpretFailure env error
   | Inr data \<Rightarrow> interpretTradeResult (ae_err env) data (ae_requestId env))"

text \<open>One mutation of the client: what it throws, or its result.\<close>

definition trade_call ::
  "'d decimal_lib \<Rightarrow> api_env \<Rightarrow> (http_request \<Rightarrow> http_reply) \<Rightarrow> trade_request \<Rightarrow>
   js_value thrown + trade_submission_result" where
  "trade_call D env http r = (case request_payload D (ae_decimalError env) r of
     Inl message \<Rightarrow> Inl (ThrownOther message)
   | Inr payload \<Rightarrow> (case sendRequest env http payload of
       Inl e \<Rightarrow> Inl (ThrownTrading e) | Inr x \<Rightarrow> Inr x))"

section \<open>The contract of a trading backend\<close>

text \<open>
  What the service relies on. A call that returns has been accepted or is undecided - never
  refused, never filled; a call that throws has a decided outcome: a timeout or an unreadable
  reply is not among its exceptions. The call may depend on a history \<open>h\<close>.
\<close>

locale trade_backend =
  fixes call :: "'h \<Rightarrow> trade_request \<Rightarrow> js_value thrown + trade_submission_result"
  assumes settled_state: "call h r = Inr x \<Longrightarrow> tr_state x = Accepted \<or> tr_state x = Unknown"
    and thrown_decided: "call h r = Inl (ThrownTrading e) \<Longrightarrow> te_kind e \<noteq> Timeout \<and> te_kind e \<noteq> Contract"
begin

lemma not_refused: "call h r = Inr x \<Longrightarrow> tr_state x \<noteq> Rejected"
  using settled_state by fastforce

lemma accepted_or_unknown: "call h r = Inr x \<Longrightarrow> tr_state x \<noteq> Accepted \<Longrightarrow> tr_state x = Unknown"
  using settled_state by blast

end

lemma interpretFailure_result:
  "interpretFailure env error = Inr x \<Longrightarrow> tr_state x = Unknown \<and> tr_requestId x = ae_requestId env"
  by (auto simp: interpretFailure_def unknown_result_def Let_def split: if_splits option.splits)

lemma interpretFailure_throws:
  "interpretFailure env error = Inl e \<Longrightarrow> te_kind e \<noteq> Timeout \<and> te_kind e \<noteq> Contract"
  by (auto simp: interpretFailure_def Let_def split: if_splits option.splits)

text \<open>The gateway client keeps the contract, whatever the transport does.\<close>

interpretation gateway: trade_backend "\<lambda>h r. trade_call D (env h) (http h) r" for D env http
proof
  show "tr_state x = Accepted \<or> tr_state x = Unknown" if "trade_call D (env h) (http h) r = Inr x" for h r x
    using that interpret_state interpretFailure_result
    by (auto simp: trade_call_def sendRequest_def split: sum.splits)
  show "te_kind e \<noteq> Timeout \<and> te_kind e \<noteq> Contract"
    if "trade_call D (env h) (http h) r = Inl (ThrownTrading e)" for h r e
    using that interpret_error interpretFailure_throws
    by (auto simp: trade_call_def sendRequest_def split: sum.splits)
qed

section \<open>What the wire carries\<close>

text \<open>The side the exchange executes: a close is sent on the opposite side of the position.\<close>

fun wire_side :: "trade_request \<Rightarrow> side" where
  "wire_side (ReqOpen r) = rq_side r"
| "wire_side (ReqPending r) = rq_side r"
| "wire_side (ReqModifyPosition r) = mp_side r"
| "wire_side (ReqClose r) = oppositeSide (cr_side r)"
| "wire_side (ReqModifyOrder r) = rq_side r"
| "wire_side (ReqCancel r) = cq_side r"

fun wire_kind :: "trade_request \<Rightarrow> order_kind" where
  "wire_kind (ReqPending r) = rq_kind r"
| "wire_kind (ReqModifyOrder r) = rq_kind r"
| "wire_kind (ReqCancel r) = cq_kind r"
| "wire_kind _ = Market"

fun wire_levels :: "trade_request \<Rightarrow> (string option \<times> string option) option" where
  "wire_levels (ReqOpen r) = Some (rq_stopLoss r, rq_takeProfit r)"
| "wire_levels (ReqPending r) = Some (rq_stopLoss r, rq_takeProfit r)"
| "wire_levels (ReqModifyPosition r) = Some (mp_stopLoss r, mp_takeProfit r)"
| "wire_levels (ReqModifyOrder r) = Some (rq_stopLoss r, rq_takeProfit r)"
| "wire_levels _ = None"

lemma sum_bind_Inr: "sum_bind m f = Inr b \<longleftrightarrow> (\<exists>a. m = Inr a \<and> f a = Inr b)"
  by (cases m) auto

lemma or_throw_Inr: "or_throw m x = Inr a \<longleftrightarrow> x = Some a"
  by (auto simp: or_throw_def split: option.splits)

lemmas payload_defs = open_payload_def pending_payload_def modify_position_payload_def close_payload_def
  modify_order_payload_def cancel_payload_def

lemma payload_type:
  assumes "request_payload D bad r = Inr ps"
  shows "\<exists>t. map_of ps ''type'' = Some (JNum (js_int t)) \<and> kindFromMt5Type t = wire_kind r \<and>
    sideFromMt5Type t = wire_side r"
  using assms
  by (cases r) (auto simp: payload_defs sum_bind_Inr dest!: resolve_codes)

lemma payload_levels:
  assumes "request_payload D bad r = Inr ps" "wire_levels r = Some (sl, tp)"
  shows "map_of ps ''priceSL'' = Some (level_value sl) \<and> map_of ps ''priceTP'' = Some (level_value tp)"
  using assms
  by (cases r) (auto simp: payload_defs sum_bind_Inr)

section \<open>Properties\<close>




end
