(* ===== verification/Validation.thy ===== *)
theory Validation
  imports Models
begin

text \<open>
  \<^verbatim>\<open>frontend/src/domain/orders/validation.ts\<close>: what the order ticket checks before a
  request is sent. The functions build the list of issues in the source's order; \<open>None\<close> is
  an exception of the decimal library, which the lemmas rule out for every text a trader can
  type. The main lemmas: an order that may be submitted has a positive volume inside the
  symbol's limits and on its step, prices on the price grid, and its protective levels on
  the right side; a volume limit that is not known never blocks.
\<close>

section \<open>Issues\<close>

datatype issue_field = FVolume | FPrice | FStopLoss | FTakeProfit | FSymbol | FAccount

datatype issue_severity = SevError | SevWarning

record validation_issue =
  vi_field :: issue_field
  vi_severity :: issue_severity
  vi_message :: string

record order_draft =
  od_kind :: order_kind
  od_side :: side
  od_volume :: string
  od_price :: "string option"
  od_stopLoss :: "string option"
  od_takeProfit :: "string option"

record validation_context =
  vc_symbol :: "trading_symbol option"
  vc_quote :: "quote option"
  vc_readOnly :: bool
  vc_marketClosed :: bool

record validation_result =
  vr_issues :: "validation_issue list"
  vr_canSubmit :: bool

abbreviation err :: "issue_field \<Rightarrow> string \<Rightarrow> validation_issue" where
  "err f m \<equiv> \<lparr>vi_field = f, vi_severity = SevError, vi_message = m\<rparr>"

abbreviation warn :: "issue_field \<Rightarrow> string \<Rightarrow> validation_issue" where
  "warn f m \<equiv> \<lparr>vi_field = f, vi_severity = SevWarning, vi_message = m\<rparr>"

definition has_error :: "validation_issue list \<Rightarrow> bool" where
  "has_error issues = (\<exists>i\<in>set issues. vi_severity i = SevError)"

lemma has_error_simps [simp]:
  "\<not> has_error []" "has_error (i # iss) \<longleftrightarrow> vi_severity i = SevError \<or> has_error iss"
  "has_error (xs @ ys) \<longleftrightarrow> has_error xs \<or> has_error ys"
  by (auto simp: has_error_def)

lemma has_error_if [simp]: "has_error (if b then xs else ys) = (if b then has_error xs else has_error ys)"
  by simp

section \<open>Volume\<close>

definition volumeIssues ::
  "'d decimal_lib \<Rightarrow> string \<Rightarrow> trading_symbol \<Rightarrow> validation_issue list option" where
  "volumeIssues D raw symbol = (case toDecimalString D (JStr raw) of
     None \<Rightarrow> Some [err FVolume ''Enter a valid volume.'']
   | Some volume \<Rightarrow> do {
       v \<leftarrow> dec D volume;
       if d_leq D v (d_num D (js_int 0))
       then Some [err FVolume ''Volume must be greater than zero.'']
       else do {
         below \<leftarrow> (case sy_volumeMin symbol of None \<Rightarrow> Some []
           | Some mn \<Rightarrow> do { c \<leftarrow> cmp D volume mn;
               Some (if c < 0 then [err FVolume (''Minimum volume is '' @ mn @ ''.'')] else []) });
         above \<leftarrow> (case sy_volumeMax symbol of None \<Rightarrow> Some []
           | Some mx \<Rightarrow> do { c \<leftarrow> cmp D volume mx;
               Some (if c > 0 then [err FVolume (''Maximum volume is '' @ mx @ ''.'')] else []) });
         off \<leftarrow> (case (sy_volumeStep symbol, sy_volumeMin symbol) of
             (Some st, Some mn) \<Rightarrow> do { on \<leftarrow> isOnVolumeStep D volume st mn;
               Some (if on then [] else [err FVolume (''Volume must be a multiple of '' @ st @ ''.'')]) }
           | _ \<Rightarrow> Some []);
         let unknown = (if sy_volumeMin symbol = None \<or> sy_volumeStep symbol = None
           then [warn FVolume ''Volume limits for this symbol are unavailable -- the server will validate them.'']
           else []);
         Some (below @ above @ off @ unknown) } })"

section \<open>Price grid\<close>

definition priceStepOf :: "'d decimal_lib \<Rightarrow> trading_symbol \<Rightarrow> string option" where
  "priceStepOf D symbol = do {
     positive \<leftarrow> (case sy_tickSize symbol of None \<Rightarrow> Some False
       | Some t \<Rightarrow> do { d \<leftarrow> dec D t; Some (d_less D (d_num D (js_int 0)) d) });
     if positive then sy_tickSize symbol
     else Some (d_fixed_dp D (d_pow D (d_num D (js_int 10)) (- max 0 (sy_digits symbol)))
            (nat (max 0 (sy_digits symbol)))) }"

definition priceStepIssues ::
  "'d decimal_lib \<Rightarrow> string \<Rightarrow> issue_field \<Rightarrow> string \<Rightarrow> trading_symbol \<Rightarrow> validation_issue list option"
where
  "priceStepIssues D value field label symbol = do {
     step \<leftarrow> priceStepOf D symbol;
     on \<leftarrow> isOnPriceStep D value step;
     Some (if on then [] else [err field (label @ '' must be a multiple of '' @ step @ ''.'')]) }"

section \<open>Orders\<close>

fun side_name :: "side \<Rightarrow> string" where
  "side_name Buy = ''buy''"
| "side_name Sell = ''sell''"

definition below_above :: "bool \<Rightarrow> string" where
  "below_above b = (if b then ''below'' else ''above'')"

text \<open>The entry price of a pending order: its text, its sign, the grid, the side of the market.\<close>

definition pendingSideIssues ::
  "'d decimal_lib \<Rightarrow> order_draft \<Rightarrow> string \<Rightarrow> quote \<Rightarrow> validation_issue list option" where
  "pendingSideIssues D draft entryPrice quote = do {
     let buy = (od_side draft = Buy);
     c \<leftarrow> cmp D entryPrice (if buy then q_ask quote else q_bid quote);
     let wrongSide = (if od_kind draft = Limit then (if buy then c > 0 else c < 0)
                      else (if buy then c < 0 else c > 0));
     Some (if wrongSide
       then [err FPrice (if od_kind draft = Limit
         then ''A '' @ side_name (od_side draft) @ '' limit must be '' @ below_above buy @ '' the current price.''
         else ''A '' @ side_name (od_side draft) @ '' stop must be '' @ below_above (\<not> buy) @ '' the current price.'')]
       else []) }"

definition pendingEntry ::
  "'d decimal_lib \<Rightarrow> order_draft \<Rightarrow> quote option \<Rightarrow> trading_symbol \<Rightarrow>
   (string option \<times> validation_issue list) option" where
  "pendingEntry D draft quote symbol =
     (case toDecimalString D (JStr (or_else (od_price draft) '''')) of
        None \<Rightarrow> Some (None, [err FPrice ''Enter an entry price.''])
      | Some p \<Rightarrow> do {
          d \<leftarrow> dec D p;
          text \<leftarrow> (if d_leq D d (d_num D (js_int 0))
            then Some [err FPrice ''Price must be greater than zero.'']
            else priceStepIssues D p FPrice ''Price'' symbol);
          market \<leftarrow> (case quote of None \<Rightarrow> Some []
            | Some q \<Rightarrow> if d_less D (d_num D (js_int 0)) d then pendingSideIssues D draft p q else Some []);
          Some (Some p, text @ market) })"

definition marketEntry ::
  "'d decimal_lib \<Rightarrow> order_draft \<Rightarrow> quote option \<Rightarrow> (string option \<times> validation_issue list) option" where
  "marketEntry D draft quote = do {
     let entryPrice = map_option (\<lambda>q. if od_side draft = Buy then q_ask q else q_bid q) quote;
     unusable \<leftarrow> (case entryPrice of None \<Rightarrow> Some True
       | Some p \<Rightarrow> do { d \<leftarrow> dec D p; Some (d_leq D d (d_num D (js_int 0))) });
     Some (if unusable then (None, [err FPrice ''No live price is available for this symbol.''])
           else (entryPrice, [])) }"

text \<open>Protective levels: the text, the grid, the side of the entry price.\<close>

definition levelIssues ::
  "'d decimal_lib \<Rightarrow> issue_field \<Rightarrow> string \<Rightarrow> trading_symbol \<Rightarrow> string option \<Rightarrow> validation_issue list option"
where
  "levelIssues D field label symbol level =
     (case level of None \<Rightarrow> Some [] | Some s \<Rightarrow> priceStepIssues D s field label symbol)"

definition entrySideIssues ::
  "'d decimal_lib \<Rightarrow> bool \<Rightarrow> issue_field \<Rightarrow> string \<Rightarrow> string option \<Rightarrow> string option \<Rightarrow>
   validation_issue list option" where
  "entrySideIssues D below field label entryPrice level = (case (entryPrice, level) of
     (Some e, Some l) \<Rightarrow> do {
       c \<leftarrow> cmp D l e;
       Some (if (if below then c \<ge> 0 else c \<le> 0)
             then [err field (label @ '' must be '' @ below_above below @ '' the entry price.'')] else []) }
   | _ \<Rightarrow> Some [])"

definition validateOrder ::
  "'d decimal_lib \<Rightarrow> order_draft \<Rightarrow> validation_context \<Rightarrow> validation_result option" where
  "validateOrder D draft context = do {
     let readOnly = (if vc_readOnly context
       then [err FAccount ''This account is read-only and cannot place trades.''] else []);
     case vc_symbol context of
       None \<Rightarrow> Some \<lparr>vr_issues = readOnly @ [err FSymbol ''Select a symbol.''], vr_canSubmit = False\<rparr>
     | Some symbol \<Rightarrow> do {
         let closed = (if vc_marketClosed context
           then [err FSymbol ''The market is closed for this symbol.''] else []);
         volume \<leftarrow> volumeIssues D (od_volume draft) symbol;
         (entryPrice, entry) \<leftarrow>
           (if od_kind draft \<noteq> Market then pendingEntry D draft (vc_quote context) symbol
            else marketEntry D draft (vc_quote context));
         let slText = or_else (od_stopLoss draft) '''';
         let tpText = or_else (od_takeProfit draft) '''';
         let stopLoss = toDecimalString D (JStr slText);
         let takeProfit = toDecimalString D (JStr tpText);
         let slInvalid = (if slText \<noteq> '''' \<and> stopLoss = None
           then [err FStopLoss ''Enter a valid stop-loss price.''] else []);
         let tpInvalid = (if tpText \<noteq> '''' \<and> takeProfit = None
           then [err FTakeProfit ''Enter a valid take-profit price.''] else []);
         slGrid \<leftarrow> levelIssues D FStopLoss ''Stop-loss'' symbol stopLoss;
         tpGrid \<leftarrow> levelIssues D FTakeProfit ''Take-profit'' symbol takeProfit;
         slSide \<leftarrow> entrySideIssues D (od_side draft = Buy) FStopLoss ''Stop-loss'' entryPrice stopLoss;
         tpSide \<leftarrow> entrySideIssues D (od_side draft \<noteq> Buy) FTakeProfit ''Take-profit'' entryPrice takeProfit;
         let issues = readOnly @ closed @ volume @ entry @ slInvalid @ tpInvalid @
                      slGrid @ tpGrid @ slSide @ tpSide;
         Some \<lparr>vr_issues = issues, vr_canSubmit = (\<not> has_error issues)\<rparr> } }"

section \<open>Brackets of an open position\<close>

record bracket_draft =
  bd_side :: side
  bd_stopLoss :: string
  bd_takeProfit :: string

definition positiveIssues :: "'d decimal_lib \<Rightarrow> issue_field \<Rightarrow> string \<Rightarrow> string option \<Rightarrow> validation_issue list option"
where
  "positiveIssues D field label level = (case level of None \<Rightarrow> Some []
     | Some s \<Rightarrow> do { d \<leftarrow> dec D s;
         Some (if d_leq D d (d_num D (js_int 0))
               then [err field (label @ '' must be greater than zero.'')] else []) })"

definition marketSideIssues ::
  "'d decimal_lib \<Rightarrow> bool \<Rightarrow> issue_field \<Rightarrow> string \<Rightarrow> string \<Rightarrow> string option \<Rightarrow> validation_issue list option" where
  "marketSideIssues D below field label referencePrice level = (case level of None \<Rightarrow> Some []
     | Some s \<Rightarrow> do {
         d \<leftarrow> dec D s;
         if d_less D (d_num D (js_int 0)) d then do {
           c \<leftarrow> cmp D s referencePrice;
           Some (if (if below then c \<ge> 0 else c \<le> 0)
             then [err field (''A '' @ label @ '' must be '' @ below_above below @
                              '' the current price ('' @ referencePrice @ '').'')] else []) }
         else Some [] })"

definition validatePositionBrackets ::
  "'d decimal_lib \<Rightarrow> bracket_draft \<Rightarrow> string option \<Rightarrow> trading_symbol option \<Rightarrow> validation_result option" where
  "validatePositionBrackets D draft referencePrice symbol = do {
     let wants = (\<lambda>raw. js_trim raw \<noteq> '''');
     let stopLoss = (if wants (bd_stopLoss draft) then toDecimalString D (JStr (bd_stopLoss draft)) else None);
     let takeProfit = (if wants (bd_takeProfit draft) then toDecimalString D (JStr (bd_takeProfit draft)) else None);
     let slInvalid = (if wants (bd_stopLoss draft) \<and> stopLoss = None
       then [err FStopLoss ''Enter a valid stop-loss price.''] else []);
     let tpInvalid = (if wants (bd_takeProfit draft) \<and> takeProfit = None
       then [err FTakeProfit ''Enter a valid take-profit price.''] else []);
     slPositive \<leftarrow> positiveIssues D FStopLoss ''Stop-loss'' stopLoss;
     tpPositive \<leftarrow> positiveIssues D FTakeProfit ''Take-profit'' takeProfit;
     slGrid \<leftarrow> (case symbol of None \<Rightarrow> Some [] | Some sy \<Rightarrow> levelIssues D FStopLoss ''Stop-loss'' sy stopLoss);
     tpGrid \<leftarrow> (case symbol of None \<Rightarrow> Some [] | Some sy \<Rightarrow> levelIssues D FTakeProfit ''Take-profit'' sy takeProfit);
     let common = slInvalid @ tpInvalid @ slPositive @ tpPositive @ slGrid @ tpGrid;
     case referencePrice of
       None \<Rightarrow>
         let issues = common @ (if stopLoss \<noteq> None \<or> takeProfit \<noteq> None
           then [warn FPrice ''No live price -- the trading server will have the final say on these levels.'']
           else [])
         in Some \<lparr>vr_issues = issues, vr_canSubmit = (\<not> has_error issues)\<rparr>
     | Some ref \<Rightarrow> do {
         slSide \<leftarrow> marketSideIssues D (bd_side draft = Buy) FStopLoss ''stop-loss'' ref stopLoss;
         tpSide \<leftarrow> marketSideIssues D (bd_side draft \<noteq> Buy) FTakeProfit ''take-profit'' ref takeProfit;
         let issues = common @ slSide @ tpSide;
         Some \<lparr>vr_issues = issues, vr_canSubmit = (\<not> has_error issues)\<rparr> } }"

definition issueFor :: "validation_result \<Rightarrow> issue_field \<Rightarrow> validation_issue option" where
  "issueFor result field =
     (case find (\<lambda>i. vi_field i = field \<and> vi_severity i = SevError) (vr_issues result) of
        Some i \<Rightarrow> Some i
      | None \<Rightarrow> find (\<lambda>i. vi_field i = field) (vr_issues result))"

section \<open>Correctness\<close>

definition wf_symbol :: "'d decimal_lib \<Rightarrow> trading_symbol \<Rightarrow> bool" where
  "wf_symbol D sy \<longleftrightarrow> is_dec_opt D (sy_volumeMin sy) \<and> is_dec_opt D (sy_volumeMax sy) \<and>
     is_dec_opt D (sy_volumeStep sy) \<and> is_dec_opt D (sy_contractSize sy) \<and>
     is_dec_opt D (sy_tickSize sy) \<and> is_dec_opt D (sy_tickValue sy)"

definition wf_quote :: "'d decimal_lib \<Rightarrow> quote \<Rightarrow> bool" where
  "wf_quote D q \<longleftrightarrow> is_dec D (q_bid q) \<and> is_dec D (q_ask q) \<and> is_dec D (q_last q)"

definition wf_context :: "'d decimal_lib \<Rightarrow> validation_context \<Rightarrow> bool" where
  "wf_context D c \<longleftrightarrow> (\<forall>sy. vc_symbol c = Some sy \<longrightarrow> wf_symbol D sy) \<and>
     (\<forall>q. vc_quote c = Some q \<longrightarrow> wf_quote D q)"

text \<open>The price an order is judged against: its own for a pending order, the market's otherwise.\<close>

definition entry_price :: "'d decimal_lib \<Rightarrow> order_draft \<Rightarrow> validation_context \<Rightarrow> string option" where
  "entry_price D draft c = (if od_kind draft = Market
     then map_option (\<lambda>q. if od_side draft = Buy then q_ask q else q_bid q) (vc_quote c)
     else toDecimalString D (JStr (or_else (od_price draft) '''')))"

text \<open>
  What an order must satisfy, stated on the numbers its texts denote. The order validation
  accepts exactly the orders for which \<open>order_ok\<close> holds.
\<close>

definition volume_ok :: "'d decimal_lib \<Rightarrow> ('d \<Rightarrow> rat) \<Rightarrow> trading_symbol \<Rightarrow> string \<Rightarrow> bool" where
  "volume_ok D val sy raw \<longleftrightarrow> (\<exists>v. toDecimalString D (JStr raw) = Some v \<and> 0 < dval D val v \<and>
     (\<forall>mn. sy_volumeMin sy = Some mn \<longrightarrow> dval D val mn \<le> dval D val v) \<and>
     (\<forall>mx. sy_volumeMax sy = Some mx \<longrightarrow> dval D val v \<le> dval D val mx) \<and>
     (\<forall>st mn. sy_volumeStep sy = Some st \<longrightarrow> sy_volumeMin sy = Some mn \<longrightarrow>
        isOnVolumeStep D v st mn = Some True))"

definition on_grid :: "'d decimal_lib \<Rightarrow> trading_symbol \<Rightarrow> string \<Rightarrow> bool" where
  "on_grid D sy s \<longleftrightarrow> (\<exists>st. priceStepOf D sy = Some st \<and> isOnPriceStep D s st = Some True)"

fun right_side :: "order_kind \<Rightarrow> side \<Rightarrow> rat \<Rightarrow> rat \<Rightarrow> rat \<Rightarrow> bool" where
  "right_side Limit Buy p bid ask = (p \<le> ask)"
| "right_side Limit Sell p bid ask = (bid \<le> p)"
| "right_side k Buy p bid ask = (ask \<le> p)"
| "right_side k Sell p bid ask = (p \<le> bid)"

definition level_ok ::
  "'d decimal_lib \<Rightarrow> ('d \<Rightarrow> rat) \<Rightarrow> trading_symbol \<Rightarrow> bool \<Rightarrow> rat \<Rightarrow> string \<Rightarrow> bool" where
  "level_ok D val sy below e raw \<longleftrightarrow> raw = '''' \<or>
     (\<exists>s. toDecimalString D (JStr raw) = Some s \<and> on_grid D sy s \<and>
          (if below then dval D val s < e else e < dval D val s))"

definition entry_ok ::
  "'d decimal_lib \<Rightarrow> ('d \<Rightarrow> rat) \<Rightarrow> order_draft \<Rightarrow> validation_context \<Rightarrow> trading_symbol \<Rightarrow> string \<Rightarrow> bool"
where
  "entry_ok D val draft c sy e \<longleftrightarrow> 0 < dval D val e \<and>
     (od_kind draft \<noteq> Market \<longrightarrow> on_grid D sy e \<and>
        (\<forall>q. vc_quote c = Some q \<longrightarrow> right_side (od_kind draft) (od_side draft)
           (dval D val e) (dval D val (q_bid q)) (dval D val (q_ask q))))"

definition order_ok ::
  "'d decimal_lib \<Rightarrow> ('d \<Rightarrow> rat) \<Rightarrow> order_draft \<Rightarrow> validation_context \<Rightarrow> trading_symbol \<Rightarrow> bool" where
  "order_ok D val draft c sy \<longleftrightarrow> \<not> vc_readOnly c \<and> \<not> vc_marketClosed c \<and>
     volume_ok D val sy (od_volume draft) \<and>
     (\<exists>e. entry_price D draft c = Some e \<and> entry_ok D val draft c sy e \<and>
        level_ok D val sy (od_side draft = Buy) (dval D val e) (or_else (od_stopLoss draft) '''') \<and>
        level_ok D val sy (od_side draft \<noteq> Buy) (dval D val e) (or_else (od_takeProfit draft) ''''))"

definition bracket_ok ::
  "'d decimal_lib \<Rightarrow> ('d \<Rightarrow> rat) \<Rightarrow> trading_symbol option \<Rightarrow> bool \<Rightarrow> string option \<Rightarrow> string \<Rightarrow> bool" where
  "bracket_ok D val syo below ref raw \<longleftrightarrow> js_trim raw = '''' \<or>
     (\<exists>s. toDecimalString D (JStr raw) = Some s \<and> 0 < dval D val s \<and>
        (\<forall>sy. syo = Some sy \<longrightarrow> on_grid D sy s) \<and>
        (\<forall>r. ref = Some r \<longrightarrow> (if below then dval D val s < dval D val r else dval D val r < dval D val s)))"

context decimal_js
begin

lemma priceStepOf_value:
  assumes "wf_symbol D sy"
  obtains st where "priceStepOf D sy = Some st" "is_dec D st" "0 < dval D val st"
proof -
  define n where "n = nat (max 0 (sy_digits sy))"
  define t where "t = d_pow D (d_num D (js_int 10)) (- max 0 (sy_digits sy))"
  have t: "d_is_finite D t" "val t = 1 / 10 ^ n"
    using pow_ten [of "d_num D (js_int 10)" "- max 0 (sy_digits sy)"]
    by (simp_all add: t_def n_def power_int_def inverse_eq_divide power_one_over [symmetric])
  obtain b where b: "d_parse D (d_fixed_dp D t n) = Some b" "d_is_finite D b"
    "val b = of_int (round_half_up (val t * 10 ^ n)) / 10 ^ n"
    using fixed_dp_parses [OF t(1)] by blast
  have "val t * 10 ^ n = of_int 1" by (simp add: t)
  then have "val b = 1 / 10 ^ n" using b(3) round_half_up_int [of 1] by simp
  then have fixed: "is_dec D (d_fixed_dp D t n)" "0 < dval D val (d_fixed_dp D t n)"
    using b by (simp_all add: is_dec_def dval_def dnum_def)
  show thesis
  proof (cases "\<exists>u. sy_tickSize sy = Some u \<and> 0 < dval D val u")
    case True
    then obtain u where u: "sy_tickSize sy = Some u" "0 < dval D val u" by blast
    moreover from this have "is_dec D u" using assms by (simp add: wf_symbol_def)
    ultimately show thesis using that [of u] by (simp add: priceStepOf_def less_val)
  next
    case False
    then have "priceStepOf D sy = Some (d_fixed_dp D t n)"
      using assms by (cases "sy_tickSize sy") (auto simp: priceStepOf_def wf_symbol_def less_val t_def n_def)
    then show thesis using that fixed by blast
  qed
qed

lemma isOnPriceStep_total: "is_dec D v \<Longrightarrow> is_dec D st \<Longrightarrow> \<exists>b. isOnPriceStep D v st = Some b"
  by (auto simp: isOnPriceStep_def)

lemma priceStepIssues_total:
  assumes "wf_symbol D sy" "is_dec D v"
  shows "\<exists>iss. priceStepIssues D v f l sy = Some iss"
proof -
  obtain st where "priceStepOf D sy = Some st" "is_dec D st" using assms(1) by (rule priceStepOf_value)
  then show ?thesis using isOnPriceStep_total [OF assms(2)] by (fastforce simp: priceStepIssues_def)
qed

lemma volumeIssues_total: "wf_symbol D sy \<Longrightarrow> \<exists>iss. volumeIssues D raw sy = Some iss"
  by (auto simp: volumeIssues_def wf_symbol_def isOnVolumeStep_def Let_def
      split: option.splits dest!: toDecimalString_is_dec)

lemma levelIssues_total:
  "wf_symbol D sy \<Longrightarrow> \<exists>iss. levelIssues D f l sy (toDecimalString D v) = Some iss"
  by (auto simp: levelIssues_def split: option.splits
      intro: priceStepIssues_total)

lemma entrySideIssues_total:
  "is_dec_opt D e \<Longrightarrow> is_dec_opt D l \<Longrightarrow> \<exists>iss. entrySideIssues D b f lb e l = Some iss"
  by (auto simp: entrySideIssues_def split: option.splits)

lemma is_dec_opt_toDecimalString [simp]: "is_dec_opt D (toDecimalString D v)"
  by (auto simp: is_dec_opt_def split: option.splits)

lemma pendingEntry_total:
  assumes "wf_symbol D sy" "\<forall>q. quote = Some q \<longrightarrow> wf_quote D q"
  shows "\<exists>iss. pendingEntry D draft quote sy =
    Some (toDecimalString D (JStr (or_else (od_price draft) '''')), iss)"
proof (cases "toDecimalString D (JStr (or_else (od_price draft) ''''))")
  case (Some p)
  then have p: "is_dec D p" by blast
  obtain iss where "priceStepIssues D p FPrice ''Price'' sy = Some iss"
    using priceStepIssues_total [OF assms(1) p] by blast
  moreover have "\<exists>ms. pendingSideIssues D draft p q = Some ms" if "quote = Some q" for q
    using assms(2) p that by (auto simp: pendingSideIssues_def wf_quote_def Let_def)
  ultimately show ?thesis
    using Some p by (cases quote) (auto simp: pendingEntry_def)
qed (simp add: pendingEntry_def)

lemma marketEntry_total:
  assumes "\<forall>q. quote = Some q \<longrightarrow> wf_quote D q"
  obtains e iss where "marketEntry D draft quote = Some (e, iss)" "is_dec_opt D e"
    "\<not> has_error iss \<Longrightarrow> \<exists>q p. quote = Some q \<and> e = Some p \<and> 0 < dval D val p \<and>
       p = (if od_side draft = Buy then q_ask q else q_bid q)"
proof (cases quote)
  case None
  then show thesis using that [of None] by (simp add: marketEntry_def)
next
  case (Some q)
  define p where "p = (if od_side draft = Buy then q_ask q else q_bid q)"
  have p: "is_dec D p" using assms Some by (simp add: p_def wf_quote_def)
  show thesis
  proof (cases "dval D val p \<le> 0")
    case True
    then show thesis
      using that [of None] Some p by (simp add: marketEntry_def leq_val flip: p_def)
  next
    case False
    then show thesis
      using that [of "Some p" "[]"] Some p by (simp add: marketEntry_def leq_val p_def flip: p_def)
  qed
qed

text \<open>The issue lists the validation is put together from, and the result in terms of them.\<close>

lemma validateOrder_pieces:
  assumes "wf_context D c" "vc_symbol c = Some sy"
  obtains vol e ent sg tg ss ts where
    "volumeIssues D (od_volume draft) sy = Some vol"
    "(if od_kind draft \<noteq> Market then pendingEntry D draft (vc_quote c) sy
      else marketEntry D draft (vc_quote c)) = Some (e, ent)" "is_dec_opt D e"
    "levelIssues D FStopLoss ''Stop-loss'' sy (toDecimalString D (JStr (or_else (od_stopLoss draft) ''''))) = Some sg"
    "levelIssues D FTakeProfit ''Take-profit'' sy (toDecimalString D (JStr (or_else (od_takeProfit draft) ''''))) = Some tg"
    "entrySideIssues D (od_side draft = Buy) FStopLoss ''Stop-loss'' e
      (toDecimalString D (JStr (or_else (od_stopLoss draft) ''''))) = Some ss"
    "entrySideIssues D (od_side draft \<noteq> Buy) FTakeProfit ''Take-profit'' e
      (toDecimalString D (JStr (or_else (od_takeProfit draft) ''''))) = Some ts"
    "\<exists>iss. validateOrder D draft c = Some \<lparr>vr_issues = iss, vr_canSubmit = (\<not> vc_readOnly c \<and>
       \<not> vc_marketClosed c \<and> \<not> has_error vol \<and> \<not> has_error ent \<and>
       \<not> (has_error sg \<or> has_error ss \<or> (or_else (od_stopLoss draft) '''' \<noteq> '''' \<and>
            toDecimalString D (JStr (or_else (od_stopLoss draft) '''')) = None)) \<and>
       \<not> (has_error tg \<or> has_error ts \<or> (or_else (od_takeProfit draft) '''' \<noteq> '''' \<and>
            toDecimalString D (JStr (or_else (od_takeProfit draft) '''')) = None)))\<rparr>"
proof -
  have wf: "wf_symbol D sy" "\<forall>q. vc_quote c = Some q \<longrightarrow> wf_quote D q"
    using assms by (auto simp: wf_context_def)
  let ?sl = "toDecimalString D (JStr (or_else (od_stopLoss draft) ''''))"
  let ?tp = "toDecimalString D (JStr (or_else (od_takeProfit draft) ''''))"
  obtain vol where vol: "volumeIssues D (od_volume draft) sy = Some vol"
    using volumeIssues_total [OF wf(1)] by blast
  obtain sg where sg: "levelIssues D FStopLoss ''Stop-loss'' sy ?sl = Some sg"
    using levelIssues_total [OF wf(1)] by blast
  obtain tg where tg: "levelIssues D FTakeProfit ''Take-profit'' sy ?tp = Some tg"
    using levelIssues_total [OF wf(1)] by blast
  obtain e ent where e: "(if od_kind draft \<noteq> Market then pendingEntry D draft (vc_quote c) sy
      else marketEntry D draft (vc_quote c)) = Some (e, ent)" "is_dec_opt D e"
    using pendingEntry_total [OF wf] marketEntry_total [OF wf(2)] is_dec_opt_toDecimalString
    by (metis (full_types))
  obtain ss where ss: "entrySideIssues D (od_side draft = Buy) FStopLoss ''Stop-loss'' e ?sl = Some ss"
    using entrySideIssues_total [OF e(2) is_dec_opt_toDecimalString] by blast
  obtain ts where ts: "entrySideIssues D (od_side draft \<noteq> Buy) FTakeProfit ''Take-profit'' e ?tp = Some ts"
    using entrySideIssues_total [OF e(2) is_dec_opt_toDecimalString] by blast
  show thesis
    by (rule that [OF vol e sg tg ss ts])
       (use assms(2) vol e sg tg ss ts in
         \<open>simp add: validateOrder_def Let_def; blast\<close>)
qed

text \<open>Whatever a trader types, the validation returns: no text makes it throw.\<close>

lemma validateOrder_total:
  assumes "wf_context D c"
  shows "\<exists>r. validateOrder D draft c = Some r"
proof (cases "vc_symbol c")
  case None
  then show ?thesis by (simp add: validateOrder_def Let_def)
next
  case (Some sy)
  show ?thesis by (rule validateOrder_pieces [OF assms Some, of draft]) blast
qed

lemma priceStepIssues_error:
  assumes "wf_symbol D sy" "is_dec D v" "priceStepIssues D v f l sy = Some iss"
  shows "has_error iss \<longleftrightarrow> \<not> on_grid D sy v"
proof -
  obtain st where st: "priceStepOf D sy = Some st" "is_dec D st"
    using assms(1) by (rule priceStepOf_value)
  obtain b where "isOnPriceStep D v st = Some b" using isOnPriceStep_total [OF assms(2) st(2)] by blast
  with st assms(3) show ?thesis by (auto simp: priceStepIssues_def on_grid_def)
qed

lemma volumeIssues_error:
  assumes "wf_symbol D sy" "volumeIssues D raw sy = Some iss"
  shows "has_error iss \<longleftrightarrow> \<not> volume_ok D val sy raw"
proof (cases "toDecimalString D (JStr raw)")
  case (Some v)
  then have v: "is_dec D v" by blast
  have step: "\<exists>b. isOnVolumeStep D v st mn = Some b" if "is_dec D st" "is_dec D mn" for st mn
    using v that by (auto simp: isOnVolumeStep_def)
  show ?thesis
  proof (cases "dval D val v \<le> 0")
    case True
    then show ?thesis using Some v assms(2)
      by (auto simp: volumeIssues_def volume_ok_def leq_val)
  next
    case False
    then show ?thesis using Some v assms step
      by (auto simp: volumeIssues_def volume_ok_def wf_symbol_def leq_val Let_def
          split: option.splits if_splits Option.bind_splits)
  qed
qed (use assms in \<open>auto simp: volumeIssues_def volume_ok_def\<close>)

lemma level_error:
  assumes "wf_symbol D sy" "is_dec D e"
    and "levelIssues D f l sy (toDecimalString D (JStr raw)) = Some g"
    and "entrySideIssues D below f l (Some e) (toDecimalString D (JStr raw)) = Some sd"
  shows "has_error g \<or> has_error sd \<or> (raw \<noteq> '''' \<and> toDecimalString D (JStr raw) = None) \<longleftrightarrow>
    \<not> level_ok D val sy below (dval D val e) raw"
proof (cases "toDecimalString D (JStr raw)")
  case None
  then show ?thesis using assms(3,4)
    by (auto simp: levelIssues_def entrySideIssues_def level_ok_def)
next
  case (Some s)
  then have s: "is_dec D s" by blast
  have "raw \<noteq> ''''" using Some by (auto simp: toDecimalString.simps)
  then have raw: "raw \<noteq> '''' \<and> toDecimalString D (JStr raw) = None \<longleftrightarrow> False"
    "level_ok D val sy below r raw \<longleftrightarrow> on_grid D sy s \<and>
       (if below then dval D val s < r else r < dval D val s)" for r
    using Some by (simp_all add: level_ok_def)
  have "has_error g \<longleftrightarrow> \<not> on_grid D sy s"
    using assms(3) Some priceStepIssues_error [OF assms(1) s]
    by (simp add: levelIssues_def)
  moreover have "has_error sd \<longleftrightarrow> \<not> (if below then dval D val s < dval D val e else dval D val e < dval D val s)"
    using assms(2,4) Some s by (auto simp: entrySideIssues_def)
  ultimately show ?thesis unfolding raw by blast
qed

lemma pendingEntry_error:
  assumes "wf_symbol D sy" "\<forall>q. quote = Some q \<longrightarrow> wf_quote D q" "od_kind draft \<noteq> Market"
    and "pendingEntry D draft quote sy = Some (e, iss)"
  shows "has_error iss \<longleftrightarrow> \<not> (\<exists>p. e = Some p \<and> 0 < dval D val p \<and> on_grid D sy p \<and>
    (\<forall>q. quote = Some q \<longrightarrow> right_side (od_kind draft) (od_side draft)
       (dval D val p) (dval D val (q_bid q)) (dval D val (q_ask q))))"
proof (cases "toDecimalString D (JStr (or_else (od_price draft) ''''))")
  case None
  then show ?thesis using assms(4) by (auto simp: pendingEntry_def)
next
  case (Some p)
  then have p: "is_dec D p" by blast
  have side: "\<exists>m. pendingSideIssues D draft p q = Some m \<and> (has_error m \<longleftrightarrow> \<not> right_side (od_kind draft) (od_side draft)
       (dval D val p) (dval D val (q_bid q)) (dval D val (q_ask q)))" if "quote = Some q" for q
    using assms(2,3) p that
    by (cases "od_kind draft"; cases "od_side draft")
       (auto simp: pendingSideIssues_def wf_quote_def Let_def)
  obtain g where g: "priceStepIssues D p FPrice ''Price'' sy = Some g"
    using priceStepIssues_total [OF assms(1) p] by blast
  then have "has_error g \<longleftrightarrow> \<not> on_grid D sy p" using priceStepIssues_error [OF assms(1) p] by blast
  then show ?thesis
    using assms(4) Some p g side
    by (cases quote) (auto simp: pendingEntry_def leq_val less_val split: if_splits)
qed

lemma entry_error:
  assumes wf: "wf_symbol D sy" "\<forall>q. vc_quote c = Some q \<longrightarrow> wf_quote D q"
    and ent: "(if od_kind draft \<noteq> Market then pendingEntry D draft (vc_quote c) sy
      else marketEntry D draft (vc_quote c)) = Some (e, ent)"
  shows "\<not> has_error ent \<longleftrightarrow> (\<exists>p. e = Some p \<and> entry_price D draft c = Some p \<and> entry_ok D val draft c sy p)"
    and "entry_price D draft c = Some p \<Longrightarrow> entry_ok D val draft c sy p \<Longrightarrow> e = Some p"
proof -
  have "(\<not> has_error ent \<longleftrightarrow> (\<exists>p. e = Some p \<and> entry_price D draft c = Some p \<and> entry_ok D val draft c sy p)) \<and>
    (\<forall>p. entry_price D draft c = Some p \<longrightarrow> entry_ok D val draft c sy p \<longrightarrow> e = Some p)"
  proof (cases "od_kind draft = Market")
    case True
    then show ?thesis using ent wf(2)
      by (cases "vc_quote c")
         (auto simp: marketEntry_def entry_price_def entry_ok_def wf_quote_def leq_val split: if_splits)
  next
    case False
    then have pe: "pendingEntry D draft (vc_quote c) sy = Some (e, ent)" using ent by simp
    then have "e = toDecimalString D (JStr (or_else (od_price draft) ''''))"
      using pendingEntry_total [OF wf, of draft] by auto
    then show ?thesis using pendingEntry_error [OF wf False pe] False
      by (auto simp: entry_price_def entry_ok_def)
  qed
  then show "\<not> has_error ent \<longleftrightarrow> (\<exists>p. e = Some p \<and> entry_price D draft c = Some p \<and> entry_ok D val draft c sy p)"
    and "entry_price D draft c = Some p \<Longrightarrow> entry_ok D val draft c sy p \<Longrightarrow> e = Some p" by blast+
qed

text \<open>The validation implements its specification, in both directions.\<close>

lemma validateOrder_iff:
  assumes "wf_context D c" "vc_symbol c = Some sy" "validateOrder D draft c = Some res"
  shows "vr_canSubmit res \<longleftrightarrow> order_ok D val draft c sy"
proof -
  have wf: "wf_symbol D sy" "\<forall>q. vc_quote c = Some q \<longrightarrow> wf_quote D q"
    using assms by (auto simp: wf_context_def)
  let ?sl = "or_else (od_stopLoss draft) ''''" and ?tp = "or_else (od_takeProfit draft) ''''"
  obtain vol e ent sg tg ss ts where
    vol: "volumeIssues D (od_volume draft) sy = Some vol"
    and ent: "(if od_kind draft \<noteq> Market then pendingEntry D draft (vc_quote c) sy
      else marketEntry D draft (vc_quote c)) = Some (e, ent)" "is_dec_opt D e"
    and sl: "levelIssues D FStopLoss ''Stop-loss'' sy (toDecimalString D (JStr ?sl)) = Some sg"
      "entrySideIssues D (od_side draft = Buy) FStopLoss ''Stop-loss'' e (toDecimalString D (JStr ?sl)) = Some ss"
    and tp: "levelIssues D FTakeProfit ''Take-profit'' sy (toDecimalString D (JStr ?tp)) = Some tg"
      "entrySideIssues D (od_side draft \<noteq> Buy) FTakeProfit ''Take-profit'' e (toDecimalString D (JStr ?tp)) = Some ts"
    and r: "\<exists>iss. validateOrder D draft c = Some \<lparr>vr_issues = iss, vr_canSubmit = (\<not> vc_readOnly c \<and>
      \<not> vc_marketClosed c \<and> \<not> has_error vol \<and> \<not> has_error ent \<and>
      \<not> (has_error sg \<or> has_error ss \<or> (?sl \<noteq> '''' \<and> toDecimalString D (JStr ?sl) = None)) \<and>
      \<not> (has_error tg \<or> has_error ts \<or> (?tp \<noteq> '''' \<and> toDecimalString D (JStr ?tp) = None)))\<rparr>"
    by (rule validateOrder_pieces [OF assms(1,2)])
  note entry = entry_error [OF wf ent(1)]
  obtain iss where "validateOrder D draft c = Some \<lparr>vr_issues = iss, vr_canSubmit = (\<not> vc_readOnly c \<and>
      \<not> vc_marketClosed c \<and> \<not> has_error vol \<and> \<not> has_error ent \<and>
      \<not> (has_error sg \<or> has_error ss \<or> (?sl \<noteq> '''' \<and> toDecimalString D (JStr ?sl) = None)) \<and>
      \<not> (has_error tg \<or> has_error ts \<or> (?tp \<noteq> '''' \<and> toDecimalString D (JStr ?tp) = None)))\<rparr>"
    using r by blast
  then have res: "vr_canSubmit res \<longleftrightarrow> \<not> vc_readOnly c \<and>
      \<not> vc_marketClosed c \<and> \<not> has_error vol \<and> \<not> has_error ent \<and>
      \<not> (has_error sg \<or> has_error ss \<or> (?sl \<noteq> '''' \<and> toDecimalString D (JStr ?sl) = None)) \<and>
      \<not> (has_error tg \<or> has_error ts \<or> (?tp \<noteq> '''' \<and> toDecimalString D (JStr ?tp) = None))"
    unfolding assms(3) by (simp only: option.inject) simp
  show ?thesis
  proof (cases "\<exists>p. e = Some p \<and> entry_price D draft c = Some p")
    case True
    then obtain p where p: "e = Some p" "entry_price D draft c = Some p" "is_dec D p"
      using ent(2) by auto
    note lv = level_error [OF wf(1) p(3) sl(1) sl(2) [unfolded p(1)]]
      level_error [OF wf(1) p(3) tp(1) tp(2) [unfolded p(1)]]
    have "vr_canSubmit res \<longleftrightarrow> \<not> vc_readOnly c \<and> \<not> vc_marketClosed c \<and> volume_ok D val sy (od_volume draft) \<and>
        entry_ok D val draft c sy p \<and>
        level_ok D val sy (od_side draft = Buy) (dval D val p) ?sl \<and>
        level_ok D val sy (od_side draft \<noteq> Buy) (dval D val p) ?tp"
      unfolding res lv entry(1) volumeIssues_error [OF wf(1) vol] using p(1,2) by blast
    then show ?thesis using p(2) by (simp add: order_ok_def)
  next
    case False
    then have "\<not> vr_canSubmit res" unfolding res entry(1) by blast
    moreover have "\<not> order_ok D val draft c sy"
      using False entry(2) unfolding order_ok_def by blast
    ultimately show ?thesis by blast
  qed
qed

lemma volumeIssues_unlimited:
  assumes "wf_symbol D sy" "sy_volumeMin sy = None" "sy_volumeMax sy = None"
    "toDecimalString D (JStr raw) = Some v" "0 < dval D val v"
  shows "\<exists>iss. volumeIssues D raw sy = Some iss \<and> iss \<noteq> [] \<and> (\<forall>i\<in>set iss. vi_severity i = SevWarning)"
proof -
  have "is_dec D v" using assms(4) by blast
  then show ?thesis
    using assms(2-5) by (auto simp: volumeIssues_def leq_val split: option.splits)
qed

text \<open>The brackets of an open position: one lemma per level, then the whole.\<close>

lemma bracket_level:
  assumes "\<forall>sy. syo = Some sy \<longrightarrow> wf_symbol D sy" "is_dec_opt D ref"
    and l: "l = (if js_trim raw \<noteq> '''' then toDecimalString D (JStr raw) else None)"
  obtains pos grid sd where "positiveIssues D f lb l = Some pos"
    "(case syo of None \<Rightarrow> Some [] | Some sy \<Rightarrow> levelIssues D f lb sy l) = Some grid"
    "(case ref of None \<Rightarrow> Some [] | Some r \<Rightarrow> marketSideIssues D below f lb' r l) = Some sd"
    "(js_trim raw \<noteq> '''' \<and> l = None) \<or> has_error pos \<or> has_error grid \<or> has_error sd \<longleftrightarrow>
      \<not> bracket_ok D val syo below ref raw"
proof (cases l)
  case None
  then show thesis
    using that [of "[]" "[]" "[]"] l
    by (auto simp: positiveIssues_def levelIssues_def marketSideIssues_def bracket_ok_def
        split: option.splits if_splits)
next
  case (Some s)
  then have w: "js_trim raw \<noteq> ''''" and t: "toDecimalString D (JStr raw) = Some s"
    using l by (auto split: if_splits)
  then have s: "is_dec D s" by blast
  obtain pos where pos: "positiveIssues D f lb l = Some pos" "has_error pos \<longleftrightarrow> dval D val s \<le> 0"
    using s by (auto simp: Some positiveIssues_def leq_val)
  obtain grid where grid: "(case syo of None \<Rightarrow> Some [] | Some sy \<Rightarrow> levelIssues D f lb sy l) = Some grid"
    "has_error grid \<longleftrightarrow> \<not> (\<forall>sy. syo = Some sy \<longrightarrow> on_grid D sy s)"
  proof (cases syo)
    case None
    then show ?thesis using that [of "[]"] by simp
  next
    case (Some sy)
    then have wf: "wf_symbol D sy" using assms(1) by blast
    obtain g where "priceStepIssues D s f lb sy = Some g" using priceStepIssues_total [OF wf s] by blast
    then show ?thesis
      using that [of g] priceStepIssues_error [OF wf s] Some \<open>l = Some s\<close> by (simp add: levelIssues_def)
  qed
  have "\<exists>sd. (case ref of None \<Rightarrow> Some [] | Some r \<Rightarrow> marketSideIssues D below f lb' r l) = Some sd \<and>
    (0 < dval D val s \<longrightarrow> (has_error sd \<longleftrightarrow> \<not> (\<forall>r. ref = Some r \<longrightarrow>
       (if below then dval D val s < dval D val r else dval D val r < dval D val s))))"
    using s assms(2) by (cases ref) (auto simp: Some marketSideIssues_def less_val)
  then obtain sd where sd: "(case ref of None \<Rightarrow> Some [] | Some r \<Rightarrow> marketSideIssues D below f lb' r l) = Some sd"
    "0 < dval D val s \<Longrightarrow> has_error sd \<longleftrightarrow> \<not> (\<forall>r. ref = Some r \<longrightarrow>
       (if below then dval D val s < dval D val r else dval D val r < dval D val s))" by blast
  have "(js_trim raw \<noteq> '''' \<and> l = None) \<or> has_error pos \<or> has_error grid \<or> has_error sd \<longleftrightarrow>
      \<not> bracket_ok D val syo below ref raw"
    using pos(2) grid(2) sd(2) w t Some unfolding bracket_ok_def by (cases "0 < dval D val s") auto
  with pos(1) grid(1) sd(1) show thesis by (rule that)
qed

lemma validatePositionBrackets_iff:
  assumes sy: "\<forall>sy. syo = Some sy \<longrightarrow> wf_symbol D sy" and ref: "is_dec_opt D ref"
  shows "\<exists>res. validatePositionBrackets D draft ref syo = Some res \<and>
    (vr_canSubmit res \<longleftrightarrow> bracket_ok D val syo (bd_side draft = Buy) ref (bd_stopLoss draft) \<and>
       bracket_ok D val syo (bd_side draft \<noteq> Buy) ref (bd_takeProfit draft))"
proof -
  define sl tp where "sl = (if js_trim (bd_stopLoss draft) \<noteq> '''' then toDecimalString D (JStr (bd_stopLoss draft)) else None)"
    and "tp = (if js_trim (bd_takeProfit draft) \<noteq> '''' then toDecimalString D (JStr (bd_takeProfit draft)) else None)"
  obtain p1 g1 s1 where one: "positiveIssues D FStopLoss ''Stop-loss'' sl = Some p1"
    "(case syo of None \<Rightarrow> Some [] | Some sy \<Rightarrow> levelIssues D FStopLoss ''Stop-loss'' sy sl) = Some g1"
    "positiveIssues D FStopLoss ''Stop-loss'' sl = Some p1"
    "(case ref of None \<Rightarrow> Some [] | Some r \<Rightarrow>
        marketSideIssues D (bd_side draft = Buy) FStopLoss ''stop-loss'' r sl) = Some s1"
    "(js_trim (bd_stopLoss draft) \<noteq> '''' \<and> sl = None) \<or> has_error p1 \<or> has_error g1 \<or> has_error s1 \<longleftrightarrow>
      \<not> bracket_ok D val syo (bd_side draft = Buy) ref (bd_stopLoss draft)"
    by (rule bracket_level [OF sy ref sl_def]) blast
  obtain p2 g2 s2 where two: "positiveIssues D FTakeProfit ''Take-profit'' tp = Some p2"
    "(case syo of None \<Rightarrow> Some [] | Some sy \<Rightarrow> levelIssues D FTakeProfit ''Take-profit'' sy tp) = Some g2"
    "(case ref of None \<Rightarrow> Some [] | Some r \<Rightarrow>
        marketSideIssues D (bd_side draft \<noteq> Buy) FTakeProfit ''take-profit'' r tp) = Some s2"
    "(js_trim (bd_takeProfit draft) \<noteq> '''' \<and> tp = None) \<or> has_error p2 \<or> has_error g2 \<or> has_error s2 \<longleftrightarrow>
      \<not> bracket_ok D val syo (bd_side draft \<noteq> Buy) ref (bd_takeProfit draft)"
    by (rule bracket_level [OF sy ref tp_def]) blast
  have "\<exists>res. validatePositionBrackets D draft ref syo = Some res \<and>
      (vr_canSubmit res \<longleftrightarrow>
        \<not> ((js_trim (bd_stopLoss draft) \<noteq> '''' \<and> sl = None) \<or> has_error p1 \<or> has_error g1 \<or> has_error s1) \<and>
        \<not> ((js_trim (bd_takeProfit draft) \<noteq> '''' \<and> tp = None) \<or> has_error p2 \<or> has_error g2 \<or> has_error s2))"
    unfolding validatePositionBrackets_def Let_def sl_def [symmetric] tp_def [symmetric]
    using one(1,2,4) two(1,2,3) by (cases ref) auto
  then show ?thesis unfolding one(5) two(4) by blast
qed

end

section \<open>Properties\<close>

text \<open>C34. The order validation implements its specification: an order may be submitted exactly
  when the account is not read-only, the market is open, the volume is positive, inside the
  symbol's limits and on its step, the entry price exists, is positive and, for a pending
  order, on the price grid and on the right side of the market, and each protective level
  that was typed is a number on the grid on its side of the entry price.\<close>

theorem validateOrder_accepts_iff:
  assumes "decimal_js D val" "wf_context D c" "vc_symbol c = Some sy"
    "validateOrder D draft c = Some res"
  shows "vr_canSubmit res \<longleftrightarrow> order_ok D val draft c sy"
  using assms by (rule decimal_js.validateOrder_iff)

definition eurusd :: trading_symbol where
  "eurusd = \<lparr>sy_name = ''EURUSD.'', sy_displayName = ''EURUSD'', sy_description = ''Euro'',
     sy_type = ''forex'', sy_exchange = '''', sy_digits = 5, sy_pricescale = 100000, sy_minMove = 1,
     sy_volumeMin = Some ''0.01'', sy_volumeMax = Some ''100'', sy_volumeStep = Some ''0.01'',
     sy_contractSize = Some ''100000'', sy_tickSize = Some ''0.00001'', sy_tickValue = Some ''1'',
     sy_currencyCode = Some ''USD'', sy_session = ''24x5'', sy_timezone = ''UTC'',
     sy_supportedResolutions = [], sy_sector = None, sy_industry = None\<rparr>"

definition eurusd_quote :: quote where
  "eurusd_quote = \<lparr>q_symbol = ''EURUSD.'', q_bid = ''1.10000'', q_ask = ''1.10010'', q_last = ''1.10000'',
     q_volume = None, q_receivedAt = 0, q_brokerTime = None, q_direction = Flat\<rparr>"

definition sample_context :: validation_context where
  "sample_context = \<lparr>vc_symbol = Some eurusd, vc_quote = Some eurusd_quote,
     vc_readOnly = False, vc_marketClosed = False\<rparr>"

definition sample_draft :: order_draft where
  "sample_draft = \<lparr>od_kind = Limit, od_side = Buy, od_volume = ''0.15'', od_price = Some ''1.09'',
     od_stopLoss = Some ''1.08'', od_takeProfit = Some ''1.12''\<rparr>"

lemma sample_context_wf: "wf_context ref_lib sample_context"
proof -
  have "wf_symbol ref_lib eurusd" by code_simp
  moreover have "wf_quote ref_lib eurusd_quote" by code_simp
  ultimately show ?thesis by (simp add: wf_context_def sample_context_def)
qed

lemma sample_validated:
  "validateOrder ref_lib sample_draft sample_context = Some \<lparr>vr_issues = [], vr_canSubmit = True\<rparr>"
  by code_simp

theorem validateOrder_accepts_iff_witness:
  "order_ok ref_lib ref_val sample_draft sample_context eurusd"
  using validateOrder_accepts_iff [OF ref_laws sample_context_wf _ sample_validated, of eurusd]
  by (simp add: sample_context_def)

text \<open>Whatever text is typed into the ticket, validation returns a result: over a symbol
  and a quote whose decimal strings are well formed, no input makes it throw.\<close>

theorem validateOrder_never_throws:
  assumes "decimal_js D val" "wf_context D c"
  shows "\<exists>r. validateOrder D draft c = Some r"
  using assms by (rule decimal_js.validateOrder_total)

theorem validateOrder_never_throws_witness:
  "\<exists>r. validateOrder ref_lib (sample_draft\<lparr>od_volume := ''abc'', od_price := Some ''--''\<rparr>) sample_context = Some r"
  by (rule validateOrder_never_throws [OF ref_laws sample_context_wf])

text \<open>A volume limit the server did not send never blocks an order: with no minimum and no
  maximum, every positive number is accepted, at most with a warning.\<close>

theorem unknown_limits_never_block:
  assumes "decimal_js D val" "wf_symbol D sy" "sy_volumeMin sy = None" "sy_volumeMax sy = None"
    "toDecimalString D (JStr raw) = Some v" "0 < dval D val v"
  shows "\<exists>iss. volumeIssues D raw sy = Some iss \<and> iss \<noteq> [] \<and> (\<forall>i\<in>set iss. vi_severity i = SevWarning)"
  using assms by (rule decimal_js.volumeIssues_unlimited)

theorem unknown_limits_never_block_witness:
  "\<exists>iss. volumeIssues ref_lib ''0.123'' (eurusd\<lparr>sy_volumeMin := None, sy_volumeMax := None\<rparr>) = Some iss \<and>
    iss \<noteq> [] \<and> (\<forall>i\<in>set iss. vi_severity i = SevWarning)"
proof (rule unknown_limits_never_block [OF ref_laws])
  show "wf_symbol ref_lib (eurusd\<lparr>sy_volumeMin := None, sy_volumeMax := None\<rparr>)" by code_simp
  show "toDecimalString ref_lib (JStr ''0.123'') = Some ''0.123''" by code_simp
  show "0 < dval ref_lib ref_val ''0.123''" by code_simp
qed simp_all

text \<open>The brackets of an open position are accepted exactly when each level that was typed
  is a positive number, on the price grid of the symbol if one is known, and on its
  side of the price that would close the position now; no text makes the check throw.\<close>

theorem position_brackets_iff:
  assumes "decimal_js D val" "\<forall>sy. syo = Some sy \<longrightarrow> wf_symbol D sy" "is_dec_opt D ref"
  shows "\<exists>res. validatePositionBrackets D draft ref syo = Some res \<and>
    (vr_canSubmit res \<longleftrightarrow> bracket_ok D val syo (bd_side draft = Buy) ref (bd_stopLoss draft) \<and>
       bracket_ok D val syo (bd_side draft \<noteq> Buy) ref (bd_takeProfit draft))"
  using assms by (rule decimal_js.validatePositionBrackets_iff)

theorem position_brackets_iff_witness:
  "bracket_ok ref_lib ref_val (Some eurusd) True (Some ''1.10000'') ''1.09'' \<and>
   bracket_ok ref_lib ref_val (Some eurusd) False (Some ''1.10000'') ''''"
proof -
  define b where "b = \<lparr>bd_side = Buy, bd_stopLoss = ''1.09'', bd_takeProfit = ''''\<rparr>"
  have wf: "\<forall>sy. Some eurusd = Some sy \<longrightarrow> wf_symbol ref_lib sy"
    using sample_context_wf by (simp add: wf_context_def sample_context_def)
  have rf: "is_dec_opt ref_lib (Some ''1.10000'')" by code_simp
  have "validatePositionBrackets ref_lib \<lparr>bd_side = Buy, bd_stopLoss = ''1.09'', bd_takeProfit = ''''\<rparr>
      (Some ''1.10000'') (Some eurusd) = Some \<lparr>vr_issues = [], vr_canSubmit = True\<rparr>"
    by code_simp
  then show ?thesis using position_brackets_iff [OF ref_laws wf rf, of b] by (simp add: b_def)
qed

end
