(* ===== verification/TradingService.thy ===== *)
theory TradingService
  imports TradingApi Validation
begin

text \<open>
  \<^verbatim>\<open>TradingService\<close>, \<^verbatim>\<open>frontend/src/domain/orders/trading-service.ts\<close>: the one path
  every trade takes. An operation is a computation over the log of what the service has done to
  the outside: the calls it made on the trading API, the reconciliations it triggered and the
  diagnostics it reported, in order. It ends in a result or an exception.

  Everything the service reads (the selected login, the symbols, read-only mode, the
  clock) is a function of the log, so it may change whenever an operation has been awaited:
  an account may be switched between the two halves of a resize.
\<close>

section \<open>Effects\<close>

datatype service_event = Called trade_request | StateChanged string | Diagnosed string terror

type_synonym service_log = "service_event list"

type_synonym 'a svc = "service_log \<Rightarrow> (js_value thrown + 'a) \<times> service_log"

record 'd service_deps =
  sd_decimal :: "'d decimal_lib"
  sd_decimalError :: string
  sd_trading :: "service_log \<Rightarrow> trade_request \<Rightarrow> js_value thrown + trade_submission_result"
  sd_login :: "service_log \<Rightarrow> string option"
  sd_policy :: "service_log \<Rightarrow> suffix_policy"
  sd_symbol :: "service_log \<Rightarrow> string \<Rightarrow> trading_symbol option"
  sd_readOnly :: "service_log \<Rightarrow> bool"
  sd_err :: "service_log \<Rightarrow> err_env"

definition svc_return :: "'a \<Rightarrow> 'a svc" where
  "svc_return a = (\<lambda>h. (Inr a, h))"

definition svc_bind :: "'a svc \<Rightarrow> ('a \<Rightarrow> 'b svc) \<Rightarrow> 'b svc" where
  "svc_bind m f = (\<lambda>h. case m h of (Inl e, h') \<Rightarrow> (Inl e, h') | (Inr a, h') \<Rightarrow> f a h')"

text \<open>\<^verbatim>\<open>try { m } catch (e) { f(e) }\<close>\<close>

definition svc_catch :: "'a svc \<Rightarrow> (js_value thrown \<Rightarrow> 'a svc) \<Rightarrow> 'a svc" where
  "svc_catch m f = (\<lambda>h. case m h of (Inl e, h') \<Rightarrow> f e h' | (Inr a, h') \<Rightarrow> (Inr a, h'))"

definition svc_emit :: "service_event \<Rightarrow> unit svc" where
  "svc_emit ev = (\<lambda>h. (Inr (), h @ [ev]))"

definition svc_read :: "(service_log \<Rightarrow> 'a) \<Rightarrow> 'a svc" where
  "svc_read f = (\<lambda>h. (Inr (f h), h))"

definition svc_call :: "'d service_deps \<Rightarrow> trade_request \<Rightarrow> trade_submission_result svc" where
  "svc_call S r = (\<lambda>h. (sd_trading S h r, h @ [Called r]))"

text \<open>A throw of the decimal library, and a refusal of the service's own.\<close>

definition svc_decimal :: "'d service_deps \<Rightarrow> 'a option \<Rightarrow> 'a svc" where
  "svc_decimal S x = (\<lambda>h. (case x of None \<Rightarrow> Inl (ThrownOther (sd_decimalError S)) | Some a \<Rightarrow> Inr a, h))"

definition refuse ::
  "'d service_deps \<Rightarrow> error_kind \<Rightarrow> string \<Rightarrow> string \<Rightarrow> bool option \<Rightarrow> js_value option \<Rightarrow> 'a svc" where
  "refuse S kind message code retryable payload = (\<lambda>h. (Inl (ThrownTrading (new_TradingError (sd_err S h)
     \<lparr>ei_kind = kind, ei_message = message, ei_code = Some code, ei_requestId = None, ei_detail = None,
      ei_retryable = retryable, ei_payload = payload\<rparr>)), h))"

section \<open>Inputs\<close>

record open_position_input =
  op_displaySymbol :: string
  op_side :: side
  op_volumeLots :: string
  op_price :: string
  op_stopLoss :: "string option"
  op_takeProfit :: "string option"

record place_pending_input = open_position_input +
  pp_kind :: order_kind

text \<open>An optional property: absent, or present with a level or \<^verbatim>\<open>null\<close>.\<close>

record order_changes =
  ch_price :: "string option"
  ch_volumeLots :: "string option"
  ch_stopLoss :: "string option option"
  ch_takeProfit :: "string option option"

record resize_result =
  rr_cancelled :: trade_submission_result
  rr_placed :: trade_submission_result
  rr_previousOrderId :: string

record trading_context =
  tc_login :: string
  tc_gatewaySymbol :: string
  tc_digits :: "int option"

section \<open>Operations\<close>

definition requireTradingContext :: "'d service_deps \<Rightarrow> string \<Rightarrow> trading_context svc" where
  "requireTradingContext S displaySymbol =
     svc_bind (svc_read (sd_login S)) (\<lambda>login.
     if or_else login '''' = '''' then
       refuse S Validation ''Select a trading account first.'' ''trade.no-account'' None None
     else svc_bind (svc_read (sd_readOnly S)) (\<lambda>readOnly.
     if readOnly then
       refuse S Forbidden ''This account is read-only and cannot place trades.'' ''trade.read-only'' (Some False) None
     else svc_bind (svc_read (\<lambda>h. sd_symbol S h displaySymbol)) (\<lambda>symbol.
       svc_bind (svc_read (sd_policy S)) (\<lambda>policy.
       svc_return \<lparr>tc_login = or_else login '''', tc_gatewaySymbol = toGateway policy displaySymbol,
         tc_digits = map_option sy_digits symbol\<rparr>))))"

definition settled :: "trade_submission_result \<Rightarrow> string \<Rightarrow> trade_submission_result svc" where
  "settled result reason =
     svc_bind (svc_emit (StateChanged reason)) (\<lambda>_.
     svc_bind (case tr_diagnostic result of None \<Rightarrow> svc_return ()
               | Some e \<Rightarrow> svc_emit (Diagnosed reason e)) (\<lambda>_.
     svc_return result))"

text \<open>\<^verbatim>\<open>context.digits ?? digitsFromPrice(price)\<close>\<close>

definition digits_for :: "'d service_deps \<Rightarrow> trading_context \<Rightarrow> string option \<Rightarrow> int svc" where
  "digits_for S ctx price = (case tc_digits ctx of Some d \<Rightarrow> svc_return d
     | None \<Rightarrow> svc_decimal S (map_option int (digitsFromPrice (sd_decimal S) price)))"

definition openPosition :: "'d service_deps \<Rightarrow> open_position_input \<Rightarrow> trade_submission_result svc" where
  "openPosition S input =
     svc_bind (requireTradingContext S (op_displaySymbol input)) (\<lambda>ctx.
     svc_bind (digits_for S ctx (Some (op_price input))) (\<lambda>digits.
     svc_bind (svc_call S (ReqOpen \<lparr>rq_login = tc_login ctx, rq_symbol = tc_gatewaySymbol ctx,
       rq_side = op_side input, rq_volumeLots = op_volumeLots input, rq_price = op_price input,
       rq_stopLoss = op_stopLoss input, rq_takeProfit = op_takeProfit input, rq_digits = digits\<rparr>)) (\<lambda>result.
     settled result ''open-position'')))"

definition placePendingOrder :: "'d service_deps \<Rightarrow> place_pending_input \<Rightarrow> trade_submission_result svc" where
  "placePendingOrder S input =
     svc_bind (requireTradingContext S (op_displaySymbol input)) (\<lambda>ctx.
     svc_bind (digits_for S ctx (Some (op_price input))) (\<lambda>digits.
     svc_bind (svc_call S (ReqPending \<lparr>rq_login = tc_login ctx, rq_symbol = tc_gatewaySymbol ctx,
       rq_side = op_side input, rq_volumeLots = op_volumeLots input, rq_price = op_price input,
       rq_stopLoss = op_stopLoss input, rq_takeProfit = op_takeProfit input, rq_digits = digits,
       rq_kind = pp_kind input\<rparr>)) (\<lambda>result.
     settled result ''place-pending'')))"

definition modifyPositionBrackets ::
  "'d service_deps \<Rightarrow> position \<Rightarrow> string option \<Rightarrow> string option \<Rightarrow> trade_submission_result svc" where
  "modifyPositionBrackets S pos stopLoss takeProfit =
     svc_bind (requireTradingContext S (p_displaySymbol pos)) (\<lambda>ctx.
     svc_bind (digits_for S ctx (Some (p_openPrice pos))) (\<lambda>digits.
     svc_bind (svc_call S (ReqModifyPosition \<lparr>mp_login = tc_login ctx, mp_symbol = p_symbol pos,
       mp_positionId = p_id pos, mp_side = p_side pos, mp_stopLoss = stopLoss,
       mp_takeProfit = takeProfit, mp_digits = digits\<rparr>)) (\<lambda>result.
     settled result ''modify-position'')))"

definition modifyOrder ::
  "'d service_deps \<Rightarrow> trading_order \<Rightarrow> order_changes \<Rightarrow> trade_submission_result svc" where
  "modifyOrder S ord changes =
     svc_bind (requireTradingContext S (o_displaySymbol ord)) (\<lambda>ctx.
     if o_kind ord = Market then
       refuse S Validation ''A market order cannot be modified.'' ''trade.modify-market'' None None
     else svc_bind (case ch_volumeLots changes of None \<Rightarrow> svc_return False
       | Some v \<Rightarrow> svc_decimal S (do { a \<leftarrow> dec (sd_decimal S) v; b \<leftarrow> dec (sd_decimal S) (o_volume ord);
                                     Some (\<not> d_equals (sd_decimal S) a b) })) (\<lambda>resized.
     if resized then refuse S Validation
       ''The order size cannot be changed on this server. Cancel the order and place a new one.''
       ''trade.no-volume-modify'' None None
     else case (case ch_price changes of Some p \<Rightarrow> Some p | None \<Rightarrow> o_price ord) of
       None \<Rightarrow> refuse S Validation ''This order has no entry price to modify.'' ''trade.no-price'' None None
     | Some price \<Rightarrow>
       svc_bind (digits_for S ctx (Some price)) (\<lambda>digits.
       svc_bind (svc_call S (ReqModifyOrder \<lparr>rq_login = tc_login ctx, rq_symbol = o_symbol ord,
         rq_side = o_side ord, rq_volumeLots = or_else (ch_volumeLots changes) (o_volume ord),
         rq_price = price, rq_stopLoss = or_else (ch_stopLoss changes) (o_stopLoss ord),
         rq_takeProfit = or_else (ch_takeProfit changes) (o_takeProfit ord), rq_digits = digits,
         rq_kind = o_kind ord, rq_orderId = o_id ord\<rparr>)) (\<lambda>result.
       settled result ''modify-order''))))"

datatype bracket_leg = LegSl | LegTp

datatype bracket_parent = OrderParent trading_order | PositionParent position

fun cancelBracketLeg :: "'d service_deps \<Rightarrow> bracket_parent \<Rightarrow> bracket_leg \<Rightarrow> trade_submission_result svc" where
  "cancelBracketLeg S (OrderParent ord) leg = modifyOrder S ord \<lparr>ch_price = None, ch_volumeLots = None,
     ch_stopLoss = Some (if leg = LegSl then None else o_stopLoss ord),
     ch_takeProfit = Some (if leg = LegTp then None else o_takeProfit ord)\<rparr>"
| "cancelBracketLeg S (PositionParent pos) leg = modifyPositionBrackets S pos
     (if leg = LegSl then None else p_stopLoss pos) (if leg = LegTp then None else p_takeProfit pos)"

definition closePosition :: "'d service_deps \<Rightarrow> position \<Rightarrow> string option \<Rightarrow> trade_submission_result svc" where
  "closePosition S pos volumeLots =
     svc_bind (requireTradingContext S (p_displaySymbol pos)) (\<lambda>ctx.
     svc_bind (svc_call S (ReqClose \<lparr>cr_login = tc_login ctx, cr_symbol = p_symbol pos,
       cr_positionId = p_id pos, cr_side = p_side pos,
       cr_volumeLots = or_else volumeLots (p_volume pos)\<rparr>)) (\<lambda>result.
     settled result ''close-position''))"

definition cancelOrder :: "'d service_deps \<Rightarrow> trading_order \<Rightarrow> trade_submission_result svc" where
  "cancelOrder S ord =
     svc_bind (requireTradingContext S (o_displaySymbol ord)) (\<lambda>ctx.
     if o_kind ord = Market then
       refuse S Validation ''A market order cannot be canceled.'' ''trade.cancel-market'' None None
     else svc_bind (svc_call S (ReqCancel \<lparr>cq_login = tc_login ctx, cq_symbol = o_symbol ord,
       cq_orderId = o_id ord, cq_side = o_side ord, cq_kind = o_kind ord\<rparr>)) (\<lambda>result.
     settled result ''cancel-order''))"

fun side_text :: "side \<Rightarrow> string" where
  "side_text Buy = ''buy''"
| "side_text Sell = ''sell''"

definition null_or_str :: "string option \<Rightarrow> js_value" where
  "null_or_str x = (case x of None \<Rightarrow> JNull | Some s \<Rightarrow> JStr s)"

text \<open>What the orphan error carries: the replacement that was not placed.\<close>

definition pending_payload_of :: "place_pending_input \<Rightarrow> js_value" where
  "pending_payload_of i = JObj [(''displaySymbol'', JStr (op_displaySymbol i)),
     (''side'', JStr (side_text (op_side i))), (''kind'', JStr (kind_text (pp_kind i))),
     (''volumeLots'', JStr (op_volumeLots i)), (''price'', JStr (op_price i)),
     (''stopLoss'', null_or_str (op_stopLoss i)), (''takeProfit'', null_or_str (op_takeProfit i))]"

text \<open>The volume check before the cancel: the message of the first error, if there is one.\<close>

definition blocking_volume_issue :: "'d service_deps \<Rightarrow> string \<Rightarrow> string \<Rightarrow> string option svc" where
  "blocking_volume_issue S displaySymbol volumeLots =
     svc_bind (svc_read (\<lambda>h. sd_symbol S h displaySymbol)) (\<lambda>symbol.
     case symbol of None \<Rightarrow> svc_return None
     | Some sy \<Rightarrow> svc_bind (svc_decimal S (volumeIssues (sd_decimal S) volumeLots sy)) (\<lambda>issues.
         svc_return (map_option vi_message (find (\<lambda>i. vi_severity i = SevError) issues))))"

definition replacement_for :: "trading_order \<Rightarrow> string \<Rightarrow> order_changes \<Rightarrow> string \<Rightarrow> place_pending_input" where
  "replacement_for ord volumeLots changes price = \<lparr>op_displaySymbol = o_displaySymbol ord,
     op_side = o_side ord, op_volumeLots = volumeLots, op_price = price,
     op_stopLoss = or_else (ch_stopLoss changes) (o_stopLoss ord),
     op_takeProfit = or_else (ch_takeProfit changes) (o_takeProfit ord), pp_kind = o_kind ord\<rparr>"

definition orphaned :: "'d service_deps \<Rightarrow> trading_order \<Rightarrow> place_pending_input \<Rightarrow> js_value thrown \<Rightarrow> 'a svc" where
  "orphaned S ord replacement error =
     svc_bind (svc_read (\<lambda>h. TradingError_from (sd_err S h) error no_fallback)) (\<lambda>cause.
     refuse S Validation (''Order '' @ o_id ord @
         '' was cancelled but its replacement could not be placed: '' @ te_message cause @
         '' You currently have no order for this symbol at that price.'')
       ''trade.resize-orphaned'' None (Some (pending_payload_of replacement)))"

definition resizePendingOrder ::
  "'d service_deps \<Rightarrow> trading_order \<Rightarrow> string \<Rightarrow> order_changes \<Rightarrow> resize_result svc" where
  "resizePendingOrder S ord volumeLots changes =
     svc_bind (requireTradingContext S (o_displaySymbol ord)) (\<lambda>_.
     if o_kind ord = Market then
       refuse S Validation ''A market order cannot be resized.'' ''trade.resize-market'' None None
     else if o_status ord \<noteq> Working then
       refuse S Validation ''This order is no longer working, so its size cannot be changed.''
         ''trade.resize-not-working'' None None
     else svc_bind (svc_decimal S (do { a \<leftarrow> dec (sd_decimal S) volumeLots;
                                      b \<leftarrow> dec (sd_decimal S) (o_volume ord);
                                      Some (d_equals (sd_decimal S) a b) })) (\<lambda>unchanged.
     if unchanged then
       refuse S Validation ''That is the size the order already has.'' ''trade.resize-unchanged'' None None
     else case (case ch_price changes of Some p \<Rightarrow> Some p | None \<Rightarrow> o_price ord) of
       None \<Rightarrow> refuse S Validation ''This order has no entry price to replace.'' ''trade.no-price'' None None
     | Some price \<Rightarrow>
       svc_bind (blocking_volume_issue S (o_displaySymbol ord) volumeLots) (\<lambda>blocking.
       case blocking of
         Some message \<Rightarrow> refuse S Validation message ''trade.resize-invalid-volume'' None None
       | None \<Rightarrow>
         svc_bind (cancelOrder S ord) (\<lambda>cancelled.
         if tr_state cancelled \<noteq> Accepted then
           refuse S Validation
             (if tr_state cancelled = Unknown
              then ''The order could not be confirmed as cancelled, so its size was left unchanged. Check your orders before trying again.''
              else ''The order could not be cancelled, so its size was left unchanged.'')
             ''trade.resize-cancel-failed'' None None
         else svc_catch
           (svc_bind (placePendingOrder S (replacement_for ord volumeLots changes price)) (\<lambda>placed.
            svc_return \<lparr>rr_cancelled = cancelled, rr_placed = placed, rr_previousOrderId = o_id ord\<rparr>))
           (orphaned S ord (replacement_for ord volumeLots changes price))))))"

section \<open>What an operation does to the outside\<close>

lemmas svc_defs = svc_return_def svc_bind_def svc_catch_def svc_emit_def svc_read_def svc_call_def
  svc_decimal_def refuse_def

text \<open>
  \<open>once reason r a x\<close>: the log entries of one completed mutation - the call, the
  reconciliation, and the diagnostic when the result has one.
\<close>

definition once :: "string \<Rightarrow> trade_request \<Rightarrow> trade_submission_result \<Rightarrow> service_log" where
  "once reason r x = [Called r, StateChanged reason] @
     (case tr_diagnostic x of None \<Rightarrow> [] | Some e \<Rightarrow> [Diagnosed reason e])"

lemma settled_run: "settled x reason h = (Inr x, h @ StateChanged reason #
    (case tr_diagnostic x of None \<Rightarrow> [] | Some e \<Rightarrow> [Diagnosed reason e]))"
  by (simp add: settled_def svc_defs split: option.splits)

text \<open>
  The shape of every simple mutation: nothing happens and it throws, or it makes one call on
  the API; the call's exception is the operation's, and its result is, after reconciling.
\<close>

definition one_call ::
  "'d service_deps \<Rightarrow> string \<Rightarrow> (trade_request \<Rightarrow> bool) \<Rightarrow> service_log \<Rightarrow>
   (js_value thrown + trade_submission_result) \<times> service_log \<Rightarrow> bool" where
  "one_call S reason P h out \<longleftrightarrow>
     (\<exists>e. out = (Inl e, h)) \<or>
     (\<exists>r. P r \<and> or_else (sd_login S h) '''' \<noteq> '''' \<and> \<not> sd_readOnly S h \<and>
        (case sd_trading S h r of Inl e \<Rightarrow> out = (Inl e, h @ [Called r])
         | Inr x \<Rightarrow> out = (Inr x, h @ once reason r x)))"

lemma call_settled:
  assumes "P r" "or_else (sd_login S h) '''' \<noteq> ''''" "\<not> sd_readOnly S h"
  shows "one_call S reason P h (svc_bind (svc_call S r) (\<lambda>x. settled x reason) h)"
  unfolding one_call_def using assms
  by (intro disjI2 exI [of _ r]) (simp add: svc_bind_def svc_call_def settled_run once_def split: sum.splits)

lemma one_call_throw: "one_call S reason P h (Inl e, h)"
  by (simp add: one_call_def)

lemma one_callE:
  assumes "one_call S reason P h out"
  obtains (refused) e where "out = (Inl e, h)"
    | (failed) r e where "P r" "or_else (sd_login S h) '''' \<noteq> ''''" "\<not> sd_readOnly S h"
        "sd_trading S h r = Inl e" "out = (Inl e, h @ [Called r])"
    | (answered) r x where "P r" "or_else (sd_login S h) '''' \<noteq> ''''" "\<not> sd_readOnly S h"
        "sd_trading S h r = Inr x" "out = (Inr x, h @ once reason r x)"
proof -
  from assms consider e where "out = (Inl e, h)"
    | r where "P r" "or_else (sd_login S h) '''' \<noteq> ''''" "\<not> sd_readOnly S h"
        "case sd_trading S h r of Inl e \<Rightarrow> out = (Inl e, h @ [Called r])
         | Inr x \<Rightarrow> out = (Inr x, h @ once reason r x)"
    unfolding one_call_def by blast
  then show thesis
  proof cases
    case 2
    then show thesis using failed answered by (cases "sd_trading S h r") auto
  qed (rule refused)
qed

lemma one_call_weaken: "one_call S reason P h out \<Longrightarrow> (\<And>r. P r \<Longrightarrow> Q r) \<Longrightarrow> one_call S reason Q h out"
  unfolding one_call_def by blast

text \<open>An operation behind the context check: refused with the log untouched, or run with it.\<close>

lemma with_context:
  assumes "\<And>ctx. or_else (sd_login S h) '''' \<noteq> '''' \<Longrightarrow> \<not> sd_readOnly S h \<Longrightarrow>
      tc_login ctx = or_else (sd_login S h) '''' \<Longrightarrow> tc_gatewaySymbol ctx = toGateway (sd_policy S h) s \<Longrightarrow>
      one_call S reason P h (f ctx h)"
  shows "one_call S reason P h (svc_bind (requireTradingContext S s) f h)"
  using assms by (simp add: requireTradingContext_def svc_defs one_call_throw)

lemma with_digits:
  assumes "\<And>d. one_call S reason P h (f d h)"
  shows "one_call S reason P h (svc_bind (digits_for S ctx price) f h)"
  using assms by (simp add: digits_for_def svc_defs one_call_throw split: option.splits)

text \<open>The request each operation may send.\<close>

definition open_request_for :: "'d service_deps \<Rightarrow> service_log \<Rightarrow> open_position_input \<Rightarrow> trade_request \<Rightarrow> bool" where
  "open_request_for S h i r \<longleftrightarrow> (\<exists>d. r = ReqOpen \<lparr>rq_login = or_else (sd_login S h) '''',
     rq_symbol = toGateway (sd_policy S h) (op_displaySymbol i), rq_side = op_side i,
     rq_volumeLots = op_volumeLots i, rq_price = op_price i, rq_stopLoss = op_stopLoss i,
     rq_takeProfit = op_takeProfit i, rq_digits = d\<rparr>)"

definition pending_request_for :: "'d service_deps \<Rightarrow> service_log \<Rightarrow> place_pending_input \<Rightarrow> trade_request \<Rightarrow> bool" where
  "pending_request_for S h i r \<longleftrightarrow> (\<exists>d. r = ReqPending \<lparr>rq_login = or_else (sd_login S h) '''',
     rq_symbol = toGateway (sd_policy S h) (op_displaySymbol i), rq_side = op_side i,
     rq_volumeLots = op_volumeLots i, rq_price = op_price i, rq_stopLoss = op_stopLoss i,
     rq_takeProfit = op_takeProfit i, rq_digits = d, rq_kind = pp_kind i\<rparr>)"

definition brackets_request_for ::
  "'d service_deps \<Rightarrow> service_log \<Rightarrow> position \<Rightarrow> string option \<Rightarrow> string option \<Rightarrow> trade_request \<Rightarrow> bool" where
  "brackets_request_for S h pos sl tp r \<longleftrightarrow> (\<exists>d. r = ReqModifyPosition
     \<lparr>mp_login = or_else (sd_login S h) '''', mp_symbol = p_symbol pos, mp_positionId = p_id pos,
      mp_side = p_side pos, mp_stopLoss = sl, mp_takeProfit = tp, mp_digits = d\<rparr>)"

definition close_request_for :: "'d service_deps \<Rightarrow> service_log \<Rightarrow> position \<Rightarrow> string option \<Rightarrow> trade_request \<Rightarrow> bool" where
  "close_request_for S h pos v r \<longleftrightarrow> r = ReqClose \<lparr>cr_login = or_else (sd_login S h) '''',
     cr_symbol = p_symbol pos, cr_positionId = p_id pos, cr_side = p_side pos,
     cr_volumeLots = or_else v (p_volume pos)\<rparr>"

definition cancel_request_for :: "'d service_deps \<Rightarrow> service_log \<Rightarrow> trading_order \<Rightarrow> trade_request \<Rightarrow> bool" where
  "cancel_request_for S h ord r \<longleftrightarrow> o_kind ord \<noteq> Market \<and> r = ReqCancel
     \<lparr>cq_login = or_else (sd_login S h) '''', cq_symbol = o_symbol ord, cq_orderId = o_id ord,
      cq_side = o_side ord, cq_kind = o_kind ord\<rparr>"

text \<open>The volume of a modification is the order's own, or one the library says is equal to it.\<close>

definition modify_request_for ::
  "'d service_deps \<Rightarrow> service_log \<Rightarrow> trading_order \<Rightarrow> order_changes \<Rightarrow> trade_request \<Rightarrow> bool" where
  "modify_request_for S h ord c r \<longleftrightarrow> o_kind ord \<noteq> Market \<and>
     (case ch_volumeLots c of None \<Rightarrow> True | Some v \<Rightarrow> (\<exists>a b. dec (sd_decimal S) v = Some a \<and>
        dec (sd_decimal S) (o_volume ord) = Some b \<and> d_equals (sd_decimal S) a b)) \<and>
     (\<exists>d price. (ch_price c = Some price \<or> ch_price c = None \<and> o_price ord = Some price) \<and>
       r = ReqModifyOrder \<lparr>rq_login = or_else (sd_login S h) '''', rq_symbol = o_symbol ord,
         rq_side = o_side ord, rq_volumeLots = or_else (ch_volumeLots c) (o_volume ord), rq_price = price,
         rq_stopLoss = or_else (ch_stopLoss c) (o_stopLoss ord),
         rq_takeProfit = or_else (ch_takeProfit c) (o_takeProfit ord), rq_digits = d,
         rq_kind = o_kind ord, rq_orderId = o_id ord\<rparr>)"

lemma openPosition_one_call: "one_call S ''open-position'' (open_request_for S h i) h (openPosition S i h)"
  unfolding openPosition_def
  by (rule with_context, rule with_digits, rule call_settled) (simp_all add: open_request_for_def)

lemma placePendingOrder_one_call: "one_call S ''place-pending'' (pending_request_for S h i) h (placePendingOrder S i h)"
  unfolding placePendingOrder_def
  by (rule with_context, rule with_digits, rule call_settled) (simp_all add: pending_request_for_def)

lemma modifyPositionBrackets_one_call:
  "one_call S ''modify-position'' (brackets_request_for S h pos sl tp) h (modifyPositionBrackets S pos sl tp h)"
  unfolding modifyPositionBrackets_def
  by (rule with_context, rule with_digits, rule call_settled) (simp_all add: brackets_request_for_def)

lemma closePosition_one_call: "one_call S ''close-position'' (close_request_for S h pos v) h (closePosition S pos v h)"
  unfolding closePosition_def
  by (rule with_context, rule call_settled) (simp_all add: close_request_for_def)

lemma one_call_refuse [intro]: "one_call S reason P h (refuse S' k m c rt p h)"
  by (simp add: refuse_def one_call_throw)

lemma one_call_if:
  "(b \<Longrightarrow> one_call S reason P h (f h)) \<Longrightarrow> (\<not> b \<Longrightarrow> one_call S reason P h (g h)) \<Longrightarrow>
   one_call S reason P h ((if b then f else g) h)"
  by simp

lemma cancelOrder_one_call: "one_call S ''cancel-order'' (cancel_request_for S h ord) h (cancelOrder S ord h)"
  unfolding cancelOrder_def
  by (rule with_context, rule one_call_if, rule one_call_refuse, rule call_settled)
    (simp_all add: cancel_request_for_def)

lemma one_call_decimal:
  assumes "\<And>a. x = Some a \<Longrightarrow> one_call S reason P h (f a h)"
  shows "one_call S reason P h (svc_bind (svc_decimal S x) f h)"
  using assms by (simp add: svc_defs one_call_throw split: option.splits)

lemma modifyOrder_one_call: "one_call S ''modify-order'' (modify_request_for S h ord c) h (modifyOrder S ord c h)"
proof -
  have step: "one_call S ''modify-order'' (modify_request_for S h ord c) h
      ((case (case ch_price c of Some p \<Rightarrow> Some p | None \<Rightarrow> o_price ord) of
         None \<Rightarrow> refuse S Validation ''This order has no entry price to modify.'' ''trade.no-price'' None None
       | Some price \<Rightarrow> svc_bind (digits_for S ctx (Some price)) (\<lambda>digits.
         svc_bind (svc_call S (ReqModifyOrder \<lparr>rq_login = tc_login ctx, rq_symbol = o_symbol ord,
           rq_side = o_side ord, rq_volumeLots = or_else (ch_volumeLots c) (o_volume ord),
           rq_price = price, rq_stopLoss = or_else (ch_stopLoss c) (o_stopLoss ord),
           rq_takeProfit = or_else (ch_takeProfit c) (o_takeProfit ord), rq_digits = digits,
           rq_kind = o_kind ord, rq_orderId = o_id ord\<rparr>)) (\<lambda>result.
         settled result ''modify-order''))) h)"
    if ctx: "or_else (sd_login S h) '''' \<noteq> ''''" "\<not> sd_readOnly S h" "tc_login ctx = or_else (sd_login S h) ''''"
      and kind: "o_kind ord \<noteq> Market"
      and vol: "case ch_volumeLots c of None \<Rightarrow> True | Some v \<Rightarrow> (\<exists>a b. dec (sd_decimal S) v = Some a \<and>
        dec (sd_decimal S) (o_volume ord) = Some b \<and> d_equals (sd_decimal S) a b)" for ctx
  proof (cases "case ch_price c of Some p \<Rightarrow> Some p | None \<Rightarrow> o_price ord")
    case None
    then show ?thesis by (simp add: one_call_refuse)
  next
    case (Some price)
    then have price: "ch_price c = Some price \<or> ch_price c = None \<and> o_price ord = Some price"
      by (auto split: option.splits)
    show ?thesis
      unfolding Some option.case
    proof (rule with_digits, rule call_settled)
      show "modify_request_for S h ord c (ReqModifyOrder \<lparr>rq_login = tc_login ctx, rq_symbol = o_symbol ord,
          rq_side = o_side ord, rq_volumeLots = or_else (ch_volumeLots c) (o_volume ord),
          rq_price = price, rq_stopLoss = or_else (ch_stopLoss c) (o_stopLoss ord),
          rq_takeProfit = or_else (ch_takeProfit c) (o_takeProfit ord), rq_digits = d,
          rq_kind = o_kind ord, rq_orderId = o_id ord\<rparr>)" for d
        unfolding modify_request_for_def using kind vol price ctx(3) by auto
    qed (use ctx in auto)
  qed
  show ?thesis
    unfolding modifyOrder_def
  proof (rule with_context, rule one_call_if, rule one_call_refuse, goal_cases)
    case (1 ctx)
    then show ?case
    proof (cases "ch_volumeLots c")
      case None
      then show ?thesis using step [OF 1(1,2,3,5)] by (simp add: svc_bind_def svc_return_def)
    next
      case (Some v)
      show ?thesis
        unfolding Some option.case
        by (rule one_call_decimal, rule one_call_if, rule one_call_refuse, unfold Some [symmetric],
            rule step [OF 1(1,2,3,5)]) (auto simp: Some Option.bind_eq_Some_conv)
    qed
  qed
qed

section \<open>The resize\<close>

text \<open>
  The second half of a resize, after an accepted cancel: the replacement is placed, or the
  orphan error carries it.
\<close>

definition replaced :: "'d service_deps \<Rightarrow> trading_order \<Rightarrow> place_pending_input \<Rightarrow> trade_submission_result \<Rightarrow>
    service_log \<Rightarrow> (js_value thrown + resize_result) \<times> service_log \<Rightarrow> bool" where
  "replaced S ord repl x h1 out \<longleftrightarrow> (case placePendingOrder S repl h1 of
     (Inr y, h2) \<Rightarrow> out = (Inr \<lparr>rr_cancelled = x, rr_placed = y, rr_previousOrderId = o_id ord\<rparr>, h2)
   | (Inl fault, h2) \<Rightarrow> (\<exists>e. out = (Inl (ThrownTrading e), h2) \<and> te_code e = ''trade.resize-orphaned'' \<and>
       te_payload e = Some (pending_payload_of repl)))"

definition volume_unblocked :: "'d service_deps \<Rightarrow> service_log \<Rightarrow> trading_order \<Rightarrow> string \<Rightarrow> bool" where
  "volume_unblocked S h ord v \<longleftrightarrow> (\<forall>sy. sd_symbol S h (o_displaySymbol ord) = Some sy \<longrightarrow>
     (\<exists>iss. volumeIssues (sd_decimal S) v sy = Some iss \<and> (\<forall>i\<in>set iss. vi_severity i \<noteq> SevError)))"

definition resize_shape :: "'d service_deps \<Rightarrow> service_log \<Rightarrow> trading_order \<Rightarrow> string \<Rightarrow> order_changes \<Rightarrow>
    (js_value thrown + resize_result) \<times> service_log \<Rightarrow> bool" where
  "resize_shape S h ord v c out \<longleftrightarrow>
     (\<exists>e. out = (Inl e, h)) \<or>
     (\<exists>r. cancel_request_for S h ord r \<and> or_else (sd_login S h) '''' \<noteq> '''' \<and> \<not> sd_readOnly S h \<and>
        o_status ord = Working \<and> volume_unblocked S h ord v \<and>
        (case sd_trading S h r of Inl e \<Rightarrow> out = (Inl e, h @ [Called r])
         | Inr x \<Rightarrow> if tr_state x \<noteq> Accepted
             then \<exists>e. out = (Inl (ThrownTrading e), h @ once ''cancel-order'' r x) \<and>
                      te_code e = ''trade.resize-cancel-failed''
             else \<exists>price. (ch_price c = Some price \<or> ch_price c = None \<and> o_price ord = Some price) \<and>
                    replaced S ord (replacement_for ord v c price) x (h @ once ''cancel-order'' r x) out))"

lemma resize_shape_throw: "resize_shape S h ord v c (Inl e, h)"
  by (simp add: resize_shape_def)

lemma resize_shape_refuse: "resize_shape S h ord v c (refuse S' k m cd rt p h)"
  by (simp add: refuse_def resize_shape_throw)

lemma blocking_volume_issue_run:
  "(\<exists>e. blocking_volume_issue S (o_displaySymbol ord) v h = (Inl e, h)) \<or>
   (\<exists>m. blocking_volume_issue S (o_displaySymbol ord) v h = (Inr (Some m), h)) \<or>
   (blocking_volume_issue S (o_displaySymbol ord) v h = (Inr None, h) \<and> volume_unblocked S h ord v)"
proof (cases "sd_symbol S h (o_displaySymbol ord)")
  case None
  then show ?thesis by (simp add: blocking_volume_issue_def svc_defs volume_unblocked_def)
next
  case (Some sy)
  show ?thesis
  proof (cases "volumeIssues (sd_decimal S) v sy")
    case None
    then show ?thesis using Some by (simp add: blocking_volume_issue_def svc_defs)
  next
    case iss: (Some iss)
    show ?thesis
    proof (cases "find (\<lambda>i. vi_severity i = SevError) iss")
      case None
      then have "volume_unblocked S h ord v"
        using Some iss by (auto simp: volume_unblocked_def find_None_iff)
      then show ?thesis using Some iss None by (simp add: blocking_volume_issue_def svc_defs)
    next
      case (Some i)
      then show ?thesis using \<open>sd_symbol S h _ = _\<close> iss by (simp add: blocking_volume_issue_def svc_defs)
    qed
  qed
qed

lemma replaced_run:
  "replaced S ord repl x h1 (svc_catch
     (svc_bind (placePendingOrder S repl) (\<lambda>placed.
        svc_return \<lparr>rr_cancelled = x, rr_placed = placed, rr_previousOrderId = o_id ord\<rparr>))
     (orphaned S ord repl) h1)"
  by (auto simp: replaced_def svc_defs orphaned_def new_TradingError_def split: prod.splits sum.splits)

lemma resize_second_half:
  assumes "volume_unblocked S h ord v" "o_status ord = Working"
    and price: "ch_price c = Some price \<or> ch_price c = None \<and> o_price ord = Some price"
  shows "resize_shape S h ord v c
    (svc_bind (cancelOrder S ord) (\<lambda>cancelled.
         if tr_state cancelled \<noteq> Accepted then
           refuse S Validation (m cancelled) ''trade.resize-cancel-failed'' None None
         else svc_catch
           (svc_bind (placePendingOrder S (replacement_for ord v c price)) (\<lambda>placed.
            svc_return \<lparr>rr_cancelled = cancelled, rr_placed = placed, rr_previousOrderId = o_id ord\<rparr>))
           (orphaned S ord (replacement_for ord v c price))) h)"
proof -
  have one: "one_call S ''cancel-order'' (cancel_request_for S h ord) h (cancelOrder S ord h)"
    by (rule cancelOrder_one_call)
  have bind: "svc_bind (cancelOrder S ord) f h = (case cancelOrder S ord h of
      (Inl e, h') \<Rightarrow> (Inl e, h') | (Inr x, h') \<Rightarrow> f x h')" for f :: "trade_submission_result \<Rightarrow> resize_result svc"
    by (simp add: svc_bind_def)
  from one show ?thesis
  proof (cases rule: one_callE)
    case refused
    then show ?thesis by (simp add: bind resize_shape_throw)
  next
    case failed
    then show ?thesis unfolding resize_shape_def bind using assms(1,2) by auto
  next
    case (answered r x)
    show ?thesis
    proof (cases "tr_state x = Accepted")
      case False
      then have "\<exists>e. refuse S Validation (m x) ''trade.resize-cancel-failed'' None None
            (h @ once ''cancel-order'' r x) = (Inl (ThrownTrading e), h @ once ''cancel-order'' r x) \<and>
          te_code e = ''trade.resize-cancel-failed''"
        by (simp add: refuse_def new_TradingError_def)
      then show ?thesis
        unfolding resize_shape_def bind using answered assms(1,2) False by (intro disjI2 exI [of _ r]) auto
    next
      case True
      then show ?thesis
        unfolding resize_shape_def bind
        using answered assms price replaced_run by (intro disjI2 exI [of _ r]) auto
    qed
  qed
qed

lemma resize_shape_decimal:
  assumes "\<And>a. x = Some a \<Longrightarrow> resize_shape S h ord v c (f a h)"
  shows "resize_shape S h ord v c (svc_bind (svc_decimal S x) f h)"
  using assms by (simp add: svc_defs resize_shape_throw split: option.splits)

lemma resize_shape_if:
  "(b \<Longrightarrow> resize_shape S h ord v c (f h)) \<Longrightarrow> (\<not> b \<Longrightarrow> resize_shape S h ord v c (g h)) \<Longrightarrow>
   resize_shape S h ord v c ((if b then f else g) h)"
  by simp

lemma resize_shape_context:
  assumes "\<And>ctx. resize_shape S h ord v c (f ctx h)"
  shows "resize_shape S h ord v c (svc_bind (requireTradingContext S s) f h)"
  using assms by (simp add: requireTradingContext_def svc_defs resize_shape_throw)

lemma resize_shape_blocking:
  assumes "\<And>m. resize_shape S h ord v c (f (Some m) h)"
    "volume_unblocked S h ord v \<Longrightarrow> resize_shape S h ord v c (f None h)"
  shows "resize_shape S h ord v c (svc_bind (blocking_volume_issue S (o_displaySymbol ord) v) f h)"
  using blocking_volume_issue_run [of S ord v h] assms by (auto simp: svc_bind_def resize_shape_throw)

lemma resizePendingOrder_shape: "resize_shape S h ord v c (resizePendingOrder S ord v c h)"
  unfolding resizePendingOrder_def
proof (rule resize_shape_context, rule resize_shape_if, rule resize_shape_refuse, rule resize_shape_if,
    rule resize_shape_refuse, rule resize_shape_decimal, rule resize_shape_if, rule resize_shape_refuse, goal_cases)
  case (1 ctx same)
  show ?case
  proof (cases "case ch_price c of Some p \<Rightarrow> Some p | None \<Rightarrow> o_price ord")
    case None
    then show ?thesis by (simp add: resize_shape_refuse)
  next
    case (Some price)
    then have price: "ch_price c = Some price \<or> ch_price c = None \<and> o_price ord = Some price"
      by (auto split: option.splits)
    show ?thesis
      unfolding Some option.case
    proof (rule resize_shape_blocking, unfold option.case, rule resize_shape_refuse, goal_cases)
      case 1
      then show ?case by (rule resize_second_half) (use \<open>\<not> o_status ord \<noteq> Working\<close> price in simp_all)
    qed
  qed
qed

end
