(* ===== verification/TradeGuarantees.thy ===== *)
theory TradeGuarantees
  imports TradingService
begin

text \<open>
  What the trading service guarantees, over every operation at once and for the resize. The
  operations are the constructors of \<open>service_op\<close>; \<open>run_op\<close> is the method each one stands
  for. The facts about the states of results rest on the contract \<open>trade_backend\<close> of the
  backend.
\<close>

section \<open>The operations\<close>

datatype service_op = DoOpen open_position_input | DoPlace place_pending_input
  | DoBrackets position "string option" "string option" | DoCancelLeg bracket_parent bracket_leg
  | DoClose position "string option" | DoModify trading_order order_changes | DoCancel trading_order

fun run_op :: "'d service_deps \<Rightarrow> service_op \<Rightarrow> trade_submission_result svc" where
  "run_op S (DoOpen i) = openPosition S i"
| "run_op S (DoPlace i) = placePendingOrder S i"
| "run_op S (DoBrackets pos sl tp) = modifyPositionBrackets S pos sl tp"
| "run_op S (DoCancelLeg parent leg) = cancelBracketLeg S parent leg"
| "run_op S (DoClose pos v) = closePosition S pos v"
| "run_op S (DoModify ord c) = modifyOrder S ord c"
| "run_op S (DoCancel ord) = cancelOrder S ord"

text \<open>The one request an operation may send, and the reason it reports.\<close>

fun leg_changes :: "trading_order \<Rightarrow> bracket_leg \<Rightarrow> order_changes" where
  "leg_changes ord leg = \<lparr>ch_price = None, ch_volumeLots = None,
     ch_stopLoss = Some (if leg = LegSl then None else o_stopLoss ord),
     ch_takeProfit = Some (if leg = LegTp then None else o_takeProfit ord)\<rparr>"

fun op_request_for :: "'d service_deps \<Rightarrow> service_log \<Rightarrow> service_op \<Rightarrow> trade_request \<Rightarrow> bool" where
  "op_request_for S h (DoOpen i) = open_request_for S h i"
| "op_request_for S h (DoPlace i) = pending_request_for S h i"
| "op_request_for S h (DoBrackets pos sl tp) = brackets_request_for S h pos sl tp"
| "op_request_for S h (DoCancelLeg (OrderParent ord) leg) = modify_request_for S h ord (leg_changes ord leg)"
| "op_request_for S h (DoCancelLeg (PositionParent pos) leg) = brackets_request_for S h pos
     (if leg = LegSl then None else p_stopLoss pos) (if leg = LegTp then None else p_takeProfit pos)"
| "op_request_for S h (DoClose pos v) = close_request_for S h pos v"
| "op_request_for S h (DoModify ord c) = modify_request_for S h ord c"
| "op_request_for S h (DoCancel ord) = cancel_request_for S h ord"

fun op_reason :: "service_op \<Rightarrow> string" where
  "op_reason (DoOpen i) = ''open-position''"
| "op_reason (DoPlace i) = ''place-pending''"
| "op_reason (DoBrackets pos sl tp) = ''modify-position''"
| "op_reason (DoCancelLeg (OrderParent ord) leg) = ''modify-order''"
| "op_reason (DoCancelLeg (PositionParent pos) leg) = ''modify-position''"
| "op_reason (DoClose pos v) = ''close-position''"
| "op_reason (DoModify ord c) = ''modify-order''"
| "op_reason (DoCancel ord) = ''cancel-order''"

lemma run_op_one_call: "one_call S (op_reason op) (op_request_for S h op) h (run_op S op h)"
proof (cases op)
  case (DoOpen i) then show ?thesis using openPosition_one_call by simp
next
  case (DoPlace i) then show ?thesis using placePendingOrder_one_call by simp
next
  case (DoBrackets pos sl tp) then show ?thesis using modifyPositionBrackets_one_call by simp
next
  case (DoCancelLeg parent leg)
  then show ?thesis
    by (cases parent) (simp_all only: run_op.simps cancelBracketLeg.simps op_reason.simps op_request_for.simps
        leg_changes.simps modifyOrder_one_call modifyPositionBrackets_one_call)
next
  case (DoClose pos v) then show ?thesis using closePosition_one_call by simp
next
  case (DoModify ord c) then show ?thesis using modifyOrder_one_call by simp
next
  case (DoCancel ord) then show ?thesis using cancelOrder_one_call by simp
qed

lemmas run_opE = run_op_one_call [THEN one_callE]

definition can_trade :: "'d service_deps \<Rightarrow> service_log \<Rightarrow> bool" where
  "can_trade S h \<longleftrightarrow> or_else (sd_login S h) '''' \<noteq> '''' \<and> \<not> sd_readOnly S h"

section \<open>Properties of every operation\<close>

text \<open>C8. Without a selected account, or on a read-only one, no operation does anything: each of
  them - the resize too - throws before any call, and leaves no trace outside.\<close>

theorem no_trade_without_context:
  assumes "\<not> can_trade S h"
  shows "(\<exists>e. run_op S op h = (Inl e, h)) \<and> (\<exists>e. resizePendingOrder S ord v c h = (Inl e, h))"
proof
  show "\<exists>e. run_op S op h = (Inl e, h)"
    using run_op_one_call [of S op h] assms by (cases rule: one_callE) (auto simp: can_trade_def)
  show "\<exists>e. resizePendingOrder S ord v c h = (Inl e, h)"
    using resizePendingOrder_shape [of S h ord v c] assms by (auto simp: resize_shape_def can_trade_def)
qed

text \<open>C7. An operation that returns has made exactly one call on the trading API, the one its
  arguments determine, returns that call's result unchanged, and has triggered exactly one
  reconciliation, after the call, under its own reason; a diagnostic of the result is reported.\<close>

theorem one_call_one_reconciliation:
  assumes "run_op S op h = (Inr x, h')"
  shows "\<exists>r. op_request_for S h op r \<and> sd_trading S h r = Inr x \<and>
    h' = h @ [Called r, StateChanged (op_reason op)] @
      (case tr_diagnostic x of None \<Rightarrow> [] | Some e \<Rightarrow> [Diagnosed (op_reason op) e])"
  using run_op_one_call [of S op h]
proof (cases rule: one_callE)
  case (answered r y)
  then show ?thesis using assms by (auto simp: once_def)
qed (use assms in auto)

text \<open>C6. Cancelling one bracket leg leaves the other exactly as it was: the one request it may send
  carries no level for the leg that is cancelled and the parent's own level for the other,
  for a position and for a pending order alike, and a pending order keeps its volume and price.\<close>

theorem surviving_leg_kept:
  assumes "Called r \<in> set (drop (length h) (snd (run_op S (DoCancelLeg parent leg) h)))"
  shows "wire_levels r = Some (case parent of
      OrderParent ord \<Rightarrow> (if leg = LegSl then None else o_stopLoss ord, if leg = LegTp then None else o_takeProfit ord)
    | PositionParent pos \<Rightarrow> (if leg = LegSl then None else p_stopLoss pos, if leg = LegTp then None else p_takeProfit pos)) \<and>
    (\<forall>ord q. parent = OrderParent ord \<longrightarrow> r = ReqModifyOrder q \<longrightarrow>
       rq_volumeLots q = o_volume ord \<and> o_price ord = Some (rq_price q))"
proof -
  have "op_request_for S h (DoCancelLeg parent leg) r"
    using run_op_one_call [of S "DoCancelLeg parent leg" h]
  proof (cases rule: one_callE)
    case (failed r' e)
    then show ?thesis using assms by simp
  next
    case (answered r' x)
    then show ?thesis using assms by (auto simp: once_def split: option.splits)
  qed (use assms in auto)
  then show ?thesis
    by (cases parent) (auto simp: modify_request_for_def brackets_request_for_def)
qed

text \<open>No path changes the size of a pending order in place: whatever a modification asks for, a
  request to modify is sent only with a volume numerically equal to the order's own.\<close>

theorem modify_never_resizes:
  assumes "decimal_js (sd_decimal S) val" "is_dec (sd_decimal S) (o_volume ord)"
    "\<forall>v. ch_volumeLots c = Some v \<longrightarrow> is_dec (sd_decimal S) v"
    "Called (ReqModifyOrder q) \<in> set (drop (length h) (snd (run_op S (DoModify ord c) h)))"
  shows "dval (sd_decimal S) val (rq_volumeLots q) = dval (sd_decimal S) val (o_volume ord)"
proof -
  note laws = decimal_js.equals_val [OF assms(1)] decimal_js.dec_is_dec [OF assms(1)]
    decimal_js.finite_dnum [OF assms(1)] decimal_js.val_dnum [OF assms(1)]
  have "op_request_for S h (DoModify ord c) (ReqModifyOrder q)"
    using run_op_one_call [of S "DoModify ord c" h]
  proof (cases rule: one_callE)
    case (failed r' e)
    then show ?thesis using assms(4) by simp
  next
    case (answered r' x)
    then show ?thesis using assms(4) by (auto simp: once_def split: option.splits)
  qed (use assms(4) in auto)
  then show ?thesis
    using assms(2,3) by (auto simp: modify_request_for_def laws split: option.splits)
qed

section \<open>Properties of the resize\<close>

lemma replaced_log:
  assumes "replaced S ord repl x (h @ once reason r x) (out, h')"
  shows "\<exists>rest. h' = h @ Called r # rest"
proof -
  let ?g = "h @ once reason r x"
  have "\<exists>rest. snd (placePendingOrder S repl ?g) = ?g @ rest"
    using placePendingOrder_one_call [of S ?g repl] by (cases rule: one_callE) auto
  moreover have "snd (placePendingOrder S repl ?g) = h'"
    using assms by (auto simp: replaced_def split: prod.splits sum.splits)
  ultimately show ?thesis by (auto simp: once_def)
qed

text \<open>C1. A resize never risks two live orders: when it sends a replacement, the cancel of the
  original was sent before, and the trading server definitively accepted it; the order was
  working and the new volume passed validation before anything was cancelled.\<close>

theorem resize_places_after_cancel:
  assumes "resizePendingOrder S ord v c h = (out, h')" "Called (ReqPending q) \<in> set (drop (length h) h')"
  shows "\<exists>r x rest. cancel_request_for S h ord r \<and> sd_trading S h r = Inr x \<and> tr_state x = Accepted \<and>
    h' = h @ Called r # rest \<and> o_status ord = Working \<and> volume_unblocked S h ord v"
proof -
  have "resize_shape S h ord v c (out, h')"
    using resizePendingOrder_shape [of S h ord v c] assms(1) by simp
  then obtain r where r: "cancel_request_for S h ord r" "o_status ord = Working" "volume_unblocked S h ord v"
      "case sd_trading S h r of Inl e \<Rightarrow> (out, h') = (Inl e, h @ [Called r])
       | Inr x \<Rightarrow> if tr_state x \<noteq> Accepted
           then \<exists>e. (out, h') = (Inl (ThrownTrading e), h @ once ''cancel-order'' r x) \<and>
                    te_code e = ''trade.resize-cancel-failed''
           else \<exists>price. (ch_price c = Some price \<or> ch_price c = None \<and> o_price ord = Some price) \<and>
                  replaced S ord (replacement_for ord v c price) x (h @ once ''cancel-order'' r x) (out, h')"
    using assms(2) by (auto simp: resize_shape_def)
  have not_pending: "r \<noteq> ReqPending q" using r(1) by (simp add: cancel_request_for_def)
  obtain x where x: "sd_trading S h r = Inr x"
    using r(4) assms(2) not_pending by (cases "sd_trading S h r") auto
  moreover have "tr_state x = Accepted"
    using r(4) x assms(2) not_pending by (auto simp: once_def split: if_splits option.splits)
  moreover from this obtain price where
    "replaced S ord (replacement_for ord v c price) x (h @ once ''cancel-order'' r x) (out, h')"
    using r(4) x by auto
  ultimately show ?thesis using r(1-3) replaced_log by blast
qed


section \<open>Witnesses\<close>

text \<open>A backend that accepts a cancel and cannot be reached for anything else.\<close>

definition accepted_reply :: trade_submission_result where
  "accepted_reply = \<lparr>tr_state = Accepted, tr_orderId = None, tr_retcode = None, tr_message = None,
     tr_requestId = ''r1'', tr_idempotencyKey = None, tr_diagnostic = None\<rparr>"

definition flaky :: "service_log \<Rightarrow> trade_request \<Rightarrow> js_value thrown + trade_submission_result" where
  "flaky h r = (case r of ReqPending q \<Rightarrow> Inl (ThrownOther ''offline'') | _ \<Rightarrow> Inr accepted_reply)"

definition sample_deps :: "ref_dec service_deps" where
  "sample_deps = \<lparr>sd_decimal = ref_lib, sd_decimalError = ''invalid'', sd_trading = flaky,
     sd_login = (\<lambda>h. Some ''7001''), sd_policy = (\<lambda>h. NO_SUFFIX_POLICY), sd_symbol = (\<lambda>h s. None),
     sd_readOnly = (\<lambda>h. False), sd_err = (\<lambda>h. \<lparr>env_now = 0, env_uuid = ''u''\<rparr>)\<rparr>"

definition sample_order :: trading_order where
  "sample_order = \<lparr>o_id = ''55'', o_symbol = ''EURUSD.'', o_displaySymbol = ''EURUSD'', o_side = Buy,
     o_kind = Limit, o_status = Working, o_volume = ''0.1'', o_filledVolume = None, o_price = Some ''1.09'',
     o_currentPrice = None, o_stopLoss = Some ''1.08'', o_takeProfit = None, o_expiration = None,
     o_createdAt = None, o_comment = None\<rparr>"

definition no_changes :: order_changes where
  "no_changes = \<lparr>ch_price = None, ch_volumeLots = None, ch_stopLoss = None, ch_takeProfit = None\<rparr>"

definition sample_cancel :: trade_request where
  "sample_cancel = ReqCancel \<lparr>cq_login = ''7001'', cq_symbol = ''EURUSD.'', cq_orderId = ''55'', cq_side = Buy,
     cq_kind = Limit\<rparr>"

definition sample_place :: pending_request where
  "sample_place = \<lparr>rq_login = ''7001'', rq_symbol = ''EURUSD'', rq_side = Buy, rq_volumeLots = ''0.2'',
     rq_price = ''1.09'', rq_stopLoss = Some ''1.08'', rq_takeProfit = None, rq_digits = 2, rq_kind = Limit\<rparr>"

lemma sample_resize:
  "snd (resizePendingOrder sample_deps sample_order ''0.2'' no_changes []) =
     [Called sample_cancel, StateChanged ''cancel-order'', Called (ReqPending sample_place)]"
  by code_simp

theorem no_trade_without_context_witness:
  "\<exists>e. run_op (sample_deps\<lparr>sd_readOnly := \<lambda>h. True\<rparr>) (DoCancel sample_order) [] = (Inl e, [])"
proof -
  have "\<not> can_trade (sample_deps\<lparr>sd_readOnly := \<lambda>h. True\<rparr>) []" by (simp add: can_trade_def)
  from no_trade_without_context [OF this] show ?thesis by blast
qed

theorem one_call_one_reconciliation_witness:
  "\<exists>r. op_request_for sample_deps [] (DoCancel sample_order) r \<and>
     snd (run_op sample_deps (DoCancel sample_order) []) = [Called r, StateChanged ''cancel-order'']"
proof -
  have run: "run_op sample_deps (DoCancel sample_order) [] =
      (Inr accepted_reply, [Called sample_cancel, StateChanged ''cancel-order''])"
    by code_simp
  show ?thesis
    using one_call_one_reconciliation [OF run] by (auto simp: run simp del: run_op.simps op_request_for.simps simp: accepted_reply_def)
qed

theorem surviving_leg_kept_witness:
  "\<exists>r. Called r \<in> set (snd (run_op sample_deps (DoCancelLeg (OrderParent sample_order) LegTp) [])) \<and>
     wire_levels r = Some (Some ''1.08'', None)"
proof -
  define r where "r = ReqModifyOrder \<lparr>rq_login = ''7001'', rq_symbol = ''EURUSD.'', rq_side = Buy,
     rq_volumeLots = ''0.1'', rq_price = ''1.09'', rq_stopLoss = Some ''1.08'', rq_takeProfit = None, rq_digits = 2,
     rq_kind = Limit, rq_orderId = ''55''\<rparr>"
  have "snd (run_op sample_deps (DoCancelLeg (OrderParent sample_order) LegTp) []) =
      [Called (ReqModifyOrder \<lparr>rq_login = ''7001'', rq_symbol = ''EURUSD.'', rq_side = Buy,
     rq_volumeLots = ''0.1'', rq_price = ''1.09'', rq_stopLoss = Some ''1.08'', rq_takeProfit = None, rq_digits = 2,
     rq_kind = Limit, rq_orderId = ''55''\<rparr>), StateChanged ''modify-order'']"
    by code_simp
  then have r: "Called r \<in> set (snd (run_op sample_deps (DoCancelLeg (OrderParent sample_order) LegTp) []))"
    by (simp add: r_def del: run_op.simps)
  then show ?thesis
    using surviving_leg_kept [of r "[]" sample_deps "OrderParent sample_order" LegTp]
    by (auto simp: sample_order_def simp del: run_op.simps)
qed

theorem modify_never_resizes_witness:
  "\<exists>q. Called (ReqModifyOrder q) \<in> set (snd (run_op sample_deps
       (DoModify sample_order (no_changes\<lparr>ch_volumeLots := Some ''0.10''\<rparr>)) [])) \<and>
     dval ref_lib ref_val (rq_volumeLots q) = dval ref_lib ref_val ''0.1''"
proof -
  define q where "q = \<lparr>rq_login = ''7001'', rq_symbol = ''EURUSD.'', rq_side = Buy,
     rq_volumeLots = ''0.10'', rq_price = ''1.09'', rq_stopLoss = Some ''1.08'', rq_takeProfit = None, rq_digits = 2,
     rq_kind = Limit, rq_orderId = ''55''\<rparr>"
  have "snd (run_op sample_deps (DoModify sample_order (no_changes\<lparr>ch_volumeLots := Some ''0.10''\<rparr>)) []) =
      [Called (ReqModifyOrder \<lparr>rq_login = ''7001'', rq_symbol = ''EURUSD.'', rq_side = Buy,
     rq_volumeLots = ''0.10'', rq_price = ''1.09'', rq_stopLoss = Some ''1.08'', rq_takeProfit = None, rq_digits = 2,
     rq_kind = Limit, rq_orderId = ''55''\<rparr>), StateChanged ''modify-order'']"
    by code_simp
  then have q: "Called (ReqModifyOrder q) \<in> set (snd (run_op sample_deps
      (DoModify sample_order (no_changes\<lparr>ch_volumeLots := Some ''0.10''\<rparr>)) []))"
    by (simp add: q_def del: run_op.simps)
  have d: "is_dec ref_lib ''0.1''" "is_dec ref_lib ''0.10''" by code_simp+
  show ?thesis
    using modify_never_resizes [of sample_deps ref_val sample_order "no_changes\<lparr>ch_volumeLots := Some ''0.10''\<rparr>" q "[]"]
      ref_laws q d
    by (auto simp: sample_deps_def sample_order_def no_changes_def simp del: run_op.simps)
qed

theorem resize_places_after_cancel_witness:
  "\<exists>r x. cancel_request_for sample_deps [] sample_order r \<and> sd_trading sample_deps [] r = Inr x \<and> tr_state x = Accepted"
proof -
  obtain out h' where run: "resizePendingOrder sample_deps sample_order ''0.2'' no_changes [] = (out, h')" by fastforce
  then have "Called (ReqPending sample_place) \<in> set (drop (length ([] :: service_log)) h')"
    using sample_resize by simp
  from resize_places_after_cancel [OF run this] show ?thesis by blast
qed


end
