(* ===== verification/Risk.thy ===== *)
theory Risk
  imports Validation
begin

text \<open>
  \<^verbatim>\<open>frontend/src/domain/orders/risk.ts\<close>, risk sizing: the volume that loses a given amount
  at the stop. \<open>calculateRisk\<close> is composed of the stop distance, the target distance, the
  risk amount, the volume, the profit and the ratio in the order of the code; \<open>None\<close> is an
  exception of \<^verbatim>\<open>new Decimal\<close>. A value the inputs cannot give is \<^verbatim>\<open>null\<close>, with a
  reason. Shown: when the function returns, how the sized volume relates to the amount at
  risk, and which null volumes have a reason.
\<close>

section \<open>Risk sizing\<close>

record risk_inputs =
  ri_symbol :: "trading_symbol option"
  ri_equity :: "string option"
  ri_riskPercent :: "string option"
  ri_riskAmount :: "string option"
  ri_entryPrice :: "string option"
  ri_stopLossPrice :: "string option"
  ri_takeProfitPrice :: "string option"
  ri_side :: side

record risk_outputs =
  ro_stopDistance :: "string option"
  ro_takeProfitDistance :: "string option"
  ro_riskAmount :: "string option"
  ro_suggestedVolume :: "string option"
  ro_potentialLoss :: "string option"
  ro_potentialProfit :: "string option"
  ro_riskRewardRatio :: "string option"
  ro_unavailable :: "string list"

definition emptyOutputs :: "string list \<Rightarrow> risk_outputs" where
  "emptyOutputs unavailable = \<lparr>ro_stopDistance = None, ro_takeProfitDistance = None,
     ro_riskAmount = None, ro_suggestedVolume = None, ro_potentialLoss = None,
     ro_potentialProfit = None, ro_riskRewardRatio = None, ro_unavailable = unavailable\<rparr>"

definition distance_of :: "'d decimal_lib \<Rightarrow> string \<Rightarrow> string \<Rightarrow> 'd option" where
  "distance_of D a b = do { x \<leftarrow> dec D a; y \<leftarrow> dec D b; Some (d_abs D (d_minus D x y)) }"

definition risk_stop :: "'d decimal_lib \<Rightarrow> risk_inputs \<Rightarrow> (string option \<times> string list) option" where
  "risk_stop D inputs = (case (ri_entryPrice inputs, ri_stopLossPrice inputs) of
     (Some e, Some s) \<Rightarrow> do {
       distance \<leftarrow> distance_of D e s;
       Some (if d_is_zero D distance then (None, [''Stop-loss must differ from the entry price.''])
             else (Some (decimalStringOf D distance), [])) }
   | _ \<Rightarrow> Some (None, [''Enter an entry price and a stop-loss to size the position.'']))"

definition risk_target :: "'d decimal_lib \<Rightarrow> risk_inputs \<Rightarrow> string option option" where
  "risk_target D inputs = (case (ri_entryPrice inputs, ri_takeProfitPrice inputs) of
     (Some e, Some t) \<Rightarrow> if t = '''' then Some None
       else map_option (\<lambda>d. Some (decimalStringOf D d)) (distance_of D e t)
   | _ \<Rightarrow> Some None)"

text \<open>
  The absolute amount wins when its text is not blank; both texts go to \<^verbatim>\<open>new Decimal\<close>
  as typed, so either may throw.
\<close>

definition risk_amount :: "'d decimal_lib \<Rightarrow> risk_inputs \<Rightarrow> (string option \<times> string list) option" where
  "risk_amount D inputs =
     (let amountText = or_else (ri_riskAmount inputs) '''';
          percentText = or_else (ri_riskPercent inputs) ''''
      in if js_trim amountText \<noteq> '''' then do {
           parsed \<leftarrow> dec D amountText;
           Some (if d_is_finite D parsed \<and> d_is_pos D parsed then Some (decimalStringOf D parsed) else None, []) }
         else case ri_equity inputs of
           Some equity \<Rightarrow> if percentText \<noteq> '''' then do {
               percent \<leftarrow> dec D percentText;
               if d_is_finite D percent \<and> d_is_pos D percent then do {
                 q \<leftarrow> dec D equity;
                 Some (Some (decimalStringOf D (d_div D (d_times D q percent) (d_num D (js_int 100)))), []) }
               else Some (None, []) }
             else Some (None, [])
         | None \<Rightarrow> Some (None, [''Account equity is unavailable.'']))"

definition risk_volume ::
  "'d decimal_lib \<Rightarrow> trading_symbol \<Rightarrow> string option \<Rightarrow> string option \<Rightarrow>
   (string option \<times> string option \<times> string list) option" where
  "risk_volume D symbol stopDistance riskAmount = (case (sy_tickSize symbol, sy_tickValue symbol) of
     (Some ts, Some tv) \<Rightarrow> (case (stopDistance, riskAmount) of
       (Some sd, Some ra) \<Rightarrow> do {
         tickSize \<leftarrow> dec D ts;
         tickValue \<leftarrow> dec D tv;
         if d_is_zero D tickSize \<or> d_is_zero D tickValue
         then Some (None, None, [''This symbol reports a zero tick size or tick value.''])
         else do {
           dist \<leftarrow> dec D sd;
           let lossPerLot = d_times D (d_div D dist tickSize) tickValue;
           if d_is_zero D lossPerLot
           then Some (None, None, [''The stop distance is too small to size a position.''])
           else do {
             r \<leftarrow> dec D ra;
             let rawVolume = d_div D r lossPerLot;
             quantised \<leftarrow> (case sy_volumeStep symbol of None \<Rightarrow> Some rawVolume
               | Some st \<Rightarrow> do { step \<leftarrow> dec D st;
                   Some (if d_is_pos D step then d_times D (d_floor D (d_div D rawVolume step)) step
                         else rawVolume) });
             Some (if d_less D (d_num D (js_int 0)) quantised
               then (Some (decimalStringOf D quantised),
                     Some (decimalStringOf D (d_times D quantised lossPerLot)), [])
               else (None, None, [''The risk amount is too small for the minimum volume on this symbol.''])) } } }
     | _ \<Rightarrow> Some (None, None, []))
   | _ \<Rightarrow> Some (None, None,
       [''Tick size and tick value are unavailable for this symbol, so position size cannot be calculated.'']))"

definition risk_profit ::
  "'d decimal_lib \<Rightarrow> trading_symbol \<Rightarrow> string option \<Rightarrow> string option \<Rightarrow> string option option" where
  "risk_profit D symbol suggestedVolume takeProfitDistance =
     (case (suggestedVolume, takeProfitDistance, sy_tickSize symbol, sy_tickValue symbol) of
        (Some vol, Some tpd, Some ts, Some tv) \<Rightarrow> do {
          tickSize \<leftarrow> dec D ts;
          if d_is_zero D tickSize then Some None
          else do { d \<leftarrow> dec D tpd; tickValue \<leftarrow> dec D tv; v \<leftarrow> dec D vol;
            Some (Some (decimalStringOf D (d_times D (d_times D (d_div D d tickSize) tickValue) v))) } }
      | _ \<Rightarrow> Some None)"

definition risk_ratio :: "'d decimal_lib \<Rightarrow> string option \<Rightarrow> string option \<Rightarrow> string option option" where
  "risk_ratio D stopDistance takeProfitDistance = (case (stopDistance, takeProfitDistance) of
     (Some sd, Some tpd) \<Rightarrow> do {
       s \<leftarrow> dec D sd;
       if d_is_zero D s then Some None
       else do { t \<leftarrow> dec D tpd; Some (Some (decimalStringOf D (d_div D t s))) } }
   | _ \<Rightarrow> Some None)"

definition calculateRisk :: "'d decimal_lib \<Rightarrow> risk_inputs \<Rightarrow> risk_outputs option" where
  "calculateRisk D inputs = (case ri_symbol inputs of
     None \<Rightarrow> Some (emptyOutputs [''Select a symbol.''])
   | Some symbol \<Rightarrow> do {
       (stopDistance, u1) \<leftarrow> risk_stop D inputs;
       takeProfitDistance \<leftarrow> risk_target D inputs;
       (riskAmount, u2) \<leftarrow> risk_amount D inputs;
       (suggestedVolume, potentialLoss, u3) \<leftarrow> risk_volume D symbol stopDistance riskAmount;
       potentialProfit \<leftarrow> risk_profit D symbol suggestedVolume takeProfitDistance;
       riskRewardRatio \<leftarrow> risk_ratio D stopDistance takeProfitDistance;
       Some \<lparr>ro_stopDistance = stopDistance, ro_takeProfitDistance = takeProfitDistance,
         ro_riskAmount = riskAmount, ro_suggestedVolume = suggestedVolume,
         ro_potentialLoss = potentialLoss, ro_potentialProfit = potentialProfit,
         ro_riskRewardRatio = riskRewardRatio, ro_unavailable = u1 @ u2 @ u3\<rparr> })"

section \<open>Risk sizing on the values the inputs denote\<close>

definition wf_risk_inputs :: "'d decimal_lib \<Rightarrow> risk_inputs \<Rightarrow> bool" where
  "wf_risk_inputs D i \<longleftrightarrow> (\<forall>sy. ri_symbol i = Some sy \<longrightarrow> wf_symbol D sy) \<and>
     is_dec_opt D (ri_equity i) \<and> is_dec_opt D (ri_entryPrice i) \<and>
     is_dec_opt D (ri_stopLossPrice i) \<and> is_dec_opt D (ri_takeProfitPrice i)"


text \<open>The risk text is read as typed: it must be one \<^verbatim>\<open>new Decimal\<close> accepts.\<close>

definition risk_text :: "risk_inputs \<Rightarrow> string option" where
  "risk_text i = (if js_trim (or_else (ri_riskAmount i) '''') \<noteq> '''' then ri_riskAmount i
     else if ri_equity i \<noteq> None \<and> or_else (ri_riskPercent i) '''' \<noteq> '''' then ri_riskPercent i
     else None)"

context decimal_js
begin

text \<open>The slack four roundings in a row leave.\<close>

lemma four_roundings: "(1 + 1 / (2 * 10 ^ 27)) ^ 4 \<le> (1 + 1 / 10 ^ 26 :: rat)"
  by (simp add: power_numeral_reduce)

lemma is_dec_distance:
  "is_dec D a \<Longrightarrow> is_dec D b \<Longrightarrow> \<exists>d. distance_of D a b = Some d \<and> d_is_finite D d \<and>
     val d = \<bar>rnd (dval D val a - dval D val b)\<bar>"
  by (simp add: distance_of_def minus_val abs_val)

lemma quantised_bound:
  assumes r: "0 \<le> r" and L: "0 < L" and y: "0 < y"
    and v: "v = rnd (of_int \<lfloor>rnd (rnd (r / L) / y)\<rfloor> * y)"
  shows "rnd (v * L) \<le> r * (1 + 1 / 10 ^ 26)"
proof -
  define e where "e = (1 + 1 / (2 * 10 ^ 27) :: rat)"
  have e: "0 < e" by (simp add: e_def)
  note slack = rnd_le_slack [folded e_def]
  have q0: "0 \<le> r / L" using r L by simp
  then have q1: "0 \<le> rnd (r / L) / y" using y by simp
  define n where "n = \<lfloor>rnd (rnd (r / L) / y)\<rfloor>"
  have "0 \<le> rnd (rnd (r / L) / y)" using q1 by simp
  then have n: "0 \<le> n" "of_int n \<le> rnd (rnd (r / L) / y)" by (simp_all add: n_def)
  have "of_int n \<le> rnd (r / L) / y * e" using n(2) slack [OF q1] by linarith
  also have "\<dots> \<le> (r / L * e) / y * e"
    using slack [OF q0] y e by (intro mult_right_mono divide_right_mono) simp_all
  finally have "of_int n * y * L \<le> r * e ^ 2"
    using y L by (simp add: field_simps power2_eq_square)
  then have nyl: "of_int n * y * L * e ^ 2 \<le> r * e ^ 4"
    using mult_right_mono [of "of_int n * y * L" "r * e ^ 2" "e ^ 2"] by (simp add: power_numeral_reduce algebra_simps)
  have ny: "0 \<le> of_int n * y" using n y by simp
  have v: "v \<le> of_int n * y * e" "0 \<le> v"
    using slack [OF ny] ny by (simp_all add: v n_def)
  then have "rnd (v * L) \<le> v * L * e" using slack [of "v * L"] L by simp
  also have "\<dots> \<le> of_int n * y * e * L * e"
    using v L e by (intro mult_right_mono) simp_all
  also have "\<dots> = of_int n * y * L * e ^ 2" by (simp add: power2_eq_square)
  also have "\<dots> \<le> r * e ^ 4" by (rule nyl)
  also have "\<dots> \<le> r * (1 + 1 / 10 ^ 26)"
    using r four_roundings by (intro mult_left_mono) (simp_all add: e_def)
  finally show ?thesis .
qed

lemma unquantised_bound:
  assumes "0 \<le> r" "0 < L"
  shows "rnd (rnd (r / L) * L) \<le> r * (1 + 1 / 10 ^ 26)"
proof -
  define e where "e = (1 + 1 / (2 * 10 ^ 27) :: rat)"
  note slack = rnd_le_slack [folded e_def]
  have "rnd (rnd (r / L) * L) \<le> rnd (r / L) * L * e" using slack [of "rnd (r / L) * L"] assms by simp
  also have "\<dots> \<le> r / L * e * L * e"
    using slack [of "r / L"] assms by (intro mult_right_mono) (simp_all add: e_def)
  also have "\<dots> = r * e ^ 2" using assms by (simp add: power2_eq_square)
  also have "\<dots> \<le> r * (1 + 1 / 10 ^ 26)"
    using assms by (intro mult_left_mono) (simp_all add: e_def power_numeral_reduce)
  finally show ?thesis .
qed

text \<open>
  The sized volume is positive, and what it would lose at the stop is within the risk amount,
  up to one part in \<open>10 ^ 26\<close> for the roundings on the way.
\<close>

lemma risk_volume_bound:
  assumes run: "risk_volume D sy (Some sd) (Some ra) = Some (Some v, pl, u)"
    and dec: "is_dec D sd" "is_dec D ra" "sy_tickSize sy = Some ts" "is_dec D ts"
      "sy_tickValue sy = Some tv" "is_dec D tv" "is_dec_opt D (sy_volumeStep sy)"
    and pos: "0 < dval D val sd" "0 < dval D val ts" "0 < dval D val tv"
      "\<And>st. sy_volumeStep sy = Some st \<Longrightarrow> 0 < dval D val st"
  shows "is_dec D v \<and> 0 < dval D val v \<and> (\<exists>l. pl = Some l \<and> is_dec D l \<and>
    dval D val l \<le> dval D val ra * (1 + 1 / 10 ^ 26))"
proof -
  define L where "L = d_times D (d_div D (dnum D sd) (dnum D ts)) (dnum D tv)"
  have L: "d_is_finite D L" "0 < val L"
    using dec pos by (simp_all add: L_def times_val div_val)
  define w where "w = d_div D (dnum D ra) L"
  have w: "d_is_finite D w" "val w = rnd (dval D val ra / val L)"
    using dec L by (simp_all add: w_def div_val)
  define q where "q = (case sy_volumeStep sy of None \<Rightarrow> w
    | Some st \<Rightarrow> if d_is_pos D (dnum D st) then d_times D (d_floor D (d_div D w (dnum D st))) (dnum D st) else w)"
  have r: "v = decimalStringOf D q" "d_less D (d_num D (js_int 0)) q"
      "pl = Some (decimalStringOf D (d_times D q L))"
    using run dec L pos
    by (auto simp: risk_volume_def zero_val L_def [symmetric] w_def [symmetric] q_def Let_def
        split: option.splits if_splits)
  have q: "d_is_finite D q \<and> (0 < val q \<longrightarrow> rnd (val q * val L) \<le> dval D val ra * (1 + 1 / 10 ^ 26))"
  proof (cases "sy_volumeStep sy")
    case None
    then show ?thesis using w L unquantised_bound [of "dval D val ra" "val L"]
      by (auto simp: q_def zero_less_divide_iff)
  next
    case (Some st)
    then have st: "is_dec D st" "0 < dval D val st" using dec(7) pos(4) by simp_all
    then have "q = d_times D (d_floor D (d_div D w (dnum D st))) (dnum D st)"
      by (simp add: q_def Some pos_val)
    then have q: "d_is_finite D q" "val q = rnd (of_int \<lfloor>rnd (val w / dval D val st)\<rfloor> * dval D val st)"
      using st w(1) by (simp_all add: times_val floor_val div_val)
    have "0 < dval D val ra" if "0 < val q"
    proof -
      have "0 < \<lfloor>rnd (val w / dval D val st)\<rfloor>" using that st by (simp add: q zero_less_mult_iff)
      then have "0 < rnd (val w / dval D val st)" by linarith
      then show ?thesis using st L by (simp add: w(2) zero_less_divide_iff)
    qed
    then show ?thesis
      using quantised_bound [OF less_imp_le L(2) st(2) refl, of "dval D val ra"] w(2) q by auto
  qed
  with r L show ?thesis by (simp add: less_val times_val)
qed

lemma risk_stop_Some:
  assumes "is_dec_opt D (ri_entryPrice i)" "is_dec_opt D (ri_stopLossPrice i)"
  shows "\<exists>sd u. risk_stop D i = Some (sd, u) \<and> (sd = None \<longleftrightarrow> u \<noteq> []) \<and>
    (\<forall>s. sd = Some s \<longrightarrow> is_dec D s \<and> 0 < dval D val s)"
proof (cases "ri_entryPrice i = None \<or> ri_stopLossPrice i = None")
  case True
  then show ?thesis by (auto simp: risk_stop_def split: option.splits)
next
  case False
  then obtain e s where es: "ri_entryPrice i = Some e" "ri_stopLossPrice i = Some s" by auto
  then obtain d where "distance_of D e s = Some d" "d_is_finite D d" "val d = \<bar>rnd (dval D val e - dval D val s)\<bar>"
    using is_dec_distance [of e s] assms by auto
  then show ?thesis using es by (auto simp: risk_stop_def zero_val)
qed

lemma is_dec_parse: "is_dec D s \<Longrightarrow> d_parse D s = Some d \<Longrightarrow> d_is_finite D d"
  by (simp add: is_dec_def)

lemma risk_amount_dec:
  "is_dec_opt D (ri_equity i) \<Longrightarrow> risk_amount D i = Some (Some ra, u) \<Longrightarrow> is_dec D ra"
  by (auto simp: risk_amount_def Let_def Option.bind_eq_Some_conv times_val div_val dec_def
      intro!: is_dec_fixed split: if_splits option.splits dest: is_dec_parse)

lemma risk_amount_total:
  assumes "is_dec_opt D (ri_equity i)"
  shows "risk_amount D i = None \<longleftrightarrow> (\<exists>t. risk_text i = Some t \<and> d_parse D t = None)"
  using assms
  by (cases "ri_riskAmount i"; cases "ri_riskPercent i"; cases "ri_equity i")
     (auto simp: risk_amount_def risk_text_def Let_def dec_def Option.bind_eq_None_conv
      js_trim_def is_dec_def split: option.splits if_splits)


lemma risk_target_total:
  assumes "is_dec_opt D (ri_entryPrice i)" "is_dec_opt D (ri_takeProfitPrice i)"
  shows "\<exists>tpd. risk_target D i = Some tpd \<and> is_dec_opt D tpd"
proof (cases "ri_entryPrice i = None \<or> ri_takeProfitPrice i = None")
  case False
  then obtain e t where et: "ri_entryPrice i = Some e" "ri_takeProfitPrice i = Some t" by auto
  then obtain d where "distance_of D e t = Some d" "d_is_finite D d"
    using is_dec_distance [of e t] assms by auto
  then show ?thesis using et by (auto simp: risk_target_def)
qed (auto simp: risk_target_def split: option.splits)

text \<open>
  Sizing returns: a volume when there is a reason-free run over a stop distance, a risk amount
  and tick data; otherwise nothing, with a reason unless the distance or the amount is missing.
\<close>

lemma risk_volume_total:
  assumes "wf_symbol D sy" "is_dec_opt D sd" "is_dec_opt D ra"
  shows "\<exists>v l u. risk_volume D sy sd ra = Some (v, l, u) \<and> is_dec_opt D v \<and>
    (v = None \<longrightarrow> u \<noteq> [] \<or> sd = None \<or> ra = None) \<and> (v \<noteq> None \<longrightarrow> u = [])"
proof (cases "sy_tickSize sy = None \<or> sy_tickValue sy = None \<or> sd = None \<or> ra = None")
  case True
  then show ?thesis by (auto simp: risk_volume_def split: option.splits)
next
  case False
  then obtain ts tv s r where o: "sy_tickSize sy = Some ts" "sy_tickValue sy = Some tv" "sd = Some s" "ra = Some r"
    by auto
  then have d: "is_dec D ts" "is_dec D tv" "is_dec D s" "is_dec D r" "is_dec_opt D (sy_volumeStep sy)"
    using assms by (simp_all add: wf_symbol_def)
  show ?thesis
  proof (cases "dval D val ts = 0 \<or> dval D val tv = 0")
    case True
    then show ?thesis using o d by (auto simp: risk_volume_def zero_val)
  next
    case False
    define L where "L = d_times D (d_div D (dnum D s) (dnum D ts)) (dnum D tv)"
    have L: "d_is_finite D L" using d False by (simp add: L_def times_val div_val)
    define w where "w = d_div D (dnum D r) L"
    define q where "q = (case sy_volumeStep sy of None \<Rightarrow> w | Some st \<Rightarrow>
      if d_is_pos D (dnum D st) then d_times D (d_floor D (d_div D w (dnum D st))) (dnum D st) else w)"
    show ?thesis
    proof (cases "val L = 0")
      case True
      then show ?thesis using o d False L by (auto simp: risk_volume_def zero_val L_def [symmetric] Let_def)
    next
      case nz: False
      then have w: "d_is_finite D w" using d L by (simp add: w_def div_val)
      have "risk_volume D sy sd ra = Some (if d_less D (d_num D (js_int 0)) q
          then (Some (decimalStringOf D q), Some (decimalStringOf D (d_times D q L)), [])
          else (None, None, [''The risk amount is too small for the minimum volume on this symbol.'']))"
        using o d False L nz
        by (auto simp: risk_volume_def zero_val L_def [symmetric] w_def [symmetric] q_def Let_def split: option.splits)
      moreover have "d_is_finite D q" if "d_less D (d_num D (js_int 0)) q"
      proof (cases "sy_volumeStep sy")
        case (Some st)
        then have st: "is_dec D st" using d by simp
        show ?thesis
        proof (cases "dval D val st = 0")
          case True
          then have "\<not> d_is_finite D (d_div D w (dnum D st))" using w st by (simp add: div_zero)
          then have "\<not> d_less D (d_num D (js_int 0)) (d_times D (d_floor D (d_div D w (dnum D st))) (dnum D st))"
            using st True by (intro nan_less floor_nonfinite) simp_all
          then show ?thesis using that w by (auto simp: q_def Some split: if_splits)
        qed (use st w in \<open>auto simp: q_def Some times_val floor_val div_val\<close>)
      qed (use w in \<open>simp add: q_def\<close>)
      ultimately show ?thesis by auto
    qed
  qed
qed

lemma risk_profit_total:
  "wf_symbol D sy \<Longrightarrow> is_dec_opt D v \<Longrightarrow> is_dec_opt D tpd \<Longrightarrow> \<exists>p. risk_profit D sy v tpd = Some p"
  by (auto simp: risk_profit_def wf_symbol_def split: option.splits)

lemma risk_ratio_total:
  "is_dec_opt D sd \<Longrightarrow> is_dec_opt D tpd \<Longrightarrow> \<exists>p. risk_ratio D sd tpd = Some p"
  by (auto simp: risk_ratio_def split: option.splits)

lemma calculateRisk_cases:
  assumes "wf_risk_inputs D i" "ri_symbol i = Some sy"
  shows "calculateRisk D i = None \<longleftrightarrow> risk_amount D i = None"
    and "calculateRisk D i = Some out \<Longrightarrow> \<exists>u1 u2 u3.
      risk_stop D i = Some (ro_stopDistance out, u1) \<and>
      risk_amount D i = Some (ro_riskAmount out, u2) \<and>
      risk_volume D sy (ro_stopDistance out) (ro_riskAmount out) =
        Some (ro_suggestedVolume out, ro_potentialLoss out, u3) \<and>
      ro_unavailable out = u1 @ u2 @ u3"
proof -
  have wf: "wf_symbol D sy" "is_dec_opt D (ri_equity i)" "is_dec_opt D (ri_entryPrice i)"
      "is_dec_opt D (ri_stopLossPrice i)" "is_dec_opt D (ri_takeProfitPrice i)"
    using assms by (simp_all add: wf_risk_inputs_def)
  obtain sd u1 where sd: "risk_stop D i = Some (sd, u1)" "is_dec_opt D sd"
    using risk_stop_Some [OF wf(3,4)] by (auto simp: is_dec_opt_def split: option.splits)
  obtain tpd where tpd: "risk_target D i = Some tpd" "is_dec_opt D tpd"
    using risk_target_total [OF wf(3,5)] by blast
  have "\<exists>v l u3 p q. risk_volume D sy sd ra = Some (v, l, u3) \<and> risk_profit D sy v tpd = Some p \<and>
      risk_ratio D sd tpd = Some q" if "risk_amount D i = Some (ra, u2)" for ra u2
  proof -
    have "is_dec_opt D ra" using risk_amount_dec [OF wf(2)] that by (cases ra) auto
    then obtain v l u3 where "risk_volume D sy sd ra = Some (v, l, u3)" "is_dec_opt D v"
      using risk_volume_total [OF wf(1) sd(2), of ra] by blast
    moreover from risk_profit_total [OF wf(1) this(2) tpd(2)] obtain p where "risk_profit D sy v tpd = Some p" ..
    moreover obtain q where "risk_ratio D sd tpd = Some q" using risk_ratio_total [OF sd(2) tpd(2)] ..
    ultimately show ?thesis by simp
  qed
  then show "calculateRisk D i = None \<longleftrightarrow> risk_amount D i = None"
    and "calculateRisk D i = Some out \<Longrightarrow> \<exists>u1 u2 u3.
      risk_stop D i = Some (ro_stopDistance out, u1) \<and>
      risk_amount D i = Some (ro_riskAmount out, u2) \<and>
      risk_volume D sy (ro_stopDistance out) (ro_riskAmount out) =
        Some (ro_suggestedVolume out, ro_potentialLoss out, u3) \<and>
      ro_unavailable out = u1 @ u2 @ u3"
    using sd(1) tpd(1) assms(2)
    by (cases "risk_amount D i"; fastforce simp: calculateRisk_def)+
qed

lemma calculateRisk_budget:
  assumes wf: "wf_risk_inputs D i" and sy: "ri_symbol i = Some sy"
    and run: "calculateRisk D i = Some out" "ro_suggestedVolume out = Some v"
    and pos: "\<forall>x. x \<in> {sy_tickSize sy, sy_tickValue sy} \<longrightarrow> (\<forall>t. x = Some t \<longrightarrow> 0 < dval D val t)"
      "\<forall>st. sy_volumeStep sy = Some st \<longrightarrow> 0 < dval D val st"
  shows "\<exists>r l. ro_riskAmount out = Some r \<and> ro_potentialLoss out = Some l \<and> 0 < dval D val v \<and>
    dval D val l \<le> dval D val r * (1 + 1 / 10 ^ 26)"
proof -
  obtain u1 u2 u3 where
    c: "risk_stop D i = Some (ro_stopDistance out, u1)" "risk_amount D i = Some (ro_riskAmount out, u2)"
      "risk_volume D sy (ro_stopDistance out) (ro_riskAmount out) = Some (Some v, ro_potentialLoss out, u3)"
    using calculateRisk_cases(2) [OF wf sy run(1)] run(2) by auto
  then obtain s r ts tv where o: "ro_stopDistance out = Some s" "ro_riskAmount out = Some r"
      "sy_tickSize sy = Some ts" "sy_tickValue sy = Some tv"
    by (auto simp: risk_volume_def split: option.splits)
  have w: "wf_symbol D sy" "is_dec_opt D (ri_equity i)" "is_dec_opt D (ri_entryPrice i)"
      "is_dec_opt D (ri_stopLossPrice i)"
    using wf sy by (simp_all add: wf_risk_inputs_def)
  have "is_dec D s" "0 < dval D val s" using risk_stop_Some [OF w(3,4)] c(1) o(1) by auto
  moreover have "is_dec D r" using risk_amount_dec [OF w(2)] c(2) o(2) by simp
  moreover have "is_dec D ts" "is_dec D tv" "is_dec_opt D (sy_volumeStep sy)"
    using w(1) o by (simp_all add: wf_symbol_def)
  ultimately show ?thesis
    using risk_volume_bound [of sy s r v "ro_potentialLoss out" u3 ts tv] c(3) o pos by auto
qed

lemma calculateRisk_reason:
  assumes wf: "wf_risk_inputs D i" and run: "calculateRisk D i = Some out"
  shows "ro_suggestedVolume out = None \<longrightarrow> ro_unavailable out \<noteq> [] \<or> ro_riskAmount out = None"
proof (cases "ri_symbol i")
  case None
  then show ?thesis using run by (auto simp: calculateRisk_def emptyOutputs_def)
next
  case (Some sy)
  have w: "wf_symbol D sy" "is_dec_opt D (ri_equity i)" "is_dec_opt D (ri_entryPrice i)"
      "is_dec_opt D (ri_stopLossPrice i)"
    using wf Some by (simp_all add: wf_risk_inputs_def)
  obtain u1 u2 u3 where c: "risk_stop D i = Some (ro_stopDistance out, u1)"
      "risk_amount D i = Some (ro_riskAmount out, u2)"
      "risk_volume D sy (ro_stopDistance out) (ro_riskAmount out) =
        Some (ro_suggestedVolume out, ro_potentialLoss out, u3)" "ro_unavailable out = u1 @ u2 @ u3"
    using calculateRisk_cases(2) [OF wf Some run] by blast
  have "is_dec_opt D (ro_stopDistance out)" "ro_stopDistance out = None \<longrightarrow> u1 \<noteq> []"
    using risk_stop_Some [OF w(3,4)] c(1) by (auto simp: is_dec_opt_def split: option.splits)
  moreover have "is_dec_opt D (ro_riskAmount out)"
    using risk_amount_dec [OF w(2)] c(2) by (cases "ro_riskAmount out") auto
  ultimately show ?thesis using risk_volume_total [OF w(1), of "ro_stopDistance out" "ro_riskAmount out"] c(3,4)
    by auto
qed
end

section \<open>Properties\<close>

definition sample_risk :: risk_inputs where
  "sample_risk = \<lparr>ri_symbol = Some eurusd, ri_equity = Some ''10000'', ri_riskPercent = Some ''1'',
     ri_riskAmount = None, ri_entryPrice = Some ''1.10000'', ri_stopLossPrice = Some ''1.09000'',
     ri_takeProfitPrice = Some ''1.12000'', ri_side = Buy\<rparr>"

lemma sample_risk_wf: "wf_risk_inputs ref_lib sample_risk"
proof -
  have "wf_symbol ref_lib eurusd" "is_dec ref_lib ''10000''" "is_dec ref_lib ''1.10000''"
      "is_dec ref_lib ''1.09000''" "is_dec ref_lib ''1.12000''"
    by code_simp+
  then show ?thesis by (simp add: wf_risk_inputs_def sample_risk_def)
qed

definition sample_sized :: risk_outputs where
  "sample_sized = \<lparr>ro_stopDistance = Some ''0.01'', ro_takeProfitDistance = Some ''0.02'',
     ro_riskAmount = Some ''100'', ro_suggestedVolume = Some ''0.1'', ro_potentialLoss = Some ''100'',
     ro_potentialProfit = Some ''200'', ro_riskRewardRatio = Some ''2'', ro_unavailable = []\<rparr>"

lemma sample_risk_run: "calculateRisk ref_lib sample_risk = Some sample_sized"
  by code_simp

text \<open>C39. A suggested volume is never more than the trader asked to risk: it is positive, and
  what it would lose at the stop is within the risk amount, up to one part in 10^26 for the
  roundings of the 28-digit arithmetic.\<close>

theorem risk_within_budget:
  assumes "decimal_js D val" "wf_risk_inputs D i" "ri_symbol i = Some sy"
    "calculateRisk D i = Some out" "ro_suggestedVolume out = Some v"
    "\<forall>x. x \<in> {sy_tickSize sy, sy_tickValue sy} \<longrightarrow> (\<forall>t. x = Some t \<longrightarrow> 0 < dval D val t)"
    "\<forall>st. sy_volumeStep sy = Some st \<longrightarrow> 0 < dval D val st"
  shows "\<exists>r l. ro_riskAmount out = Some r \<and> ro_potentialLoss out = Some l \<and> 0 < dval D val v \<and>
    dval D val l \<le> dval D val r * (1 + 1 / 10 ^ 26)"
  using assms by (rule decimal_js.calculateRisk_budget)

theorem risk_within_budget_witness:
  "dval ref_lib ref_val ''100'' \<le> dval ref_lib ref_val ''100'' * (1 + 1 / 10 ^ 26) \<and>
   0 < dval ref_lib ref_val ''0.1''"
proof -
  have pos: "0 < dval ref_lib ref_val ''0.00001''" "0 < dval ref_lib ref_val ''1''" "0 < dval ref_lib ref_val ''0.01''"
    by code_simp+
  show ?thesis
    using risk_within_budget [OF ref_laws sample_risk_wf, of eurusd sample_sized "''0.1''"] sample_risk_run pos
    by (simp add: sample_risk_def sample_sized_def eurusd_def)
qed

text \<open>When no volume is suggested, a reason is given, unless there is no amount at risk.\<close>

theorem risk_null_has_reason:
  assumes "decimal_js D val" "wf_risk_inputs D i" "calculateRisk D i = Some out"
  shows "ro_suggestedVolume out = None \<longrightarrow> ro_unavailable out \<noteq> [] \<or> ro_riskAmount out = None"
  using assms by (rule decimal_js.calculateRisk_reason)

theorem risk_null_has_reason_witness:
  "\<exists>out. calculateRisk ref_lib (sample_risk\<lparr>ri_riskAmount := Some ''0.0001''\<rparr>) = Some out \<and>
     ro_suggestedVolume out = None \<and> ro_unavailable out \<noteq> []"
proof -
  have wf: "wf_risk_inputs ref_lib (sample_risk\<lparr>ri_riskAmount := Some ''0.0001''\<rparr>)"
    using sample_risk_wf by (simp add: wf_risk_inputs_def)
  have "(case calculateRisk ref_lib (sample_risk\<lparr>ri_riskAmount := Some ''0.0001''\<rparr>) of None \<Rightarrow> False
      | Some out \<Rightarrow> ro_suggestedVolume out = None \<and> ro_riskAmount out = Some ''0.0001'')"
    by code_simp
  then have "\<exists>out. calculateRisk ref_lib (sample_risk\<lparr>ri_riskAmount := Some ''0.0001''\<rparr>) = Some out \<and>
      ro_suggestedVolume out = None \<and> ro_riskAmount out = Some ''0.0001''"
    by (auto split: option.splits)
  then show ?thesis using risk_null_has_reason [OF ref_laws wf] by fastforce
qed

text \<open>Over well-formed inputs, risk sizing fails to return exactly when the risk text is one
  the decimal library rejects: the text goes to the constructor as it was typed, with
  neither a check nor a \<open>try\<close> around it.\<close>

theorem risk_throws_iff:
  assumes "decimal_js D val" "wf_risk_inputs D i"
  shows "calculateRisk D i = None \<longleftrightarrow>
    ri_symbol i \<noteq> None \<and> (\<exists>t. risk_text i = Some t \<and> d_parse D t = None)"
proof (cases "ri_symbol i")
  case None
  then show ?thesis by (simp add: calculateRisk_def)
next
  case (Some sy)
  have "is_dec_opt D (ri_equity i)" using assms(2) by (simp add: wf_risk_inputs_def)
  then show ?thesis
    using decimal_js.calculateRisk_cases(1) [OF assms Some] decimal_js.risk_amount_total [OF assms(1)] Some
    by simp
qed

theorem risk_throws_iff_witness:
  "calculateRisk ref_lib (sample_risk\<lparr>ri_riskPercent := Some ''-''\<rparr>) = None"
proof -
  have wf: "wf_risk_inputs ref_lib (sample_risk\<lparr>ri_riskPercent := Some ''-''\<rparr>)"
    using sample_risk_wf by (simp add: wf_risk_inputs_def)
  have "d_parse ref_lib ''-'' = None" by code_simp
  then show ?thesis
    using risk_throws_iff [OF ref_laws wf]
    by (simp add: sample_risk_def risk_text_def js_trim_def)
qed

end
