(* ===== verification/Brackets.thy ===== *)
theory Brackets
  imports Risk
begin

text \<open>
  \<^verbatim>\<open>frontend/src/domain/orders/risk.ts\<close>, second half: pip sizes and the conversion of a
  stop-loss or take-profit typed as a price, in pips, in percent or as money into a price.
  Shown: a converted level lands on its side of the entry price, through every rounding and
  the snap to the price grid.
\<close>

section \<open>Pips and bracket units\<close>

definition pipSize :: "'d decimal_lib \<Rightarrow> trading_symbol \<Rightarrow> string option option" where
  "pipSize D symbol =
     (let isFractional = (sy_digits symbol = 3 \<or> sy_digits symbol = 5); ten = d_num D (js_int 10)
      in case sy_tickSize symbol of
        None \<Rightarrow> if sy_digits symbol \<le> 0 then Some None
          else (let raw = d_pow D ten (- sy_digits symbol)
                in Some (Some (decimalStringOf D (if isFractional then d_times D raw ten else raw))))
      | Some t \<Rightarrow> do { tick \<leftarrow> dec D t;
          Some (Some (decimalStringOf D (if isFractional then d_times D tick ten else tick))) })"

definition priceFromPips ::
  "'d decimal_lib \<Rightarrow> string \<Rightarrow> string \<Rightarrow> trading_symbol \<Rightarrow> bool \<Rightarrow> string option option" where
  "priceFromPips D entry pips symbol up = do {
     size \<leftarrow> pipSize D symbol;
     case size of None \<Rightarrow> Some None
     | Some sz \<Rightarrow> do {
         p \<leftarrow> dec D pips;
         s \<leftarrow> dec D sz;
         let offset = d_times D p s;
         if \<not> d_is_finite D offset then Some None
         else do {
           e \<leftarrow> dec D entry;
           step \<leftarrow> priceStepOf D symbol;
           map_option Some (snapPriceToTick D
             (decimalStringOf D (if up then d_plus D e offset else d_minus D e offset)) step) } } }"

datatype bracket_unit = UPrice | UPips | UPercent | UMoney

datatype bracket_kind = StopLossLevel | TakeProfitLevel

record bracket_input =
  bi_unit :: bracket_unit
  bi_value :: string
  bi_entryPrice :: string
  bi_symbol :: trading_symbol
  bi_side :: side
  bi_kind :: bracket_kind
  bi_volumeLots :: "string option"

record bracket_conversion =
  bc_price :: "string option"
  bc_unavailable :: "string option"

abbreviation converted :: "string \<Rightarrow> bracket_conversion" where
  "converted p \<equiv> \<lparr>bc_price = Some p, bc_unavailable = None\<rparr>"

abbreviation refused :: "string \<Rightarrow> bracket_conversion" where
  "refused why \<equiv> \<lparr>bc_price = None, bc_unavailable = Some why\<rparr>"

definition bracket_below :: "bracket_input \<Rightarrow> bool" where
  "bracket_below i = (if bi_kind i = StopLossLevel then bi_side i = Buy else bi_side i = Sell)"

definition snapped ::
  "'d decimal_lib \<Rightarrow> trading_symbol \<Rightarrow> 'd \<Rightarrow> bracket_conversion option" where
  "snapped D symbol result = do { step \<leftarrow> priceStepOf D symbol;
     map_option converted (snapPriceToTick D (decimalStringOf D result) step) }"

definition bracket_percent :: "'d decimal_lib \<Rightarrow> bracket_input \<Rightarrow> string \<Rightarrow> bracket_conversion option" where
  "bracket_percent D i amount = do {
     e \<leftarrow> dec D (bi_entryPrice i);
     a \<leftarrow> dec D amount;
     let offset = d_div D (d_times D e a) (d_num D (js_int 100));
     snapped D (bi_symbol i) (if bracket_below i then d_minus D e offset else d_plus D e offset) }"

definition bracket_money :: "'d decimal_lib \<Rightarrow> bracket_input \<Rightarrow> string \<Rightarrow> bracket_conversion option" where
  "bracket_money D i amount = (case (sy_tickSize (bi_symbol i), sy_tickValue (bi_symbol i)) of
     (Some ts, Some tv) \<Rightarrow> do {
       noVolume \<leftarrow> (case bi_volumeLots i of None \<Rightarrow> Some True
         | Some v \<Rightarrow> do { d \<leftarrow> dec D v; Some (d_leq D d (d_num D (js_int 0))) });
       if noVolume then Some (refused ''Enter a volume before using a cash amount.'')
       else do {
         volume \<leftarrow> dec D (the (bi_volumeLots i));
         tickValue \<leftarrow> dec D tv;
         tickSize \<leftarrow> dec D ts;
         let valuePerPrice = d_div D (d_times D volume tickValue) tickSize;
         if d_is_zero D valuePerPrice then Some (refused ''This symbol reports a zero tick value.'')
         else do {
           a \<leftarrow> dec D amount;
           e \<leftarrow> dec D (bi_entryPrice i);
           let distance = d_div D a valuePerPrice;
           let result = (if bracket_below i then d_minus D e distance else d_plus D e distance);
           if d_leq D result (d_num D (js_int 0))
           then Some (refused ''That amount is larger than the instrument price allows.'')
           else snapped D (bi_symbol i) result } } }
   | _ \<Rightarrow> Some (refused ''Tick size and value are unavailable, so a cash amount cannot be converted.''))"

definition bracketToPrice :: "'d decimal_lib \<Rightarrow> bracket_input \<Rightarrow> bracket_conversion option" where
  "bracketToPrice D i =
     (if js_trim (bi_value i) = '''' then Some \<lparr>bc_price = None, bc_unavailable = None\<rparr>
      else case toDecimalString D (JStr (bi_value i)) of
        None \<Rightarrow> Some (refused ''Enter a number.'')
      | Some amount \<Rightarrow> do {
          a \<leftarrow> dec D amount;
          if \<not> d_is_finite D a then Some (refused ''Enter a number.'')
          else if d_is_neg D a then Some (refused ''Enter a positive value.'')
          else case bi_unit i of
            UPrice \<Rightarrow> Some (converted amount)
          | UPips \<Rightarrow> do {
              price \<leftarrow> priceFromPips D (bi_entryPrice i) amount (bi_symbol i) (\<not> bracket_below i);
              Some (case price of None \<Rightarrow> refused ''Pip size is unavailable for this symbol.''
                    | Some p \<Rightarrow> converted p) }
          | UPercent \<Rightarrow> bracket_percent D i amount
          | UMoney \<Rightarrow> bracket_money D i amount })"

section \<open>The side of the entry a converted bracket lands on\<close>

text \<open>
  The positivity the conversion relies on: the tick and its value are positive when the
  symbol has them, and the entry price is a positive multiple of the price step that 28 digits hold.
\<close>

definition ticks_positive :: "'d decimal_lib \<Rightarrow> ('d \<Rightarrow> rat) \<Rightarrow> trading_symbol \<Rightarrow> bool" where
  "ticks_positive D val sy \<longleftrightarrow> (\<forall>t. sy_tickSize sy = Some t \<or> sy_tickValue sy = Some t \<longrightarrow> 0 < dval D val t)"

definition entry_on_grid :: "'d decimal_lib \<Rightarrow> ('d \<Rightarrow> rat) \<Rightarrow> trading_symbol \<Rightarrow> string \<Rightarrow> bool" where
  "entry_on_grid D val sy e \<longleftrightarrow> is_dec D e \<and> 0 < dval D val e \<and> rnd (dval D val e) = dval D val e \<and>
     (\<exists>st m. priceStepOf D sy = Some st \<and> dval D val e = of_int m * dval D val st \<and> \<bar>m\<bar> < 10 ^ 28)"

definition on_side :: "bool \<Rightarrow> rat \<Rightarrow> rat \<Rightarrow> bool" where
  "on_side below p e \<longleftrightarrow> (if below then p \<le> e else e \<le> p)"

context decimal_js
begin

text \<open>
  Snapping is monotone and leaves the entry where it is, so it never carries a price past it.
\<close>

lemma snap_side:
  assumes "wf_symbol D sy" "entry_on_grid D val sy e" "d_is_finite D r" "on_side below (val r) (dval D val e)"
    "priceStepOf D sy = Some st"
  shows "\<exists>p. snapPriceToTick D (decimalStringOf D r) st = Some p \<and> is_dec D p \<and>
    on_side below (dval D val p) (dval D val e)"
proof -
  obtain m where m: "dval D val e = of_int m * dval D val st" "\<bar>m\<bar> < 10 ^ 28"
      "rnd (dval D val e) = dval D val e"
    using assms(2,5) unfolding entry_on_grid_def by (metis option.inject)
  have st: "is_dec D st" "0 < dval D val st"
    using priceStepOf_value [OF assms(1)] assms(5) by (metis option.inject)+
  define n where "n = round_half_up (rnd (val r / dval D val st))"
  define p where "p = decimalStringOf D (d_times D (d_round D (d_div D (dnum D (decimalStringOf D r)) (dnum D st))) (dnum D st))"
  have p: "snapPriceToTick D (decimalStringOf D r) st = Some p" "is_dec D p"
      "dval D val p = rnd (of_int n * dval D val st)"
    using assms(3) st
    by (simp_all add: snapPriceToTick_def p_def n_def zero_val neg_val times_val round_val div_val)
  have q: "rnd (dval D val e / dval D val st) = of_int m" using st m by (simp add: rnd_int)
  have "on_side below (of_int n) (of_int m :: rat)"
    using assms(4) st rnd_mono [of "val r / dval D val st" "dval D val e / dval D val st"]
      rnd_mono [of "dval D val e / dval D val st" "val r / dval D val st"]
      round_half_up_mono [of "rnd (val r / dval D val st)" "of_int m"]
      round_half_up_mono [of "of_int m" "rnd (val r / dval D val st)"]
    by (auto simp: on_side_def n_def q divide_right_mono less_imp_le split: if_splits)
  then have "on_side below (dval D val p) (rnd (dval D val e))"
    using st rnd_mono by (auto simp: on_side_def p(3) m(1) mult_right_mono split: if_splits)
  then show ?thesis using p m(3) by simp
qed

text \<open>An offset that is not negative moves the rounded price to the side the order asks for.\<close>

lemma offset_side:
  assumes "entry_on_grid D val sy e" "d_is_finite D x" "0 \<le> val x"
  shows "d_is_finite D (if below then d_minus D (dnum D e) x else d_plus D (dnum D e) x)"
    and "on_side below (val (if below then d_minus D (dnum D e) x else d_plus D (dnum D e) x)) (dval D val e)"
proof -
  have e: "is_dec D e" "rnd (dval D val e) = dval D val e" using assms(1) by (simp_all add: entry_on_grid_def)
  show "d_is_finite D (if below then d_minus D (dnum D e) x else d_plus D (dnum D e) x)"
    using e assms(2) by (simp add: minus_val plus_val)
  have "rnd (dval D val e - val x) \<le> dval D val e" "dval D val e \<le> rnd (dval D val e + val x)"
    using rnd_mono [of "dval D val e - val x" "dval D val e"] rnd_mono [of "dval D val e" "dval D val e + val x"]
      assms(3) e(2) by simp_all
  then show "on_side below (val (if below then d_minus D (dnum D e) x else d_plus D (dnum D e) x)) (dval D val e)"
    using e assms(2) by (simp add: on_side_def minus_val plus_val)
qed

lemma pipSize_positive:
  assumes "wf_symbol D sy" "ticks_positive D val sy" "pipSize D sy = Some (Some ps)"
  shows "is_dec D ps \<and> 0 < dval D val ps"
proof -
  have ten: "d_is_finite D (d_num D (js_int 10))" "val (d_num D (js_int 10)) = 10"
    using num_val [of 10] by simp_all
  show ?thesis
    using assms ten
    by (auto simp: pipSize_def wf_symbol_def ticks_positive_def pow_ten times_val Let_def split: option.splits if_splits)
qed

lemma bracketToPrice_side:
  assumes wf: "wf_symbol D (bi_symbol i)" "ticks_positive D val (bi_symbol i)"
      "entry_on_grid D val (bi_symbol i) (bi_entryPrice i)" "is_dec_opt D (bi_volumeLots i)"
    and run: "bracketToPrice D i = Some \<lparr>bc_price = Some p, bc_unavailable = u\<rparr>" "bi_unit i \<noteq> UPrice"
  shows "is_dec D p \<and> on_side (bracket_below i) (dval D val p) (dval D val (bi_entryPrice i))"
proof -
  let ?e = "bi_entryPrice i" and ?sy = "bi_symbol i"
  have e: "is_dec D ?e" using wf(3) by (simp add: entry_on_grid_def)
  obtain st where st: "priceStepOf D ?sy = Some st" using priceStepOf_value [OF wf(1)] by metis
  note side = snap_side [OF wf(1,3) _ _ st]
  have snap: "is_dec D p \<and> on_side (bracket_below i) (dval D val p) (dval D val ?e)"
    if "snapped D ?sy (if bracket_below i then d_minus D (dnum D ?e) x else d_plus D (dnum D ?e) x) =
        Some \<lparr>bc_price = Some p, bc_unavailable = u\<rparr>" "d_is_finite D x" "0 \<le> val x" for x
    using side [OF offset_side [OF wf(3) that(2,3), of "bracket_below i"]] that(1) st
    by (auto simp: snapped_def)
  obtain amount where a: "toDecimalString D (JStr (bi_value i)) = Some amount" "is_dec D amount" "\<not> d_is_neg D (dnum D amount)"
    using run by (auto simp: bracketToPrice_def split: if_splits option.splits)
  then have nonneg: "0 \<le> dval D val amount" by (metis finite_dnum neg_val not_less order_refl val_dnum)
  have trim: "js_trim (bi_value i) \<noteq> ''''" using run(1) by (auto simp: bracketToPrice_def)
  consider "bi_unit i = UPips" | "bi_unit i = UPercent" | "bi_unit i = UMoney"
    using run(2) by (cases "bi_unit i") auto
  then show ?thesis
  proof cases
    case 1
    then have "priceFromPips D ?e amount ?sy (\<not> bracket_below i) = Some (Some p)"
      using run(1) a trim by (auto simp: bracketToPrice_def split: option.splits bind_splits)
    then obtain ps where ps: "pipSize D ?sy = Some (Some ps)"
      by (auto simp: priceFromPips_def split: option.splits bind_splits)
    note pip = pipSize_positive [OF wf(1,2) ps]
    define x where "x = d_times D (dnum D amount) (dnum D ps)"
    have x: "d_is_finite D x" "0 \<le> val x" using a pip nonneg by (simp_all add: x_def times_val)
    have "snapped D ?sy (if bracket_below i then d_minus D (dnum D ?e) x else d_plus D (dnum D ?e) x) =
        Some \<lparr>bc_price = Some p, bc_unavailable = None\<rparr>"
      using \<open>priceFromPips D ?e amount ?sy (\<not> bracket_below i) = Some (Some p)\<close> ps pip a e st x
      by (auto simp: priceFromPips_def snapped_def x_def [symmetric] Let_def split: if_splits bind_splits)
    then show ?thesis using side [OF offset_side [OF wf(3) x, of "bracket_below i"]] st by (auto simp: snapped_def)
  next
    case 2
    define x where "x = d_div D (d_times D (dnum D ?e) (dnum D amount)) (d_num D (js_int 100))"
    have x: "d_is_finite D x" "0 \<le> val x"
      using a e wf(3) nonneg by (simp_all add: x_def times_val div_val entry_on_grid_def)
    show ?thesis
      using run(1) a trim 2 e
      by (intro snap [OF _ x]) (auto simp: bracketToPrice_def bracket_percent_def x_def Let_def split: if_splits)
  next
    case 3
    then have m: "bracket_money D i amount = Some \<lparr>bc_price = Some p, bc_unavailable = u\<rparr>"
      using run(1) a trim by (simp add: bracketToPrice_def)
    then obtain ts tv v where o: "sy_tickSize ?sy = Some ts" "sy_tickValue ?sy = Some tv" "bi_volumeLots i = Some v"
      by (auto simp: bracket_money_def split: option.splits)
    then have d: "is_dec D ts" "is_dec D tv" "is_dec D v" "0 < dval D val ts" "0 < dval D val tv"
      using wf by (simp_all add: wf_symbol_def ticks_positive_def)
    have vol: "0 < dval D val v" using m o d by (auto simp: bracket_money_def leq_val split: if_splits)
    define y where "y = d_div D (d_times D (dnum D v) (dnum D tv)) (dnum D ts)"
    have y: "d_is_finite D y" "0 < val y" using d vol by (simp_all add: y_def div_val times_val)
    define x where "x = d_div D (dnum D amount) y"
    have x: "d_is_finite D x" "0 \<le> val x" using a y nonneg by (simp_all add: x_def div_val)
    show ?thesis
      using m o d y a e vol
      by (intro snap [OF _ x])
        (auto simp: bracket_money_def x_def y_def [symmetric] zero_val leq_val Let_def split: if_splits)
  qed
qed
end

section \<open>Properties\<close>

text \<open>A stop-loss or take-profit given in pips, in percent of the entry or as money is
  converted to a price on its own side of the entry: at or below it for the stop of a buy and the
  target of a sell, at or above it otherwise, whatever the roundings and the snap to the grid do.\<close>

theorem bracket_on_its_side:
  assumes "decimal_js D val" "wf_symbol D (bi_symbol i)" "ticks_positive D val (bi_symbol i)"
    "entry_on_grid D val (bi_symbol i) (bi_entryPrice i)" "is_dec_opt D (bi_volumeLots i)"
    "bracketToPrice D i = Some \<lparr>bc_price = Some p, bc_unavailable = u\<rparr>" "bi_unit i \<noteq> UPrice"
  shows "is_dec D p \<and> on_side (bracket_below i) (dval D val p) (dval D val (bi_entryPrice i))"
  using assms by (rule decimal_js.bracketToPrice_side)

theorem bracket_on_its_side_witness:
  "dval ref_lib ref_val ''1.075'' \<le> dval ref_lib ref_val ''1.1''"
proof -
  define i where "i = \<lparr>bi_unit = UMoney, bi_value = ''250'', bi_entryPrice = ''1.1'', bi_symbol = eurusd,
    bi_side = Buy, bi_kind = StopLossLevel, bi_volumeLots = Some ''0.1''\<rparr>"
  have wf: "wf_symbol ref_lib eurusd" "is_dec ref_lib ''0.1''" by code_simp+
  have d: "0 < dval ref_lib ref_val ''0.00001''" "0 < dval ref_lib ref_val ''1''" by code_simp+
  have pos: "ticks_positive ref_lib ref_val eurusd"
    using d by (auto simp: ticks_positive_def eurusd_def)
  have st: "priceStepOf ref_lib eurusd = Some ''0.00001''" by code_simp
  have val: "dval ref_lib ref_val ''1.1'' = 11 / 10" "dval ref_lib ref_val ''0.00001'' = 1 / 100000"
      "is_dec ref_lib ''1.1''"
    by code_simp+
  have "rnd (11 / 10) = 11 / 10" by (rule rnd_exact [of _ 11 "- 1"]) simp_all
  then have grid: "entry_on_grid ref_lib ref_val eurusd ''1.1''"
    unfolding entry_on_grid_def st val using val(3) by (intro conjI exI [of _ "''0.00001''"] exI [of _ 110000]) (simp_all add: val)
  have run: "bracketToPrice ref_lib \<lparr>bi_unit = UMoney, bi_value = ''250'', bi_entryPrice = ''1.1'', bi_symbol = eurusd,
      bi_side = Buy, bi_kind = StopLossLevel, bi_volumeLots = Some ''0.1''\<rparr> = Some (converted ''1.075'')"
    by code_simp
  show ?thesis
    using bracket_on_its_side [OF ref_laws, of i "''1.075''" None] wf pos grid run
    by (simp add: i_def bracket_below_def on_side_def)
qed

end
