(* ===== verification/Economics.thy ===== *)
theory Economics
  imports Brackets
begin

text \<open>
  What an order costs and what a close may be: the order economics
  (\<^verbatim>\<open>frontend/src/domain/orders/order-info.ts\<close>), the leverage projection
  (\<^verbatim>\<open>frontend/src/domain/orders/leverage.ts\<close>) and the volume of a partial close
  (\<^verbatim>\<open>frontend/src/features/positions/close-volume.ts\<close>).
\<close>

section \<open>Order economics\<close>

record order_info_inputs =
  oi_symbol :: "trading_symbol option"
  oi_volumeLots :: "string option"
  oi_price :: "string option"
  oi_quoteToAccountRate :: "string option"
  oi_leverage :: "string option"
  oi_marginFree :: "string option"

record order_info_values =
  ov_pipValue :: "string option"
  ov_tradeValue :: "string option"
  ov_marginUsed :: "string option"
  ov_marginAvailable :: "string option"
  ov_leverage :: "string option"

definition is_above_zero :: "'d decimal_lib \<Rightarrow> string \<Rightarrow> bool option" where
  "is_above_zero D s = do { d \<leftarrow> dec D s; Some (d_less D (d_num D (js_int 0)) d) }"

definition positiveOrNull :: "'d decimal_lib \<Rightarrow> string option \<Rightarrow> string option option" where
  "positiveOrNull D value = (case value of None \<Rightarrow> Some None
     | Some s \<Rightarrow> do { p \<leftarrow> is_above_zero D s; Some (if p then Some s else None) })"

definition trade_value ::
  "'d decimal_lib \<Rightarrow> 'd \<Rightarrow> string option \<Rightarrow> 'd option \<Rightarrow> 'd option \<Rightarrow> string option option" where
  "trade_value D volume price contractSize rate = (case price of None \<Rightarrow> Some None
     | Some ps \<Rightarrow> do {
         p \<leftarrow> dec D ps;
         Some (case (contractSize, rate) of
           (Some cs, Some r) \<Rightarrow>
             if d_less D (d_num D (js_int 0)) p \<and> d_less D (d_num D (js_int 0)) cs \<and>
                d_less D (d_num D (js_int 0)) r
             then Some (decimalStringOf D (d_times D (d_times D (d_times D volume cs) p) r)) else None
         | _ \<Rightarrow> None) })"

definition pip_value ::
  "'d decimal_lib \<Rightarrow> trading_symbol \<Rightarrow> 'd \<Rightarrow> 'd option \<Rightarrow> 'd option \<Rightarrow> string option option" where
  "pip_value D symbol volume contractSize rate = do {
     pip \<leftarrow> pipSize D symbol;
     case pip of None \<Rightarrow> Some None
     | Some ps \<Rightarrow> do {
         p \<leftarrow> dec D ps;
         ticks \<leftarrow> (case (sy_tickSize symbol, sy_tickValue symbol) of
             (Some ts, Some tv) \<Rightarrow> do { t \<leftarrow> dec D ts;
                if d_is_zero D t then Some None
                else do { v \<leftarrow> dec D tv; Some (Some (t, v)) } }
           | _ \<Rightarrow> Some None);
         Some (case ticks of
             Some (t, v) \<Rightarrow> Some (decimalStringOf D (d_times D (d_times D (d_div D p t) v) volume))
           | None \<Rightarrow> (case (contractSize, rate) of
               (Some cs, Some r) \<Rightarrow> if d_less D (d_num D (js_int 0)) r
                 then Some (decimalStringOf D (d_times D (d_times D (d_times D volume cs) p) r)) else None
             | _ \<Rightarrow> None)) } }"

definition dec_opt :: "'d decimal_lib \<Rightarrow> string option \<Rightarrow> 'd option option" where
  "dec_opt D value = (case value of None \<Rightarrow> Some None | Some s \<Rightarrow> map_option Some (dec D s))"

definition computeOrderInfo :: "'d decimal_lib \<Rightarrow> order_info_inputs \<Rightarrow> order_info_values option" where
  "computeOrderInfo D i = do {
     lev \<leftarrow> positiveOrNull D (oi_leverage i);
     let empty = \<lparr>ov_pipValue = None, ov_tradeValue = None, ov_marginUsed = None,
                  ov_marginAvailable = oi_marginFree i, ov_leverage = lev\<rparr>;
     sized \<leftarrow> positiveOrNull D (if oi_symbol i = None then None else oi_volumeLots i);
     case (oi_symbol i, sized) of
       (Some symbol, Some vol) \<Rightarrow> do {
         volume \<leftarrow> dec D vol;
         contractSize \<leftarrow> dec_opt D (sy_contractSize symbol);
         rate \<leftarrow> dec_opt D (oi_quoteToAccountRate i);
         tradeValue \<leftarrow> trade_value D volume (oi_price i) contractSize rate;
         marginUsed \<leftarrow> (case (tradeValue, lev) of
             (Some tv, Some l) \<Rightarrow> do { t \<leftarrow> dec D tv; v \<leftarrow> dec D l; Some (Some (decimalStringOf D (d_div D t v))) }
           | _ \<Rightarrow> Some None);
         pipValue \<leftarrow> pip_value D symbol volume contractSize rate;
         Some \<lparr>ov_pipValue = pipValue, ov_tradeValue = tradeValue, ov_marginUsed = marginUsed,
               ov_marginAvailable = oi_marginFree i, ov_leverage = lev\<rparr> }
     | _ \<Rightarrow> Some empty }"

definition conversionCandidates :: "string \<Rightarrow> string \<Rightarrow> (string \<times> bool) list" where
  "conversionCandidates quoteCurrency accountCurrency =
     (if quoteCurrency = accountCurrency then []
      else [(quoteCurrency @ accountCurrency, False), (accountCurrency @ quoteCurrency, True)])"

definition rateFromQuote :: "'d decimal_lib \<Rightarrow> string \<Rightarrow> string \<Rightarrow> bool \<Rightarrow> string option option" where
  "rateFromQuote D bid ask invert = do {
     b \<leftarrow> dec D bid;
     a \<leftarrow> dec D ask;
     let mid = d_div D (d_plus D b a) (d_num D (js_int 2));
     Some (if \<not> d_is_finite D mid \<or> \<not> d_less D (d_num D (js_int 0)) mid then None
           else Some (decimalStringOf D (if invert then d_div D (d_num D (js_int 1)) mid else mid))) }"

section \<open>Leverage\<close>

record leverage_inputs =
  li_currentLeverage :: js_number
  li_nextLeverage :: js_number
  li_margin :: "string option"
  li_equity :: "string option"

record leverage_projection =
  lp_marginAfter :: "string option"
  lp_marginLevelBefore :: "string option"
  lp_marginLevelAfter :: "string option"
  lp_wouldExceedEquity :: "bool option"

definition no_projection :: leverage_projection where
  "no_projection = \<lparr>lp_marginAfter = None, lp_marginLevelBefore = None, lp_marginLevelAfter = None,
     lp_wouldExceedEquity = None\<rparr>"

definition margin_level :: "'d decimal_lib \<Rightarrow> string option \<Rightarrow> 'd \<Rightarrow> string option option" where
  "margin_level D equity m = (case equity of None \<Rightarrow> Some None
     | Some e \<Rightarrow> if d_is_zero D m then Some None
         else do { q \<leftarrow> dec D e;
           Some (Some (decimalStringOf D (d_times D (d_div D q m) (d_num D (js_int 100))))) })"

definition projectLeverageChange :: "'d decimal_lib \<Rightarrow> leverage_inputs \<Rightarrow> leverage_projection option" where
  "projectLeverageChange D i =
     (if \<not> js_is_finite (li_currentLeverage i) \<or> \<not> js_is_finite (li_nextLeverage i) \<or>
         \<not> js_less (Fin 0) (li_currentLeverage i) \<or> \<not> js_less (Fin 0) (li_nextLeverage i)
      then Some no_projection
      else case li_margin i of None \<Rightarrow> Some no_projection
      | Some margin \<Rightarrow> do {
          marginBefore \<leftarrow> dec D margin;
          if d_is_neg D marginBefore then Some no_projection
          else do {
            let marginAfter = d_div D (d_times D marginBefore (d_num D (li_currentLeverage i)))
                                (d_num D (li_nextLeverage i));
            before \<leftarrow> margin_level D (li_equity i) marginBefore;
            after \<leftarrow> margin_level D (li_equity i) marginAfter;
            exceeds \<leftarrow> (case li_equity i of None \<Rightarrow> Some None
              | Some e \<Rightarrow> do { q \<leftarrow> dec D e; Some (Some (d_less D q marginAfter)) });
            Some \<lparr>lp_marginAfter = Some (decimalStringOf D marginAfter), lp_marginLevelBefore = before,
                  lp_marginLevelAfter = after, lp_wouldExceedEquity = exceeds\<rparr> } })"

section \<open>Closing part of a position\<close>

record close_validation =
  cv_volume :: "string option"
  cv_error :: "string option"

abbreviation close_error :: "string \<Rightarrow> close_validation" where
  "close_error e \<equiv> \<lparr>cv_volume = None, cv_error = Some e\<rparr>"

text \<open>\<^verbatim>\<open>symbol?.volumeStep && symbol?.volumeMin\<close>: both present and not empty.\<close>

definition step_and_min :: "trading_symbol option \<Rightarrow> (string \<times> string) option" where
  "step_and_min symbol = do { sy \<leftarrow> symbol; st \<leftarrow> sy_volumeStep sy; mn \<leftarrow> sy_volumeMin sy;
     if st = '''' \<or> mn = '''' then None else Some (st, mn) }"

definition validateCloseVolume ::
  "'d decimal_lib \<Rightarrow> string \<Rightarrow> position \<Rightarrow> trading_symbol option \<Rightarrow> close_validation option" where
  "validateCloseVolume D raw pos symbol = (case toDecimalString D (JStr raw) of
     None \<Rightarrow> Some (close_error ''Enter a valid volume.'')
   | Some parsed \<Rightarrow> do {
       v \<leftarrow> dec D parsed;
       if d_leq D v (d_num D (js_int 0)) then Some (close_error ''Volume must be greater than zero.'')
       else do {
         c \<leftarrow> cmp D parsed (p_volume pos);
         if c > 0 then Some (close_error (''Cannot close more than '' @ p_volume pos @ '' lots.''))
         else if c = 0 then Some \<lparr>cv_volume = Some parsed, cv_error = None\<rparr>
         else case step_and_min symbol of
           None \<Rightarrow> Some \<lparr>cv_volume = Some parsed, cv_error = None\<rparr>
         | Some (st, mn) \<Rightarrow> do {
             below \<leftarrow> cmp D parsed mn;
             if below < 0 then Some (close_error (''Minimum volume is '' @ mn @ ''.''))
             else do {
               on \<leftarrow> isOnVolumeStep D parsed st mn;
               if \<not> on then Some (close_error (''Volume must be a multiple of '' @ st @ ''.''))
               else do {
                 whole \<leftarrow> dec D (p_volume pos);
                 m \<leftarrow> dec D mn;
                 let remainder = d_minus D whole v;
                 Some (if d_less D (d_num D (js_int 0)) remainder \<and> d_less D remainder m
                   then close_error (''That would leave '' @ d_fixed D remainder @ '' lots, below the '' @ mn @ '' minimum.'')
                   else \<lparr>cv_volume = Some parsed, cv_error = None\<rparr>) } } } } })"

definition partialVolume ::
  "'d decimal_lib \<Rightarrow> string \<Rightarrow> js_number \<Rightarrow> trading_symbol option \<Rightarrow> string option option" where
  "partialVolume D whole fraction symbol =
     (if fraction \<noteq> NaN \<and> \<not> js_less fraction (Fin 1) then Some (Some whole)
      else do {
        t \<leftarrow> dec D whole;
        let raw = d_times D t (d_num D fraction);
        case step_and_min symbol of None \<Rightarrow> Some (Some (d_fixed D raw))
        | Some (st, mn) \<Rightarrow> do {
            snap \<leftarrow> quantizeVolume D (d_fixed D raw) st mn whole;
            c \<leftarrow> cmp D snap whole;
            Some (if c \<ge> 0 then None else Some snap) } })"

section \<open>What a close may be\<close>

text \<open>
  What a partial close may be: the whole position, or less, in which case on a symbol whose
  step and minimum are known it is at least the minimum, on the grid, and leaves at least
  the minimum.
\<close>

definition close_ok :: "'d decimal_lib \<Rightarrow> ('d \<Rightarrow> rat) \<Rightarrow> position \<Rightarrow> trading_symbol option \<Rightarrow> string \<Rightarrow> bool" where
  "close_ok D val pos symbol v \<longleftrightarrow> 0 < dval D val v \<and> dval D val v \<le> dval D val (p_volume pos) \<and>
     (dval D val v < dval D val (p_volume pos) \<longrightarrow> (case step_and_min symbol of None \<Rightarrow> True
      | Some (st, mn) \<Rightarrow> dval D val mn \<le> dval D val v \<and> isOnVolumeStep D v st mn = Some True \<and>
          dval D val mn \<le> rnd (dval D val (p_volume pos) - dval D val v)))"

context decimal_js
begin

lemma isOnVolumeStep_total:
  "is_dec D v \<Longrightarrow> is_dec D st \<Longrightarrow> is_dec D mn \<Longrightarrow> \<exists>b. isOnVolumeStep D v st mn = Some b"
  by (auto simp: isOnVolumeStep_def)

lemma validateCloseVolume_iff:
  assumes "is_dec D (p_volume pos)" "\<forall>sy. symbol = Some sy \<longrightarrow> wf_symbol D sy"
  shows "\<exists>r. validateCloseVolume D raw pos symbol = Some r \<and> ((cv_volume r = None) \<noteq> (cv_error r = None)) \<and>
    (cv_volume r = (case toDecimalString D (JStr raw) of None \<Rightarrow> None
       | Some v \<Rightarrow> if close_ok D val pos symbol v then Some v else None))"
proof (cases "toDecimalString D (JStr raw)")
  case None
  then show ?thesis by (simp add: validateCloseVolume_def)
next
  case (Some v)
  then have v: "is_dec D v" by blast
  show ?thesis
  proof (cases "step_and_min symbol")
    case None
    then show ?thesis using v Some assms(1)
      by (auto simp: validateCloseVolume_def close_ok_def leq_val)
  next
    case sm: (Some q)
    obtain st mn where q: "q = (st, mn)" by (cases q)
    then have d: "is_dec D st" "is_dec D mn"
      using sm assms(2) by (auto simp: step_and_min_def wf_symbol_def Option.bind_eq_Some_conv split: if_splits)
    then obtain b where "isOnVolumeStep D v st mn = Some b" using v isOnVolumeStep_total by blast
    then show ?thesis using v Some assms(1) sm q d
      by (auto simp: validateCloseVolume_def close_ok_def leq_val minus_val less_val Let_def not_less)
  qed
qed

lemma quantizeVolume_total:
  assumes "is_dec D v" "is_dec D st" "is_dec D mn" "is_dec D mx"
  shows "\<exists>q. quantizeVolume D v st mn mx = Some q \<and> is_dec D q"
proof -
  have "d_is_finite D (d_times D (d_floor D (d_div D (dnum D v) (dnum D st))) (dnum D st))"
    if "\<not> d_is_zero D (dnum D st)"
    using assms that by (simp add: zero_val times_val floor_val div_val)
  then show ?thesis using assms by (auto simp: quantizeVolume_def Let_def)
qed

lemma partialVolume_less:
  assumes "is_dec D whole" "0 \<le> f" "f < 1" "d_is_finite D (d_num D (Fin f))" "step_and_min symbol = Some (st, mn)"
    "is_dec D st" "is_dec D mn" "partialVolume D whole (Fin f) symbol = Some (Some v)"
  shows "is_dec D v \<and> dval D val v < dval D val whole"
proof -
  have f: "d_is_finite D (d_times D (dnum D whole) (d_num D (Fin f)))"
    using assms by (simp add: times_val)
  then have r: "is_dec D (d_fixed D (d_times D (dnum D whole) (d_num D (Fin f))))"
    using is_dec_fixed by (simp add: decimalStringOf_def)
  then obtain q where q: "quantizeVolume D (d_fixed D (d_times D (dnum D whole) (d_num D (Fin f)))) st mn whole = Some q"
      "is_dec D q"
    using quantizeVolume_total assms by blast
  then show ?thesis using assms f r by (auto simp: partialVolume_def Let_def split: if_splits)
qed
end

section \<open>The economics on the values the inputs denote\<close>

context decimal_js
begin

lemma pipSize_total:
  "wf_symbol D sy \<Longrightarrow> \<exists>p. pipSize D sy = Some p \<and> is_dec_opt D p"
  using num_val [of 10] by (auto simp: pipSize_def wf_symbol_def Let_def pow_ten times_val split: option.splits)

lemma pip_value_total: "wf_symbol D sy \<Longrightarrow> \<exists>q. pip_value D sy v x y = Some q"
proof -
  assume wf: "wf_symbol D sy"
  then obtain p where "pipSize D sy = Some p" "is_dec_opt D p" using pipSize_total by blast
  then show ?thesis using wf by (auto simp: pip_value_def wf_symbol_def split: option.splits)
qed

lemma projectLeverageChange_value:
  assumes m: "li_margin i = Some m" "is_dec D m" "0 \<le> dval D val m" "is_dec_opt D (li_equity i)"
    and lev: "li_currentLeverage i = js_int a" "li_nextLeverage i = js_int b" "0 < a" "0 < b"
      "a \<le> 2 ^ 53" "b \<le> 2 ^ 53" "m = c # cs" "c \<noteq> CHR ''-''"
  shows "\<exists>out. projectLeverageChange D i = Some out \<and>
    (\<exists>s. lp_marginAfter out = Some s \<and> is_dec D s \<and>
       dval D val s = rnd (rnd (dval D val m * of_int a) / of_int b) \<and>
       lp_wouldExceedEquity out = map_option (\<lambda>e. dval D val e < dval D val s) (li_equity i)) \<and>
    (lp_marginLevelAfter out = None \<longleftrightarrow> li_equity i = None \<or> dval D val m = 0)"
proof -
  define x where "x = d_div D (d_times D (dnum D m) (d_num D (js_int a))) (d_num D (js_int b))"
  have neg: "\<not> d_is_neg D (dnum D m)"
  proof (cases "dval D val m = 0")
    case True
    then show ?thesis
      using zero_pos [of c cs "dnum D m"] m(2) lev by (simp add: is_dec_def dnum_def dval_def split: option.splits)
  next
    case False
    then show ?thesis using neg_val [of "dnum D m"] m by simp
  qed
  have n: "d_is_finite D (d_num D (js_int a))" "val (d_num D (js_int a)) = of_int a"
      "d_is_finite D (d_num D (js_int b))" "val (d_num D (js_int b)) = of_int b"
    using lev num_val by simp_all
  have x: "d_is_finite D x" "val x = rnd (rnd (dval D val m * of_int a) / of_int b)"
    using n m lev by (simp_all add: x_def div_val times_val)
  then have x0: "val x = 0 \<longleftrightarrow> dval D val m = 0" using lev by simp
  have ok: "js_is_finite (js_int k) \<and> (js_less (Fin 0) (js_int k) \<longleftrightarrow> 0 < k)" for k
    by (simp add: js_int_def)
  show ?thesis
  proof (cases "li_equity i")
    case None
    then show ?thesis using m lev(1-6) ok x neg
      by (simp add: projectLeverageChange_def margin_level_def x_def [symmetric] Let_def)
  next
    case (Some e)
    then have "is_dec D e" using m by simp
    then show ?thesis using m lev(1-6) ok x x0 neg Some
      by (simp add: projectLeverageChange_def margin_level_def x_def [symmetric] Let_def zero_val less_val)
  qed
qed

lemma computeOrderInfo_values:
  assumes sy: "oi_symbol i = Some sy" "wf_symbol D sy"
    and vol: "oi_volumeLots i = Some v" "is_dec D v" "0 < dval D val v"
    and o: "is_dec_opt D (oi_price i)" "is_dec_opt D (oi_quoteToAccountRate i)" "is_dec_opt D (oi_leverage i)"
  shows "\<exists>out. computeOrderInfo D i = Some out \<and>
    (ov_tradeValue out \<noteq> None \<longleftrightarrow> (\<exists>p c r. oi_price i = Some p \<and> sy_contractSize sy = Some c \<and>
       oi_quoteToAccountRate i = Some r \<and> 0 < dval D val p \<and> 0 < dval D val c \<and> 0 < dval D val r)) \<and>
    (ov_marginUsed out \<noteq> None \<longleftrightarrow> ov_tradeValue out \<noteq> None \<and> ov_leverage out \<noteq> None) \<and>
    (\<forall>t. ov_tradeValue out = Some t \<longrightarrow> is_dec D t \<and> 0 < dval D val t) \<and>
    (\<forall>t l m. ov_tradeValue out = Some t \<longrightarrow> ov_leverage out = Some l \<longrightarrow> ov_marginUsed out = Some m \<longrightarrow>
       dval D val m = rnd (dval D val t / dval D val l))"
proof -
  have c: "is_dec_opt D (sy_contractSize sy)" "is_dec_opt D (sy_tickSize sy)" "is_dec_opt D (sy_tickValue sy)"
    using sy(2) by (simp_all add: wf_symbol_def)
  have zero: "d_is_finite D (d_num D (js_int 0))" "val (d_num D (js_int 0)) = 0"
    using num_val [of 0] by simp_all
  obtain lev where lev: "positiveOrNull D (oi_leverage i) = Some lev"
      "\<forall>l. lev = Some l \<longrightarrow> is_dec D l \<and> 0 < dval D val l"
    using o(3) zero by (cases "oi_leverage i") (auto simp: positiveOrNull_def is_above_zero_def less_val)
  have sized: "positiveOrNull D (oi_volumeLots i) = Some (Some v)"
    using vol zero by (simp add: positiveOrNull_def is_above_zero_def less_val)
  define tv where "tv = the (trade_value D (dnum D v) (oi_price i) (map_option (dnum D) (sy_contractSize sy))
    (map_option (dnum D) (oi_quoteToAccountRate i)))"
  have tv: "trade_value D (dnum D v) (oi_price i) (map_option (dnum D) (sy_contractSize sy))
      (map_option (dnum D) (oi_quoteToAccountRate i)) = Some tv"
    "tv \<noteq> None \<longleftrightarrow> (\<exists>p c r. oi_price i = Some p \<and> sy_contractSize sy = Some c \<and>
       oi_quoteToAccountRate i = Some r \<and> 0 < dval D val p \<and> 0 < dval D val c \<and> 0 < dval D val r)"
    "\<forall>t. tv = Some t \<longrightarrow> is_dec D t \<and> 0 < dval D val t"
    using o c vol zero
    by (cases "oi_price i"; cases "sy_contractSize sy"; cases "oi_quoteToAccountRate i";
        auto simp: tv_def trade_value_def less_val times_val)+
  obtain q where pip: "pip_value D sy (dnum D v) (map_option (dnum D) (sy_contractSize sy))
      (map_option (dnum D) (oi_quoteToAccountRate i)) = Some q"
    using pip_value_total [OF sy(2)] by blast
  have opt: "dec_opt D (sy_contractSize sy) = Some (map_option (dnum D) (sy_contractSize sy))"
      "dec_opt D (oi_quoteToAccountRate i) = Some (map_option (dnum D) (oi_quoteToAccountRate i))"
    using c o by (auto simp: dec_opt_def split: option.splits)
  define mu where "mu = (case (tv, lev) of
    (Some t, Some l) \<Rightarrow> Some (decimalStringOf D (d_div D (dnum D t) (dnum D l))) | _ \<Rightarrow> None)"
  have mu: "(case (tv, lev) of (Some t, Some l) \<Rightarrow>
      do { t' \<leftarrow> dec D t; v \<leftarrow> dec D l; Some (Some (decimalStringOf D (d_div D t' v))) } | _ \<Rightarrow> Some None) = Some mu"
    using tv(3) lev(2) by (auto simp: mu_def split: option.splits)
  have out: "computeOrderInfo D i = Some \<lparr>ov_pipValue = q, ov_tradeValue = tv, ov_marginUsed = mu,
      ov_marginAvailable = oi_marginFree i, ov_leverage = lev\<rparr>"
    using sy vol lev(1) sized tv(1) pip opt mu by (simp add: computeOrderInfo_def)
  show ?thesis
    unfolding out using tv(2,3) lev(2)
    by (auto simp: mu_def div_val split: option.splits)
qed
end

section \<open>Properties\<close>

text \<open>The order economics never substitute a default: the trade value is there exactly when
  price, contract size and conversion rate are all known and positive, the margin exactly when
  the trade value and a positive leverage are, and it is the trade value divided by it.\<close>

theorem order_info_null_rules:
  assumes "decimal_js D val" "oi_symbol i = Some sy" "wf_symbol D sy"
    "oi_volumeLots i = Some v" "is_dec D v" "0 < dval D val v"
    "is_dec_opt D (oi_price i)" "is_dec_opt D (oi_quoteToAccountRate i)" "is_dec_opt D (oi_leverage i)"
  shows "\<exists>out. computeOrderInfo D i = Some out \<and>
    (ov_tradeValue out \<noteq> None \<longleftrightarrow> (\<exists>p c r. oi_price i = Some p \<and> sy_contractSize sy = Some c \<and>
       oi_quoteToAccountRate i = Some r \<and> 0 < dval D val p \<and> 0 < dval D val c \<and> 0 < dval D val r)) \<and>
    (ov_marginUsed out \<noteq> None \<longleftrightarrow> ov_tradeValue out \<noteq> None \<and> ov_leverage out \<noteq> None) \<and>
    (\<forall>t. ov_tradeValue out = Some t \<longrightarrow> is_dec D t \<and> 0 < dval D val t) \<and>
    (\<forall>t l m. ov_tradeValue out = Some t \<longrightarrow> ov_leverage out = Some l \<longrightarrow> ov_marginUsed out = Some m \<longrightarrow>
       dval D val m = rnd (dval D val t / dval D val l))"
  using assms by (rule decimal_js.computeOrderInfo_values)

theorem order_info_null_rules_witness:
  "\<exists>out. computeOrderInfo ref_lib \<lparr>oi_symbol = Some eurusd, oi_volumeLots = Some ''0.1'',
      oi_price = Some ''1.1'', oi_quoteToAccountRate = None, oi_leverage = Some ''100'',
      oi_marginFree = None\<rparr> = Some out \<and> ov_tradeValue out = None \<and> ov_marginUsed out = None"
proof -
  have d: "wf_symbol ref_lib eurusd" "is_dec ref_lib ''0.1''" "0 < dval ref_lib ref_val ''0.1''"
      "is_dec_opt ref_lib (Some ''1.1'')" "is_dec_opt ref_lib (Some ''100'')"
    by code_simp+
  show ?thesis
    using order_info_null_rules [OF ref_laws _ d(1) _ d(2,3), where i = "\<lparr>oi_symbol = Some eurusd,
      oi_volumeLots = Some ''0.1'', oi_price = Some ''1.1'', oi_quoteToAccountRate = None,
      oi_leverage = Some ''100'', oi_marginFree = None\<rparr>"] d(4,5)
    by auto
qed

text \<open>A leverage change from a to b scales the margin in use by a / b, rounded twice; it is
  reported to exceed the equity exactly when it does, and as unknown when the equity is.\<close>

theorem leverage_projection:
  assumes "decimal_js D val" "li_margin i = Some m" "is_dec D m" "0 \<le> dval D val m" "is_dec_opt D (li_equity i)"
    "li_currentLeverage i = js_int a" "li_nextLeverage i = js_int b" "0 < a" "0 < b"
    "a \<le> 2 ^ 53" "b \<le> 2 ^ 53" "m = c # cs" "c \<noteq> CHR ''-''"
  shows "\<exists>out. projectLeverageChange D i = Some out \<and>
    (\<exists>s. lp_marginAfter out = Some s \<and> is_dec D s \<and>
       dval D val s = rnd (rnd (dval D val m * of_int a) / of_int b) \<and>
       lp_wouldExceedEquity out = map_option (\<lambda>e. dval D val e < dval D val s) (li_equity i)) \<and>
    (lp_marginLevelAfter out = None \<longleftrightarrow> li_equity i = None \<or> dval D val m = 0)"
  using assms by (rule decimal_js.projectLeverageChange_value)

theorem leverage_projection_witness:
  "\<exists>out. projectLeverageChange ref_lib \<lparr>li_currentLeverage = js_int 300, li_nextLeverage = js_int 100,
      li_margin = Some ''50'', li_equity = Some ''140''\<rparr> = Some out \<and> lp_wouldExceedEquity out = Some True"
proof -
  have d: "is_dec ref_lib ''50''" "dval ref_lib ref_val ''50'' = 50" "is_dec_opt ref_lib (Some ''140'')"
      "dval ref_lib ref_val ''140'' = 140"
    by code_simp+
  have r: "rnd (rnd (50 * 300) / 100) = 150" using rnd_int [of 15000] rnd_int [of 150] by simp
  show ?thesis
    using leverage_projection [OF ref_laws _ d(1), where i = "\<lparr>li_currentLeverage = js_int 300,
        li_nextLeverage = js_int 100, li_margin = Some ''50'', li_equity = Some ''140''\<rparr>"
        and a = 300 and b = 100 and c = "CHR ''5''" and cs = "''0''"] d r
    by auto
qed

text \<open>A volume typed for a close is accepted exactly when it is the whole position, or a part
  of it that respects the minimum and the step of the symbol and leaves at least the minimum
  open; otherwise there is an error, and never both.\<close>

theorem close_volume_iff:
  assumes "decimal_js D val" "is_dec D (p_volume pos)" "\<forall>sy. symbol = Some sy \<longrightarrow> wf_symbol D sy"
  shows "\<exists>r. validateCloseVolume D raw pos symbol = Some r \<and> ((cv_volume r = None) \<noteq> (cv_error r = None)) \<and>
    (cv_volume r = (case toDecimalString D (JStr raw) of None \<Rightarrow> None
       | Some v \<Rightarrow> if close_ok D val pos symbol v then Some v else None))"
  using assms by (rule decimal_js.validateCloseVolume_iff)

definition sample_position :: position where
  "sample_position = \<lparr>p_id = ''1'', p_symbol = ''EURUSD.'', p_displaySymbol = ''EURUSD'', p_side = Buy,
     p_volume = ''0.5'', p_openPrice = ''1.1'', p_currentPrice = None, p_stopLoss = None,
     p_takeProfit = None, p_profit = None, p_swap = None, p_commission = None, p_openTime = None,
     p_comment = None\<rparr>"

theorem close_volume_iff_witness:
  "\<not> close_ok ref_lib ref_val sample_position (Some eurusd) ''0.495''"
proof -
  have wf: "is_dec ref_lib (p_volume sample_position)" "wf_symbol ref_lib eurusd" by code_simp+
  have t: "toDecimalString ref_lib (JStr ''0.495'') = Some ''0.495''"
      "map_option cv_volume (validateCloseVolume ref_lib ''0.495'' sample_position (Some eurusd)) = Some None"
    by code_simp+
  show ?thesis
    using close_volume_iff [OF ref_laws wf(1), of "Some eurusd" "''0.495''"] wf(2) t
    by (auto split: if_splits)
qed

text \<open>The preset that closes a fraction below one of a position, on a symbol with a step and
  a minimum, never proposes the whole position or more: what it proposes is a number below it.\<close>

theorem partial_volume_below:
  assumes "decimal_js D val" "is_dec D whole" "0 \<le> f" "f < 1" "d_is_finite D (d_num D (Fin f))"
    "step_and_min symbol = Some (st, mn)" "is_dec D st" "is_dec D mn"
    "partialVolume D whole (Fin f) symbol = Some (Some v)"
  shows "is_dec D v \<and> dval D val v < dval D val whole"
  using assms by (rule decimal_js.partialVolume_less)

theorem partial_volume_below_witness:
  "dval ref_lib ref_val ''0.12'' < dval ref_lib ref_val ''0.5''"
proof -
  have d: "is_dec ref_lib ''0.5''" "is_dec ref_lib ''0.01''" "d_is_finite ref_lib (d_num ref_lib (Fin (1 / 4)))"
      "step_and_min (Some eurusd) = Some (''0.01'', ''0.01'')"
      "partialVolume ref_lib ''0.5'' (Fin (1 / 4)) (Some eurusd) = Some (Some ''0.12'')"
    by code_simp+
  show ?thesis using partial_volume_below [OF ref_laws d(1) _ _ d(3,4,2,2,5)] by simp
qed

end
