(* ===== verification/Subscription.thy ===== *)
theory Subscription
  imports Prelude "HOL-Library.Multiset" "HOL-Library.Char_ord" "HOL-Library.List_Lexorder"
begin

text \<open>
  Subscription queries and keys,
  \<^verbatim>\<open>frontend/src/integrations/gateway/websocket/subscription-key.ts\<close>. The subscription of a
  gateway socket is its query string; the key that decides which consumers share one socket is
  the sorted query.

  Shown: the key does not depend on the order of the parameters, and two queries whose values
  hold no separator have the same key only if they are the same.
\<close>

datatype subscription_family = FamQuote | FamIntradayBar | FamDailyBar | FamAccount | FamOrders | FamPositions

record subscription_params =
  su_family :: subscription_family
  su_symbol :: "string option"
  su_login :: "string option"
  su_id :: "string option"
  su_offset :: "int option"
  su_total :: "int option"

type_synonym ws_query = "(string \<times> string) list"

definition required :: "string option \<Rightarrow> string \<Rightarrow> string + string" where
  "required value name = (case value of None \<Rightarrow> Inl (''Subscription parameter \"'' @ name @ ''\" is required'')
     | Some v \<Rightarrow> if v = '''' then Inl (''Subscription parameter \"'' @ name @ ''\" is required'') else Inr v)"

definition page_params :: "subscription_params \<Rightarrow> ws_query" where
  "page_params p = [(''offset'', show_int (or_else (su_offset p) 0)), (''total'', show_int (or_else (su_total p) 1000))]"

text \<open>One shape per family; a missing symbol or login throws.\<close>

definition buildSubscriptionQuery :: "subscription_params \<Rightarrow> string + ws_query" where
  "buildSubscriptionQuery p =
     (let symbol = (\<lambda>rest. map_sum id (\<lambda>s. (''symbol'', s) # rest) (required (su_symbol p) ''symbol''));
          login = (\<lambda>rest. map_sum id (\<lambda>l. (''login'', l) # rest) (required (su_login p) ''login''))
      in case su_family p of
        FamQuote \<Rightarrow> symbol [(''id'', or_else (su_id p) ''1''), (''methodtype'', ''GetQuotes''), (''TP'', ''1''),
          (''source'', ''tv'')]
      | FamIntradayBar \<Rightarrow> symbol [(''fromtime'', ''0''), (''totime'', ''1''), (''data'', ''dhloc''), (''source'', ''tv''),
          (''methodtype'', ''GetM1History''), (''TP'', ''1'')]
      | FamDailyBar \<Rightarrow> symbol [(''fromtime'', ''0''), (''totime'', ''1''), (''methodtype'', ''GetLastDailyBar''), (''TP'', ''5'')]
      | FamAccount \<Rightarrow> login [(''methodtype'', ''GetTradeState''), (''TP'', ''3'')]
      | FamOrders \<Rightarrow> login (page_params p @ [(''methodtype'', ''GetPagebyPageOrder''), (''TP'', ''4''), (''source'', ''tv'')])
      | FamPositions \<Rightarrow> login (page_params p @ [(''methodtype'', ''GetPagebyPagePositionWs''), (''TP'', ''2''), (''source'', ''tv'')]))"

fun join :: "string \<Rightarrow> string list \<Rightarrow> string" where
  "join sep [] = ''''"
| "join sep [x] = x"
| "join sep (x # y # ys) = x @ sep @ join sep (y # ys)"

definition subscriptionKey :: "ws_query \<Rightarrow> string" where
  "subscriptionKey query = join ''&'' (map (\<lambda>(k, v). k @ ''='' @ v)
     (sort_key fst (filter (\<lambda>(k, v). v \<noteq> '''') query)))"

definition APPLICATION_PROTOCOL :: string where
  "APPLICATION_PROTOCOL = ''tradeplatform.v1''"

definition JWT_PROTOCOL_PREFIX :: string where
  "JWT_PROTOCOL_PREFIX = ''tradeplatform.jwt.''"

definition buildSubscriptionProtocols :: "string \<Rightarrow> string + string list" where
  "buildSubscriptionProtocols token = (if token = '''' then Inl ''WebSocket access token is required''
     else Inr [APPLICATION_PROTOCOL, JWT_PROTOCOL_PREFIX @ token])"

section \<open>What the key determines\<close>

lemma join_Cons: "xs \<noteq> [] \<Longrightarrow> join sep (x # xs) = x @ sep @ join sep xs"
  by (cases xs) simp_all

text \<open>A text without the separator is determined by what comes before the first one.\<close>

lemma split_first:
  assumes "c \<notin> set a" "c \<notin> set b" "a @ c # x = b @ c # y"
  shows "a = b \<and> x = y"
  using assms by (induction a arbitrary: b) (auto simp: Cons_eq_append_conv append_eq_Cons_conv)

lemma join_inj:
  assumes "\<forall>x\<in>set xs. CHR ''&'' \<notin> set x \<and> x \<noteq> []" "\<forall>y\<in>set ys. CHR ''&'' \<notin> set y \<and> y \<noteq> []"
    "join ''&'' xs = join ''&'' ys"
  shows "xs = ys"
  using assms
proof (induction xs arbitrary: ys)
  case Nil
  then show ?case by (cases ys; cases "tl ys") (auto simp: join_Cons)
next
  case (Cons x xs)
  have clean: "CHR ''&'' \<notin> set x" "x \<noteq> []" using Cons.prems(1) by simp_all
  show ?case
  proof (cases ys)
    case Nil
    then show ?thesis using Cons.prems(3) clean by (cases xs) (auto simp: join_Cons)
  next
    case ys: (Cons y ys')
    then have cleany: "CHR ''&'' \<notin> set y" "y \<noteq> []" using Cons.prems(2) by simp_all
    have one: "x = y \<and> xs = ys'" if "xs = [] \<or> ys' = []"
    proof -
      have "CHR ''&'' \<in> set (join ''&'' (y # ys'))" if "ys' \<noteq> []" using that by (simp add: join_Cons)
      moreover have "CHR ''&'' \<in> set (join ''&'' (x # xs))" if "xs \<noteq> []" using that by (simp add: join_Cons)
      ultimately show ?thesis using that Cons.prems(3) clean cleany ys by (cases "xs = []"; cases "ys' = []") auto
    qed
    show ?thesis
    proof (cases "xs = [] \<or> ys' = []")
      case True
      then show ?thesis using one ys by simp
    next
      case False
      then have "x @ CHR ''&'' # join ''&'' xs = y @ CHR ''&'' # join ''&'' ys'"
        using Cons.prems(3) ys by (simp add: join_Cons)
      then have eq: "x = y" "join ''&'' xs = join ''&'' ys'" using split_first [OF clean(1) cleany(1)] by auto
      have "xs = ys'" by (rule Cons.IH) (use Cons.prems(1,2) ys eq(2) in auto)
      then show ?thesis using eq(1) ys by simp
    qed
  qed
qed

text \<open>A query whose names hold no separator and whose values no \<^verbatim>\<open>&\<close>; the names of an object are distinct.\<close>

definition plain_query :: "ws_query \<Rightarrow> bool" where
  "plain_query q = (distinct (map fst q) \<and>
     list_all (\<lambda>(k, v). CHR ''='' \<notin> set k \<and> CHR ''&'' \<notin> set k \<and> CHR ''&'' \<notin> set v) q)"

abbreviation sent :: "ws_query \<Rightarrow> ws_query" where
  "sent q \<equiv> filter (\<lambda>(k, v). v \<noteq> '''') q"

lemma key_order_free:
  assumes "distinct (map fst q)" "mset q = mset q'"
  shows "subscriptionKey q = subscriptionKey q'"
proof -
  have m: "mset (sent q) = mset (sent q')" using assms(2) by simp
  have "inj_on fst (set (sent q))" using assms(1) by (auto simp: distinct_map intro: inj_on_subset)
  then have "sort_key fst (sent q) = sort_key fst (sent q')"
    using m by (intro sort_key_inj_key_eq) simp_all
  then show ?thesis by (simp add: subscriptionKey_def)
qed

lemma key_determines_sent:
  assumes "plain_query q" "plain_query q'" "subscriptionKey q = subscriptionKey q'"
  shows "mset (sent q) = mset (sent q')"
proof -
  let ?pair = "\<lambda>(k, v). k @ ''='' @ v"
  have clean: "\<forall>x\<in>set (map ?pair (sort_key fst (sent r))). CHR ''&'' \<notin> set x \<and> x \<noteq> []" if "plain_query r" for r
    using that by (fastforce simp: plain_query_def list_all_iff)
  have "map ?pair (sort_key fst (sent q)) = map ?pair (sort_key fst (sent q'))"
    using join_inj [OF clean [OF assms(1)] clean [OF assms(2)]] assms(3) by (simp add: subscriptionKey_def)
  moreover have "inj_on ?pair (set (sort_key fst (sent q)) \<union> set (sort_key fst (sent q')))"
  proof (rule inj_onI)
    fix a b
    assume ab: "a \<in> set (sort_key fst (sent q)) \<union> set (sort_key fst (sent q'))"
      "b \<in> set (sort_key fst (sent q)) \<union> set (sort_key fst (sent q'))" "?pair a = ?pair b"
    have no_eq: "CHR ''='' \<notin> set (fst c)" if "c \<in> set q \<union> set q'" for c
      using that assms(1,2) unfolding plain_query_def list_all_iff by auto
    have "CHR ''='' \<notin> set (fst a)" "CHR ''='' \<notin> set (fst b)"
      using no_eq ab(1,2) by (simp_all add: disj_commute) blast+
    then have "fst a = fst b \<and> snd a = snd b"
      using ab(3) by (intro split_first) (simp_all add: split_beta)
    then show "a = b" by (simp add: prod_eq_iff)
  qed
  ultimately have "sort_key fst (sent q) = sort_key fst (sent q')"
    by (simp add: inj_on_map_eq_map)
  then show ?thesis by (metis mset_sort)
qed

lemma sent_lookup:
  assumes "plain_query q" "plain_query q'" "subscriptionKey q = subscriptionKey q'"
  shows "map_of (sent q) = map_of (sent q')"
proof -
  have d: "distinct (map fst (sent q))" "distinct (map fst (sent q'))"
    using assms(1,2) by (simp_all add: plain_query_def distinct_map_filter)
  have "set (sent q) = set (sent q')" using key_determines_sent [OF assms] by (rule mset_eq_setD)
  then show ?thesis using map_of_inject_set [OF d] by blast
qed

section \<open>The queries of the families\<close>

definition plain_params :: "subscription_params \<Rightarrow> bool" where
  "plain_params p = list_all (\<lambda>v. CHR ''&'' \<notin> set (or_else v '''')) [su_symbol p, su_login p, su_id p]"

fun method_of :: "subscription_family \<Rightarrow> string" where
  "method_of FamQuote = ''GetQuotes''"
| "method_of FamIntradayBar = ''GetM1History''"
| "method_of FamDailyBar = ''GetLastDailyBar''"
| "method_of FamAccount = ''GetTradeState''"
| "method_of FamOrders = ''GetPagebyPageOrder''"
| "method_of FamPositions = ''GetPagebyPagePositionWs''"

lemma method_of_inject: "method_of f = method_of g \<Longrightarrow> f = g"
  by (cases f; cases g) simp_all

lemma required_cases: "required v name = (if or_else v '''' = '''' then Inl (''Subscription parameter \"'' @ name @ ''\" is required'')
   else Inr (or_else v ''''))"
  by (cases v) (simp_all add: required_def)

lemma amp_not_digit: "CHR ''&'' \<notin> set (show_int n)"
  using show_pos_digits [of "CHR ''&''"] by (auto simp: show_int_def is_digit_def digit_val_def)

lemmas query_defs = buildSubscriptionQuery_def required_cases page_params_def

lemma sent_method: "buildSubscriptionQuery p = Inr q \<Longrightarrow> map_of (sent q) ''methodtype'' = Some (method_of (su_family p))"
  by (cases "su_family p") (auto simp: query_defs split: if_splits)

lemma built_plain: "buildSubscriptionQuery p = Inr q \<Longrightarrow> plain_params p \<Longrightarrow> plain_query q"
  by (cases "su_family p"; cases "su_id p")
    (auto simp: query_defs plain_query_def plain_params_def amp_not_digit split: if_splits)

lemma sent_value: "distinct (map fst q) \<Longrightarrow> (k, v) \<in> set q \<Longrightarrow> or_else (map_of (sent q) k) '''' = v"
proof (cases "v = ''''")
  case True
  assume q: "distinct (map fst q)" "(k, v) \<in> set q"
  have "map_of (sent q) k \<noteq> Some w" for w
    using q True map_of_SomeD [of "sent q" k w] eq_key_imp_eq_value [of q k v w] by auto
  then show ?thesis using True by (cases "map_of (sent q) k") auto
next
  case False
  assume q: "distinct (map fst q)" "(k, v) \<in> set q"
  have "distinct (map fst (sent q))" using q(1) by (rule distinct_map_filter)
  then have "map_of (sent q) k = Some v" using q(2) False by (intro map_of_is_SomeI) simp_all
  then show ?thesis by simp
qed

lemma sent_rebuild: "distinct (map fst q) \<Longrightarrow> map (\<lambda>k. (k, or_else (map_of (sent q) k) '''')) (map fst q) = q"
  by (auto simp: sent_value intro!: map_idI simp del: or_else_simps)

fun names_of :: "subscription_family \<Rightarrow> string list" where
  "names_of FamQuote = [''symbol'', ''id'', ''methodtype'', ''TP'', ''source'']"
| "names_of FamIntradayBar = [''symbol'', ''fromtime'', ''totime'', ''data'', ''source'', ''methodtype'', ''TP'']"
| "names_of FamDailyBar = [''symbol'', ''fromtime'', ''totime'', ''methodtype'', ''TP'']"
| "names_of FamAccount = [''login'', ''methodtype'', ''TP'']"
| "names_of FamOrders = [''login'', ''offset'', ''total'', ''methodtype'', ''TP'', ''source'']"
| "names_of FamPositions = [''login'', ''offset'', ''total'', ''methodtype'', ''TP'', ''source'']"

lemma built_names: "buildSubscriptionQuery p = Inr q \<Longrightarrow> map fst q = names_of (su_family p)"
  by (cases "su_family p") (auto simp: query_defs split: if_splits)

lemma built_determined:
  assumes "buildSubscriptionQuery p = Inr q" "buildSubscriptionQuery p' = Inr q'" "map_of (sent q) = map_of (sent q')"
  shows "q = q'"
proof -
  have d: "distinct (names_of f)" for f by (cases f) simp_all
  have "su_family p = su_family p'"
    using sent_method [OF assms(1)] sent_method [OF assms(2)] assms(3) method_of_inject by simp
  then have "map fst q = map fst q'" using built_names assms(1,2) by simp
  moreover have "distinct (map fst q)" "distinct (map fst q')" using built_names assms(1,2) d by simp_all
  ultimately show ?thesis using sent_rebuild [of q] sent_rebuild [of q'] assms(3) by metis
qed

text \<open>Two subscriptions share a socket exactly when they are the same subscription: for any two queries
  the pool builds (from parameters without the separator \<^verbatim>\<open>&\<close>) the canonical keys are equal only if the
  queries are equal, whatever their families, and the order in which the pairs of a query were written
  does not change its key.\<close>

theorem subscription_key_identifies:
  assumes "buildSubscriptionQuery p = Inr q" "buildSubscriptionQuery p' = Inr q'" "plain_params p" "plain_params p'"
  shows "(subscriptionKey q = subscriptionKey q' \<longleftrightarrow> q = q') \<and>
    (\<forall>r. mset r = mset q \<longrightarrow> subscriptionKey r = subscriptionKey q)"
proof -
  note plain = built_plain [OF assms(1,3)] built_plain [OF assms(2,4)]
  have "q = q'" if "subscriptionKey q = subscriptionKey q'"
    using built_determined [OF assms(1,2)] sent_lookup [OF plain that] by blast
  moreover have "subscriptionKey r = subscriptionKey q" if "mset r = mset q" for r
    using key_order_free [of q r] plain(1) that by (simp add: plain_query_def)
  ultimately show ?thesis by blast
qed

definition eurusd_quote :: subscription_params where
  "eurusd_quote = \<lparr>su_family = FamQuote, su_symbol = Some ''EURUSD'', su_login = None, su_id = None,
     su_offset = None, su_total = None\<rparr>"

definition eurusd_daily :: subscription_params where
  "eurusd_daily = eurusd_quote\<lparr>su_family := FamDailyBar\<rparr>"

theorem subscription_key_identifies_witness:
  "subscriptionKey (projr (buildSubscriptionQuery eurusd_quote)) =
     ''TP=1&id=1&methodtype=GetQuotes&source=tv&symbol=EURUSD'' \<and>
   subscriptionKey (projr (buildSubscriptionQuery eurusd_quote)) \<noteq> subscriptionKey (projr (buildSubscriptionQuery eurusd_daily))"
proof -
  have b: "buildSubscriptionQuery eurusd_quote = Inr (projr (buildSubscriptionQuery eurusd_quote))"
    "buildSubscriptionQuery eurusd_daily = Inr (projr (buildSubscriptionQuery eurusd_daily))"
    "plain_params eurusd_quote" "plain_params eurusd_daily"
    by code_simp+
  have "subscriptionKey (projr (buildSubscriptionQuery eurusd_quote)) =
     ''TP=1&id=1&methodtype=GetQuotes&source=tv&symbol=EURUSD''" by code_simp
  moreover have "projr (buildSubscriptionQuery eurusd_quote) \<noteq> projr (buildSubscriptionQuery eurusd_daily)" by code_simp
  ultimately show ?thesis using subscription_key_identifies [OF b] by blast
qed

end
