(* ===== verification/Pool.thy ===== *)
theory Pool
  imports JsFloat Subscription
begin

text \<open>
  The subscription pool,
  \<^verbatim>\<open>frontend/src/integrations/gateway/websocket/subscription-pool.ts\<close>: one socket for each
  distinct subscription, shared by its consumers, with backoff, probation and the watchdogs.

  A channel's operations act on the channel and the \<open>net\<close>: the sockets the client holds
  (\<open>nt_live\<close>: made by the factory, neither closed by the client nor reported closed) and the
  outputs so far (calls of the listeners, sockets opened and closed). The pool's operations and
  every callback of a socket, a timer or the browser is one \<open>event\<close>; \<open>step\<close> runs it to
  its end, as the single thread of JavaScript does. Time is not modelled: a timer that is set may
  fire at any moment, so what is shown holds for every timing. A timer field is what is still to
  fire; its callback's captured values are kept with it.

  A listener is its consumer's number and whether a status listener was given; listeners are
  taken not to call the pool back. \<^verbatim>\<open>JSON.parse\<close>, the clock, the random number, the
  token and the socket factory's exception are the environment of each event.
\<close>

datatype connection_state = Idle | Connecting | Connected | Reconnecting | Stale | Disconnected | AuthExpired | Failed

datatype reconnect_timer = Backoff js_number | Sweep nat int

record channel =
  ch_key :: string
  ch_query :: ws_query
  ch_socket :: "nat option"
  ch_consumers :: "(nat \<times> bool) list"
  ch_state :: connection_state
  ch_attempts :: nat
  ch_lastFrameAt :: "int option"
  ch_error :: "string option"
  ch_reconnect :: "reconnect_timer option"
  ch_connect :: "nat option"
  ch_stale :: bool
  ch_stable :: bool
  ch_linger :: bool
  ch_probation :: bool
  ch_closing :: bool

record subscription_status =
  st_key :: string
  st_state :: connection_state
  st_lastFrameAt :: "int option"
  st_attempts :: nat
  st_error :: "string option"

datatype pool_output =
    Notified nat subscription_status
  | Delivered nat js_value int
  | Opened nat ws_query "string list"
  | Closed nat

record net =
  nt_next :: nat
  nt_live :: "nat list"
  nt_out :: "pool_output list"

record pool_options =
  po_staleAfter :: int
  po_stableAfter :: int
  po_maxBackoff :: int
  po_connectTimeout :: int
  po_maxAttempts :: nat

record raw_options =
  ro_staleAfter :: "int option"
  ro_stableAfter :: "int option"
  ro_maxBackoff :: "int option"
  ro_connectTimeout :: "int option"
  ro_maxAttempts :: "nat option"

record pool_env =
  pe_token :: "string option"
  pe_throws :: "string \<Rightarrow> string option option"
  pe_random :: "string \<Rightarrow> rat"
  pe_now :: int
  pe_parse :: "string \<Rightarrow> js_value option"

section \<open>Constants and options\<close>

definition DEFAULT_STALE_AFTER_MS :: int where "DEFAULT_STALE_AFTER_MS = 12000"
definition DEFAULT_MAX_BACKOFF_MS :: int where "DEFAULT_MAX_BACKOFF_MS = 30000"
definition DEFAULT_STABLE_AFTER_MS :: int where "DEFAULT_STABLE_AFTER_MS = 15000"
definition DEFAULT_MAX_ATTEMPTS :: nat where "DEFAULT_MAX_ATTEMPTS = 12"
definition BASE_BACKOFF_MS :: int where "BASE_BACKOFF_MS = 500"
definition CONNECT_TIMEOUT_MS :: int where "CONNECT_TIMEOUT_MS = 10000"
definition SWEEP_STAGGER_MS :: int where "SWEEP_STAGGER_MS = 60"

text \<open>The constructor: \<^verbatim>\<open>Math.floor(staleAfterMs * 0.75)\<close> on whole milliseconds.\<close>

definition new_options :: "raw_options \<Rightarrow> pool_options" where
  "new_options r = (let stale = or_else (ro_staleAfter r) DEFAULT_STALE_AFTER_MS in
     \<lparr>po_staleAfter = stale,
      po_stableAfter = max 1 (min (or_else (ro_stableAfter r) DEFAULT_STABLE_AFTER_MS) (stale * 3 div 4)),
      po_maxBackoff = or_else (ro_maxBackoff r) DEFAULT_MAX_BACKOFF_MS,
      po_connectTimeout = or_else (ro_connectTimeout r) CONNECT_TIMEOUT_MS,
      po_maxAttempts = or_else (ro_maxAttempts r) DEFAULT_MAX_ATTEMPTS\<rparr>)"

section \<open>A channel and its socket\<close>

definition statusOf :: "channel \<Rightarrow> subscription_status" where
  "statusOf c = \<lparr>st_key = ch_key c, st_state = ch_state c, st_lastFrameAt = ch_lastFrameAt c,
     st_attempts = ch_attempts c, st_error = ch_error c\<rparr>"

definition emit :: "pool_output list \<Rightarrow> net \<Rightarrow> net" where
  "emit os n = n\<lparr>nt_out := nt_out n @ os\<rparr>"

definition drop_socket :: "nat \<Rightarrow> net \<Rightarrow> net" where
  "drop_socket s n = n\<lparr>nt_live := remove1 s (nt_live n)\<rparr>"

definition notices :: "channel \<Rightarrow> pool_output list" where
  "notices c = map (\<lambda>(i, _). Notified i (statusOf c)) (filter snd (ch_consumers c))"

definition setState :: "connection_state \<Rightarrow> string option \<Rightarrow> channel \<times> net \<Rightarrow> channel \<times> net" where
  "setState st e = (\<lambda>(c, n). if ch_state c = st \<and> ch_error c = e then (c, n)
     else let c' = c\<lparr>ch_state := st, ch_error := e\<rparr> in (c', emit (notices c') n))"

definition teardownSocket :: "channel \<times> net \<Rightarrow> channel \<times> net" where
  "teardownSocket = (\<lambda>(c, n).
     (c\<lparr>ch_connect := None, ch_stale := False, ch_stable := False, ch_socket := None\<rparr>,
      case ch_socket c of None \<Rightarrow> n | Some s \<Rightarrow> emit [Closed s] (drop_socket s n)))"

definition js_round :: "js_number \<Rightarrow> js_number" where
  "js_round x = (case x of Fin r \<Rightarrow> js_int \<lfloor>r + 1 / 2\<rfloor> | _ \<Rightarrow> x)"

text \<open>\<^verbatim>\<open>2 ** n\<close> exceeds any finite cap before it leaves the safe integers, so the minimum is exact.\<close>

definition exponential :: "pool_options \<Rightarrow> nat \<Rightarrow> int" where
  "exponential opt attempts = min (po_maxBackoff opt) (BASE_BACKOFF_MS * 2 ^ (attempts - 1))"

definition backoff_delay :: "int \<Rightarrow> rat \<Rightarrow> js_number" where
  "backoff_delay e r = (case fl (of_int e / 2) of
     Fin h \<Rightarrow> (case fl (r * h) of Fin j \<Rightarrow> js_round (fl (h + j)) | x \<Rightarrow> x) | x \<Rightarrow> x)"

definition armProbationRetry :: "channel \<times> net \<Rightarrow> channel \<times> net" where
  "armProbationRetry = (\<lambda>(c, n). (c\<lparr>ch_probation := True\<rparr>, n))"

definition scheduleReconnect :: "pool_options \<Rightarrow> pool_env \<Rightarrow> string \<Rightarrow> channel \<times> net \<Rightarrow> channel \<times> net" where
  "scheduleReconnect opt env reason = (\<lambda>(c, n).
     let c = c\<lparr>ch_attempts := ch_attempts c + 1\<rparr> in
     if ch_attempts c > po_maxAttempts opt
     then armProbationRetry (setState Failed
       (Some (reason @ '' -- giving up after '' @ show_int (int (ch_attempts c)) @ '' attempts'')) (c, n))
     else let (c, n) = setState Reconnecting (Some reason) (c, n) in
       (c\<lparr>ch_reconnect := Some (Backoff (backoff_delay (exponential opt (ch_attempts c)) (pe_random env (ch_key c))))\<rparr>, n))"

text \<open>\<^verbatim>\<open>open\<close>; \<open>gone\<close> is \<^verbatim>\<open>this.disposed\<close>.\<close>

definition open_channel :: "pool_options \<Rightarrow> pool_env \<Rightarrow> bool \<Rightarrow> channel \<times> net \<Rightarrow> channel \<times> net" where
  "open_channel opt env gone = (\<lambda>(c, n).
     if gone \<or> ch_consumers c = [] then (c, n)
     else let c = c\<lparr>ch_reconnect := None, ch_closing := False\<rparr> in
       case buildSubscriptionProtocols (or_else (pe_token env) '''') of
         Inl _ \<Rightarrow> setState AuthExpired (Some ''no access token'') (c, n)
       | Inr protocols \<Rightarrow>
           let (c, n) = setState (if ch_attempts c = 0 then Connecting else Reconnecting) (ch_error c) (c, n) in
           case pe_throws env (ch_key c) of
             Some m \<Rightarrow> scheduleReconnect opt env (or_else m ''socket error'') (c, n)
           | None \<Rightarrow> (c\<lparr>ch_socket := Some (nt_next n), ch_connect := Some (nt_next n)\<rparr>,
               emit [Opened (nt_next n) (ch_query c) protocols]
                 (n\<lparr>nt_next := nt_next n + 1, nt_live := nt_live n @ [nt_next n]\<rparr>)))"

section \<open>Callbacks of the socket\<close>

definition on_open :: "channel \<times> net \<Rightarrow> channel \<times> net" where
  "on_open = (\<lambda>(c, n).
     let (c, n) = setState Connected None (c\<lparr>ch_connect := None, ch_error := None\<rparr>, n) in
     (c\<lparr>ch_stale := True, ch_stable := True\<rparr>, n))"

datatype ws_data = NonText | Text string

definition on_message :: "pool_options \<Rightarrow> pool_env \<Rightarrow> ws_data \<Rightarrow> channel \<times> net \<Rightarrow> channel \<times> net" where
  "on_message opt env data cn = (case data of
     NonText \<Rightarrow> scheduleReconnect opt env ''gateway sent a non-text frame'' (teardownSocket cn)
   | Text raw \<Rightarrow>
       if raw = ''Invalid TP value''
       then teardownSocket (setState Failed (Some ''gateway rejected the subscription parameters'') cn)
       else case pe_parse env raw of
         None \<Rightarrow> scheduleReconnect opt env ''gateway sent a non-JSON frame'' (teardownSocket cn)
       | Some frame \<Rightarrow>
           let (c, n) = cn;
             c = c\<lparr>ch_lastFrameAt := Some (pe_now env), ch_attempts := 0\<rparr>;
             (c, n) = (if ch_state c \<noteq> Connected then setState Connected None (c, n) else (c, n))
           in (c\<lparr>ch_stale := True\<rparr>,
               emit (map (\<lambda>(i, _). Delivered i frame (pe_now env)) (ch_consumers c)) n))"

definition on_error :: "channel \<times> net \<Rightarrow> channel \<times> net" where
  "on_error = (\<lambda>(c, n). (c\<lparr>ch_error := Some ''connection error''\<rparr>, n))"

definition on_close :: "pool_options \<Rightarrow> pool_env \<Rightarrow> bool \<Rightarrow> nat \<Rightarrow> int \<Rightarrow> channel \<times> net \<Rightarrow> channel \<times> net" where
  "on_close opt env gone s code = (\<lambda>(c, n).
     let n = drop_socket s n;
       c = c\<lparr>ch_socket := None, ch_connect := None, ch_stale := False, ch_stable := False\<rparr> in
     if ch_closing c \<or> gone \<or> ch_consumers c = [] then setState Disconnected None (c, n)
     else if code = 1008 \<or> code = 4401 then setState AuthExpired (Some ''authentication rejected'') (c, n)
     else scheduleReconnect opt env (or_else (ch_error c) (''closed ('' @ show_int code @ '')'')) (c, n))"

section \<open>Callbacks of the timers\<close>

text \<open>A sweep's timer yields to a newer sweep; a probation's to anything that left \<^verbatim>\<open>failed\<close>.\<close>

definition fire_reconnect :: "pool_options \<Rightarrow> pool_env \<Rightarrow> bool \<Rightarrow> nat \<Rightarrow> channel \<times> net \<Rightarrow> channel \<times> net" where
  "fire_reconnect opt env gone sweep = (\<lambda>(c, n). case ch_reconnect c of
     None \<Rightarrow> (c, n)
   | Some (Backoff _) \<Rightarrow> open_channel opt env gone (c\<lparr>ch_reconnect := None\<rparr>, n)
   | Some (Sweep g _) \<Rightarrow> if sweep \<noteq> g then (c\<lparr>ch_reconnect := None\<rparr>, n)
       else open_channel opt env gone (c\<lparr>ch_reconnect := None\<rparr>, n))"

definition fire_connect :: "pool_options \<Rightarrow> pool_env \<Rightarrow> channel \<times> net \<Rightarrow> channel \<times> net" where
  "fire_connect opt env = (\<lambda>(c, n). case ch_connect c of
     None \<Rightarrow> (c, n)
   | Some s \<Rightarrow> let c = c\<lparr>ch_connect := None\<rparr> in
       if ch_socket c \<noteq> Some s then (c, n)
       else scheduleReconnect opt env ''handshake timed out'' (teardownSocket (c, n)))"

definition fire_stale :: "pool_options \<Rightarrow> pool_env \<Rightarrow> channel \<times> net \<Rightarrow> channel \<times> net" where
  "fire_stale opt env = (\<lambda>(c, n). if \<not> ch_stale c then (c, n)
     else let c = c\<lparr>ch_stale := False\<rparr>; reason = ''no update within the expected interval'' in
       if ch_state c = Connected
       then scheduleReconnect opt env reason (teardownSocket (setState Stale (Some reason) (c, n)))
       else (c, n))"

definition fire_stable :: "channel \<times> net \<Rightarrow> channel \<times> net" where
  "fire_stable = (\<lambda>(c, n). if \<not> ch_stable c then (c, n) else (c\<lparr>ch_stable := False, ch_attempts := 0\<rparr>, n))"

definition fire_probation :: "pool_options \<Rightarrow> pool_env \<Rightarrow> bool \<Rightarrow> channel \<times> net \<Rightarrow> channel \<times> net" where
  "fire_probation opt env gone = (\<lambda>(c, n). if \<not> ch_probation c then (c, n)
     else let c = c\<lparr>ch_probation := False\<rparr> in
       if gone \<or> ch_consumers c = [] \<or> ch_state c \<noteq> Failed then (c, n)
       else open_channel opt env gone (c\<lparr>ch_attempts := 0\<rparr>, n))"

section \<open>The pool\<close>

record pool =
  pl_channels :: "(string \<times> channel) list"
  pl_nextConsumer :: nat
  pl_sweep :: nat
  pl_disposed :: bool
  pl_handles :: "(nat \<times> string) list"
  pl_net :: net

text \<open>\<open>pl_handles\<close>: the \<^verbatim>\<open>unsubscribe\<close> functions handed out and not called yet, with their key.\<close>

definition new_pool :: pool where
  "new_pool = \<lparr>pl_channels = [], pl_nextConsumer = 1, pl_sweep = 0, pl_disposed = False, pl_handles = [],
     pl_net = \<lparr>nt_next = 0, nt_live = [], nt_out = []\<rparr>\<rparr>"

definition new_channel :: "string \<Rightarrow> ws_query \<Rightarrow> channel" where
  "new_channel key query = \<lparr>ch_key = key, ch_query = query, ch_socket = None, ch_consumers = [], ch_state = Idle,
     ch_attempts = 0, ch_lastFrameAt = None, ch_error = None, ch_reconnect = None, ch_connect = None,
     ch_stale = False, ch_stable = False, ch_linger = False, ch_probation = False, ch_closing = False\<rparr>"

definition at_key :: "string \<Rightarrow> (channel \<times> net \<Rightarrow> channel \<times> net) \<Rightarrow> pool \<Rightarrow> pool" where
  "at_key k f p = (case map_of (pl_channels p) k of None \<Rightarrow> p
   | Some c \<Rightarrow> let (c', n') = f (c, pl_net p) in
       p\<lparr>pl_channels := alist_set k c' (pl_channels p), pl_net := n'\<rparr>)"

text \<open>A handler runs only for the socket its channel holds; a replaced socket's handlers do nothing.\<close>

definition owner :: "nat \<Rightarrow> pool \<Rightarrow> string option" where
  "owner s p = map_option fst (find (\<lambda>(k, c). ch_socket c = Some s) (pl_channels p))"

definition at_socket :: "nat \<Rightarrow> (channel \<times> net \<Rightarrow> channel \<times> net) \<Rightarrow> pool \<Rightarrow> pool" where
  "at_socket s f p = (case owner s p of None \<Rightarrow> p | Some k \<Rightarrow> at_key k f p)"

fun each :: "(nat \<Rightarrow> channel \<times> net \<Rightarrow> channel \<times> net) \<Rightarrow> nat \<Rightarrow> (string \<times> channel) list \<Rightarrow> net \<Rightarrow> (string \<times> channel) list \<times> net" where
  "each f i [] n = ([], n)"
| "each f i ((k, c) # chs) n =
     (let (c', n') = f i (c, n); (chs', n'') = each f (i + 1) chs n' in ((k, c') # chs', n''))"

definition on_all :: "(nat \<Rightarrow> channel \<times> net \<Rightarrow> channel \<times> net) \<Rightarrow> pool \<Rightarrow> pool" where
  "on_all f p = (let (chs, n) = each f 0 (pl_channels p) (pl_net p) in p\<lparr>pl_channels := chs, pl_net := n\<rparr>)"

definition lingerThenClose :: "channel \<times> net \<Rightarrow> channel \<times> net" where
  "lingerThenClose = (\<lambda>(c, n). (c\<lparr>ch_linger := True\<rparr>, n))"

definition clear_all :: "channel \<times> net \<Rightarrow> channel \<times> net" where
  "clear_all = (\<lambda>(c, n). teardownSocket (c\<lparr>ch_closing := True, ch_reconnect := None, ch_connect := None,
     ch_stale := False, ch_stable := False, ch_linger := False, ch_probation := False\<rparr>, n))"

definition closeChannel :: "string \<Rightarrow> pool \<Rightarrow> pool" where
  "closeChannel k p = (let p = at_key k clear_all p in p\<lparr>pl_channels := alist_del k (pl_channels p)\<rparr>)"

text \<open>\<^verbatim>\<open>subscribe\<close>: the number of the new consumer, whose \<^verbatim>\<open>unsubscribe\<close> is returned.\<close>

definition join_channel :: "pool_options \<Rightarrow> pool_env \<Rightarrow> nat \<Rightarrow> bool \<Rightarrow> channel \<times> net \<Rightarrow> channel \<times> net" where
  "join_channel opt env i listens = (\<lambda>(c, n).
     let c = c\<lparr>ch_linger := False, ch_consumers := ch_consumers c @ [(i, listens)]\<rparr>;
       n = (if listens then emit [Notified i (statusOf c)] n else n) in
     if ch_socket c = None \<and> ch_reconnect c = None then open_channel opt env False (c, n) else (c, n))"

definition subscribe :: "pool_options \<Rightarrow> pool_env \<Rightarrow> subscription_params \<Rightarrow> bool \<Rightarrow> pool \<Rightarrow> (string + nat option) \<times> pool" where
  "subscribe opt env params listens p =
     (if pl_disposed p then (Inr None, p)
      else case buildSubscriptionQuery params of
        Inl msg \<Rightarrow> (Inl msg, p)
      | Inr query \<Rightarrow>
          let key = subscriptionKey query; i = pl_nextConsumer p;
            chs = (case map_of (pl_channels p) key of
                None \<Rightarrow> alist_set key (new_channel key query) (pl_channels p) | Some _ \<Rightarrow> pl_channels p)
          in (Inr (Some i),
              at_key key (join_channel opt env i listens)
                (p\<lparr>pl_channels := chs, pl_nextConsumer := i + 1, pl_handles := pl_handles p @ [(i, key)]\<rparr>)))"

definition leave_channel :: "nat \<Rightarrow> channel \<times> net \<Rightarrow> channel \<times> net" where
  "leave_channel i = (\<lambda>(c, n). let c = c\<lparr>ch_consumers := alist_del i (ch_consumers c)\<rparr> in
     if ch_consumers c = [] then lingerThenClose (c, n) else (c, n))"

definition unsubscribe :: "nat \<Rightarrow> pool \<Rightarrow> pool" where
  "unsubscribe i p = (case map_of (pl_handles p) i of None \<Rightarrow> p
   | Some key \<Rightarrow> at_key key (leave_channel i) (p\<lparr>pl_handles := alist_del i (pl_handles p)\<rparr>))"

definition statuses :: "pool \<Rightarrow> subscription_status list" where
  "statuses p = map (statusOf \<circ> snd) (pl_channels p)"

definition sweep_channel :: "string \<Rightarrow> nat \<Rightarrow> nat \<Rightarrow> channel \<times> net \<Rightarrow> channel \<times> net" where
  "sweep_channel reason sweep index = (\<lambda>(c, n).
     let c = c\<lparr>ch_error := Some reason\<rparr>;
       c = (if ch_state c \<noteq> Connecting \<and> ch_state c \<noteq> Reconnecting then c\<lparr>ch_attempts := 0\<rparr> else c);
       (c, n) = teardownSocket (c, n)
     in (c\<lparr>ch_reconnect := Some (Sweep sweep (int index * SWEEP_STAGGER_MS))\<rparr>, n))"

definition reconnectAll :: "string \<Rightarrow> pool \<Rightarrow> pool" where
  "reconnectAll reason p = (let sweep = pl_sweep p + 1 in
     on_all (sweep_channel reason sweep) (p\<lparr>pl_sweep := sweep\<rparr>))"

definition dispose :: "pool \<Rightarrow> pool" where
  "dispose p = (let p = on_all (\<lambda>_. clear_all) (p\<lparr>pl_disposed := True\<rparr>) in p\<lparr>pl_channels := []\<rparr>)"

text \<open>The handlers of the browser's \<^verbatim>\<open>online\<close> and \<^verbatim>\<open>offline\<close>, removed by \<^verbatim>\<open>dispose\<close>.\<close>

definition online_channel :: "pool_options \<Rightarrow> pool_env \<Rightarrow> bool \<Rightarrow> channel \<times> net \<Rightarrow> channel \<times> net" where
  "online_channel opt env gone = (\<lambda>(c, n). open_channel opt env gone
     (teardownSocket (c\<lparr>ch_attempts := 0, ch_reconnect := None, ch_probation := False\<rparr>, n)))"

definition offline_channel :: "channel \<times> net \<Rightarrow> channel \<times> net" where
  "offline_channel = (\<lambda>(c, n). setState Disconnected (Some ''browser is offline'')
     (teardownSocket (c\<lparr>ch_reconnect := None, ch_stale := False, ch_stable := False\<rparr>, n)))"

definition onlineHandler :: "pool_options \<Rightarrow> pool_env \<Rightarrow> pool \<Rightarrow> pool" where
  "onlineHandler opt env p = (if pl_disposed p then p else on_all (\<lambda>_. online_channel opt env False) p)"

definition offlineHandler :: "pool \<Rightarrow> pool" where
  "offlineHandler p = (if pl_disposed p then p else on_all (\<lambda>_. offline_channel) p)"

definition fire_linger :: "string \<Rightarrow> pool \<Rightarrow> pool" where
  "fire_linger k p = (case map_of (pl_channels p) k of None \<Rightarrow> p
   | Some c \<Rightarrow> if \<not> ch_linger c then p
       else let p = at_key k (\<lambda>(c, n). (c\<lparr>ch_linger := False\<rparr>, n)) p in
         if ch_consumers c = [] then closeChannel k p else p)"

section \<open>Events\<close>

datatype pool_event =
    Subscribe subscription_params bool
  | Unsubscribe nat
  | ReconnectAll string
  | Dispose
  | Online
  | Offline
  | SocketOpen nat
  | SocketMessage nat ws_data
  | SocketError nat
  | SocketClose nat int
  | ReconnectTimer string
  | ConnectTimer string
  | StaleTimer string
  | StableTimer string
  | LingerTimer string
  | ProbationTimer string

fun step :: "pool_options \<Rightarrow> pool_env \<Rightarrow> pool_event \<Rightarrow> pool \<Rightarrow> pool" where
  "step opt env (Subscribe params listens) p = snd (subscribe opt env params listens p)"
| "step opt env (Unsubscribe i) p = unsubscribe i p"
| "step opt env (ReconnectAll reason) p = reconnectAll reason p"
| "step opt env Dispose p = dispose p"
| "step opt env Online p = onlineHandler opt env p"
| "step opt env Offline p = offlineHandler p"
| "step opt env (SocketOpen s) p = at_socket s on_open p"
| "step opt env (SocketMessage s d) p = at_socket s (on_message opt env d) p"
| "step opt env (SocketError s) p = at_socket s on_error p"
| "step opt env (SocketClose s code) p = at_socket s (on_close opt env (pl_disposed p) s code) p"
| "step opt env (ReconnectTimer k) p = at_key k (fire_reconnect opt env (pl_disposed p) (pl_sweep p)) p"
| "step opt env (ConnectTimer k) p = at_key k (fire_connect opt env) p"
| "step opt env (StaleTimer k) p = at_key k (fire_stale opt env) p"
| "step opt env (StableTimer k) p = at_key k fire_stable p"
| "step opt env (LingerTimer k) p = fire_linger k p"
| "step opt env (ProbationTimer k) p = at_key k (fire_probation opt env (pl_disposed p)) p"

inductive reachable :: "pool_options \<Rightarrow> pool \<Rightarrow> bool" for opt :: pool_options where
  start: "reachable opt new_pool"
| event: "reachable opt p \<Longrightarrow> (\<And>k. 0 \<le> pe_random env k \<and> pe_random env k < 1) \<Longrightarrow> reachable opt (step opt env e p)"

end
