(* ===== verification/PoolInvariants.thy ===== *)
theory PoolInvariants
  imports Pool
begin

text \<open>
  The invariants of the subscription pool, by rule induction over its events.

  A channel is described by \<open>chan_ok\<close>, the sockets by \<open>moves\<close>: an operation on a channel exchanges
  the sockets that channel holds and touches no other. The locale \<open>channel_operation\<close> is the
  contract of an operation on one channel; inside it the operation is lifted to the pool.
  Each callback of the model is an interpretation.
\<close>

section \<open>The primitive operations, as record updates\<close>

definition state_net :: "connection_state \<Rightarrow> string option \<Rightarrow> channel \<Rightarrow> net \<Rightarrow> net" where
  "state_net st e c n = snd (setState st e (c, n))"

lemma setState_pair: "setState st e (c, n) = (c\<lparr>ch_state := st, ch_error := e\<rparr>, state_net st e c n)"
  by (cases c) (auto simp: setState_def state_net_def Let_def)

lemma state_net_sockets [simp]: "nt_live (state_net st e c n) = nt_live n" "nt_next (state_net st e c n) = nt_next n"
  by (simp_all add: state_net_def setState_def emit_def Let_def)

lemma emit_sockets [simp]: "nt_live (emit os n) = nt_live n" "nt_next (emit os n) = nt_next n"
  by (simp_all add: emit_def)

lemma drop_sockets [simp]: "nt_live (drop_socket s n) = remove1 s (nt_live n)" "nt_next (drop_socket s n) = nt_next n"
  by (simp_all add: drop_socket_def)

definition scheduled :: "pool_options \<Rightarrow> pool_env \<Rightarrow> string \<Rightarrow> channel \<Rightarrow> channel" where
  "scheduled opt env reason c = (if Suc (ch_attempts c) > po_maxAttempts opt
     then c\<lparr>ch_attempts := Suc (ch_attempts c), ch_state := Failed,
       ch_error := Some (reason @ '' -- giving up after '' @ show_int (int (Suc (ch_attempts c))) @ '' attempts''),
       ch_probation := True\<rparr>
     else c\<lparr>ch_attempts := Suc (ch_attempts c), ch_state := Reconnecting, ch_error := Some reason,
       ch_reconnect := Some (Backoff (backoff_delay (exponential opt (Suc (ch_attempts c))) (pe_random env (ch_key c))))\<rparr>)"

definition schedule_net :: "pool_options \<Rightarrow> pool_env \<Rightarrow> string \<Rightarrow> channel \<Rightarrow> net \<Rightarrow> net" where
  "schedule_net opt env reason c n = snd (scheduleReconnect opt env reason (c, n))"

lemma schedule_pair: "scheduleReconnect opt env reason (c, n) = (scheduled opt env reason c, schedule_net opt env reason c n)"
  by (simp add: scheduleReconnect_def scheduled_def schedule_net_def setState_pair armProbationRetry_def Let_def)

lemma schedule_net_sockets [simp]: "nt_live (schedule_net opt env r c n) = nt_live n"
    "nt_next (schedule_net opt env r c n) = nt_next n"
  by (simp_all add: schedule_net_def scheduleReconnect_def setState_pair armProbationRetry_def Let_def)

definition torn :: "channel \<Rightarrow> channel" where
  "torn c = c\<lparr>ch_connect := None, ch_stale := False, ch_stable := False, ch_socket := None\<rparr>"

definition torn_net :: "channel \<Rightarrow> net \<Rightarrow> net" where
  "torn_net c n = snd (teardownSocket (c, n))"

lemma teardown_pair: "teardownSocket (c, n) = (torn c, torn_net c n)"
  by (simp add: teardownSocket_def torn_def torn_net_def)

lemma torn_net_sockets [simp]: "nt_next (torn_net c n) = nt_next n"
    "nt_live (torn_net c n) = (case ch_socket c of None \<Rightarrow> nt_live n | Some s \<Rightarrow> remove1 s (nt_live n))"
  by (simp_all add: torn_net_def teardownSocket_def split: option.splits)

text \<open>What \<open>open_channel\<close> may come to when it acts.\<close>

lemma open_cases:
  assumes "\<not> gone" "ch_consumers c \<noteq> []" "open_channel opt env gone (c, n) = (c', n')"
  obtains
    (token) "c' = c\<lparr>ch_reconnect := None, ch_closing := False, ch_state := AuthExpired, ch_error := Some ''no access token''\<rparr>"
      "nt_live n' = nt_live n" "nt_next n' = nt_next n"
  | (refused) m st where "c' = scheduled opt env m (c\<lparr>ch_reconnect := None, ch_closing := False, ch_state := st\<rparr>)"
      "nt_live n' = nt_live n" "nt_next n' = nt_next n"
  | (opened) st where "c' = c\<lparr>ch_reconnect := None, ch_closing := False, ch_state := st, ch_socket := Some (nt_next n),
        ch_connect := Some (nt_next n)\<rparr>" "st = Connecting \<or> st = Reconnecting"
      "nt_live n' = nt_live n @ [nt_next n]" "nt_next n' = nt_next n + 1"
proof -
  let ?st = "if ch_attempts c = 0 then Connecting else Reconnecting"
  have keep: "c\<lparr>ch_reconnect := None, ch_closing := False, ch_state := st, ch_error := ch_error c\<rparr> =
      c\<lparr>ch_reconnect := None, ch_closing := False, ch_state := st\<rparr>" for st
    by (cases c) simp
  show thesis
  proof (cases "buildSubscriptionProtocols (or_else (pe_token env) '''')")
    case (Inl m)
    then show thesis using assms by (intro token) (auto simp: open_channel_def setState_pair Let_def)
  next
    case (Inr ps)
    show thesis
    proof (cases "pe_throws env (ch_key c)")
      case None
      then show thesis using assms Inr
        by (intro opened [of ?st]) (auto simp: open_channel_def setState_pair keep Let_def)
    next
      case (Some m)
      then show thesis using assms Inr
        by (intro refused [of "or_else m ''socket error''" ?st])
          (auto simp: open_channel_def setState_pair schedule_pair keep Let_def)
    qed
  qed
qed

section \<open>Sockets\<close>

definition own :: "channel \<Rightarrow> nat multiset" where
  "own c = (case ch_socket c of None \<Rightarrow> {#} | Some s \<Rightarrow> {#s#})"

definition net_ok :: "net \<Rightarrow> bool" where
  "net_ok n = (distinct (nt_live n) \<and> (\<forall>s\<in>set (nt_live n). s < nt_next n))"

definition fits :: "channel \<times> net \<Rightarrow> bool" where
  "fits cn = (net_ok (snd cn) \<and> own (fst cn) \<subseteq># mset (nt_live (snd cn)))"

definition moves :: "channel \<times> net \<Rightarrow> channel \<times> net \<Rightarrow> bool" where
  "moves cn cn' = (net_ok (snd cn') \<and>
     mset (nt_live (snd cn')) + own (fst cn) = mset (nt_live (snd cn)) + own (fst cn'))"

lemma moves_same: "fits (c, n) \<Longrightarrow> nt_live n' = nt_live n \<Longrightarrow> nt_next n' = nt_next n \<Longrightarrow> ch_socket c' = ch_socket c
    \<Longrightarrow> moves (c, n) (c', n')"
  by (simp add: moves_def fits_def own_def net_ok_def)

lemma moves_close:
  assumes "fits (c, n)" "ch_socket c' = None" "nt_next n' = nt_next n"
    "nt_live n' = (case ch_socket c of None \<Rightarrow> nt_live n | Some s \<Rightarrow> remove1 s (nt_live n))"
  shows "moves (c, n) (c', n')"
proof (cases "ch_socket c")
  case None
  then show ?thesis using assms by (simp add: moves_def fits_def own_def net_ok_def)
next
  case (Some s)
  then have "s \<in># mset (nt_live n)" "net_ok n" using assms(1) by (simp_all add: fits_def own_def)
  moreover have "s' < nt_next n" if "s' \<in> set (remove1 s (nt_live n))" for s'
    using that calculation(2) set_remove1_subset [of s "nt_live n"] by (auto simp: net_ok_def)
  ultimately show ?thesis using assms(2-4) Some by (simp add: moves_def own_def net_ok_def)
qed

lemma moves_open: "fits (c, n) \<Longrightarrow> ch_socket c = None \<Longrightarrow> ch_socket c' = Some (nt_next n) \<Longrightarrow>
    nt_live n' = nt_live n @ [nt_next n] \<Longrightarrow> nt_next n' = nt_next n + 1 \<Longrightarrow> moves (c, n) (c', n')"
  by (auto simp: moves_def fits_def own_def net_ok_def)

lemma moves_fits: "fits cn \<Longrightarrow> moves cn cn' \<Longrightarrow> fits cn'"
proof -
  assume f: "fits cn" and m: "moves cn cn'"
  obtain R where "mset (nt_live (snd cn)) = own (fst cn) + R"
    using f by (auto simp: fits_def mset_subset_eq_exists_conv)
  then have "mset (nt_live (snd cn')) = R + own (fst cn')" using m by (simp add: moves_def)
  then show "fits cn'" using m by (simp add: fits_def moves_def)
qed

lemma exchange:
  assumes "B + a = A + b" "C + b = B + c"
  shows "C + a = A + (c :: 'a multiset)"
proof -
  have "(C + a) + b = (C + b) + a" by (simp add: ac_simps)
  also have "\<dots> = (B + a) + c" unfolding assms(2) by (simp add: ac_simps)
  also have "\<dots> = (A + c) + b" unfolding assms(1) by (simp add: ac_simps)
  finally show ?thesis by simp
qed

lemma moves_trans: "moves a b \<Longrightarrow> moves b c \<Longrightarrow> moves a c"
  unfolding moves_def by (blast intro: exchange)

lemma open_moves:
  assumes "fits (c, n)" "ch_socket c = None"
  shows "moves (c, n) (open_channel opt env gone (c, n))"
proof (cases "gone \<or> ch_consumers c = []")
  case True
  then show ?thesis using assms by (auto simp: open_channel_def intro: moves_same)
next
  case False
  obtain c' n' where o: "open_channel opt env gone (c, n) = (c', n')" by fastforce
  have g: "\<not> gone" "ch_consumers c \<noteq> []" using False by simp_all
  have "moves (c, n) (c', n')"
  proof (rule open_cases [OF g o])
    fix st
    assume "c' = c\<lparr>ch_reconnect := None, ch_closing := False, ch_state := st, ch_socket := Some (nt_next n),
        ch_connect := Some (nt_next n)\<rparr>" "nt_live n' = nt_live n @ [nt_next n]" "nt_next n' = nt_next n + 1"
    then show ?thesis by (intro moves_open [OF assms]) simp_all
  qed (rule moves_same [OF assms(1)]; simp add: scheduled_def)+
  then show ?thesis by (simp add: o)
qed


lemma open_moves_from: "fits (c, n) \<Longrightarrow> ch_socket c = None \<Longrightarrow> ch_socket c' = None \<Longrightarrow>
    moves (c, n) (open_channel opt env gone (c', n))"
  using open_moves [of c' n opt env gone] by (simp add: fits_def moves_def own_def)

section \<open>Channels\<close>

definition retry_due :: "channel \<Rightarrow> bool" where
  "retry_due c = (ch_reconnect c \<noteq> None \<or> ch_state c = Failed \<and> ch_probation c)"

text \<open>Why a subscribed channel may stay without a socket and without a retry: no credential, no network, or
  a subscription the gateway does not know.\<close>

definition parked :: "channel \<Rightarrow> bool" where
  "parked c = (ch_state c = AuthExpired \<or>
     ch_state c = Disconnected \<and> ch_error c = Some ''browser is offline'' \<or>
     ch_state c = Failed \<and> ch_error c = Some ''gateway rejected the subscription parameters'')"

definition watched :: "channel \<Rightarrow> bool" where
  "watched c = (ch_connect c = ch_socket c \<or> ch_state c = Connected \<and> ch_stale c)"

definition chan_ok :: "nat \<Rightarrow> channel \<Rightarrow> bool" where
  "chan_ok sweep c = (
     (ch_reconnect c \<noteq> None \<or> ch_state c = Failed \<longrightarrow> ch_socket c = None) \<and>
     (\<forall>g d. ch_reconnect c = Some (Sweep g d) \<longrightarrow> g = sweep) \<and>
     (ch_socket c \<noteq> None \<longrightarrow> watched c) \<and>
     (ch_connect c \<noteq> None \<longrightarrow> ch_connect c = ch_socket c) \<and>
     (ch_stale c \<or> ch_stable c \<longrightarrow> ch_socket c \<noteq> None) \<and>
     (ch_consumers c \<noteq> [] \<and> ch_socket c = None \<longrightarrow> retry_due c \<or> parked c) \<and>
     (ch_consumers c = [] \<longrightarrow> ch_linger c) \<and>
     \<not> ch_closing c)"

lemmas chan_defs = chan_ok_def retry_due_def parked_def watched_def

lemma without_socket: "chan_ok sweep c \<Longrightarrow> ch_socket c = None \<Longrightarrow> ch_connect c = None \<and> \<not> ch_stale c \<and> \<not> ch_stable c"
  by (auto simp: chan_ok_def)

lemma unstale_ok:
  assumes "chan_ok sweep c" "ch_state c \<noteq> Connected"
  shows "chan_ok sweep (c\<lparr>ch_stale := False\<rparr>)"
proof -
  have "watched c = watched (c\<lparr>ch_stale := False\<rparr>)" using assms(2) by (simp add: watched_def)
  moreover have "retry_due (c\<lparr>ch_stale := False\<rparr>) = retry_due c" "parked (c\<lparr>ch_stale := False\<rparr>) = parked c"
    by (simp_all add: retry_due_def parked_def)
  ultimately show ?thesis using assms(1) by (cases "ch_socket c") (simp_all add: chan_ok_def)
qed

lemma fewer_consumers_ok:
  assumes "chan_ok sweep c" "ch_consumers c \<noteq> [] \<or> cs = []" "cs = [] \<longrightarrow> l"
  shows "chan_ok sweep (c\<lparr>ch_consumers := cs, ch_linger := l\<rparr>)"
proof -
  let ?c = "c\<lparr>ch_consumers := cs, ch_linger := l\<rparr>"
  have "watched ?c = watched c" "retry_due ?c = retry_due c" "parked ?c = parked c"
    by (simp_all add: watched_def retry_due_def parked_def)
  then show ?thesis using assms by (cases "cs = []") (simp_all add: chan_ok_def)
qed

lemma scheduled_ok:
  assumes "ch_socket c = None" "ch_connect c = None" "\<not> ch_stale c" "\<not> ch_stable c" "ch_consumers c = [] \<longrightarrow> ch_linger c"
    "\<not> ch_closing c" "\<forall>g d. ch_reconnect c = Some (Sweep g d) \<longrightarrow> g = sweep"
  shows "chan_ok sweep (scheduled opt env r c)"
  using assms by (simp add: chan_defs scheduled_def)

text \<open>A channel with consumers that is opened either holds a socket, or has a retry due, or is parked.\<close>

lemma open_ok:
  assumes "ch_consumers c \<noteq> []" "ch_socket c = None" "ch_connect c = None" "\<not> ch_stale c" "\<not> ch_stable c"
  shows "chan_ok sweep (fst (open_channel opt env False (c, n)))"
proof -
  obtain c' n' where o: "open_channel opt env False (c, n) = (c', n')" by fastforce
  have g: "\<not> False" by simp
  have "chan_ok sweep c'"
  proof (rule open_cases [OF g assms(1) o])
    fix m st
    assume c': "c' = scheduled opt env m (c\<lparr>ch_reconnect := None, ch_closing := False, ch_state := st\<rparr>)"
    show ?thesis unfolding c' by (rule scheduled_ok) (simp_all add: assms)
  next
    assume c': "c' = c\<lparr>ch_reconnect := None, ch_closing := False, ch_state := AuthExpired, ch_error := Some ''no access token''\<rparr>"
    show ?thesis unfolding c' by (simp add: chan_defs assms)
  next
    fix st
    assume c': "c' = c\<lparr>ch_reconnect := None, ch_closing := False, ch_state := st, ch_socket := Some (nt_next n),
        ch_connect := Some (nt_next n)\<rparr>" "st = Connecting \<or> st = Reconnecting"
    show ?thesis unfolding c'(1) using c'(2) by (auto simp: chan_defs assms)
  qed
  then show ?thesis by (simp add: o)
qed

lemma open_frame: "ch_key (fst (open_channel opt env gone (c, n))) = ch_key c"
    "ch_consumers (fst (open_channel opt env gone (c, n))) = ch_consumers c"
proof -
  obtain c' n' where o: "open_channel opt env gone (c, n) = (c', n')" by fastforce
  have "ch_key c' = ch_key c \<and> ch_consumers c' = ch_consumers c"
  proof (cases "gone \<or> ch_consumers c = []")
    case True
    then show ?thesis using o by (auto simp: open_channel_def)
  next
    case False
    then have g: "\<not> gone" "ch_consumers c \<noteq> []" by simp_all
    show ?thesis by (rule open_cases [OF g o]) (simp_all add: scheduled_def)
  qed
  then show "ch_key (fst (open_channel opt env gone (c, n))) = ch_key c"
    "ch_consumers (fst (open_channel opt env gone (c, n))) = ch_consumers c" by (simp_all add: o)
qed


section \<open>The contract of an operation on a channel, and its lifting to the pool\<close>

definition holds :: "(string \<times> channel) list \<Rightarrow> nat multiset" where
  "holds chs = sum_list (map (own \<circ> snd) chs)"

lemma holds_simps [simp]: "holds [] = {#}" "holds ((k, c) # chs) = own c + holds chs"
  by (simp_all add: holds_def)

lemma holds_set: "map_of chs k = Some c \<Longrightarrow> holds (alist_set k c' chs) + own c = holds chs + own c'"
  by (induction k c' chs rule: alist_set.induct) (auto split: if_splits simp: ac_simps)

lemma holds_new: "map_of chs k = None \<Longrightarrow> holds (alist_set k c chs) = holds chs + own c"
  by (induction k c chs rule: alist_set.induct) (auto split: if_splits simp: ac_simps)

lemma holds_del: "distinct (map fst chs) \<Longrightarrow> map_of chs k = Some c \<Longrightarrow> holds chs = holds (alist_del k chs) + own c"
proof (induction chs)
  case (Cons p chs)
  have "alist_del k chs = chs" if "k \<notin> fst ` set chs" using that by (auto simp: alist_del_def filter_id_conv)
  with Cons show ?case by (cases p) (auto simp: alist_del_def split: if_splits)
qed simp

lemma own_sub: "map_of chs k = Some c \<Longrightarrow> own c \<subseteq># holds chs"
  by (induction chs) (auto split: if_splits intro: subset_mset.trans [OF _ mset_subset_eq_add_right])

definition chans_ok :: "nat \<Rightarrow> (string \<times> channel) list \<Rightarrow> bool" where
  "chans_ok sweep chs = (\<forall>(k, c)\<in>set chs. ch_key c = k \<and> chan_ok sweep c)"

definition pool_ok :: "pool \<Rightarrow> bool" where
  "pool_ok p = (distinct (map fst (pl_channels p)) \<and> chans_ok (pl_sweep p) (pl_channels p) \<and> net_ok (pl_net p) \<and>
     mset (nt_live (pl_net p)) = holds (pl_channels p) \<and> (pl_disposed p \<longrightarrow> pl_channels p = []))"

lemma chans_ok_set: "chans_ok sweep chs \<Longrightarrow> ch_key c = k \<Longrightarrow> chan_ok sweep c \<Longrightarrow> chans_ok sweep (alist_set k c chs)"
  by (auto simp: chans_ok_def dest!: set_alist_set)

lemma chans_okD: "chans_ok sweep chs \<Longrightarrow> map_of chs k = Some c \<Longrightarrow> ch_key c = k \<and> chan_ok sweep c"
  by (auto simp: chans_ok_def dest!: map_of_SomeD)

lemma pool_fits: "pool_ok p \<Longrightarrow> map_of (pl_channels p) k = Some c \<Longrightarrow> fits (c, pl_net p)"
  by (simp add: pool_ok_def fits_def own_sub)

lemma find_SomeD: "find P xs = Some x \<Longrightarrow> x \<in> set xs \<and> P x"
  by (induction xs) (auto split: if_splits)

lemma owner_Some:
  assumes "owner s p = Some k" "distinct (map fst (pl_channels p))"
  shows "\<exists>c. map_of (pl_channels p) k = Some c \<and> ch_socket c = Some s"
proof -
  obtain c where "find (\<lambda>(k, c). ch_socket c = Some s) (pl_channels p) = Some (k, c)"
    using assms(1) by (auto simp: owner_def)
  then have "(k, c) \<in> set (pl_channels p)" "ch_socket c = Some s" using find_SomeD by fastforce+
  then show ?thesis using assms(2) by (simp add: map_of_is_SomeI)
qed

lemma each_Cons: "each f i ((k, c) # chs) n = (chs', n') \<longleftrightarrow>
    (\<exists>chs1. each f (i + 1) chs (snd (f i (c, n))) = (chs1, n') \<and> chs' = (k, fst (f i (c, n))) # chs1)"
  by (auto simp: Let_def split: prod.splits)

lemma each_keys: "each f i chs n = (chs', n') \<Longrightarrow> map fst chs' = map fst chs"
proof (induction chs arbitrary: i n chs')
  case (Cons p chs)
  then show ?case by (cases p) (auto simp: each_Cons simp del: each.simps)
qed simp

lemma each_from: "each f i chs n = (chs', n') \<Longrightarrow> (k, c') \<in> set chs' \<Longrightarrow>
    \<exists>c j m. (k, c) \<in> set chs \<and> c' = fst (f j (c, m))"
proof (induction chs arbitrary: i n chs')
  case (Cons p chs)
  obtain k0 c0 chs1 where p: "p = (k0, c0)" and e: "each f (i + 1) chs (snd (f i (c0, n))) = (chs1, n')"
      "chs' = (k0, fst (f i (c0, n))) # chs1"
    using Cons.prems(1) by (cases p) (auto simp: each_Cons simp del: each.simps)
  show ?case
  proof (cases "(k, c') \<in> set chs1")
    case True
    then show ?thesis using Cons.IH [OF e(1) True] p by auto
  next
    case False
    then have "k = k0" "c' = fst (f i (c0, n))" using Cons.prems(2) e(2) by auto
    then show ?thesis using p by auto
  qed
qed simp

lemma each_moves:
  assumes "\<And>c n i. good c \<Longrightarrow> fits (c, n) \<Longrightarrow> moves (c, n) (f i (c, n))"
    "\<forall>(k, c)\<in>set chs. good c" "net_ok n" "holds chs \<subseteq># mset (nt_live n)" "each f i chs n = (chs', n')"
  shows "net_ok n' \<and> mset (nt_live n') + holds chs = mset (nt_live n) + holds chs'"
  using assms(2-)
proof (induction chs arbitrary: i n chs' n')
  case (Cons p chs)
  obtain k c where p: "p = (k, c)" by fastforce
  obtain c1 n1 where f1: "f i (c, n) = (c1, n1)" by fastforce
  obtain chs1 where e1: "each f (i + 1) chs n1 = (chs1, n')" "chs' = (k, c1) # chs1"
    using Cons.prems(4) p f1 by (auto simp: Let_def split: prod.splits)
  obtain R where R: "mset (nt_live n) = own c + holds chs + R"
    using Cons.prems(3) p by (auto simp: mset_subset_eq_exists_conv)
  have "fits (c, n)" using Cons.prems(2) R by (simp add: fits_def)
  then have m: "moves (c, n) (c1, n1)" using assms(1) [of c n i] Cons.prems(1) p f1 by simp
  then have l1: "mset (nt_live n1) = holds chs + R + own c1" using R by (simp add: moves_def ac_simps)
  then have "net_ok n' \<and> mset (nt_live n') + holds chs = mset (nt_live n1) + holds chs1"
    using m Cons.prems(1) e1(1) by (intro Cons.IH) (auto simp: moves_def)
  then show ?case using R l1 e1(2) p by (simp add: ac_simps)
qed simp

lemma set_then_del: "distinct (map fst chs) \<Longrightarrow> x \<in> set (alist_set k v chs) \<Longrightarrow> x = (k, v) \<or> x \<in> set (alist_del k chs)"
proof (induction k v chs rule: alist_set.induct)
  case (2 k v k' v' ps)
  then show ?case by (auto simp: alist_del_def split: if_splits)
qed simp

text \<open>A channel replaced by one in order, the others being in order already.\<close>

lemma put_ok:
  assumes k: "map_of (pl_channels p) k = Some c"
    and d: "distinct (map fst (pl_channels p))"
    and others: "chans_ok (pl_sweep p) (alist_del k (pl_channels p))"
    and live: "mset (nt_live (pl_net p)) = holds (pl_channels p)" and "\<not> pl_disposed p"
    and m: "moves (c, pl_net p) (f (c, pl_net p))"
    and ok: "chan_ok (pl_sweep p) (fst (f (c, pl_net p)))" "ch_key (fst (f (c, pl_net p))) = k"
  shows "pool_ok (at_key k f p)"
proof -
  obtain c' n' where fc: "f (c, pl_net p) = (c', n')" by fastforce
  have "mset (nt_live n') + own c = holds (pl_channels p) + own c'" using m live fc by (simp add: moves_def)
  then have "mset (nt_live n') = holds (alist_set k c' (pl_channels p))"
    using holds_set [OF k, of c'] by (metis add_right_cancel)
  moreover have "chans_ok (pl_sweep p) (alist_set k c' (pl_channels p))"
    using others ok fc set_then_del [OF d] by (fastforce simp: chans_ok_def)
  ultimately show ?thesis using assms fc by (simp add: at_key_def pool_ok_def moves_def distinct_alist_set)
qed

locale channel_operation =
  fixes sweep :: nat and pre :: "channel \<Rightarrow> bool" and f :: "channel \<times> net \<Rightarrow> channel \<times> net"
  assumes sockets: "chan_ok sweep c \<Longrightarrow> pre c \<Longrightarrow> fits (c, n) \<Longrightarrow> moves (c, n) (f (c, n))"
    and keeps: "chan_ok sweep c \<Longrightarrow> pre c \<Longrightarrow> chan_ok sweep (fst (f (c, n)))"
    and key: "ch_key (fst (f (c, n))) = ch_key c"
begin

lemma at_key_ok:
  assumes "pool_ok p" "sweep = pl_sweep p" "\<And>c. map_of (pl_channels p) k = Some c \<Longrightarrow> pre c"
  shows "pool_ok (at_key k f p)"
proof (cases "map_of (pl_channels p) k")
  case None
  then show ?thesis using assms(1) by (simp add: at_key_def)
next
  case (Some c)
  have c: "ch_key c = k" "chan_ok sweep c"
    using assms(1,2) Some chans_okD [of "pl_sweep p" "pl_channels p" k c] by (simp_all add: pool_ok_def)
  show ?thesis
  proof (rule put_ok [OF Some])
    show "chans_ok (pl_sweep p) (alist_del k (pl_channels p))"
      using assms(1) by (auto simp: pool_ok_def chans_ok_def alist_del_def)
    show "moves (c, pl_net p) (f (c, pl_net p))" using sockets [OF c(2) assms(3) pool_fits] Some assms(1) by metis
    show "chan_ok (pl_sweep p) (fst (f (c, pl_net p)))" using keeps [OF c(2) assms(3) [OF Some]] assms(2) by simp
    show "ch_key (fst (f (c, pl_net p))) = k" using key c(1) by simp
  qed (use assms(1) Some in \<open>auto simp: pool_ok_def\<close>)
qed

lemma at_socket_ok:
  assumes "pool_ok p" "sweep = pl_sweep p" "\<And>c. ch_socket c = Some s \<Longrightarrow> pre c"
  shows "pool_ok (at_socket s f p)"
proof (cases "owner s p")
  case None
  then show ?thesis using assms(1) by (simp add: at_socket_def)
next
  case (Some k)
  have "pool_ok (at_key k f p)"
    using assms owner_Some [OF Some] by (intro at_key_ok) (auto simp: pool_ok_def)
  then show ?thesis using Some by (simp add: at_socket_def)
qed

end

text \<open>The same for an operation on every channel in turn, which may start a new sweep.\<close>

locale channel_sweep =
  fixes sweep sweep' :: nat and f :: "nat \<Rightarrow> channel \<times> net \<Rightarrow> channel \<times> net"
  assumes sockets: "chan_ok sweep c \<Longrightarrow> fits (c, n) \<Longrightarrow> moves (c, n) (f i (c, n))"
    and keeps: "chan_ok sweep c \<Longrightarrow> chan_ok sweep' (fst (f i (c, n)))"
    and key: "ch_key (fst (f i (c, n))) = ch_key c"
begin

lemma on_all_ok:
  assumes "pool_ok p" "sweep = pl_sweep p"
  shows "pool_ok (on_all f (p\<lparr>pl_sweep := sweep'\<rparr>))"
proof -
  obtain chs n where e: "each f 0 (pl_channels p) (pl_net p) = (chs, n)" by fastforce
  have inv: "\<forall>(k, c)\<in>set (pl_channels p). chan_ok sweep c" "net_ok (pl_net p)"
      "holds (pl_channels p) \<subseteq># mset (nt_live (pl_net p))"
    using assms by (auto simp: pool_ok_def chans_ok_def)
  have m: "net_ok n \<and> mset (nt_live n) + holds (pl_channels p) = mset (nt_live (pl_net p)) + holds chs"
    by (rule each_moves [OF sockets inv e])
  have "ch_key c' = k \<and> chan_ok sweep' c'" if "(k, c') \<in> set chs" for k c'
  proof -
    obtain c j m where c: "(k, c) \<in> set (pl_channels p)" "c' = fst (f j (c, m))" using each_from [OF e \<open>(k, c') \<in> set chs\<close>] by blast
    have "ch_key c = k" "chan_ok sweep c" using c(1) assms by (auto simp: pool_ok_def chans_ok_def)
    then show ?thesis using c(2) keeps key by simp
  qed
  then have "chans_ok sweep' chs" by (auto simp: chans_ok_def)
  then show ?thesis using m assms e each_keys [OF e] by (auto simp: on_all_def pool_ok_def)
qed

end


section \<open>The callbacks meet the contract\<close>

lemma scheduled_frame [simp]: "ch_socket (scheduled opt env r c) = ch_socket c" "ch_key (scheduled opt env r c) = ch_key c"
    "ch_consumers (scheduled opt env r c) = ch_consumers c"
  by (simp_all add: scheduled_def)

lemma torn_frame [simp]: "ch_socket (torn c) = None" "ch_connect (torn c) = None" "\<not> ch_stale (torn c)" "\<not> ch_stable (torn c)"
    "ch_key (torn c) = ch_key c" "ch_consumers (torn c) = ch_consumers c" "ch_state (torn c) = ch_state c"
    "ch_error (torn c) = ch_error c" "ch_reconnect (torn c) = ch_reconnect c" "ch_linger (torn c) = ch_linger c"
    "ch_closing (torn c) = ch_closing c" "ch_probation (torn c) = ch_probation c"
  by (simp_all add: torn_def)

lemmas pairs = setState_pair schedule_pair teardown_pair
lemmas op_simps = pairs Let_def split_beta

text \<open>Replacing the socket of a channel: teardown, then backoff.\<close>

lemma replace_moves: "fits (c, n) \<Longrightarrow> ch_socket c' = ch_socket c \<Longrightarrow> nt_live n1 = nt_live n \<Longrightarrow> nt_next n1 = nt_next n \<Longrightarrow>
    moves (c, n) (scheduled opt env r (torn c'), schedule_net opt env r (torn c') (torn_net c' n1))"
  by (rule moves_close) (simp_all split: option.splits)

lemma replace_ok: "chan_ok sweep c \<Longrightarrow> ch_consumers c' = ch_consumers c \<Longrightarrow> ch_linger c' = ch_linger c \<Longrightarrow>
    ch_closing c' = ch_closing c \<Longrightarrow> ch_reconnect c' = ch_reconnect c \<Longrightarrow> chan_ok sweep (scheduled opt env r (torn c'))"
  by (rule scheduled_ok) (simp_all add: chan_ok_def)

interpretation on_open: channel_operation sweep "\<lambda>c. ch_socket c \<noteq> None" on_open for sweep
  by unfold_locales (auto simp: on_open_def op_simps chan_defs intro!: moves_same)

interpretation on_error: channel_operation sweep "\<lambda>c. ch_socket c \<noteq> None" on_error for sweep
  by unfold_locales (auto simp: on_error_def chan_defs intro!: moves_same)

interpretation fire_stable: channel_operation sweep "\<lambda>c. True" fire_stable for sweep
  by unfold_locales (auto simp: fire_stable_def chan_defs intro!: moves_same)

interpretation fire_connect: channel_operation sweep "\<lambda>c. True" "fire_connect opt env" for sweep opt env
proof unfold_locales
  fix c :: channel and n
  show "ch_key (fst (fire_connect opt env (c, n))) = ch_key c"
    by (simp add: fire_connect_def op_simps split: option.splits)
  assume ok: "chan_ok sweep c"
  show "chan_ok sweep (fst (fire_connect opt env (c, n)))"
  proof (cases "ch_connect c")
    case (Some s)
    then have "ch_socket c = Some s" using ok by (simp add: chan_ok_def)
    then show ?thesis using Some by (simp add: fire_connect_def op_simps replace_ok [OF ok])
  qed (simp add: fire_connect_def ok)
  assume f: "fits (c, n)"
  show "moves (c, n) (fire_connect opt env (c, n))"
  proof (cases "ch_connect c")
    case (Some s)
    then have "ch_socket c = Some s" using ok by (simp add: chan_ok_def)
    then show ?thesis using Some by (simp add: fire_connect_def op_simps replace_moves [OF f])
  qed (simp add: fire_connect_def moves_same [OF f])
qed

interpretation fire_stale: channel_operation sweep "\<lambda>c. True" "fire_stale opt env" for sweep opt env
proof unfold_locales
  fix c :: channel and n
  let ?why = "''no update within the expected interval''"
  let ?c = "c\<lparr>ch_stale := False, ch_state := Stale, ch_error := Some ?why\<rparr>"
  let ?n = "state_net Stale (Some ?why) (c\<lparr>ch_stale := False\<rparr>) n"
  have act: "fire_stale opt env (c, n) =
      (if \<not> ch_stale c then (c, n) else if ch_state c = Connected
       then (scheduled opt env ?why (torn ?c), schedule_net opt env ?why (torn ?c) (torn_net ?c ?n))
       else (c\<lparr>ch_stale := False\<rparr>, n))"
    by (simp add: fire_stale_def op_simps)
  show "ch_key (fst (fire_stale opt env (c, n))) = ch_key c" by (simp add: act)
  assume ok: "chan_ok sweep c"
  have "chan_ok sweep (c\<lparr>ch_stale := False\<rparr>)" if "ch_state c \<noteq> Connected" using ok that by (rule unstale_ok)
  moreover have "chan_ok sweep (scheduled opt env ?why (torn ?c))" by (rule replace_ok [OF ok]) simp_all
  ultimately show "chan_ok sweep (fst (fire_stale opt env (c, n)))" using ok by (simp add: act)
  assume f: "fits (c, n)"
  have "moves (c, n) (scheduled opt env ?why (torn ?c), schedule_net opt env ?why (torn ?c) (torn_net ?c ?n))"
    by (rule replace_moves [OF f]) simp_all
  moreover have "moves (c, n) (c\<lparr>ch_stale := False\<rparr>, n)" "moves (c, n) (c, n)" by (simp_all add: moves_same [OF f])
  ultimately show "moves (c, n) (fire_stale opt env (c, n))" by (simp add: act)
qed

text \<open>A frame that is delivered.\<close>

definition framed :: "int \<Rightarrow> channel \<Rightarrow> channel" where
  "framed now c = c\<lparr>ch_lastFrameAt := Some now, ch_attempts := 0, ch_state := Connected,
     ch_error := (if ch_state c \<noteq> Connected then None else ch_error c), ch_stale := True\<rparr>"

lemma message_cases:
  obtains (bad) r where "on_message opt env data (c, n) =
      (scheduled opt env r (torn c), schedule_net opt env r (torn c) (torn_net c n))"
  | (rejected) n' where "on_message opt env data (c, n) =
      (torn (c\<lparr>ch_state := Failed, ch_error := Some ''gateway rejected the subscription parameters''\<rparr>), n')"
      "nt_next n' = nt_next n" "nt_live n' = (case ch_socket c of None \<Rightarrow> nt_live n | Some s \<Rightarrow> remove1 s (nt_live n))"
  | (frame) n' where "on_message opt env data (c, n) = (framed (pe_now env) c, n')"
      "nt_next n' = nt_next n" "nt_live n' = nt_live n"
proof (cases data)
  case NonText
  then show thesis using bad by (simp add: on_message_def op_simps)
next
  case (Text raw)
  show thesis
  proof (cases "raw = ''Invalid TP value''")
    case True
    then show thesis using Text
      by (intro rejected [of "snd (on_message opt env data (c, n))"]) (simp_all add: on_message_def op_simps split: option.splits)
  next
    case False
    show thesis
    proof (cases "pe_parse env raw")
      case None
      then show thesis using Text False bad by (simp add: on_message_def op_simps)
    next
      case (Some fr)
      then show thesis using Text False
        by (intro frame [of "snd (on_message opt env data (c, n))"])
          (cases c; simp add: on_message_def op_simps framed_def)+
    qed
  qed
qed

interpretation on_message: channel_operation sweep "\<lambda>c. ch_socket c \<noteq> None" "on_message opt env data" for sweep opt env data
proof unfold_locales
  fix c :: channel and n
  show "ch_key (fst (on_message opt env data (c, n))) = ch_key c"
    by (rule message_cases [of opt env data c n]) (simp_all add: framed_def)
  assume ok: "chan_ok sweep c" and s: "ch_socket c \<noteq> None"
  show "chan_ok sweep (fst (on_message opt env data (c, n)))"
  proof (rule message_cases [of opt env data c n])
    fix r assume "on_message opt env data (c, n) = (scheduled opt env r (torn c), schedule_net opt env r (torn c) (torn_net c n))"
    then show ?thesis by (simp add: replace_ok [OF ok])
  qed (use ok s in \<open>simp_all add: chan_defs framed_def\<close>)
  assume f: "fits (c, n)"
  show "moves (c, n) (on_message opt env data (c, n))"
    by (rule message_cases [of opt env data c n])
      (simp_all add: replace_moves [OF f] moves_close [OF f] moves_same [OF f] framed_def)
qed

interpretation on_close: channel_operation sweep "\<lambda>c. ch_socket c = Some s" "on_close opt env False s code" for sweep opt env s code
proof unfold_locales
  fix c :: channel and n
  let ?c = "c\<lparr>ch_socket := None, ch_connect := None, ch_stale := False, ch_stable := False\<rparr>"
  show "ch_key (fst (on_close opt env False s code (c, n))) = ch_key c" by (simp add: on_close_def op_simps)
  assume ok: "chan_ok sweep c" and s: "ch_socket c = Some s"
  have "chan_ok sweep (scheduled opt env r ?c)" for r using ok s by (intro scheduled_ok) (simp_all add: chan_ok_def)
  then show "chan_ok sweep (fst (on_close opt env False s code (c, n)))"
    using ok s by (auto simp: on_close_def op_simps chan_defs)
  assume f: "fits (c, n)"
  show "moves (c, n) (on_close opt env False s code (c, n))"
    using s by (simp add: on_close_def op_simps moves_close [OF f])
qed

text \<open>Opening again, from a timer.\<close>

interpretation fire_reconnect: channel_operation sweep "\<lambda>c. True" "fire_reconnect opt env False sweep" for sweep opt env
proof unfold_locales
  fix c :: channel and n
  let ?c = "c\<lparr>ch_reconnect := None\<rparr>"
  show "ch_key (fst (fire_reconnect opt env False sweep (c, n))) = ch_key c"
    by (auto simp: fire_reconnect_def open_frame split: option.splits reconnect_timer.splits)
  assume ok: "chan_ok sweep c"
  have act: "fire_reconnect opt env False sweep (c, n) =
      (if ch_reconnect c = None then (c, n) else open_channel opt env False (?c, n))"
    using ok by (auto simp: fire_reconnect_def chan_ok_def split: option.splits reconnect_timer.splits)
  have "chan_ok sweep (fst (open_channel opt env False (?c, n)))" if "ch_reconnect c \<noteq> None"
  proof (cases "ch_consumers c = []")
    case True
    then show ?thesis using ok that without_socket [OF ok] by (auto simp: open_channel_def chan_ok_def)
  next
    case False
    moreover have "ch_socket c = None" using ok that by (simp add: chan_ok_def)
    ultimately show ?thesis using without_socket [OF ok] by (intro open_ok) simp_all
  qed
  then show "chan_ok sweep (fst (fire_reconnect opt env False sweep (c, n)))" using ok by (simp add: act)
  assume f: "fits (c, n)"
  have "moves (c, n) (open_channel opt env False (?c, n))" if "ch_reconnect c \<noteq> None"
    using ok that by (intro open_moves_from [OF f]) (simp_all add: chan_ok_def)
  then show "moves (c, n) (fire_reconnect opt env False sweep (c, n))" by (simp add: act moves_same [OF f])
qed

interpretation fire_probation: channel_operation sweep "\<lambda>c. True" "fire_probation opt env False" for sweep opt env
proof unfold_locales
  fix c :: channel and n
  let ?c = "c\<lparr>ch_probation := False, ch_attempts := 0\<rparr>"
  have act: "fire_probation opt env False (c, n) = (if \<not> ch_probation c then (c, n)
      else if ch_consumers c = [] \<or> ch_state c \<noteq> Failed then (c\<lparr>ch_probation := False\<rparr>, n)
      else open_channel opt env False (?c, n))"
    by (simp add: fire_probation_def Let_def)
  show "ch_key (fst (fire_probation opt env False (c, n))) = ch_key c" by (simp add: act open_frame)
  assume ok: "chan_ok sweep c"
  have "chan_ok sweep (fst (open_channel opt env False (?c, n)))" if "ch_consumers c \<noteq> []" "ch_state c = Failed"
  proof -
    have "ch_socket c = None" using ok that by (simp add: chan_ok_def)
    then show ?thesis using without_socket [OF ok] that by (intro open_ok) simp_all
  qed
  moreover have "chan_ok sweep (c\<lparr>ch_probation := False\<rparr>)" if "ch_consumers c = [] \<or> ch_state c \<noteq> Failed"
    using ok that by (auto simp: chan_defs)
  ultimately show "chan_ok sweep (fst (fire_probation opt env False (c, n)))" using ok by (simp add: act)
  assume f: "fits (c, n)"
  have "moves (c, n) (open_channel opt env False (?c, n))" if "ch_state c = Failed"
    using ok that by (intro open_moves_from [OF f]) (simp_all add: chan_ok_def)
  then show "moves (c, n) (fire_probation opt env False (c, n))" by (simp add: act moves_same [OF f])
qed

text \<open>A consumer that leaves.\<close>

lemma leave_pair: "leave_channel i (c, n) = (c\<lparr>ch_consumers := alist_del i (ch_consumers c),
    ch_linger := (if alist_del i (ch_consumers c) = [] then True else ch_linger c)\<rparr>, n)"
  by (cases c) (simp add: leave_channel_def lingerThenClose_def Let_def)

interpretation leave_channel: channel_operation sweep "\<lambda>c. True" "leave_channel i" for sweep i
proof unfold_locales
  fix c :: channel and n
  show "ch_key (fst (leave_channel i (c, n))) = ch_key c" by (simp add: leave_pair)
  show "fits (c, n) \<Longrightarrow> moves (c, n) (leave_channel i (c, n))" by (simp add: leave_pair moves_same)
  assume ok: "chan_ok sweep c"
  have "ch_consumers c \<noteq> [] \<or> alist_del i (ch_consumers c) = []" by (auto simp: alist_del_def)
  then show "chan_ok sweep (fst (leave_channel i (c, n)))"
    unfolding leave_pair fst_conv by (rule fewer_consumers_ok [OF ok]) simp
qed

section \<open>The sweeps over all channels\<close>

interpretation reconnectAll: channel_sweep sweep "Suc sweep" "sweep_channel reason (Suc sweep)" for sweep reason
proof unfold_locales
  fix c :: channel and n i
  define c1 where "c1 = (if ch_state c \<noteq> Connecting \<and> ch_state c \<noteq> Reconnecting
      then c\<lparr>ch_error := Some reason, ch_attempts := 0\<rparr> else c\<lparr>ch_error := Some reason\<rparr>)"
  have act: "sweep_channel reason (Suc sweep) i (c, n) =
      ((torn c1)\<lparr>ch_reconnect := Some (Sweep (Suc sweep) (int i * SWEEP_STAGGER_MS))\<rparr>, torn_net c1 n)"
    by (simp add: sweep_channel_def op_simps c1_def)
  have same: "ch_key c1 = ch_key c" "ch_socket c1 = ch_socket c" "ch_consumers c1 = ch_consumers c"
      "ch_linger c1 = ch_linger c" "ch_closing c1 = ch_closing c"
    by (simp_all add: c1_def)
  show "ch_key (fst (sweep_channel reason (Suc sweep) i (c, n))) = ch_key c" by (simp add: act same)
  assume "chan_ok sweep c"
  then show "chan_ok (Suc sweep) (fst (sweep_channel reason (Suc sweep) i (c, n)))"
    by (simp add: act chan_defs same)
  assume f: "fits (c, n)"
  show "moves (c, n) (sweep_channel reason (Suc sweep) i (c, n))"
    unfolding act by (rule moves_close [OF f]) (simp_all add: same split: option.splits)
qed

interpretation offline: channel_sweep sweep sweep "\<lambda>_. offline_channel" for sweep
proof unfold_locales
  fix c :: channel and n
  show "ch_key (fst (offline_channel (c, n))) = ch_key c" by (simp add: offline_channel_def op_simps)
  assume "chan_ok sweep c"
  then show "chan_ok sweep (fst (offline_channel (c, n)))" by (simp add: offline_channel_def op_simps chan_defs)
  assume f: "fits (c, n)"
  show "moves (c, n) (offline_channel (c, n))"
    unfolding offline_channel_def op_simps by (rule moves_close [OF f]) (simp_all split: option.splits)
qed

interpretation online: channel_sweep sweep sweep "\<lambda>_. online_channel opt env False" for sweep opt env
proof unfold_locales
  fix c :: channel and n
  let ?c = "c\<lparr>ch_attempts := 0, ch_reconnect := None, ch_probation := False\<rparr>"
  have act: "online_channel opt env False (c, n) = open_channel opt env False (torn ?c, torn_net ?c n)"
    by (simp add: online_channel_def op_simps)
  show "ch_key (fst (online_channel opt env False (c, n))) = ch_key c" by (simp add: act open_frame)
  assume ok: "chan_ok sweep c"
  show "chan_ok sweep (fst (online_channel opt env False (c, n)))"
  proof (cases "ch_consumers c = []")
    case True
    then show ?thesis using ok by (simp add: act open_channel_def chan_ok_def)
  next
    case False
    then show ?thesis unfolding act by (intro open_ok) simp_all
  qed
  assume f: "fits (c, n)"
  have close: "moves (c, n) (torn ?c, torn_net ?c n)" by (rule moves_close [OF f]) (simp_all split: option.splits)
  show "moves (c, n) (online_channel opt env False (c, n))"
    unfolding act by (rule moves_trans [OF close open_moves [OF moves_fits [OF f close]]]) simp
qed


section \<open>Joining, closing and disposing\<close>

lemma join_ok:
  assumes "chan_ok sweep c \<or> c = new_channel key q"
  shows "chan_ok sweep (fst (join_channel opt env i l (c, n)))"
proof -
  define c1 where "c1 = c\<lparr>ch_linger := False, ch_consumers := ch_consumers c @ [(i, l)]\<rparr>"
  define n1 where "n1 = (if l then emit [Notified i (statusOf c1)] n else n)"
  have act: "join_channel opt env i l (c, n) =
      (if ch_socket c = None \<and> ch_reconnect c = None then open_channel opt env False (c1, n1) else (c1, n1))"
    by (simp add: join_channel_def c1_def n1_def Let_def)
  show ?thesis
  proof (cases "ch_socket c = None \<and> ch_reconnect c = None")
    case True
    have "ch_connect c = None \<and> \<not> ch_stale c \<and> \<not> ch_stable c"
      using assms True without_socket by (auto simp: new_channel_def)
    then have "chan_ok sweep (fst (open_channel opt env False (c1, n1)))"
      using True by (intro open_ok) (simp_all add: c1_def)
    then show ?thesis using True by (simp add: act)
  next
    case False
    then have ok: "chan_ok sweep c" using assms by (auto simp: new_channel_def)
    have "watched c1 = watched c" "retry_due c1 = retry_due c" by (simp_all add: c1_def watched_def retry_due_def)
    then have "chan_ok sweep c1" using ok False by (cases "ch_socket c") (simp_all add: chan_ok_def c1_def retry_due_def)
    then show ?thesis using False by (auto simp: act)
  qed
qed

lemma join_moves: "fits (c, n) \<Longrightarrow> moves (c, n) (join_channel opt env i l (c, n))"
proof -
  assume f: "fits (c, n)"
  let ?c = "c\<lparr>ch_linger := False, ch_consumers := ch_consumers c @ [(i, l)]\<rparr>"
  let ?n = "if l then emit [Notified i (statusOf ?c)] n else n"
  have f1: "fits (c, ?n)" and m: "moves (c, n) (c, ?n)" using f by (simp_all add: fits_def moves_def net_ok_def)
  have "moves (c, ?n) (open_channel opt env False (?c, ?n))" if "ch_socket c = None"
    using that by (intro open_moves_from [OF f1]) simp_all
  then show ?thesis using moves_trans [OF m] moves_same [OF f, of ?n ?c] by (simp add: join_channel_def Let_def)
qed

lemma join_key: "ch_key (fst (join_channel opt env i l (c, n))) = ch_key c"
  by (simp add: join_channel_def Let_def open_frame)

lemma subscribe_ok:
  assumes "pool_ok p"
  shows "pool_ok (snd (subscribe opt env params l p))"
proof (cases "pl_disposed p \<or> (\<exists>m. buildSubscriptionQuery params = Inl m)")
  case True
  then show ?thesis using assms by (auto simp: subscribe_def)
next
  case False
  then obtain q where q: "buildSubscriptionQuery params = Inr q" and nd: "\<not> pl_disposed p"
    by (cases "buildSubscriptionQuery params") auto
  define key where "key = subscriptionKey q"
  define c where "c = or_else (map_of (pl_channels p) key) (new_channel key q)"
  define chs where "chs = (case map_of (pl_channels p) key of
      None \<Rightarrow> alist_set key (new_channel key q) (pl_channels p) | Some _ \<Rightarrow> pl_channels p)"
  define p1 where "p1 = p\<lparr>pl_channels := chs, pl_nextConsumer := pl_nextConsumer p + 1,
      pl_handles := pl_handles p @ [(pl_nextConsumer p, key)]\<rparr>"
  have act: "snd (subscribe opt env params l p) = at_key key (join_channel opt env (pl_nextConsumer p) l) p1"
    using q nd by (simp add: subscribe_def Let_def p1_def chs_def flip: key_def)
  have k: "map_of chs key = Some c" by (simp add: chs_def c_def split: option.splits)
  have ok: "ch_key c = key \<and> (chan_ok (pl_sweep p) c \<or> c = new_channel key q)"
  proof (cases "map_of (pl_channels p) key")
    case None
    then have "c = new_channel key q" by (simp add: c_def)
    then show ?thesis by (simp add: new_channel_def)
  next
    case (Some c0)
    then show ?thesis using assms chans_okD [of "pl_sweep p" "pl_channels p" key c0] by (simp add: c_def pool_ok_def)
  qed
  have d: "distinct (map fst chs)" using assms by (auto simp: chs_def pool_ok_def split: option.splits)
  have others: "chans_ok (pl_sweep p) (alist_del key chs)"
    using assms by (auto simp: chs_def pool_ok_def chans_ok_def alist_del_def split: option.splits dest!: set_alist_set)
  have live: "mset (nt_live (pl_net p)) = holds chs"
    using assms by (auto simp: chs_def pool_ok_def own_def new_channel_def holds_new split: option.splits)
  have f: "fits (c, pl_net p)" using live own_sub [OF k] assms by (simp add: fits_def pool_ok_def)
  show ?thesis unfolding act
    by (rule put_ok [of _ _ c])
      (simp_all add: p1_def k d others live nd join_moves [OF f] join_ok [OF ok [THEN conjunct2]] join_key ok)
qed


lemma clear_moves: "fits (c, n) \<Longrightarrow> moves (c, n) (clear_all (c, n))"
  unfolding clear_all_def by (simp add: teardown_pair) (rule moves_close, simp_all split: option.splits)

lemma clear_socket: "ch_socket (fst (clear_all (c, n))) = None"
  by (simp add: clear_all_def teardown_pair)

lemma del_set [simp]: "alist_del k (alist_set k v ps) = alist_del k ps"
  by (induction k v ps rule: alist_set.induct) (auto simp: alist_del_def)

lemma close_ok:
  assumes "pool_ok p"
  shows "pool_ok (closeChannel k p)"
proof (cases "map_of (pl_channels p) k")
  case None
  then have "k \<notin> fst ` set (pl_channels p)" by (simp add: map_of_eq_None_iff)
  then have "alist_del k (pl_channels p) = pl_channels p" by (auto simp: alist_del_def filter_id_conv)
  then show ?thesis using None assms by (simp add: closeChannel_def at_key_def)
next
  case (Some c)
  obtain c' n' where cl: "clear_all (c, pl_net p) = (c', n')" by fastforce
  have m: "moves (c, pl_net p) (c', n')" using clear_moves pool_fits [OF assms Some] cl by metis
  have "own c' = {#}" using clear_socket [of c "pl_net p"] cl by (simp add: own_def)
  then have "mset (nt_live n') + own c = holds (pl_channels p)" using m assms by (simp add: moves_def pool_ok_def)
  also have "\<dots> = holds (alist_del k (pl_channels p)) + own c" using assms Some by (intro holds_del) (simp_all add: pool_ok_def)
  finally have "mset (nt_live n') = holds (alist_del k (pl_channels p))" by simp
  moreover have "chans_ok (pl_sweep p) (alist_del k (pl_channels p))" "distinct (map fst (alist_del k (pl_channels p)))"
    using assms by (auto simp: pool_ok_def chans_ok_def alist_del_def distinct_map_filter)
  moreover have "pl_channels p \<noteq> []" using Some by auto
  ultimately show ?thesis using assms Some m cl by (simp add: closeChannel_def at_key_def pool_ok_def moves_def)
qed

lemma linger_ok:
  assumes "pool_ok p"
  shows "pool_ok (fire_linger k p)"
proof (cases "map_of (pl_channels p) k")
  case (Some c)
  let ?off = "\<lambda>(c, n). (c\<lparr>ch_linger := False\<rparr>, n) :: channel \<times> net"
  have ok: "ch_key c = k" "chan_ok (pl_sweep p) c"
    using assms chans_okD [of "pl_sweep p" "pl_channels p" k c] Some by (simp_all add: pool_ok_def)
  show ?thesis
  proof (cases "ch_consumers c = []")
    case True
    have "closeChannel k (at_key k ?off p) = closeChannel k p"
      using Some by (simp add: closeChannel_def at_key_def clear_all_def Let_def split_beta)
    then show ?thesis using Some True assms close_ok [OF assms] by (simp add: fire_linger_def Let_def)
  next
    case False
    have "pool_ok (at_key k ?off p)"
    proof (rule put_ok [OF Some])
      have "chan_ok (pl_sweep p) (c\<lparr>ch_consumers := ch_consumers c, ch_linger := False\<rparr>)"
        using False ok(2) by (intro fewer_consumers_ok) simp_all
      then show "chan_ok (pl_sweep p) (fst (?off (c, pl_net p)))" by (cases c) simp
      show "moves (c, pl_net p) (?off (c, pl_net p))"
        using moves_same [OF pool_fits [OF assms Some]] by simp
    qed (use assms Some ok(1) in \<open>auto simp: pool_ok_def chans_ok_def alist_del_def\<close>)
    then show ?thesis using Some False assms by (simp add: fire_linger_def Let_def)
  qed
qed (simp add: fire_linger_def assms)

lemma dispose_ok:
  assumes "pool_ok p"
  shows "pool_ok (dispose p)" "nt_live (pl_net (dispose p)) = []"
proof -
  obtain chs n where e: "each (\<lambda>_. clear_all) 0 (pl_channels p) (pl_net p) = (chs, n)" by fastforce
  have pre: "\<forall>(k, c)\<in>set (pl_channels p). True" "net_ok (pl_net p)" "holds (pl_channels p) \<subseteq># mset (nt_live (pl_net p))"
    using assms by (simp_all add: pool_ok_def)
  have m: "net_ok n \<and> mset (nt_live n) + holds (pl_channels p) = mset (nt_live (pl_net p)) + holds chs"
    by (rule each_moves [OF clear_moves pre e])
  have "\<forall>x\<in>set chs. own (snd x) = {#}"
    using each_from [OF e] clear_socket by (fastforce simp: own_def)
  then have "holds chs = {#}" by (induction chs) (simp_all add: holds_def)
  then have "nt_live n = []" using m assms by (simp add: pool_ok_def)
  then show "pool_ok (dispose p)" "nt_live (pl_net (dispose p)) = []"
    using m e by (simp_all add: dispose_def on_all_def Let_def pool_ok_def chans_ok_def)
qed

section \<open>Every event keeps the pool in order\<close>

lemma no_channels: "pool_ok p \<Longrightarrow> pl_disposed p \<Longrightarrow> at_key k f p = p \<and> at_socket s f p = p"
  by (simp add: pool_ok_def at_key_def at_socket_def owner_def)

lemma step_ok: "pool_ok p \<Longrightarrow> pool_ok (step opt env e p)"
proof (cases e)
  case (Unsubscribe i)
  assume ok: "pool_ok p"
  then have "pool_ok (p\<lparr>pl_handles := hs\<rparr>)" for hs by (simp add: pool_ok_def)
  then show ?thesis using Unsubscribe ok leave_channel.at_key_ok
    by (auto simp: unsubscribe_def split: option.splits)
next
  case (ReconnectAll reason)
  assume ok: "pool_ok p"
  show ?thesis using ReconnectAll reconnectAll.on_all_ok [OF ok refl] by (simp add: reconnectAll_def)
next
  case Online
  assume ok: "pool_ok p"
  have "p\<lparr>pl_sweep := pl_sweep p\<rparr> = p" by simp
  then show ?thesis using Online ok online.on_all_ok [OF ok refl] by (simp add: onlineHandler_def)
next
  case Offline
  assume ok: "pool_ok p"
  have "p\<lparr>pl_sweep := pl_sweep p\<rparr> = p" by simp
  then show ?thesis using Offline ok offline.on_all_ok [OF ok refl] by (simp add: offlineHandler_def)
next
  case (SocketClose s code)
  assume ok: "pool_ok p"
  show ?thesis
  proof (cases "pl_disposed p")
    case True
    then show ?thesis using SocketClose ok no_channels [OF ok True] by simp
  next
    case False
    then show ?thesis using SocketClose on_close.at_socket_ok [OF ok refl] by simp
  qed
next
  case (ReconnectTimer k)
  assume ok: "pool_ok p"
  show ?thesis using ReconnectTimer ok no_channels [OF ok] fire_reconnect.at_key_ok [OF ok refl] by (cases "pl_disposed p") simp_all
next
  case (ProbationTimer k)
  assume ok: "pool_ok p"
  show ?thesis using ProbationTimer ok no_channels [OF ok] fire_probation.at_key_ok [OF ok refl] by (cases "pl_disposed p") simp_all
qed (simp_all add: subscribe_ok linger_ok dispose_ok(1) on_open.at_socket_ok on_message.at_socket_ok on_error.at_socket_ok
    fire_connect.at_key_ok fire_stale.at_key_ok fire_stable.at_key_ok)

lemma reachable_ok: "reachable opt p \<Longrightarrow> pool_ok p"
proof (induction rule: reachable.induct)
  case start
  show ?case by (simp add: new_pool_def pool_ok_def net_ok_def chans_ok_def)
next
  case (event p env e)
  then show ?case by (simp add: step_ok)
qed

end
