(* ===== verification/PoolGuarantees.thy ===== *)
theory PoolGuarantees
  imports PoolInvariants
begin

text \<open>
  What the subscription pool promises its callers, over every reachable state: one live socket for
  each subscription and none besides, no consumer left waiting without a retry or a named reason,
  every frame delivered exactly once to every consumer of its subscription, subscribers counted
  exactly as the abstract roster counts them, and a backoff inside its bounds.
\<close>

section \<open>Sockets and consumers\<close>

text \<open>A pool with one subscriber of a quote, whose socket has opened; used by the examples.\<close>

definition sample_opts :: pool_options where
  "sample_opts = new_options \<lparr>ro_staleAfter = None, ro_stableAfter = None, ro_maxBackoff = None,
     ro_connectTimeout = None, ro_maxAttempts = None\<rparr>"

definition sample_env :: pool_env where
  "sample_env = \<lparr>pe_token = Some ''jwt'', pe_throws = (\<lambda>_. None), pe_random = (\<lambda>_. 1 / 2), pe_now = 1000,
     pe_parse = (\<lambda>s. if s = ''{}'' then Some (JObj []) else None)\<rparr>"

definition sample_pool :: pool where
  "sample_pool = step sample_opts sample_env (SocketOpen 0)
     (step sample_opts sample_env (Subscribe eurusd_quote True) new_pool)"

definition eurusd_key :: string where
  "eurusd_key = ''TP=1&id=1&methodtype=GetQuotes&source=tv&symbol=EURUSD''"

lemma sample_reachable: "reachable sample_opts sample_pool"
  unfolding sample_pool_def by (intro reachable.intros) (simp_all add: sample_env_def)

definition sockets_of :: "pool \<Rightarrow> nat list" where
  "sockets_of p = List.map_filter (ch_socket \<circ> snd) (pl_channels p)"

lemma holds_sockets: "holds chs = mset (List.map_filter (ch_socket \<circ> snd) chs)"
  by (induction chs) (auto simp: List.map_filter_simps own_def split: option.splits)

text \<open>C4. One socket for each subscription: in every reachable state of the pool the sockets the client
  holds are exactly those of its channels, no two channels share one, no two channels have the same
  key, and once disposed the pool holds no channel and no socket. No replaced, timed-out, stale or
  abandoned socket is leaked, whatever the order of the events.\<close>

theorem one_socket_per_subscription:
  assumes "reachable opt p"
  shows "distinct (nt_live (pl_net p)) \<and> mset (nt_live (pl_net p)) = mset (sockets_of p) \<and>
    distinct (sockets_of p) \<and> distinct (map fst (pl_channels p)) \<and>
    (pl_disposed p \<longrightarrow> pl_channels p = [] \<and> nt_live (pl_net p) = [])"
proof -
  have ok: "pool_ok p" using assms by (rule reachable_ok)
  then have live: "mset (nt_live (pl_net p)) = mset (sockets_of p)" by (simp add: pool_ok_def holds_sockets sockets_of_def)
  have d: "distinct (nt_live (pl_net p))" using ok by (simp add: pool_ok_def net_ok_def)
  then have "distinct (sockets_of p)" using live by (metis mset_eq_imp_distinct_iff)
  then show ?thesis using ok live d by (auto simp: pool_ok_def sockets_of_def List.map_filter_simps)
qed

theorem one_socket_per_subscription_witness:
  "nt_live (pl_net sample_pool) = [0] \<and> sockets_of sample_pool = [0] \<and> distinct (sockets_of sample_pool)"
proof -
  have "nt_live (pl_net sample_pool) = [0]" "sockets_of sample_pool = [0]" by code_simp+
  then show ?thesis using one_socket_per_subscription [OF sample_reachable] by blast
qed

text \<open>C5. No consumer is left waiting: in every reachable state a channel with consumers either holds a live
  socket that a watchdog bounds (the handshake timer, or the stale timer of a connected stream), or has
  a reconnect or probation retry pending, or is parked for one of three stated reasons: no
  credential, the browser is offline, or the gateway refused the subscription. A retry is never pending
  beside a socket, a sweep's timer is always the newest sweep's, and a channel without consumers is about
  to close.\<close>

theorem no_consumer_stranded:
  assumes "reachable opt p" "(k, c) \<in> set (pl_channels p)"
  shows "(ch_consumers c \<noteq> [] \<longrightarrow>
      (\<exists>s. ch_socket c = Some s \<and> s \<in> set (nt_live (pl_net p)) \<and> watched c) \<or> retry_due c \<or> parked c) \<and>
    (ch_reconnect c \<noteq> None \<longrightarrow> ch_socket c = None) \<and>
    (\<forall>g d. ch_reconnect c = Some (Sweep g d) \<longrightarrow> g = pl_sweep p) \<and>
    (ch_consumers c = [] \<longrightarrow> ch_linger c)"
proof -
  have ok: "pool_ok p" using assms(1) by (rule reachable_ok)
  then have c: "chan_ok (pl_sweep p) c" using assms(2) by (auto simp: pool_ok_def chans_ok_def)
  have "map_of (pl_channels p) k = Some c" using ok assms(2) by (simp add: pool_ok_def map_of_is_SomeI)
  then have "own c \<subseteq># mset (nt_live (pl_net p))" using ok own_sub by (metis pool_ok_def)
  then have live: "ch_socket c = Some s \<Longrightarrow> s \<in> set (nt_live (pl_net p))" for s by (simp add: own_def)
  show ?thesis using c live by (cases "ch_socket c") (simp_all add: chan_ok_def)
qed

definition sample_channel :: channel where
  "sample_channel = snd (hd (pl_channels sample_pool))"

theorem no_consumer_stranded_witness:
  "ch_consumers sample_channel = [(1, True)] \<and>
   (\<exists>s. ch_socket sample_channel = Some s \<and> s \<in> set (nt_live (pl_net sample_pool)) \<and> watched sample_channel)"
proof -
  have "map fst (pl_channels sample_pool) = [eurusd_key]" by code_simp
  then have c: "(eurusd_key, sample_channel) \<in> set (pl_channels sample_pool)"
    by (cases "pl_channels sample_pool") (auto simp: sample_channel_def)
  have "ch_consumers sample_channel = [(1, True)]" "\<not> retry_due sample_channel" "\<not> parked sample_channel" by code_simp+
  then show ?thesis using no_consumer_stranded [OF sample_reachable c] by simp
qed

section \<open>The roster of subscribers\<close>

definition subscribers :: "pool \<Rightarrow> string \<Rightarrow> nat list" where
  "subscribers p k = (case map_of (pl_channels p) k of None \<Rightarrow> [] | Some c \<Rightarrow> map fst (ch_consumers c))"

text \<open>What the pool promises about its subscribers, without channels, sockets or timers.\<close>

definition roster_step :: "nat \<Rightarrow> bool \<Rightarrow> pool_event \<Rightarrow> (string \<Rightarrow> nat list) \<Rightarrow> string \<Rightarrow> nat list" where
  "roster_step next_id gone e r = (case e of
     Subscribe params _ \<Rightarrow> (case buildSubscriptionQuery params of Inl _ \<Rightarrow> r
       | Inr q \<Rightarrow> if gone then r else r(subscriptionKey q := r (subscriptionKey q) @ [next_id]))
   | Unsubscribe i \<Rightarrow> (\<lambda>k. filter (\<lambda>j. j \<noteq> i) (r k))
   | Dispose \<Rightarrow> (\<lambda>_. [])
   | _ \<Rightarrow> r)"

definition roster_ok :: "pool \<Rightarrow> bool" where
  "roster_ok p = (distinct (map fst (pl_handles p)) \<and> (\<forall>i\<in>fst ` set (pl_handles p). i < pl_nextConsumer p) \<and>
     (\<forall>k. distinct (subscribers p k) \<and> (\<forall>i\<in>set (subscribers p k). map_of (pl_handles p) i = Some k)))"

lemma quiet_at_key: "(\<And>c n. ch_consumers (fst (f (c, n))) = ch_consumers c) \<Longrightarrow> subscribers (at_key k f p) = subscribers p"
  by (auto simp: subscribers_def at_key_def fun_eq_iff Let_def split_beta split: option.splits)

lemma quiet_at_socket: "(\<And>c n. ch_consumers (fst (f (c, n))) = ch_consumers c) \<Longrightarrow> subscribers (at_socket s f p) = subscribers p"
  by (simp add: at_socket_def quiet_at_key split: option.splits)

lemma quiet_each: "(\<And>i c n. ch_consumers (fst (f i (c, n))) = ch_consumers c) \<Longrightarrow> each f i chs n = (chs', n') \<Longrightarrow>
    map_option ch_consumers (map_of chs' k) = map_option ch_consumers (map_of chs k)"
proof (induction chs arbitrary: i n chs')
  case (Cons p chs)
  then show ?case by (cases p) (auto simp: each_Cons simp del: each.simps)
qed simp

lemma quiet_on_all:
  assumes "\<And>i c n. ch_consumers (fst (f i (c, n))) = ch_consumers c"
  shows "subscribers (on_all f p) = subscribers p"
proof
  fix k
  obtain chs n where e: "each f 0 (pl_channels p) (pl_net p) = (chs, n)" by fastforce
  show "subscribers (on_all f p) k = subscribers p k"
    using quiet_each [OF assms e, of k] e
    by (cases "map_of chs k"; cases "map_of (pl_channels p) k") (simp_all add: subscribers_def on_all_def)
qed

lemma quiet_ops [simp]:
  "ch_consumers (fst (on_open (c, n))) = ch_consumers c"
  "ch_consumers (fst (on_error (c, n))) = ch_consumers c"
  "ch_consumers (fst (on_close opt env gone s code (c, n))) = ch_consumers c"
  "ch_consumers (fst (fire_reconnect opt env gone sweep (c, n))) = ch_consumers c"
  "ch_consumers (fst (fire_connect opt env (c, n))) = ch_consumers c"
  "ch_consumers (fst (fire_stale opt env (c, n))) = ch_consumers c"
  "ch_consumers (fst (fire_stable (c, n))) = ch_consumers c"
  "ch_consumers (fst (fire_probation opt env gone (c, n))) = ch_consumers c"
  "ch_consumers (fst (sweep_channel reason sweep i (c, n))) = ch_consumers c"
  "ch_consumers (fst (online_channel opt env gone (c, n))) = ch_consumers c"
  "ch_consumers (fst (offline_channel (c, n))) = ch_consumers c"
  by (auto simp: on_open_def on_error_def on_close_def fire_reconnect_def fire_connect_def fire_stale_def fire_stable_def
      fire_probation_def sweep_channel_def online_channel_def offline_channel_def op_simps open_frame
      split: option.splits reconnect_timer.splits)

lemma quiet_message [simp]: "ch_consumers (fst (on_message opt env data (c, n))) = ch_consumers c"
  by (rule message_cases [of opt env data c n]) (simp_all add: framed_def)

lemma join_consumers: "ch_consumers (fst (join_channel opt env i l (c, n))) = ch_consumers c @ [(i, l)]"
  by (simp add: join_channel_def Let_def open_frame)

lemma subscribers_linger: "pool_ok p \<Longrightarrow> subscribers (fire_linger k p) = subscribers p"
  by (auto simp: fire_linger_def closeChannel_def at_key_def subscribers_def fun_eq_iff Let_def split_beta map_of_alist_del
      split: option.splits)

lemma subscribers_subscribe:
  "\<not> pl_disposed p \<Longrightarrow> buildSubscriptionQuery params = Inr q \<Longrightarrow>
   subscribers (snd (subscribe opt env params l p)) =
     (subscribers p)(subscriptionKey q := subscribers p (subscriptionKey q) @ [pl_nextConsumer p])"
  by (auto simp: subscribe_def Let_def at_key_def subscribers_def fun_eq_iff split_beta join_consumers new_channel_def
      split: option.splits)

lemma map_fst_del: "map fst (alist_del i xs) = filter (\<lambda>j. j \<noteq> i) (map fst xs)"
  by (induction xs) (auto simp: alist_del_def)

lemma subscribers_unsubscribe:
  assumes "roster_ok p"
  shows "subscribers (unsubscribe i p) = (\<lambda>k. filter (\<lambda>j. j \<noteq> i) (subscribers p k))"
proof (rule ext)
  fix k
  have h: "map_of (pl_handles p) i = Some k" if "i \<in> set (subscribers p k)" using assms that by (simp add: roster_ok_def)
  show "subscribers (unsubscribe i p) k = filter (\<lambda>j. j \<noteq> i) (subscribers p k)"
  proof (cases "map_of (pl_handles p) i = Some k")
    case True
    then show ?thesis
      by (auto simp: unsubscribe_def at_key_def subscribers_def leave_pair map_fst_del split: option.splits)
  next
    case False
    then have "i \<notin> set (subscribers p k)" using h by blast
    then have "filter (\<lambda>j. j \<noteq> i) (subscribers p k) = subscribers p k" by (auto simp: filter_id_conv)
    moreover have "subscribers (unsubscribe i p) k = subscribers p k"
      using False by (auto simp: unsubscribe_def at_key_def subscribers_def leave_pair split: option.splits)
    ultimately show ?thesis by simp
  qed
qed

lemma roster_simulated:
  assumes "pool_ok p" "roster_ok p"
  shows "subscribers (step opt env e p) = roster_step (pl_nextConsumer p) (pl_disposed p) e (subscribers p)"
proof (cases e)
  case (Subscribe params l)
  show ?thesis
  proof (cases "buildSubscriptionQuery params")
    case (Inl m)
    then show ?thesis using Subscribe by (simp add: roster_step_def subscribe_def)
  next
    case (Inr q)
    then show ?thesis using Subscribe subscribers_subscribe [OF _ Inr]
      by (cases "pl_disposed p") (simp_all add: roster_step_def subscribe_def)
  qed
next
  case (Unsubscribe i)
  then show ?thesis using assms(2) by (simp add: roster_step_def subscribers_unsubscribe)
next
  case (ReconnectAll reason)
  have "subscribers (p\<lparr>pl_sweep := g\<rparr>) = subscribers p" for g by (simp add: subscribers_def fun_eq_iff)
  then show ?thesis using ReconnectAll by (simp add: roster_step_def reconnectAll_def Let_def quiet_on_all)
next
  case Dispose
  then show ?thesis by (simp add: roster_step_def dispose_def Let_def subscribers_def fun_eq_iff)
qed (simp_all add: roster_step_def onlineHandler_def offlineHandler_def quiet_at_key quiet_at_socket quiet_on_all
    subscribers_linger assms)


lemma handles_at_key [simp]: "pl_handles (at_key k f p) = pl_handles p" "pl_nextConsumer (at_key k f p) = pl_nextConsumer p"
  by (simp_all add: at_key_def Let_def split_beta split: option.splits)

lemma handles_at_socket [simp]: "pl_handles (at_socket s f p) = pl_handles p"
    "pl_nextConsumer (at_socket s f p) = pl_nextConsumer p"
  by (simp_all add: at_socket_def split: option.splits)

lemma handles_on_all [simp]: "pl_handles (on_all f p) = pl_handles p" "pl_nextConsumer (on_all f p) = pl_nextConsumer p"
  by (simp_all add: on_all_def split: prod.splits)

lemma handles_linger [simp]: "pl_handles (fire_linger k p) = pl_handles p" "pl_nextConsumer (fire_linger k p) = pl_nextConsumer p"
  by (simp_all add: fire_linger_def closeChannel_def Let_def split: option.splits)

lemma handles_step: "(case e of Subscribe _ _ \<Rightarrow> False | Unsubscribe _ \<Rightarrow> False | _ \<Rightarrow> True) \<Longrightarrow>
    pl_handles (step opt env e p) = pl_handles p \<and> pl_nextConsumer (step opt env e p) = pl_nextConsumer p"
  by (cases e) (simp_all add: reconnectAll_def dispose_def onlineHandler_def offlineHandler_def Let_def)

lemma roster_kept:
  assumes "pool_ok p" "roster_ok p"
  shows "roster_ok (step opt env e p)"
proof -
  note sim = roster_simulated [OF assms, of opt env e]
  consider (sub) params l where "e = Subscribe params l" | (unsub) i where "e = Unsubscribe i"
    | (quiet) "case e of Subscribe _ _ \<Rightarrow> False | Unsubscribe _ \<Rightarrow> False | _ \<Rightarrow> True" by (cases e) simp_all
  then show ?thesis
  proof cases
    case sub
    show ?thesis
    proof (cases "pl_disposed p \<or> (\<exists>m. buildSubscriptionQuery params = Inl m)")
      case True
      then show ?thesis using sub assms(2) by (auto simp: subscribe_def)
    next
      case False
      then obtain q where q: "buildSubscriptionQuery params = Inr q" "\<not> pl_disposed p"
        by (cases "buildSubscriptionQuery params") auto
      have h: "pl_handles (step opt env e p) = pl_handles p @ [(pl_nextConsumer p, subscriptionKey q)]"
          "pl_nextConsumer (step opt env e p) = pl_nextConsumer p + 1"
        using sub q by (simp_all add: subscribe_def Let_def)
      have s: "subscribers (step opt env e p) = (subscribers p)(subscriptionKey q := subscribers p (subscriptionKey q) @ [pl_nextConsumer p])"
        using sim sub q by (simp add: roster_step_def)
      have old: "map_of (pl_handles p) i = Some k \<Longrightarrow> i < pl_nextConsumer p" for i k
        using assms(2) by (auto simp: roster_ok_def dest!: map_of_SomeD)
      have new: "map_of (pl_handles p) (pl_nextConsumer p) = None" using old by (cases "map_of (pl_handles p) (pl_nextConsumer p)") auto
      have fresh: "pl_nextConsumer p \<notin> fst ` set (pl_handles p)" using new by (simp add: map_of_eq_None_iff)
      have d: "distinct (map fst (pl_handles (step opt env e p)))" using assms(2) fresh unfolding h by (simp add: roster_ok_def)
      have b: "\<forall>i\<in>fst ` set (pl_handles (step opt env e p)). i < pl_nextConsumer (step opt env e p)"
        using assms(2) unfolding h by (auto simp: roster_ok_def less_Suc_eq)
      have r: "distinct (subscribers p k)" "i \<in> set (subscribers p k) \<Longrightarrow> map_of (pl_handles p) i = Some k" for i k
        using assms(2) by (simp_all add: roster_ok_def)
      then have "pl_nextConsumer p \<notin> set (subscribers p k)" for k using new by fastforce
      then have "distinct (subscribers (step opt env e p) k)"
          "i \<in> set (subscribers (step opt env e p) k) \<Longrightarrow> map_of (pl_handles (step opt env e p)) i = Some k" for i k
        using r new unfolding h s by (auto simp: map_add_def split: if_splits option.splits)
      then show ?thesis using d b by (simp add: roster_ok_def)
    qed
  next
    case unsub
    have s: "subscribers (step opt env e p) = (\<lambda>k. filter (\<lambda>j. j \<noteq> i) (subscribers p k))"
      using sim unsub by (simp add: roster_step_def)
    show ?thesis
    proof (cases "map_of (pl_handles p) i")
      case None
      then show ?thesis using unsub assms(2) by (simp add: unsubscribe_def)
    next
      case (Some k)
      then have h: "pl_handles (step opt env e p) = alist_del i (pl_handles p)"
          "pl_nextConsumer (step opt env e p) = pl_nextConsumer p"
        using unsub by (simp_all add: unsubscribe_def)
      show ?thesis using assms(2) unfolding roster_ok_def h s by (auto simp: map_of_alist_del distinct_alist_del)
    qed
  next
    case quiet
    have "set (subscribers (step opt env e p) k) \<subseteq> set (subscribers p k) \<and>
        (distinct (subscribers p k) \<longrightarrow> distinct (subscribers (step opt env e p) k))" for k
      unfolding sim using quiet by (cases e) (simp_all add: roster_step_def)
    then show ?thesis using assms(2) handles_step [OF quiet, of opt env p] unfolding roster_ok_def by (metis subset_iff)
  qed
qed

lemma reachable_roster: "reachable opt p \<Longrightarrow> roster_ok p"
proof (induction rule: reachable.induct)
  case start
  show ?case by (simp add: roster_ok_def new_pool_def subscribers_def)
next
  case (event p env e)
  then show ?case by (simp add: roster_kept reachable_ok)
qed


text \<open>C35. The pool counts its subscribers exactly as the abstract roster does: a subscription adds the new
  consumer to its key (unless the parameters are refused or the pool is disposed), an unsubscription
  removes exactly that consumer and calling it again changes nothing, and no socket event, timer,
  reconnection, network change or linger ever adds, drops, duplicates or moves a subscriber.\<close>

theorem roster_refined:
  assumes "reachable opt p"
  shows "subscribers (step opt env e p) = roster_step (pl_nextConsumer p) (pl_disposed p) e (subscribers p) \<and>
    (\<forall>k. distinct (subscribers p k)) \<and>
    (\<forall>k k'. k \<noteq> k' \<longrightarrow> set (subscribers p k) \<inter> set (subscribers p k') = {})"
proof -
  have r: "roster_ok p" using assms by (rule reachable_roster)
  have own_key: "map_of (pl_handles p) i = Some k" if "i \<in> set (subscribers p k)" for i k
    using r that by (simp add: roster_ok_def)
  have "set (subscribers p k) \<inter> set (subscribers p k') = {}" if "k \<noteq> k'" for k k'
    using own_key that by (metis disjoint_iff option.inject)
  then show ?thesis using r roster_simulated [OF reachable_ok [OF assms] r] by (simp add: roster_ok_def)
qed

theorem roster_refined_witness:
  "subscribers (step sample_opts sample_env (Unsubscribe 1) sample_pool) eurusd_key = [] \<and>
   subscribers sample_pool eurusd_key = [1]"
proof -
  have "subscribers sample_pool eurusd_key = [1]" by code_simp
  then show ?thesis
    using roster_refined [OF sample_reachable, of sample_env "Unsubscribe 1"] by (simp add: roster_step_def)
qed

section \<open>Frames\<close>

definition frame_for :: "nat \<Rightarrow> pool_output \<Rightarrow> (js_value \<times> int) option" where
  "frame_for i out = (case out of Delivered j f t \<Rightarrow> if j = i then Some (f, t) else None | _ \<Rightarrow> None)"

definition frames :: "nat \<Rightarrow> net \<Rightarrow> (js_value \<times> int) list" where
  "frames i n = List.map_filter (frame_for i) (nt_out n)"

definition delivered :: "nat \<Rightarrow> pool \<Rightarrow> (js_value \<times> int) list" where
  "delivered i p = frames i (pl_net p)"

lemma map_filter_append: "List.map_filter f (xs @ ys) = List.map_filter f xs @ List.map_filter f ys"
  by (simp add: List.map_filter_def)

lemma frames_emit [simp]: "frames i (emit os n) = frames i n @ List.map_filter (frame_for i) os"
  by (simp add: frames_def emit_def map_filter_append)

lemma notices_no_frame [simp]: "List.map_filter (frame_for i) (notices c) = []"
  by (auto simp: notices_def List.map_filter_def frame_for_def filter_empty_conv)

lemma frames_sockets [simp]: "frames i (n\<lparr>nt_next := a, nt_live := l\<rparr>) = frames i n"
    "frames i (drop_socket s n) = frames i n"
  by (simp_all add: frames_def drop_socket_def)

lemma frames_state [simp]: "frames i (state_net st e c n) = frames i n"
  by (simp add: state_net_def setState_def Let_def)

lemma frames_torn [simp]: "frames i (torn_net c n) = frames i n"
  by (simp add: torn_net_def teardownSocket_def List.map_filter_simps frame_for_def split: option.splits)

lemma frames_schedule [simp]: "frames i (schedule_net opt env r c n) = frames i n"
  by (simp add: schedule_net_def scheduleReconnect_def setState_pair armProbationRetry_def Let_def)

lemma frames_open [simp]: "frames i (snd (open_channel opt env gone (c, n))) = frames i n"
  by (simp add: open_channel_def op_simps List.map_filter_simps frame_for_def split: sum.splits option.splits)

lemma silent_ops [simp]:
  "frames j (snd (on_open (c, n))) = frames j n"
  "frames j (snd (on_error (c, n))) = frames j n"
  "frames j (snd (on_close opt env gone s code (c, n))) = frames j n"
  "frames j (snd (fire_reconnect opt env gone sweep (c, n))) = frames j n"
  "frames j (snd (fire_connect opt env (c, n))) = frames j n"
  "frames j (snd (fire_stale opt env (c, n))) = frames j n"
  "frames j (snd (fire_stable (c, n))) = frames j n"
  "frames j (snd (fire_probation opt env gone (c, n))) = frames j n"
  "frames j (snd (sweep_channel reason sweep i (c, n))) = frames j n"
  "frames j (snd (online_channel opt env gone (c, n))) = frames j n"
  "frames j (snd (offline_channel (c, n))) = frames j n"
  "frames j (snd (clear_all (c, n))) = frames j n"
  "frames j (snd (leave_channel i (c, n))) = frames j n"
  "frames j (snd (join_channel opt env i l (c, n))) = frames j n"
  by (auto simp: on_open_def on_error_def on_close_def fire_reconnect_def fire_connect_def fire_stale_def fire_stable_def
      fire_probation_def sweep_channel_def online_channel_def offline_channel_def clear_all_def leave_pair join_channel_def
      op_simps List.map_filter_simps frame_for_def
      split: option.splits reconnect_timer.splits)

lemma silent_at_key: "(\<And>c n. frames i (snd (f (c, n))) = frames i n) \<Longrightarrow> delivered i (at_key k f p) = delivered i p"
  by (simp add: delivered_def at_key_def Let_def split_beta split: option.splits)

lemma silent_at_socket: "(\<And>c n. frames i (snd (f (c, n))) = frames i n) \<Longrightarrow> delivered i (at_socket s f p) = delivered i p"
  by (simp add: at_socket_def silent_at_key split: option.splits)

lemma silent_each: "(\<And>j c n. frames i (snd (f j (c, n))) = frames i n) \<Longrightarrow> each f j chs n = (chs', n') \<Longrightarrow> frames i n' = frames i n"
proof (induction chs arbitrary: j n chs')
  case (Cons p chs)
  then show ?case by (cases p) (auto simp: each_Cons simp del: each.simps)
qed simp

lemma silent_on_all:
  assumes "\<And>j c n. frames i (snd (f j (c, n))) = frames i n"
  shows "delivered i (on_all f p) = delivered i p"
proof -
  obtain chs n where e: "each f 0 (pl_channels p) (pl_net p) = (chs, n)" by fastforce
  then have "frames i n = frames i (pl_net p)" by (rule silent_each [OF assms])
  then show ?thesis by (simp add: delivered_def on_all_def e)
qed

lemma frames_of_consumers: "List.map_filter (frame_for i) (map (\<lambda>(j, _). Delivered j f t) cs) =
    replicate (length (filter (\<lambda>j. j = i) (map fst cs))) (f, t)"
  by (induction cs) (auto simp: List.map_filter_simps frame_for_def)

lemma length_filter_distinct: "distinct xs \<Longrightarrow> length (filter (\<lambda>j. j = i) xs) = (if i \<in> set xs then 1 else 0)"
  by (induction xs) auto

lemma message_frames: "frames i (snd (on_message opt env data (c, n))) = frames i n @ (case data of NonText \<Rightarrow> []
   | Text raw \<Rightarrow> if raw = ''Invalid TP value'' then [] else (case pe_parse env raw of None \<Rightarrow> []
     | Some f \<Rightarrow> replicate (length (filter (\<lambda>j. j = i) (map fst (ch_consumers c)))) (f, pe_now env)))"
  by (simp add: on_message_def op_simps frames_of_consumers split: ws_data.splits option.splits)

text \<open>C36. Every frame reaches every consumer of its subscription exactly once, in order, and no one else:
  what consumer i has been given after any event is what it had before, followed by the frame just if the
  event is a text message of JSON on the socket that i's own channel currently holds. A message on a socket
  that was replaced, a non-JSON frame, and every other event deliver nothing.\<close>

theorem frames_exactly_once:
  assumes "reachable opt p"
  shows "delivered i (step opt env e p) = delivered i p @ (case e of
     SocketMessage s (Text raw) \<Rightarrow> (case owner s p of None \<Rightarrow> []
       | Some k \<Rightarrow> if raw = ''Invalid TP value'' \<or> i \<notin> set (subscribers p k) then []
           else (case pe_parse env raw of None \<Rightarrow> [] | Some f \<Rightarrow> [(f, pe_now env)]))
   | _ \<Rightarrow> [])"
proof -
  have ok: "pool_ok p" using assms by (rule reachable_ok)
  have d: "distinct (subscribers p k)" for k using reachable_roster [OF assms] by (simp add: roster_ok_def)
  show ?thesis
  proof (cases e)
    case (SocketMessage s data)
    show ?thesis
    proof (cases "owner s p")
      case None
      then show ?thesis using SocketMessage by (simp add: at_socket_def split: ws_data.splits)
    next
      case (Some k)
      then obtain c where c: "map_of (pl_channels p) k = Some c" using owner_Some ok by (metis pool_ok_def)
      then have subs: "subscribers p k = map fst (ch_consumers c)" by (simp add: subscribers_def)
      have "delivered i (step opt env e p) = frames i (snd (on_message opt env data (c, pl_net p)))"
        using SocketMessage Some c by (simp add: at_socket_def at_key_def delivered_def Let_def split_beta)
      also have "\<dots> = delivered i p @ (case data of NonText \<Rightarrow> [] | Text raw \<Rightarrow> if raw = ''Invalid TP value'' then []
          else (case pe_parse env raw of None \<Rightarrow> [] | Some f \<Rightarrow> if i \<in> set (subscribers p k) then [(f, pe_now env)] else []))"
        unfolding message_frames subs [symmetric] length_filter_distinct [OF d]
        by (simp add: delivered_def split: ws_data.splits option.splits)
      finally show ?thesis using SocketMessage Some by (simp split: ws_data.splits option.splits)
    qed
  next
    case (Subscribe params l)
    have "delivered i (p\<lparr>pl_channels := a, pl_nextConsumer := b, pl_handles := h\<rparr>) = delivered i p" for a b h
      by (simp add: delivered_def)
    then show ?thesis using Subscribe by (simp add: subscribe_def Let_def silent_at_key split: sum.splits)
  next
    case (Unsubscribe j)
    have "delivered i (p\<lparr>pl_handles := h\<rparr>) = delivered i p" for h by (simp add: delivered_def)
    then show ?thesis using Unsubscribe by (simp add: unsubscribe_def silent_at_key split: option.splits)
  next
    case (ReconnectAll reason)
    have "delivered i (p\<lparr>pl_sweep := g\<rparr>) = delivered i p" for g by (simp add: delivered_def)
    then show ?thesis using ReconnectAll by (simp add: reconnectAll_def Let_def silent_on_all)
  next
    case Dispose
    have "delivered i (p\<lparr>pl_disposed := True\<rparr>) = delivered i p" "delivered i (q\<lparr>pl_channels := []\<rparr>) = delivered i q" for q
      by (simp_all add: delivered_def)
    then show ?thesis using Dispose by (simp add: dispose_def Let_def silent_on_all)
  next
    case (LingerTimer k)
    have "delivered i (q\<lparr>pl_channels := a\<rparr>) = delivered i q" for q a by (simp add: delivered_def)
    then show ?thesis using LingerTimer
      by (simp add: fire_linger_def closeChannel_def Let_def silent_at_key split: option.splits)
  qed (simp_all add: silent_at_key silent_at_socket silent_on_all onlineHandler_def offlineHandler_def)
qed

theorem frames_exactly_once_witness:
  "delivered 1 (step sample_opts sample_env (SocketMessage 0 (Text ''{}'')) sample_pool) = [(JObj [], 1000)]"
proof -
  have "delivered 1 sample_pool = []" "owner 0 sample_pool = Some eurusd_key" "subscribers sample_pool eurusd_key = [1]"
    by code_simp+
  then show ?thesis
    using frames_exactly_once [OF sample_reachable, of 1 sample_env "SocketMessage 0 (Text ''{}'')"]
    by (simp add: sample_env_def)
qed

section \<open>Backoff\<close>

lemma fl_eq_int: "\<bar>n\<bar> \<le> 2 ^ 53 \<Longrightarrow> fl (of_int n) = Fin (of_int n)"
  by (simp add: fl_int js_int_def)

lemma backoff_delay_bounds:
  assumes "0 \<le> e" "e \<le> 2 ^ 53" "0 \<le> r" "r < 1"
  shows "\<exists>x. backoff_delay e r = js_int x \<and> e \<le> 2 * x \<and> x \<le> e"
proof -
  let ?h = "of_int e / 2 :: rat"
  have h: "fl ?h = Fin ?h" using assms(1,2) by (intro fl_half) simp
  have h0: "0 \<le> ?h" using assms(1) by simp
  have "r * ?h \<le> 1 * ?h" using assms(4) h0 by (intro mult_right_mono) simp_all
  then obtain j where j: "fl (r * ?h) = Fin j" "0 \<le> j" "j \<le> ?h"
    using fl_mono [of "r * ?h" ?h ?h] h h0 assms(3) by auto
  have fe: "fl (of_int e) = Fin (of_int e)" using assms(1,2) by (intro fl_eq_int) simp
  obtain t where t: "fl (?h + j) = Fin t" "t \<le> of_int e"
    using fl_mono [of "?h + j" "of_int e" "of_int e"] fe h0 j by auto
  have t1: "?h \<le> t" using fl_mono [of ?h "?h + j" t] h h0 j(2) t(1) by auto
  have "js_round (Fin t) = js_int \<lfloor>t + 1 / 2\<rfloor>" by (simp add: js_round_def)
  moreover have "\<lfloor>t + 1 / 2\<rfloor> \<le> e" using t(2) by linarith
  moreover have "e \<le> 2 * \<lfloor>t + 1 / 2\<rfloor>" using t1 by linarith
  ultimately show ?thesis using h j(1) t(1) by (auto simp: backoff_delay_def)
qed

text \<open>A failed socket is retried after an exponential backoff with jitter, inside its bounds: while the
  attempts last, the scheduled delay is a whole number of milliseconds between half of and the whole of
  min(cap, 500 * 2^(attempt - 1)), whatever the random number, computed in doubles as the code does; once
  they are used up no reconnect is scheduled, the channel fails and its probation retry is armed.\<close>

theorem backoff_within:
  assumes "0 \<le> po_maxBackoff opt" "po_maxBackoff opt \<le> 2 ^ 53" "0 \<le> pe_random env (ch_key c)" "pe_random env (ch_key c) < 1"
  shows "case scheduleReconnect opt env reason (c, n) of (c', n') \<Rightarrow>
    ch_attempts c' = ch_attempts c + 1 \<and>
    (if ch_attempts c < po_maxAttempts opt
     then ch_state c' = Reconnecting \<and> (\<exists>d. ch_reconnect c' = Some (Backoff (js_int d)) \<and>
       min (po_maxBackoff opt) (500 * 2 ^ ch_attempts c) \<le> 2 * d \<and> d \<le> min (po_maxBackoff opt) (500 * 2 ^ ch_attempts c))
     else ch_state c' = Failed \<and> ch_probation c' \<and> ch_reconnect c' = ch_reconnect c)"
proof -
  let ?e = "min (po_maxBackoff opt) (500 * 2 ^ ch_attempts c)"
  have "\<exists>x. backoff_delay ?e (pe_random env (ch_key c)) = js_int x \<and> ?e \<le> 2 * x \<and> x \<le> ?e"
    using assms by (intro backoff_delay_bounds) simp_all
  then show ?thesis by (auto simp: schedule_pair scheduled_def exponential_def BASE_BACKOFF_MS_def)
qed

theorem backoff_within_witness:
  "case scheduleReconnect sample_opts sample_env ''closed'' (new_channel ''k'' [], \<lparr>nt_next = 0, nt_live = [], nt_out = []\<rparr>)
   of (c', _) \<Rightarrow> (\<exists>d. ch_reconnect c' = Some (Backoff (js_int d)) \<and> 500 \<le> 2 * d \<and> d \<le> 500)"
  using backoff_within [of sample_opts sample_env "new_channel ''k'' []" "''closed''" "\<lparr>nt_next = 0, nt_live = [], nt_out = []\<rparr>"]
  by (simp add: sample_opts_def sample_env_def new_options_def new_channel_def split_beta DEFAULT_MAX_BACKOFF_MS_def
      DEFAULT_MAX_ATTEMPTS_def DEFAULT_STALE_AFTER_MS_def DEFAULT_STABLE_AFTER_MS_def CONNECT_TIMEOUT_MS_def)

end
