(* ===== verification/TradingStore.thy ===== *)
theory TradingStore
  imports Models Pool
begin

text \<open>
  The trading store, \<^verbatim>\<open>frontend/src/stores/trading-store.ts\<close>: the account, positions and
  orders of the current session generation, each action as a function on its state.

  The store treats the account as an object whose fields it reads and writes by name
  (\<open>account_object\<close>, the field list of Models' \<open>trading_account\<close>); the fields are strings,
  booleans, numbers or null, which \<^verbatim>\<open>===\<close> compares by value.
\<close>

type_synonym account_object = "(string \<times> js_value) list"

definition js_opt :: "string option \<Rightarrow> js_value" where
  "js_opt v = (case v of None \<Rightarrow> JNull | Some s \<Rightarrow> JStr s)"

definition account_object :: "trading_account \<Rightarrow> account_object" where
  "account_object a = [(''login'', JStr (ta_login a)), (''name'', JStr (ta_name a)), (''currency'', js_opt (ta_currency a)),
     (''server'', js_opt (ta_server a)), (''balance'', JStr (ta_balance a)), (''credit'', js_opt (ta_credit a)),
     (''equity'', JStr (ta_equity a)), (''profit'', JStr (ta_profit a)), (''margin'', JStr (ta_margin a)),
     (''marginFree'', JStr (ta_marginFree a)), (''marginLevel'', js_opt (ta_marginLevel a)),
     (''leverage'', js_opt (ta_leverage a)), (''readOnly'', JBool (ta_readOnly a)), (''asOf'', JNum (js_int (ta_asOf a)))]"

record data_freshness =
  fr_updatedAt :: "int option"
  fr_connection :: connection_state

record confirmed_write =
  cw_value :: js_value
  cw_until :: int

record trading_state =
  ts_generation :: nat
  ts_account :: "account_object option"
  ts_accountFreshness :: data_freshness
  ts_positions :: "position list"
  ts_positionsById :: "(string \<times> position) list"
  ts_positionsFreshness :: data_freshness
  ts_orders :: "trading_order list"
  ts_ordersById :: "(string \<times> trading_order) list"
  ts_ordersFreshness :: data_freshness
  ts_initialLoadPending :: bool
  ts_confirmedWrites :: "(string \<times> confirmed_write) list"

definition EMPTY_FRESHNESS :: data_freshness where
  "EMPTY_FRESHNESS = \<lparr>fr_updatedAt = None, fr_connection = Idle\<rparr>"

definition CONFIRMED_WRITE_TTL_MS :: int where
  "CONFIRMED_WRITE_TTL_MS = 30000"

definition indexById :: "('t \<Rightarrow> string) \<Rightarrow> 't list \<Rightarrow> (string \<times> 't) list" where
  "indexById id_of items = fold (\<lambda>item. alist_set (id_of item) item) items []"

text \<open>\<^verbatim>\<open>===\<close>; two objects or arrays met here are never the same reference.\<close>

fun js_identical :: "js_value \<Rightarrow> js_value \<Rightarrow> bool" where
  "js_identical (JNum a) (JNum b) = (a = b \<and> a \<noteq> NaN)"
| "js_identical (JArr _) _ = False"
| "js_identical (JObj _) _ = False"
| "js_identical a b = (a = b)"

definition field_of :: "account_object \<Rightarrow> string \<Rightarrow> js_value" where
  "field_of a f = or_else (map_of a f) JUndefined"

fun reconcile_fields :: "int \<Rightarrow> (string \<times> confirmed_write) list \<Rightarrow>
    account_object \<times> (string \<times> confirmed_write) list \<Rightarrow> account_object \<times> (string \<times> confirmed_write) list" where
  "reconcile_fields now [] r = r"
| "reconcile_fields now ((field, write) # entries) (merged, remaining) =
     (if now > cw_until write \<or> js_identical (field_of merged field) (cw_value write)
      then reconcile_fields now entries (merged, remaining)
      else reconcile_fields now entries (alist_set field (cw_value write) merged, alist_set field write remaining))"

definition reconcileConfirmed :: "account_object \<Rightarrow> (string \<times> confirmed_write) list \<Rightarrow> int \<Rightarrow>
    account_object \<times> (string \<times> confirmed_write) list" where
  "reconcileConfirmed account held now =
     (if held = [] then (account, held) else reconcile_fields now held (account, []))"

definition initial_state :: trading_state where
  "initial_state = \<lparr>ts_generation = 1, ts_account = None, ts_accountFreshness = EMPTY_FRESHNESS, ts_positions = [],
     ts_positionsById = [], ts_positionsFreshness = EMPTY_FRESHNESS, ts_orders = [], ts_ordersById = [],
     ts_ordersFreshness = EMPTY_FRESHNESS, ts_initialLoadPending = True, ts_confirmedWrites = []\<rparr>"

definition setGeneration :: "nat \<Rightarrow> trading_state \<Rightarrow> trading_state" where
  "setGeneration g s = s\<lparr>ts_generation := g\<rparr>"

definition applyAccount :: "account_object \<Rightarrow> nat \<Rightarrow> int \<Rightarrow> trading_state \<Rightarrow> trading_state" where
  "applyAccount account generation now s = (if generation \<noteq> ts_generation s then s
     else let (merged, remaining) = reconcileConfirmed account (ts_confirmedWrites s) now in
       s\<lparr>ts_account := Some merged, ts_confirmedWrites := remaining,
         ts_accountFreshness := \<lparr>fr_updatedAt = Some now, fr_connection = fr_connection (ts_accountFreshness s)\<rparr>\<rparr>)"

definition patchAccount :: "account_object \<Rightarrow> int \<Rightarrow> trading_state \<Rightarrow> trading_state" where
  "patchAccount patch now s = (case ts_account s of None \<Rightarrow> s
   | Some a \<Rightarrow> s\<lparr>ts_account := Some (fold (\<lambda>(f, v). alist_set f v) patch a),
       ts_confirmedWrites := fold (\<lambda>(f, v). alist_set f \<lparr>cw_value = v, cw_until = now + CONFIRMED_WRITE_TTL_MS\<rparr>) patch
         (ts_confirmedWrites s)\<rparr>)"

definition applyPositions :: "position list \<Rightarrow> nat \<Rightarrow> int \<Rightarrow> trading_state \<Rightarrow> trading_state" where
  "applyPositions positions generation now s = (if generation \<noteq> ts_generation s then s
     else s\<lparr>ts_positions := positions, ts_positionsById := indexById p_id positions,
       ts_positionsFreshness := \<lparr>fr_updatedAt = Some now, fr_connection = fr_connection (ts_positionsFreshness s)\<rparr>\<rparr>)"

definition applyOrders :: "trading_order list \<Rightarrow> nat \<Rightarrow> int \<Rightarrow> trading_state \<Rightarrow> trading_state" where
  "applyOrders orders generation now s = (if generation \<noteq> ts_generation s then s
     else s\<lparr>ts_orders := orders, ts_ordersById := indexById o_id orders,
       ts_ordersFreshness := \<lparr>fr_updatedAt = Some now, fr_connection = fr_connection (ts_ordersFreshness s)\<rparr>\<rparr>)"

datatype scope = ScopeAccount | ScopePositions | ScopeOrders

definition setConnection :: "scope \<Rightarrow> connection_state \<Rightarrow> trading_state \<Rightarrow> trading_state" where
  "setConnection sc connection s = (case sc of
     ScopeAccount \<Rightarrow> s\<lparr>ts_accountFreshness := (ts_accountFreshness s)\<lparr>fr_connection := connection\<rparr>\<rparr>
   | ScopePositions \<Rightarrow> s\<lparr>ts_positionsFreshness := (ts_positionsFreshness s)\<lparr>fr_connection := connection\<rparr>\<rparr>
   | ScopeOrders \<Rightarrow> s\<lparr>ts_ordersFreshness := (ts_ordersFreshness s)\<lparr>fr_connection := connection\<rparr>\<rparr>)"

definition setInitialLoadPending :: "bool \<Rightarrow> trading_state \<Rightarrow> trading_state" where
  "setInitialLoadPending pending s = s\<lparr>ts_initialLoadPending := pending\<rparr>"

definition resetForAccountSwitch :: "nat \<Rightarrow> trading_state \<Rightarrow> trading_state" where
  "resetForAccountSwitch generation s = s\<lparr>ts_generation := generation, ts_account := None,
     ts_accountFreshness := EMPTY_FRESHNESS, ts_confirmedWrites := [], ts_positions := [], ts_positionsById := [],
     ts_positionsFreshness := EMPTY_FRESHNESS, ts_orders := [], ts_ordersById := [],
     ts_ordersFreshness := EMPTY_FRESHNESS, ts_initialLoadPending := True\<rparr>"

fun severity :: "connection_state \<Rightarrow> nat" where
  "severity Failed = 6"
| "severity AuthExpired = 5"
| "severity Disconnected = 4"
| "severity Reconnecting = 3"
| "severity Stale = 2"
| "severity Connecting = 1"
| "severity Connected = 0"
| "severity Idle = 0"

definition worse :: "connection_state \<Rightarrow> connection_state \<Rightarrow> connection_state" where
  "worse current worst = (if severity current > severity worst then current else worst)"

definition overallConnection :: "trading_state \<Rightarrow> connection_state" where
  "overallConnection s = fold worse [fr_connection (ts_positionsFreshness s), fr_connection (ts_ordersFreshness s)]
     (fr_connection (ts_accountFreshness s))"

section \<open>The index\<close>

lemma indexById_append: "indexById f (xs @ [x]) = alist_set (f x) x (indexById f xs)"
  by (simp add: indexById_def)

text \<open>The index holds the last item of every identifier.\<close>

lemma indexById_lookup: "map_of (indexById f xs) k = find (\<lambda>x. f x = k) (rev xs)"
  by (induction xs rule: rev_induct) (auto simp: indexById_append indexById_def)

section \<open>Confirmed writes\<close>

lemma field_of_set: "field_of (alist_set f v a) g = (if g = f then v else field_of a g)"
  by (simp add: field_of_def)

lemma reconcile_fields_spec:
  assumes "distinct (map fst held)" "reconcile_fields now held (a, r) = (a', r')"
  shows "field_of a' f = (case map_of held f of
      Some w \<Rightarrow> if now \<le> cw_until w \<and> \<not> js_identical (field_of a f) (cw_value w) then cw_value w else field_of a f
    | None \<Rightarrow> field_of a f) \<and>
   map_of r' f = (case map_of held f of
      Some w \<Rightarrow> if now \<le> cw_until w \<and> \<not> js_identical (field_of a f) (cw_value w) then Some w else map_of r f
    | None \<Rightarrow> map_of r f)"
  using assms
proof (induction now held "(a, r)" arbitrary: a r rule: reconcile_fields.induct)
  case (2 now field w entries merged remaining)
  have out: "map_of entries field = None" using 2(3) by (auto simp: map_of_eq_None_iff)
  show ?case
  proof (cases "now > cw_until w \<or> js_identical (field_of merged field) (cw_value w)")
    case True
    have "reconcile_fields now entries (merged, remaining) = (a', r')" using 2(4) True by simp
    with 2(1) [OF True] 2(3) out True show ?thesis by (auto split: option.splits)
  next
    case False
    have "reconcile_fields now entries (alist_set field (cw_value w) merged, alist_set field w remaining) = (a', r')"
      using 2(4) False by simp
    with 2(2) [OF False] 2(3) out False show ?thesis by (auto simp: field_of_set split: option.splits)
  qed
qed simp

lemma reconcile_distinct: "distinct (map fst r) \<Longrightarrow> distinct (map fst (snd (reconcile_fields now held (a, r))))"
  by (induction now held "(a, r)" arbitrary: a r rule: reconcile_fields.induct) auto


definition account_frames :: "(account_object \<times> int) list \<Rightarrow> trading_state \<Rightarrow> trading_state" where
  "account_frames fs s = fold (\<lambda>(a, t) s. applyAccount a (ts_generation s) t s) fs s"

lemma applyAccount_spec:
  assumes "distinct (map fst (ts_confirmedWrites s))"
  obtains a' where "ts_account (applyAccount a (ts_generation s) now s) = Some a'"
    "distinct (map fst (ts_confirmedWrites (applyAccount a (ts_generation s) now s)))"
    "field_of a' f = (case map_of (ts_confirmedWrites s) f of
      Some w \<Rightarrow> if now \<le> cw_until w \<and> \<not> js_identical (field_of a f) (cw_value w) then cw_value w else field_of a f
    | None \<Rightarrow> field_of a f)"
    "map_of (ts_confirmedWrites (applyAccount a (ts_generation s) now s)) f = (case map_of (ts_confirmedWrites s) f of
      Some w \<Rightarrow> if now \<le> cw_until w \<and> \<not> js_identical (field_of a f) (cw_value w) then Some w else None
    | None \<Rightarrow> None)"
    "ts_generation (applyAccount a (ts_generation s) now s) = ts_generation s"
proof -
  obtain a' r where r: "reconcile_fields now (ts_confirmedWrites s) (a, []) = (a', r)" by fastforce
  have same: "reconcileConfirmed a (ts_confirmedWrites s) now = (a', r)"
    using r by (cases "ts_confirmedWrites s = []") (simp_all add: reconcileConfirmed_def)
  have "distinct (map fst r)" using reconcile_distinct [of "[]" now "ts_confirmedWrites s" a] r by simp
  then show thesis using reconcile_fields_spec [OF assms r, of f]
    by (intro that [of a']) (simp_all add: applyAccount_def same split: option.splits)
qed

lemma held_through:
  assumes "distinct (map fst (ts_confirmedWrites s))" "map_of (ts_confirmedWrites s) f = Some w"
    "\<exists>a. ts_account s = Some a \<and> field_of a f = cw_value w"
    "\<forall>(a, t)\<in>set fs. t \<le> cw_until w \<and> \<not> js_identical (field_of a f) (cw_value w)"
  shows "(\<exists>a. ts_account (account_frames fs s) = Some a \<and> field_of a f = cw_value w) \<and>
    map_of (ts_confirmedWrites (account_frames fs s)) f = Some w \<and>
    distinct (map fst (ts_confirmedWrites (account_frames fs s))) \<and> ts_generation (account_frames fs s) = ts_generation s"
  using assms
proof (induction fs arbitrary: s)
  case (Cons x fs)
  obtain a t where x: "x = (a, t)" by fastforce
  let ?s = "applyAccount a (ts_generation s) t s"
  obtain a' where spec: "ts_account ?s = Some a'" "distinct (map fst (ts_confirmedWrites ?s))" "field_of a' f = cw_value w"
      "map_of (ts_confirmedWrites ?s) f = Some w" "ts_generation ?s = ts_generation s"
    using applyAccount_spec [OF Cons.prems(1), of a t f] Cons.prems(2,4) x by auto
  have "account_frames (x # fs) s = account_frames fs ?s" by (simp add: account_frames_def x)
  then show ?case using Cons.IH [of ?s] spec Cons.prems(4) by simp
qed (simp add: account_frames_def)

text \<open>A change the server has confirmed is not reverted by frames that still carry the old value: from the
  moment it is patched in, the account shows the new value through any number of frames that disagree
  with it within thirty seconds; the first frame that agrees, or any frame after that time, is shown as the
  broker sent it and ends the hold.\<close>

theorem confirmed_write_held:
  assumes "ts_account s = Some a0" "distinct (map fst (ts_confirmedWrites s))"
    "\<forall>(a, t)\<in>set fs. t \<le> t0 + 30000 \<and> \<not> js_identical (field_of a f) v"
  shows "let s2 = account_frames fs (patchAccount [(f, v)] t0 s) in
    (\<exists>a. ts_account s2 = Some a \<and> field_of a f = v) \<and>
    (\<forall>a t. js_identical (field_of a f) v \<or> t > t0 + 30000 \<longrightarrow>
      (\<exists>a'. ts_account (applyAccount a (ts_generation s) t s2) = Some a' \<and> field_of a' f = field_of a f \<and>
        map_of (ts_confirmedWrites (applyAccount a (ts_generation s) t s2)) f = None))"
proof -
  let ?w = "\<lparr>cw_value = v, cw_until = t0 + 30000\<rparr>"
  let ?s1 = "patchAccount [(f, v)] t0 s"
  let ?s2 = "account_frames fs ?s1"
  have s1: "distinct (map fst (ts_confirmedWrites ?s1))" "map_of (ts_confirmedWrites ?s1) f = Some ?w"
      "\<exists>a. ts_account ?s1 = Some a \<and> field_of a f = v" "ts_generation ?s1 = ts_generation s"
    using assms(1,2) by (auto simp: patchAccount_def CONFIRMED_WRITE_TTL_MS_def field_of_set distinct_alist_set)
  have s2: "\<exists>a. ts_account ?s2 = Some a \<and> field_of a f = v" "map_of (ts_confirmedWrites ?s2) f = Some ?w"
      "distinct (map fst (ts_confirmedWrites ?s2))" "ts_generation ?s2 = ts_generation s"
    using held_through [OF s1(1,2), of fs] s1(3,4) assms(3) by auto
  have "\<exists>a'. ts_account (applyAccount a (ts_generation s) t ?s2) = Some a' \<and> field_of a' f = field_of a f \<and>
      map_of (ts_confirmedWrites (applyAccount a (ts_generation s) t ?s2)) f = None"
    if "js_identical (field_of a f) v \<or> t > t0 + 30000" for a t
  proof -
    have live: "\<not> (t \<le> cw_until ?w \<and> \<not> js_identical (field_of a f) (cw_value ?w))" using that by auto
    obtain a' where "ts_account (applyAccount a (ts_generation ?s2) t ?s2) = Some a'" "field_of a' f = field_of a f"
        "map_of (ts_confirmedWrites (applyAccount a (ts_generation ?s2) t ?s2)) f = None"
      by (rule applyAccount_spec [OF s2(3), of a t f]) (use s2(2) live in \<open>auto split: if_splits\<close>)
    then show ?thesis using s2(4) by simp
  qed
  then show ?thesis using s2(1) by (simp add: Let_def)
qed

definition sample_state :: trading_state where
  "sample_state = initial_state\<lparr>ts_account := Some [(''balance'', JStr ''100''), (''leverage'', JStr ''300'')]\<rparr>"

theorem confirmed_write_held_witness:
  "(\<exists>a. ts_account (account_frames [([(''leverage'', JStr ''300'')], 1003000)]
       (patchAccount [(''leverage'', JStr ''200'')] 1000000 sample_state)) = Some a \<and> field_of a ''leverage'' = JStr ''200'')"
proof -
  have pre: "ts_account sample_state = Some [(''balance'', JStr ''100''), (''leverage'', JStr ''300'')]"
      "distinct (map fst (ts_confirmedWrites sample_state))"
      "\<forall>(a, t)\<in>set [([(''leverage'', JStr ''300'')], 1003000 :: int)]. t \<le> 1000000 + 30000 \<and>
         \<not> js_identical (field_of a ''leverage'') (JStr ''200'')"
    by (simp_all add: sample_state_def initial_state_def field_of_def)
  show ?thesis using confirmed_write_held [OF pre] by (simp add: Let_def)
qed

text \<open>The connection badge shows the worst of the three streams: it is the state of one of them, and no
  stream is in a more severe state.\<close>

theorem overallConnection_worst:
  "overallConnection s \<in> {fr_connection (ts_accountFreshness s), fr_connection (ts_positionsFreshness s),
     fr_connection (ts_ordersFreshness s)} \<and>
   severity (fr_connection (ts_accountFreshness s)) \<le> severity (overallConnection s) \<and>
   severity (fr_connection (ts_positionsFreshness s)) \<le> severity (overallConnection s) \<and>
   severity (fr_connection (ts_ordersFreshness s)) \<le> severity (overallConnection s)"
  by (simp add: overallConnection_def worse_def)

end
