(* ===== verification/Session.thy ===== *)
theory Session
  imports Prelude
begin

text \<open>
  Session generations and snapshot gates,
  \<^verbatim>\<open>frontend/src/integrations/gateway/websocket/session-generation.ts\<close>, with the policy
  of \<^verbatim>\<open>frontend/src/app/providers/reconciliation-policy.ts\<close>. A generation is a number
  that only grows; a gate keeps the newest frame that arrives while it is closed.
\<close>

section \<open>Generations\<close>

record tracker =
  gt_current :: nat
  gt_listeners :: "nat list"

definition new_tracker :: tracker where
  "new_tracker = \<lparr>gt_current = 1, gt_listeners = []\<rparr>"

text \<open>\<^verbatim>\<open>advance\<close>: the listeners called, in order, and the new generation.\<close>

definition advance :: "tracker \<Rightarrow> (nat \<times> nat list) \<times> tracker" where
  "advance t = (let t' = t\<lparr>gt_current := gt_current t + 1\<rparr> in ((gt_current t', gt_listeners t'), t'))"

definition isCurrent :: "nat \<Rightarrow> tracker \<Rightarrow> bool" where
  "isCurrent g t = (g = gt_current t)"

definition onAdvance :: "nat \<Rightarrow> tracker \<Rightarrow> tracker" where
  "onAdvance l t = t\<lparr>gt_listeners := (if l \<in> set (gt_listeners t) then gt_listeners t else gt_listeners t @ [l])\<rparr>"

definition offAdvance :: "nat \<Rightarrow> tracker \<Rightarrow> tracker" where
  "offAdvance l t = t\<lparr>gt_listeners := filter (\<lambda>m. m \<noteq> l) (gt_listeners t)\<rparr>"

section \<open>Gates\<close>

record 'f gate =
  ga_buffered :: "('f \<times> int) option"
  ga_open :: bool

definition new_gate :: "'f gate" where
  "new_gate = \<lparr>ga_buffered = None, ga_open = False\<rparr>"

definition buffer :: "'f \<Rightarrow> int \<Rightarrow> 'f gate \<Rightarrow> 'f gate" where
  "buffer frame receivedAt g = (case ga_buffered g of
     None \<Rightarrow> g\<lparr>ga_buffered := Some (frame, receivedAt)\<rparr>
   | Some (_, t) \<Rightarrow> if receivedAt \<ge> t then g\<lparr>ga_buffered := Some (frame, receivedAt)\<rparr> else g)"

definition release :: "'f gate \<Rightarrow> ('f \<times> int) option \<times> 'f gate" where
  "release g = (ga_buffered g, g\<lparr>ga_open := True, ga_buffered := None\<rparr>)"

definition reset_gate :: "'f gate \<Rightarrow> 'f gate" where
  "reset_gate g = g\<lparr>ga_open := False, ga_buffered := None\<rparr>"

definition isStale :: "int option \<Rightarrow> int \<Rightarrow> int \<Rightarrow> bool" where
  "isStale lastUpdateAt staleAfterMs now = (case lastUpdateAt of None \<Rightarrow> True | Some t \<Rightarrow> now - t > staleAfterMs)"

definition shouldApplyRestSnapshot :: "int option \<Rightarrow> int \<Rightarrow> bool" where
  "shouldApplyRestSnapshot lastLiveFrameAt requestStartedAt =
     (case lastLiveFrameAt of None \<Rightarrow> True | Some t \<Rightarrow> t < requestStartedAt)"

section \<open>What a gate releases\<close>

lemma advance_new: "gt_current (snd (advance t)) = gt_current t + 1"
  by (simp add: advance_def Let_def)

fun advances :: "nat \<Rightarrow> tracker \<Rightarrow> tracker" where
  "advances 0 t = t"
| "advances (Suc n) t = advances n (snd (advance t))"

lemma advances_current: "gt_current (advances n t) = gt_current t + n"
  by (induction n arbitrary: t) (simp_all add: advance_new)

text \<open>The frames received while the gate is closed, oldest first.\<close>

definition buffer_all :: "('f \<times> int) list \<Rightarrow> 'f gate \<Rightarrow> 'f gate" where
  "buffer_all fs g = fold (\<lambda>(f, t). buffer f t) fs g"

lemma buffer_open [simp]: "ga_open (buffer f t g) = ga_open g"
  by (simp add: buffer_def split: option.splits)

lemma buffer_all_open: "ga_open (buffer_all fs g) = ga_open g"
  unfolding buffer_all_def by (induction fs arbitrary: g) (simp_all add: split_beta)

lemma buffer_all_newest:
  assumes "ga_buffered g = None"
  shows "case ga_buffered (buffer_all fs g) of
     None \<Rightarrow> fs = []
   | Some (f, t) \<Rightarrow> \<exists>xs ys. fs = xs @ (f, t) # ys \<and> (\<forall>(f', t')\<in>set xs. t' \<le> t) \<and> (\<forall>(f', t')\<in>set ys. t' < t)"
proof (induction fs rule: rev_induct)
  case Nil
  then show ?case using assms by (simp add: buffer_all_def)
next
  case (snoc x fs)
  obtain f1 t1 where x: "x = (f1, t1)" by fastforce
  have step: "buffer_all (fs @ [x]) g = buffer f1 t1 (buffer_all fs g)" by (simp add: buffer_all_def x)
  show ?case
  proof (cases "ga_buffered (buffer_all fs g)")
    case None
    then have "fs = []" using snoc by simp
    then show ?thesis unfolding step using None x by (auto simp: buffer_def intro!: exI [of _ "[]"])
  next
    case (Some p)
    then obtain f t where p: "ga_buffered (buffer_all fs g) = Some (f, t)" by (cases p) simp
    then obtain xs ys where s: "fs = xs @ (f, t) # ys" "\<forall>(f', t')\<in>set xs. t' \<le> t" "\<forall>(f', t')\<in>set ys. t' < t"
      using snoc by auto
    show ?thesis
    proof (cases "t1 \<ge> t")
      case True
      have "\<forall>(f', t')\<in>set fs. t' \<le> t1" using s True by fastforce
      then have "\<exists>xs ys. fs @ [x] = xs @ (f1, t1) # ys \<and> (\<forall>(f', t')\<in>set xs. t' \<le> t1) \<and> (\<forall>(f', t')\<in>set ys. t' < t1)"
        using x by (intro exI [of _ fs] exI [of _ "[]"]) simp
      then show ?thesis unfolding step using p True by (simp add: buffer_def)
    next
      case False
      then have "fs @ [x] = xs @ (f, t) # (ys @ [x])" "\<forall>(f', t')\<in>set (ys @ [x]). t' < t" using s x by auto
      then have "\<exists>xs ys. fs @ [x] = xs @ (f, t) # ys \<and> (\<forall>(f', t')\<in>set xs. t' \<le> t) \<and> (\<forall>(f', t')\<in>set ys. t' < t)"
        using s(2) by (intro exI [of _ xs] exI [of _ "ys @ [x]"] conjI)
      then show ?thesis unfolding step using p False by (simp add: buffer_def)
    qed
  qed
qed

text \<open>A gate loses no news and invents none: opened after any frames arrived, it releases nothing only if
  nothing arrived, and otherwise the frame with the latest arrival time (the last of those that arrived
  in the same millisecond); it is then open and empty. A generation that has been advanced past is never
  current again.\<close>

theorem gate_releases_newest:
  "(case release (buffer_all fs (reset_gate g)) of (out, g') \<Rightarrow>
     ga_open g' \<and> ga_buffered g' = None \<and> \<not> ga_open (buffer_all fs (reset_gate g)) \<and>
     (case out of None \<Rightarrow> fs = []
      | Some (f, t) \<Rightarrow> \<exists>xs ys. fs = xs @ (f, t) # ys \<and> (\<forall>(f', t')\<in>set xs. t' \<le> t) \<and> (\<forall>(f', t')\<in>set ys. t' < t))) \<and>
   (isCurrent (gt_current tr) (advances n tr) \<longleftrightarrow> n = 0)"
proof -
  have "ga_buffered (reset_gate g) = None" "\<not> ga_open (reset_gate g)" by (simp_all add: reset_gate_def)
  then show ?thesis using buffer_all_newest [of "reset_gate g" fs]
    by (simp add: release_def buffer_all_open isCurrent_def advances_current split: option.splits)
qed

theorem gate_releases_newest_witness:
  "fst (release (buffer_all [(''a'', 5), (''b'', 9), (''c'', 9), (''d'', 7)] (reset_gate new_gate))) = Some (''c'', 9) \<and>
   \<not> isCurrent (gt_current new_tracker) (advances 2 new_tracker)"
proof -
  have "fst (release (buffer_all [(''a'', 5), (''b'', 9), (''c'', 9), (''d'', 7)] (reset_gate new_gate))) = Some (''c'', 9)"
    by code_simp
  then show ?thesis
    using gate_releases_newest [of "[(''a'', 5), (''b'', 9), (''c'', 9), (''d'', 7)]" new_gate new_tracker 2] by simp
qed

end
