(* ===== verification/AccountSync.thy ===== *)
theory AccountSync
  imports TradingStore Session
begin

text \<open>
  Account synchronisation, the effect of
  \<^verbatim>\<open>frontend/src/app/providers/use-account-sync.ts\<close> that keeps the trading store in step
  with the active account: generation, buffering gates, REST snapshots and live frames.

  Selecting an account starts a \<open>session\<close>, numbered by its place in the list of all sessions;
  sessions that were left keep their pending responses and timers, which may still fire. Each callback is an
  \<open>event\<close>. What a raw frame decodes to (schema and mapper, with the account's metadata) and
  the clock are the environment of the event. Calls that leave the component (messages, history
  invalidation, caches, the read-only flag) are its outputs.
\<close>

datatype sync_output =
    QuotesCleared
  | SymbolCacheCleared
  | HistoryInvalidated string
  | Synchronised string string
  | OrderSideMissing
  | SyncError
  | ReadOnlySet bool
  | CapabilitiesReset
  | QueriesCleared

record session =
  se_login :: string
  se_generation :: nat
  se_accountGate :: "js_value gate"
  se_positionsGate :: "js_value gate"
  se_ordersGate :: "js_value gate"
  se_sequence :: nat
  se_pending :: "(nat \<times> int \<times> string) list"
  se_reconnect :: "scope option"
  se_historyLag :: bool
  se_connected :: "scope list"
  se_warned :: bool
  se_active :: bool

record sync_state =
  sn_store :: trading_state
  sn_tracker :: tracker
  sn_sessions :: "session list"
  sn_out :: "sync_output list"

record sync_env =
  en_account :: "js_value \<Rightarrow> int \<Rightarrow> account_object option"
  en_positions :: "js_value \<Rightarrow> position option list option"
  en_orders :: "js_value \<Rightarrow> (bool \<times> trading_order option) list option"
  en_readOnly :: bool
  en_now :: int

text \<open>The answers of one reconciliation: account, positions, orders and the trade-disabled flag, if reported.\<close>

record snapshots =
  sp_account :: account_object
  sp_positions :: "position list"
  sp_orders :: "trading_order list"
  sp_tradeDisabled :: "bool option"

definition new_session :: "string \<Rightarrow> nat \<Rightarrow> session" where
  "new_session login generation = \<lparr>se_login = login, se_generation = generation, se_accountGate = new_gate,
     se_positionsGate = new_gate, se_ordersGate = new_gate, se_sequence = 0, se_pending = [], se_reconnect = None,
     se_historyLag = False, se_connected = [], se_warned = False, se_active = True\<rparr>"

definition initial_sync :: sync_state where
  "initial_sync = \<lparr>sn_store = initial_state, sn_tracker = new_tracker, sn_sessions = [], sn_out = []\<rparr>"

definition put :: "sync_output list \<Rightarrow> sync_state \<Rightarrow> sync_state" where
  "put os s = s\<lparr>sn_out := sn_out s @ os\<rparr>"

definition on_store :: "(trading_state \<Rightarrow> trading_state) \<Rightarrow> sync_state \<Rightarrow> sync_state" where
  "on_store f s = s\<lparr>sn_store := f (sn_store s)\<rparr>"

definition on_session :: "nat \<Rightarrow> (session \<Rightarrow> session) \<Rightarrow> sync_state \<Rightarrow> sync_state" where
  "on_session i f s = s\<lparr>sn_sessions := (sn_sessions s)[i := f (sn_sessions s ! i)]\<rparr>"

abbreviation session_of :: "sync_state \<Rightarrow> nat \<Rightarrow> session" where
  "session_of s i \<equiv> sn_sessions s ! i"

definition current :: "nat \<Rightarrow> sync_state \<Rightarrow> bool" where
  "current i s = isCurrent (se_generation (session_of s i)) (sn_tracker s)"

section \<open>Frame handlers\<close>

definition applyAccountFrame :: "sync_env \<Rightarrow> nat \<Rightarrow> js_value \<Rightarrow> int \<Rightarrow> sync_state \<Rightarrow> sync_state" where
  "applyAccountFrame env i frame receivedAt s = (if \<not> current i s then s
     else case en_account env frame receivedAt of None \<Rightarrow> s
     | Some a \<Rightarrow> on_store (applyAccount a (se_generation (session_of s i)) receivedAt) s)"

definition applyPositionsFrame :: "sync_env \<Rightarrow> nat \<Rightarrow> js_value \<Rightarrow> int \<Rightarrow> sync_state \<Rightarrow> sync_state" where
  "applyPositionsFrame env i frame receivedAt s = (if \<not> current i s then s
     else case en_positions env frame of None \<Rightarrow> s
     | Some ps \<Rightarrow> on_store (applyPositions (List.map_filter id ps) (se_generation (session_of s i)) receivedAt) s)"

text \<open>An order frame in which a side is missing is dropped, with one warning for the session.\<close>

definition applyOrdersFrame :: "sync_env \<Rightarrow> nat \<Rightarrow> js_value \<Rightarrow> int \<Rightarrow> sync_state \<Rightarrow> sync_state" where
  "applyOrdersFrame env i frame receivedAt s = (if \<not> current i s then s
     else case en_orders env frame of None \<Rightarrow> s
     | Some os \<Rightarrow> if list_ex fst os
         then if se_warned (session_of s i) then s
           else put [OrderSideMissing] (on_session i (se_warned_update (\<lambda>_. True)) s)
         else on_store (applyOrders (List.map_filter snd os) (se_generation (session_of s i)) receivedAt) s)"

definition refreshHistory :: "nat \<Rightarrow> sync_state \<Rightarrow> sync_state" where
  "refreshHistory i s = (if \<not> current i s then s
     else on_session i (se_historyLag_update (\<lambda>_. True)) (put [HistoryInvalidated (se_login (session_of s i))] s))"

definition history_timer :: "nat \<Rightarrow> sync_state \<Rightarrow> sync_state" where
  "history_timer i s = (if \<not> se_historyLag (session_of s i) then s
     else let s = on_session i (se_historyLag_update (\<lambda>_. False)) s in
       if \<not> current i s then s else put [HistoryInvalidated (se_login (session_of s i))] s)"

section \<open>Snapshots\<close>

definition loadSnapshots :: "sync_env \<Rightarrow> nat \<Rightarrow> string \<Rightarrow> sync_state \<Rightarrow> sync_state" where
  "loadSnapshots env i reason s = (if \<not> current i s then s
     else on_session i (\<lambda>x. x\<lparr>se_sequence := se_sequence x + 1,
       se_pending := se_pending x @ [(se_sequence x + 1, en_now env, reason)]\<rparr>) s)"

definition release_account :: "sync_env \<Rightarrow> nat \<Rightarrow> sync_state \<Rightarrow> sync_state" where
  "release_account env i s = (let (buffered, g) = release (se_accountGate (session_of s i));
       s = on_session i (se_accountGate_update (\<lambda>_. g)) s
     in case buffered of None \<Rightarrow> s | Some (f, t) \<Rightarrow> applyAccountFrame env i f t s)"

definition release_positions :: "sync_env \<Rightarrow> nat \<Rightarrow> sync_state \<Rightarrow> sync_state" where
  "release_positions env i s = (let (buffered, g) = release (se_positionsGate (session_of s i));
       s = on_session i (se_positionsGate_update (\<lambda>_. g)) s
     in case buffered of None \<Rightarrow> s | Some (f, t) \<Rightarrow> applyPositionsFrame env i f t s)"

definition release_orders :: "sync_env \<Rightarrow> nat \<Rightarrow> sync_state \<Rightarrow> sync_state" where
  "release_orders env i s = (let (buffered, g) = release (se_ordersGate (session_of s i));
       s = on_session i (se_ordersGate_update (\<lambda>_. g)) s
     in case buffered of None \<Rightarrow> s | Some (f, t) \<Rightarrow> applyOrdersFrame env i f t s)"

definition release_gates :: "sync_env \<Rightarrow> nat \<Rightarrow> sync_state \<Rightarrow> sync_state" where
  "release_gates env i s = release_orders env i (release_positions env i (release_account env i s))"

text \<open>The three snapshots, each unless a live frame arrived after the request was sent.\<close>

definition apply_snapshots :: "sync_env \<Rightarrow> nat \<Rightarrow> int \<Rightarrow> snapshots \<Rightarrow> trading_state \<Rightarrow> trading_state" where
  "apply_snapshots env generation startedAt r t0 =
     (let t1 = (if shouldApplyRestSnapshot (fr_updatedAt (ts_accountFreshness t0)) startedAt
          then applyAccount (sp_account r) generation (en_now env) t0 else t0);
        t2 = (if shouldApplyRestSnapshot (fr_updatedAt (ts_positionsFreshness t0)) startedAt
          then applyPositions (sp_positions r) generation (en_now env) t1 else t1);
        t3 = (if shouldApplyRestSnapshot (fr_updatedAt (ts_ordersFreshness t0)) startedAt
          then applyOrders (sp_orders r) generation (en_now env) t2 else t2)
      in setInitialLoadPending False t3)"

definition superseded :: "nat \<Rightarrow> nat \<Rightarrow> sync_state \<Rightarrow> bool" where
  "superseded i sequence s = (\<not> current i s \<or> sequence \<noteq> se_sequence (session_of s i))"

definition take_pending :: "nat \<Rightarrow> nat \<Rightarrow> sync_state \<Rightarrow> sync_state" where
  "take_pending i sequence = on_session i (\<lambda>x. x\<lparr>se_pending := filter (\<lambda>(n, _). n \<noteq> sequence) (se_pending x)\<rparr>)"

definition pending_load :: "nat \<Rightarrow> nat \<Rightarrow> sync_state \<Rightarrow> (int \<times> string) option" where
  "pending_load i sequence s = map_of (se_pending (session_of s i)) sequence"

definition loaded :: "sync_env \<Rightarrow> nat \<Rightarrow> nat \<Rightarrow> snapshots \<Rightarrow> sync_state \<Rightarrow> sync_state" where
  "loaded env i sequence r s = (case pending_load i sequence s of None \<Rightarrow> s
   | Some (startedAt, reason) \<Rightarrow>
       let s = take_pending i sequence s in
       if superseded i sequence s then s
       else let s = on_store (apply_snapshots env (se_generation (session_of s i)) startedAt r) s;
           s = (case sp_tradeDisabled r of None \<Rightarrow> s | Some d \<Rightarrow> put [ReadOnlySet (d \<or> en_readOnly env)] s);
           s = refreshHistory i (release_gates env i s)
         in put [Synchronised (se_login (session_of s i)) reason] s)"

definition load_failed :: "sync_env \<Rightarrow> nat \<Rightarrow> nat \<Rightarrow> sync_state \<Rightarrow> sync_state" where
  "load_failed env i sequence s = (case pending_load i sequence s of None \<Rightarrow> s
   | Some _ \<Rightarrow>
       let s = take_pending i sequence s in
       if \<not> se_active (session_of s i) \<or> superseded i sequence s then s
       else on_store (setInitialLoadPending False) (release_gates env i (put [SyncError] s)))"

section \<open>Subscriptions\<close>

definition account_frame :: "sync_env \<Rightarrow> nat \<Rightarrow> js_value \<Rightarrow> int \<Rightarrow> sync_state \<Rightarrow> sync_state" where
  "account_frame env i frame receivedAt s = (if \<not> ga_open (se_accountGate (session_of s i))
     then on_session i (se_accountGate_update (buffer frame receivedAt)) s
     else applyAccountFrame env i frame receivedAt s)"

definition positions_frame :: "sync_env \<Rightarrow> nat \<Rightarrow> js_value \<Rightarrow> int \<Rightarrow> sync_state \<Rightarrow> sync_state" where
  "positions_frame env i frame receivedAt s = (if \<not> ga_open (se_positionsGate (session_of s i))
     then on_session i (se_positionsGate_update (buffer frame receivedAt)) s
     else applyPositionsFrame env i frame receivedAt s)"

definition orders_frame :: "sync_env \<Rightarrow> nat \<Rightarrow> js_value \<Rightarrow> int \<Rightarrow> sync_state \<Rightarrow> sync_state" where
  "orders_frame env i frame receivedAt s = (if \<not> ga_open (se_ordersGate (session_of s i))
     then on_session i (se_ordersGate_update (buffer frame receivedAt)) s
     else applyOrdersFrame env i frame receivedAt s)"

definition onConnection :: "nat \<Rightarrow> scope \<Rightarrow> connection_state \<Rightarrow> sync_state \<Rightarrow> sync_state" where
  "onConnection i sc state s = (if \<not> current i s then s
     else let s = on_store (setConnection sc state) s in
       if state \<noteq> Connected then s
       else if sc \<notin> set (se_connected (session_of s i))
       then on_session i (\<lambda>x. x\<lparr>se_connected := sc # se_connected x\<rparr>) s
       else if se_reconnect (session_of s i) \<noteq> None then s
       else on_session i (se_reconnect_update (\<lambda>_. Some sc)) s)"

definition scope_name :: "scope \<Rightarrow> string" where
  "scope_name sc = (case sc of ScopeAccount \<Rightarrow> ''account'' | ScopePositions \<Rightarrow> ''positions'' | ScopeOrders \<Rightarrow> ''orders'')"

definition reconnect_timer :: "sync_env \<Rightarrow> nat \<Rightarrow> sync_state \<Rightarrow> sync_state" where
  "reconnect_timer env i s = (case se_reconnect (session_of s i) of None \<Rightarrow> s
   | Some sc \<Rightarrow> let s = on_session i (se_reconnect_update (\<lambda>_. None)) s in
       if current i s then loadSnapshots env i (scope_name sc @ '' stream reconnected'') s else s)"

section \<open>Selecting an account\<close>

text \<open>The clean-up of the effect: nothing more is delivered to the session, its timers are cleared.\<close>

definition leave :: "nat \<Rightarrow> sync_state \<Rightarrow> sync_state" where
  "leave i s = (let s = on_session i (\<lambda>x. x\<lparr>se_active := False, se_reconnect := None, se_historyLag := False\<rparr>) s
     in s\<lparr>sn_tracker := offAdvance i (sn_tracker s)\<rparr>)"

definition leave_active :: "sync_state \<Rightarrow> sync_state" where
  "leave_active s = fold (\<lambda>i s. if se_active (session_of s i) then leave i s else s) [0..<length (sn_sessions s)] s"

definition reset_gates :: "session \<Rightarrow> session" where
  "reset_gates x = x\<lparr>se_accountGate := reset_gate (se_accountGate x), se_positionsGate := reset_gate (se_positionsGate x),
     se_ordersGate := reset_gate (se_ordersGate x)\<rparr>"

text \<open>A new generation: its listeners are called, then the account-scoped data is wiped.\<close>

definition new_generation :: "sync_state \<Rightarrow> sync_state" where
  "new_generation s = (let ((generation, listeners), tracker) = advance (sn_tracker s);
       s = fold (\<lambda>l. on_session l reset_gates) listeners (s\<lparr>sn_tracker := tracker\<rparr>)
     in put [QuotesCleared, SymbolCacheCleared] (on_store (resetForAccountSwitch generation) s))"

definition select_account :: "sync_env \<Rightarrow> string \<Rightarrow> sync_state \<Rightarrow> sync_state" where
  "select_account env login s =
     (let s = leave_active s in
      if login = '''' then s
      else let s = new_generation s;
          i = length (sn_sessions s);
          s = s\<lparr>sn_sessions := sn_sessions s @ [new_session login (gt_current (sn_tracker s))]\<rparr>;
          s = loadSnapshots env i ''account selected'' s
        in s\<lparr>sn_tracker := Session.onAdvance i (sn_tracker s)\<rparr>)"

text \<open>
  The authentication boundary, an effect of \<^verbatim>\<open>frontend/src/app/App.tsx\<close>: while no one is
  signed in, everything that belongs to an account is wiped.
\<close>

definition signed_out :: "sync_state \<Rightarrow> sync_state" where
  "signed_out s = put [CapabilitiesReset, QueriesCleared] (new_generation s)"

text \<open>A trade was accepted: the reconciler of the session in force reloads.\<close>

definition reconcile :: "sync_env \<Rightarrow> string \<Rightarrow> sync_state \<Rightarrow> sync_state" where
  "reconcile env reason s = (case sn_sessions s of [] \<Rightarrow> s
   | _ \<Rightarrow> let i = length (sn_sessions s) - 1 in
       if se_active (session_of s i) then loadSnapshots env i reason s else s)"

section \<open>Events\<close>

datatype sync_event =
    Select string
  | SignedOut
  | AccountFrame nat js_value int
  | PositionsFrame nat js_value int
  | OrdersFrame nat js_value int
  | Status nat scope connection_state
  | Loaded nat nat snapshots
  | LoadFailed nat nat
  | ReconnectTimerFired nat
  | HistoryTimerFired nat
  | Reconcile string
  | Patch account_object int

fun session_event :: "sync_event \<Rightarrow> nat option" where
  "session_event (AccountFrame i _ _) = Some i"
| "session_event (PositionsFrame i _ _) = Some i"
| "session_event (OrdersFrame i _ _) = Some i"
| "session_event (Status i _ _) = Some i"
| "session_event (Loaded i _ _) = Some i"
| "session_event (LoadFailed i _) = Some i"
| "session_event (ReconnectTimerFired i) = Some i"
| "session_event (HistoryTimerFired i) = Some i"
| "session_event _ = None"

fun handle :: "sync_env \<Rightarrow> sync_event \<Rightarrow> sync_state \<Rightarrow> sync_state" where
  "handle env (Select login) s = select_account env login s"
| "handle env SignedOut s = signed_out s"
| "handle env (AccountFrame i f t) s = account_frame env i f t s"
| "handle env (PositionsFrame i f t) s = positions_frame env i f t s"
| "handle env (OrdersFrame i f t) s = orders_frame env i f t s"
| "handle env (Status i sc c) s = onConnection i sc c s"
| "handle env (Loaded i n r) s = loaded env i n r s"
| "handle env (LoadFailed i n) s = load_failed env i n s"
| "handle env (ReconnectTimerFired i) s = reconnect_timer env i s"
| "handle env (HistoryTimerFired i) s = history_timer i s"
| "handle env (Reconcile reason) s = reconcile env reason s"
| "handle env (Patch patch t) s = on_store (patchAccount patch t) s"

inductive sync_reachable :: "sync_state \<Rightarrow> bool" where
  start: "sync_reachable initial_sync"
| event: "sync_reachable s \<Longrightarrow> (\<And>i. session_event e = Some i \<Longrightarrow> i < length (sn_sessions s)) \<Longrightarrow>
    sync_reachable (handle env e s)"


section \<open>Generations\<close>

definition gens :: "sync_state \<Rightarrow> nat list \<times> nat \<times> nat" where
  "gens s = (map se_generation (sn_sessions s), gt_current (sn_tracker s), ts_generation (sn_store s))"

definition sync_ok :: "sync_state \<Rightarrow> bool" where
  "sync_ok s = (case gens s of (gs, now, st) \<Rightarrow> st = now \<and> sorted_wrt (<) gs \<and> (\<forall>g\<in>set gs. g \<le> now))"

lemma store_generation [simp]:
  "ts_generation (applyAccount a g t s) = ts_generation s"
  "ts_generation (applyPositions ps g t s) = ts_generation s"
  "ts_generation (applyOrders os g t s) = ts_generation s"
  "ts_generation (setConnection sc c s) = ts_generation s"
  "ts_generation (setInitialLoadPending b s) = ts_generation s"
  "ts_generation (patchAccount p t s) = ts_generation s"
  by (simp_all add: applyAccount_def applyPositions_def applyOrders_def setConnection_def setInitialLoadPending_def
      patchAccount_def split: scope.splits option.splits prod.splits)

lemma apply_snapshots_generation [simp]: "ts_generation (apply_snapshots env g t r s) = ts_generation s"
  by (simp add: apply_snapshots_def Let_def)

lemma gens_put [simp]: "gens (put os s) = gens s"
  by (simp add: gens_def put_def)

lemma gens_store [simp]: "(\<And>t. ts_generation (f t) = ts_generation t) \<Longrightarrow> gens (on_store f s) = gens s"
  by (simp add: gens_def on_store_def)

lemma gens_session [simp]: "(\<And>x. se_generation (f x) = se_generation x) \<Longrightarrow> gens (on_session i f s) = gens s"
  by (cases "i < length (sn_sessions s)") (simp_all add: gens_def on_session_def map_update list_update_same_conv list_update_beyond)

lemma gens_frames [simp]:
  "gens (applyAccountFrame env i f t s) = gens s"
  "gens (applyPositionsFrame env i f t s) = gens s"
  "gens (applyOrdersFrame env i f t s) = gens s"
  by (simp_all add: applyAccountFrame_def applyPositionsFrame_def applyOrdersFrame_def split: option.splits)

lemma gens_releases [simp]:
  "gens (release_account env i s) = gens s"
  "gens (release_positions env i s) = gens s"
  "gens (release_orders env i s) = gens s"
  by (simp_all add: release_account_def release_positions_def release_orders_def release_def Let_def
      split: option.splits prod.splits)

lemma gens_release [simp]: "gens (release_gates env i s) = gens s"
  by (simp add: release_gates_def)

lemma gens_load [simp]: "gens (loadSnapshots env i reason s) = gens s" "gens (refreshHistory i s) = gens s"
    "gens (take_pending i n s) = gens s"
  by (simp_all add: loadSnapshots_def refreshHistory_def take_pending_def)

lemma gens_tracker: "gt_current t = gt_current (sn_tracker s) \<Longrightarrow> gens (s\<lparr>sn_tracker := t\<rparr>) = gens s"
  by (simp add: gens_def)

lemma gens_leave [simp]: "gens (leave i s) = gens s"
proof -
  have "gens (leave i s) = gens (on_session i (\<lambda>x. x\<lparr>se_active := False, se_reconnect := None, se_historyLag := False\<rparr>) s)"
    unfolding leave_def Let_def by (rule gens_tracker) (simp add: offAdvance_def)
  then show ?thesis by simp
qed

lemma gens_leave_active [simp]: "gens (leave_active s) = gens s"
proof -
  have "gens (fold (\<lambda>i s. if se_active (session_of s i) then leave i s else s) xs t) = gens t" for xs t
    by (induction xs arbitrary: t) simp_all
  then show ?thesis by (simp add: leave_active_def)
qed

lemma gens_new: "gens (new_generation s) = (map se_generation (sn_sessions s), gt_current (sn_tracker s) + 1, gt_current (sn_tracker s) + 1)"
proof -
  have reset: "gens (fold (\<lambda>l. on_session l reset_gates) ls t) = gens t" for ls t
    by (induction ls arbitrary: t) (simp_all add: reset_gates_def)
  let ?s = "fold (\<lambda>l. on_session l reset_gates) (gt_listeners (sn_tracker s)) (s\<lparr>sn_tracker := snd (advance (sn_tracker s))\<rparr>)"
  have "map se_generation (sn_sessions ?s) = map se_generation (sn_sessions s)" "gt_current (sn_tracker ?s) = gt_current (sn_tracker s) + 1"
    using reset [of "gt_listeners (sn_tracker s)" "s\<lparr>sn_tracker := snd (advance (sn_tracker s))\<rparr>"]
    by (simp_all add: gens_def advance_def Let_def)
  moreover have "new_generation s = put [QuotesCleared, SymbolCacheCleared]
      (on_store (resetForAccountSwitch (gt_current (sn_tracker s) + 1)) ?s)"
    by (simp add: new_generation_def advance_def Let_def)
  ultimately show ?thesis by (simp add: gens_def put_def on_store_def resetForAccountSwitch_def)
qed

lemma handle_gens: "(case e of Select _ \<Rightarrow> False | SignedOut \<Rightarrow> False | _ \<Rightarrow> True) \<Longrightarrow> gens (handle env e s) = gens s"
  by (cases e)
    (simp_all add: account_frame_def positions_frame_def orders_frame_def onConnection_def loaded_def load_failed_def
      reconnect_timer_def history_timer_def reconcile_def Let_def split: option.splits list.splits prod.splits)

lemma handle_ok: "sync_ok s \<Longrightarrow> sync_ok (handle env e s)"
proof -
  assume ok: "sync_ok s"
  consider "case e of Select _ \<Rightarrow> False | SignedOut \<Rightarrow> False | _ \<Rightarrow> True" | "e = SignedOut"
    | login where "e = Select login" by (cases e) auto
  then show ?thesis
  proof cases
    case 1
    then show ?thesis using ok handle_gens [OF 1] by (simp add: sync_ok_def)
  next
    case 2
    then show ?thesis using ok by (auto simp: signed_out_def sync_ok_def gens_new) (auto simp: gens_def le_Suc_eq)
  next
    case 3
    define s1 where "s1 = leave_active s"
    have ok1: "sync_ok s1" using ok by (simp add: sync_ok_def s1_def)
    show ?thesis
    proof (cases "login = ''''")
      case True
      then show ?thesis using 3 ok1 by (simp add: select_account_def s1_def)
    next
      case False
      define s2 where "s2 = new_generation s1"
      define s3 where "s3 = s2\<lparr>sn_sessions := sn_sessions s2 @ [new_session login (gt_current (sn_tracker s2))]\<rparr>"
      have g2: "gens s2 = (map se_generation (sn_sessions s1), gt_current (sn_tracker s1) + 1, gt_current (sn_tracker s1) + 1)"
        by (simp add: s2_def gens_new)
      have "gens s3 = (map se_generation (sn_sessions s1) @ [gt_current (sn_tracker s1) + 1],
          gt_current (sn_tracker s1) + 1, gt_current (sn_tracker s1) + 1)"
        using g2 by (simp add: s3_def gens_def new_session_def)
      moreover have "gens (handle env e s) = gens (loadSnapshots env (length (sn_sessions s2)) ''account selected'' s3)"
      proof -
        let ?l = "loadSnapshots env (length (sn_sessions s2)) ''account selected'' s3"
        have "handle env e s = ?l\<lparr>sn_tracker := Session.onAdvance (length (sn_sessions s2)) (sn_tracker ?l)\<rparr>"
          using 3 False by (simp add: select_account_def Let_def s1_def s2_def s3_def)
        then show ?thesis by (simp add: gens_tracker Session.onAdvance_def)
      qed
      ultimately have g: "gens (handle env e s) = (map se_generation (sn_sessions s1) @ [gt_current (sn_tracker s1) + 1],
          gt_current (sn_tracker s1) + 1, gt_current (sn_tracker s1) + 1)" by simp
      have "sorted_wrt (<) (map se_generation (sn_sessions s1))" "\<forall>g\<in>set (map se_generation (sn_sessions s1)). g \<le> gt_current (sn_tracker s1)"
        using ok1 by (simp_all add: sync_ok_def gens_def)
      then show ?thesis unfolding sync_ok_def g by (auto simp: sorted_wrt_append less_Suc_eq_le)
    qed
  qed
qed

lemma sync_reachable_ok: "sync_reachable s \<Longrightarrow> sync_ok s"
proof (induction rule: sync_reachable.induct)
  case start
  show ?case by (simp add: sync_ok_def gens_def initial_sync_def initial_state_def new_tracker_def)
next
  case (event s e env)
  then show ?case by (simp add: handle_ok)
qed


section \<open>What stale sessions and late answers can do\<close>

text \<open>Nothing but the session itself changed.\<close>

definition only_session :: "nat \<Rightarrow> sync_state \<Rightarrow> sync_state \<Rightarrow> bool" where
  "only_session i s s' = (sn_store s' = sn_store s \<and> sn_out s' = sn_out s \<and> sn_tracker s' = sn_tracker s \<and>
     length (sn_sessions s') = length (sn_sessions s) \<and> (\<forall>j. j \<noteq> i \<longrightarrow> session_of s' j = session_of s j))"

lemma only_refl [simp]: "only_session i s s"
  by (simp add: only_session_def)

lemma only_on_session [simp]: "only_session i s (on_session i f s)"
  by (simp add: only_session_def on_session_def)

lemma current_on_session [simp]: "i < length (sn_sessions s) \<Longrightarrow> (\<And>x. se_generation (f x) = se_generation x) \<Longrightarrow>
    current i (on_session i f s) = current i s"
  by (simp add: current_def on_session_def)

lemma newest_current:
  assumes "sync_reachable s" "i < j" "j < length (sn_sessions s)"
  shows "\<not> current i s"
proof -
  have "se_generation (session_of s i) < se_generation (session_of s j)" "se_generation (session_of s j) \<le> gt_current (sn_tracker s)"
    using sync_reachable_ok [OF assms(1)] assms(2,3) by (auto simp: sync_ok_def gens_def sorted_wrt_iff_nth_less)
  then show ?thesis by (simp add: current_def isCurrent_def)
qed

text \<open>C3. An account that was left can do nothing to the one on screen: at most the newest session is
  current, and any event of a session that is not (a frame still in the air, a REST response, a
  connection report, a reconnect or history timer) changes neither the trading store, nor the
  generation, nor any other session, and emits nothing; signing out makes every session such.\<close>

theorem stale_session_harmless:
  assumes "sync_reachable s" "session_event e = Some i" "i < length (sn_sessions s)"
    "i \<noteq> length (sn_sessions s) - 1 \<or> \<not> current i s"
  shows "only_session i s (handle env e s) \<and> (\<forall>j<length (sn_sessions s). \<not> current j (handle env SignedOut s))"
proof
  have stale: "\<not> current i s" 
  proof (cases "i = length (sn_sessions s) - 1")
    case False
    then show ?thesis using assms(3) by (intro newest_current [OF assms(1), of i "length (sn_sessions s) - 1"]) simp_all
  qed (use assms(4) in simp)
  show "only_session i s (handle env e s)" using assms(2,3) stale
    by (cases e)
      (simp_all add: account_frame_def positions_frame_def orders_frame_def applyAccountFrame_def applyPositionsFrame_def
        applyOrdersFrame_def onConnection_def loaded_def load_failed_def superseded_def take_pending_def reconnect_timer_def
        history_timer_def Let_def split: option.splits prod.splits)
  show "\<forall>j<length (sn_sessions s). \<not> current j (handle env SignedOut s)"
  proof (intro allI impI)
    fix j assume "j < length (sn_sessions s)"
    then have "se_generation (session_of s j) \<le> gt_current (sn_tracker s)"
      using sync_reachable_ok [OF assms(1)] by (auto simp: sync_ok_def gens_def)
    moreover have g: "gens (handle env SignedOut s) =
        (map se_generation (sn_sessions s), gt_current (sn_tracker s) + 1, gt_current (sn_tracker s) + 1)"
      by (simp add: signed_out_def gens_new)
    moreover have "se_generation (session_of (handle env SignedOut s) j) = se_generation (session_of s j)"
    proof -
      have m: "map se_generation (sn_sessions (handle env SignedOut s)) = map se_generation (sn_sessions s)"
        using g by (simp add: gens_def)
      then have "length (sn_sessions (handle env SignedOut s)) = length (sn_sessions s)" by (rule map_eq_imp_length_eq)
      then show ?thesis using m \<open>j < length (sn_sessions s)\<close> by (metis nth_map)
    qed
    ultimately show "\<not> current j (handle env SignedOut s)" by (simp add: current_def isCurrent_def gens_def)
  qed
qed

text \<open>A slow response never rolls the terminal back: when a newer reconciliation was requested, the answer
  of the older one, arriving late, changes nothing outside its session's list of pending requests.\<close>

theorem late_response_dropped:
  assumes "sync_reachable s" "i < length (sn_sessions s)" "n \<noteq> se_sequence (session_of s i)"
  shows "sn_store (handle env (Loaded i n r) s) = sn_store s \<and> sn_out (handle env (Loaded i n r) s) = sn_out s \<and>
    sn_store (handle env (LoadFailed i n) s) = sn_store s \<and> sn_out (handle env (LoadFailed i n) s) = sn_out s \<and>
    (let x = session_of (handle env (Loaded i n r) s) i in
      se_accountGate x = se_accountGate (session_of s i) \<and> se_positionsGate x = se_positionsGate (session_of s i) \<and>
      se_ordersGate x = se_ordersGate (session_of s i) \<and> se_sequence x = se_sequence (session_of s i))"
proof -
  have "se_sequence (session_of (take_pending i n s) i) = se_sequence (session_of s i)"
      "sn_store (take_pending i n s) = sn_store s" "sn_out (take_pending i n s) = sn_out s"
    using assms(2) by (simp_all add: take_pending_def on_session_def)
  then show ?thesis using assms
    by (auto simp: loaded_def load_failed_def superseded_def Let_def take_pending_def on_session_def split: option.splits)
qed


section \<open>Snapshot, then the buffered frame\<close>

text \<open>What a handler leaves alone: the positions and orders for the account's, and so on.\<close>

lemma map_sessions [simp]:
  "sn_sessions (on_store f s) = sn_sessions s" "sn_sessions (put os s) = sn_sessions s"
  "sn_store (put os s) = sn_store s" "sn_store (on_session i g s) = sn_store s"
  "sn_store (on_store f s) = f (sn_store s)" "sn_tracker (on_store f s) = sn_tracker s" "sn_tracker (put os s) = sn_tracker s"
  "sn_tracker (on_session i g s) = sn_tracker s" "length (sn_sessions (on_session i g s)) = length (sn_sessions s)"
  "i < length (sn_sessions s) \<Longrightarrow> session_of (on_session i g s) i = g (session_of s i)"
  by (simp_all add: on_store_def put_def on_session_def)

lemma current_frame [simp]: "current i (on_store f s) = current i s" "current i (put os s) = current i s"
  by (simp_all add: current_def)

lemma account_leaves:
  "ts_positions (applyAccount a g t s) = ts_positions s" "ts_orders (applyAccount a g t s) = ts_orders s"
  "ts_positionsFreshness (applyAccount a g t s) = ts_positionsFreshness s"
  "ts_ordersFreshness (applyAccount a g t s) = ts_ordersFreshness s"
  "ts_initialLoadPending (applyAccount a g t s) = ts_initialLoadPending s"
  by (simp_all add: applyAccount_def split: prod.splits)

lemma positions_leaves:
  "ts_orders (applyPositions a g t s) = ts_orders s" "ts_ordersFreshness (applyPositions a g t s) = ts_ordersFreshness s"
  "ts_initialLoadPending (applyPositions a g t s) = ts_initialLoadPending s"
  by (simp_all add: applyPositions_def)

lemma orders_leaves:
  "ts_positions (applyOrders a g t s) = ts_positions s" "ts_initialLoadPending (applyOrders a g t s) = ts_initialLoadPending s"
  by (simp_all add: applyOrders_def)

lemma release_account_leaves:
  assumes "i < length (sn_sessions s)"
  shows "ts_positions (sn_store (release_account env i s)) = ts_positions (sn_store s)"
    "ts_orders (sn_store (release_account env i s)) = ts_orders (sn_store s)"
    "ts_initialLoadPending (sn_store (release_account env i s)) = ts_initialLoadPending (sn_store s)"
    "ts_generation (sn_store (release_account env i s)) = ts_generation (sn_store s)"
    "sn_tracker (release_account env i s) = sn_tracker s"
    "length (sn_sessions (release_account env i s)) = length (sn_sessions s)"
    "session_of (release_account env i s) i =
      (session_of s i)\<lparr>se_accountGate := snd (release (se_accountGate (session_of s i)))\<rparr>"
  using assms by (simp_all add: release_account_def applyAccountFrame_def release_def account_leaves Let_def
      split: option.splits prod.splits)

lemma release_positions_does:
  assumes "i < length (sn_sessions s)" "current i s" "ts_generation (sn_store s) = se_generation (session_of s i)"
  shows "ts_positions (sn_store (release_positions env i s)) =
      (case Option.bind (ga_buffered (se_positionsGate (session_of s i))) (\<lambda>(f, _). en_positions env f) of
         None \<Rightarrow> ts_positions (sn_store s) | Some ps \<Rightarrow> List.map_filter id ps)"
    "ts_orders (sn_store (release_positions env i s)) = ts_orders (sn_store s)"
    "ts_initialLoadPending (sn_store (release_positions env i s)) = ts_initialLoadPending (sn_store s)"
    "ts_generation (sn_store (release_positions env i s)) = ts_generation (sn_store s)"
    "sn_tracker (release_positions env i s) = sn_tracker s"
    "length (sn_sessions (release_positions env i s)) = length (sn_sessions s)"
    "session_of (release_positions env i s) i =
      (session_of s i)\<lparr>se_positionsGate := snd (release (se_positionsGate (session_of s i)))\<rparr>"
  using assms by (auto simp: release_positions_def applyPositionsFrame_def release_def positions_leaves applyPositions_def Let_def
      split: option.splits prod.splits)

text \<open>The orders of a frame, unless one of them lacks its side.\<close>

definition sided_orders :: "sync_env \<Rightarrow> js_value \<Rightarrow> trading_order list option" where
  "sided_orders env f = (case en_orders env f of None \<Rightarrow> None
     | Some os \<Rightarrow> if list_ex fst os then None else Some (List.map_filter snd os))"

lemma release_orders_does:
  assumes "i < length (sn_sessions s)" "current i s" "ts_generation (sn_store s) = se_generation (session_of s i)"
  shows "ts_orders (sn_store (release_orders env i s)) =
      (case Option.bind (ga_buffered (se_ordersGate (session_of s i))) (\<lambda>(f, _). sided_orders env f) of
         None \<Rightarrow> ts_orders (sn_store s) | Some os \<Rightarrow> os)"
    "ts_positions (sn_store (release_orders env i s)) = ts_positions (sn_store s)"
    "ts_initialLoadPending (sn_store (release_orders env i s)) = ts_initialLoadPending (sn_store s)"
    "sn_tracker (release_orders env i s) = sn_tracker s"
    "length (sn_sessions (release_orders env i s)) = length (sn_sessions s)"
    "se_accountGate (session_of (release_orders env i s) i) = se_accountGate (session_of s i)"
    "se_positionsGate (session_of (release_orders env i s) i) = se_positionsGate (session_of s i)"
    "se_generation (session_of (release_orders env i s) i) = se_generation (session_of s i)"
    "ga_open (se_ordersGate (session_of (release_orders env i s) i))"
  using assms by (auto simp: release_orders_def applyOrdersFrame_def release_def sided_orders_def applyOrders_def Let_def
      orders_leaves split: option.splits prod.splits)


lemma apply_snapshots_does:
  assumes "g = ts_generation t"
  shows "ts_positions (apply_snapshots env g startedAt r t) =
      (if shouldApplyRestSnapshot (fr_updatedAt (ts_positionsFreshness t)) startedAt then sp_positions r else ts_positions t)"
    "ts_orders (apply_snapshots env g startedAt r t) =
      (if shouldApplyRestSnapshot (fr_updatedAt (ts_ordersFreshness t)) startedAt then sp_orders r else ts_orders t)"
    "ts_initialLoadPending (apply_snapshots env g startedAt r t) = False"
proof -
  have p: "ts_positions (applyPositions ps h u t') = (if h = ts_generation t' then ps else ts_positions t')"
      "ts_orders (applyOrders os h u t') = (if h = ts_generation t' then os else ts_orders t')" for ps os h u t'
    by (simp_all add: applyPositions_def applyOrders_def)
  show "ts_positions (apply_snapshots env g startedAt r t) =
      (if shouldApplyRestSnapshot (fr_updatedAt (ts_positionsFreshness t)) startedAt then sp_positions r else ts_positions t)"
    "ts_orders (apply_snapshots env g startedAt r t) =
      (if shouldApplyRestSnapshot (fr_updatedAt (ts_ordersFreshness t)) startedAt then sp_orders r else ts_orders t)"
    "ts_initialLoadPending (apply_snapshots env g startedAt r t) = False"
    using assms by (simp_all add: apply_snapshots_def Let_def setInitialLoadPending_def p account_leaves positions_leaves orders_leaves)
qed

lemma refresh_leaves: "sn_store (refreshHistory i s) = sn_store s"
    "i < length (sn_sessions s) \<Longrightarrow> se_accountGate (session_of (refreshHistory i s) i) = se_accountGate (session_of s i)"
    "i < length (sn_sessions s) \<Longrightarrow> se_positionsGate (session_of (refreshHistory i s) i) = se_positionsGate (session_of s i)"
    "i < length (sn_sessions s) \<Longrightarrow> se_ordersGate (session_of (refreshHistory i s) i) = se_ordersGate (session_of s i)"
  by (simp_all add: refreshHistory_def)

lemma release_open: "ga_open (snd (release g))"
  by (simp add: release_def)



section \<open>Examples\<close>

text \<open>Account 1 was selected, then account 2; one response of account 1 is still in the air.\<close>

definition sample_sync_env :: sync_env where
  "sample_sync_env = \<lparr>en_account = (\<lambda>_ _. Some [(''login'', JStr ''1'')]), en_positions = (\<lambda>_. Some [None]),
     en_orders = (\<lambda>_. Some []), en_readOnly = False, en_now = 5000\<rparr>"

definition sample_sync :: sync_state where
  "sample_sync = handle sample_sync_env (Select ''2'') (handle sample_sync_env (Select ''1'') initial_sync)"

definition sample_snapshots :: snapshots where
  "sample_snapshots = \<lparr>sp_account = [(''login'', JStr ''1'')], sp_positions = [], sp_orders = [], sp_tradeDisabled = None\<rparr>"

lemma sample_sync_reachable: "sync_reachable sample_sync"
  unfolding sample_sync_def by (intro sync_reachable.intros) simp_all

theorem stale_session_harmless_witness:
  "only_session 0 sample_sync (handle sample_sync_env (Loaded 0 1 sample_snapshots) sample_sync) \<and>
   ts_account (sn_store sample_sync) = None \<and> pending_load 0 1 sample_sync = Some (5000, ''account selected'')"
proof -
  have n: "length (sn_sessions sample_sync) = 2" "ts_account (sn_store sample_sync) = None"
      "pending_load 0 1 sample_sync = Some (5000, ''account selected'')" by code_simp+
  then show ?thesis
    using stale_session_harmless [OF sample_sync_reachable, of "Loaded 0 1 sample_snapshots" 0 sample_sync_env] by simp
qed

definition sample_reload :: sync_state where
  "sample_reload = handle sample_sync_env (Reconcile ''trade'') sample_sync"

lemma sample_reload_reachable: "sync_reachable sample_reload"
  unfolding sample_reload_def by (intro sync_reachable.intros sample_sync_reachable) simp_all

theorem late_response_dropped_witness:
  "sn_store (handle sample_sync_env (Loaded 1 1 sample_snapshots) sample_reload) = sn_store sample_reload \<and>
   pending_load 1 1 sample_reload = Some (5000, ''account selected'')"
proof -
  have "length (sn_sessions sample_reload) = 2" "se_sequence (session_of sample_reload 1) = 2"
      "pending_load 1 1 sample_reload = Some (5000, ''account selected'')" by code_simp+
  then show ?thesis using late_response_dropped [OF sample_reload_reachable, of 1 1 sample_sync_env sample_snapshots] by simp
qed


end
