(* ===== verification/OrderDraft.thy ===== *)
theory OrderDraft
  imports Brackets JsText
begin

text \<open>
  The working draft of the order ticket, \<^verbatim>\<open>frontend/src/stores/order-draft-store.ts\<close>:
  its actions, and what of it survives a reload. The store mirrors itself into the session storage on
  every change; the storage's text and \<^verbatim>\<open>JSON.parse\<close> are arguments.
\<close>

record order_draft =
  od_kind :: order_kind
  od_volume :: string
  od_price :: string
  od_stopLoss :: string
  od_stopLossUnit :: bracket_unit
  od_takeProfit :: string
  od_takeProfitUnit :: bracket_unit
  od_appliedFrom :: "string option"
  od_side :: "side option"
  od_symbol :: "string option"
  od_volumeBySymbol :: "(string \<times> string) list"

text \<open>A \<^verbatim>\<open>Partial<OrderDraft>\<close>: the fields that are present.\<close>

record draft_patch =
  dp_kind :: "order_kind option"
  dp_volume :: "string option"
  dp_price :: "string option"
  dp_stopLoss :: "string option"
  dp_stopLossUnit :: "bracket_unit option"
  dp_takeProfit :: "string option"
  dp_takeProfitUnit :: "bracket_unit option"
  dp_appliedFrom :: "string option option"
  dp_side :: "side option option"
  dp_symbol :: "string option"
  dp_volumeBySymbol :: "(string \<times> string) list option"

definition no_patch :: draft_patch where
  "no_patch = \<lparr>dp_kind = None, dp_volume = None, dp_price = None, dp_stopLoss = None, dp_stopLossUnit = None,
     dp_takeProfit = None, dp_takeProfitUnit = None, dp_appliedFrom = None, dp_side = None, dp_symbol = None,
     dp_volumeBySymbol = None\<rparr>"

definition INITIAL :: order_draft where
  "INITIAL = \<lparr>od_kind = Market, od_volume = ''0.01'', od_price = '''', od_stopLoss = '''', od_stopLossUnit = UPrice,
     od_takeProfit = '''', od_takeProfitUnit = UPrice, od_appliedFrom = None, od_side = None, od_symbol = None,
     od_volumeBySymbol = []\<rparr>"

definition set_draft :: "draft_patch \<Rightarrow> order_draft \<Rightarrow> order_draft" where
  "set_draft p d = \<lparr>od_kind = or_else (dp_kind p) (od_kind d), od_volume = or_else (dp_volume p) (od_volume d),
     od_price = or_else (dp_price p) (od_price d), od_stopLoss = or_else (dp_stopLoss p) (od_stopLoss d),
     od_stopLossUnit = or_else (dp_stopLossUnit p) (od_stopLossUnit d),
     od_takeProfit = or_else (dp_takeProfit p) (od_takeProfit d),
     od_takeProfitUnit = or_else (dp_takeProfitUnit p) (od_takeProfitUnit d),
     od_appliedFrom = or_else (dp_appliedFrom p) (od_appliedFrom d), od_side = or_else (dp_side p) (od_side d),
     od_symbol = (case dp_symbol p of None \<Rightarrow> od_symbol d | Some s \<Rightarrow> Some s),
     od_volumeBySymbol = or_else (dp_volumeBySymbol p) (od_volumeBySymbol d)\<rparr>"

section \<open>Persistence\<close>

definition kind_text :: "order_kind \<Rightarrow> string" where
  "kind_text k = (case k of Market \<Rightarrow> ''market'' | Limit \<Rightarrow> ''limit'' | Stop \<Rightarrow> ''stop'' | StopLimit \<Rightarrow> ''stop-limit'')"

definition unit_text :: "bracket_unit \<Rightarrow> string" where
  "unit_text u = (case u of UPrice \<Rightarrow> ''price'' | UPips \<Rightarrow> ''pips'' | UPercent \<Rightarrow> ''percent'' | UMoney \<Rightarrow> ''money'')"

text \<open>What is written to the storage on every change.\<close>

definition draft_snapshot :: "order_draft \<Rightarrow> js_value" where
  "draft_snapshot d = JObj [(''kind'', JStr (kind_text (od_kind d))), (''volume'', JStr (od_volume d)),
     (''price'', JStr (od_price d)), (''stopLoss'', JStr (od_stopLoss d)),
     (''stopLossUnit'', JStr (unit_text (od_stopLossUnit d))), (''takeProfit'', JStr (od_takeProfit d)),
     (''takeProfitUnit'', JStr (unit_text (od_takeProfitUnit d))),
     (''volumeBySymbol'', JObj (map (\<lambda>(s, v). (s, JStr v)) (od_volumeBySymbol d))),
     (''symbol'', case od_symbol d of None \<Rightarrow> JNull | Some s \<Rightarrow> JStr s)]"

text \<open>
  \<open>raw\<close> is what \<^verbatim>\<open>getItem\<close> gives: nothing if the storage throws, \<open>Some None\<close> if the
  key is absent. An array passes for an object and has none of the fields.
\<close>

definition readPersistedDraft :: "(string \<Rightarrow> js_value option) \<Rightarrow> string option option \<Rightarrow> (string \<times> js_value) list" where
  "readPersistedDraft parse raw = (case raw of
     Some (Some text) \<Rightarrow> if text = '''' then [] else
       (case parse text of Some (JObj fs) \<Rightarrow> fs | _ \<Rightarrow> [])
   | _ \<Rightarrow> [])"

definition str_field :: "(string \<times> js_value) list \<Rightarrow> string \<Rightarrow> string option" where
  "str_field raw k = (case map_of raw k of Some (JStr s) \<Rightarrow> Some s | _ \<Rightarrow> None)"

definition unit_field :: "(string \<times> js_value) list \<Rightarrow> string \<Rightarrow> bracket_unit option" where
  "unit_field raw k = (case str_field raw k of None \<Rightarrow> None
     | Some v \<Rightarrow> if v = ''price'' then Some UPrice else if v = ''pips'' then Some UPips
         else if v = ''percent'' then Some UPercent else if v = ''money'' then Some UMoney else None)"

text \<open>\<^verbatim>\<open>Object.entries\<close>\<close>

definition js_entries :: "js_value \<Rightarrow> (string \<times> js_value) list option" where
  "js_entries v = (case v of JObj fs \<Rightarrow> Some fs
     | JArr vs \<Rightarrow> Some (zip (map (\<lambda>i. show_int (int i)) [0..<length vs]) vs) | _ \<Rightarrow> None)"

definition text_entries :: "(string \<times> js_value) list \<Rightarrow> (string \<times> string) list" where
  "text_entries es = List.map_filter (\<lambda>(k, v). case v of JStr s \<Rightarrow> Some (k, s) | _ \<Rightarrow> None) es"

definition sanitise :: "(string \<times> js_value) list \<Rightarrow> draft_patch" where
  "sanitise raw = no_patch\<lparr>
     dp_kind := (case str_field raw ''kind'' of None \<Rightarrow> None
       | Some k \<Rightarrow> if k = ''market'' then Some Market else if k = ''limit'' then Some Limit
           else if k = ''stop'' then Some Stop else None),
     dp_volume := str_field raw ''volume'', dp_price := str_field raw ''price'',
     dp_stopLoss := str_field raw ''stopLoss'', dp_takeProfit := str_field raw ''takeProfit'',
     dp_symbol := str_field raw ''symbol'',
     dp_stopLossUnit := unit_field raw ''stopLossUnit'', dp_takeProfitUnit := unit_field raw ''takeProfitUnit'',
     dp_volumeBySymbol := map_option text_entries (Option.bind (map_of raw ''volumeBySymbol'') js_entries)\<rparr>"

text \<open>The store as it is created on load.\<close>

definition load_draft :: "(string \<Rightarrow> js_value option) \<Rightarrow> string option option \<Rightarrow> order_draft" where
  "load_draft parse raw = set_draft (sanitise (readPersistedDraft parse raw)) INITIAL"

section \<open>Actions\<close>

definition adoptSymbol :: "string \<Rightarrow> order_draft \<Rightarrow> order_draft" where
  "adoptSymbol symbol d = (if od_symbol d = Some symbol then d
     else if od_symbol d \<noteq> None
     then d\<lparr>od_symbol := Some symbol, od_volume := or_else (map_of (od_volumeBySymbol d) symbol) (od_volume INITIAL),
       od_price := '''', od_stopLoss := '''', od_takeProfit := '''', od_appliedFrom := None, od_side := None\<rparr>
     else d\<lparr>od_symbol := Some symbol\<rparr>)"

definition truthy_text :: "string option \<Rightarrow> string option" where
  "truthy_text t = (case t of Some s \<Rightarrow> if s = '''' then None else Some s | None \<Rightarrow> None)"

definition resetForSymbol :: "string option \<Rightarrow> string option \<Rightarrow> order_draft \<Rightarrow> order_draft" where
  "resetForSymbol leaving entering d =
     (let remembered = (case truthy_text leaving of None \<Rightarrow> od_volumeBySymbol d
          | Some l \<Rightarrow> alist_set l (od_volume d) (od_volumeBySymbol d))
      in d\<lparr>od_volumeBySymbol := remembered,
        od_volume := or_else (Option.bind (truthy_text entering) (map_of remembered)) (od_volume INITIAL),
        od_symbol := entering, od_price := '''', od_stopLoss := '''', od_takeProfit := '''',
        od_appliedFrom := None, od_side := None\<rparr>)"

definition seedMinimumVolume :: "string \<Rightarrow> string \<Rightarrow> order_draft \<Rightarrow> order_draft" where
  "seedMinimumVolume symbol minimum d =
     (if od_symbol d \<noteq> Some symbol \<or> map_of (od_volumeBySymbol d) symbol \<noteq> None then d
      else if od_volume d \<noteq> od_volume INITIAL then d
      else let m = js_Number minimum in
        if \<not> js_is_finite m \<or> \<not> js_less (js_Number (od_volume INITIAL)) m then d
        else d\<lparr>od_volume := minimum, od_volumeBySymbol := alist_set symbol minimum (od_volumeBySymbol d)\<rparr>)"

definition applyFrom :: "string \<Rightarrow> draft_patch \<Rightarrow> order_draft \<Rightarrow> order_draft" where
  "applyFrom source p d = (set_draft p d)\<lparr>od_appliedFrom := Some source\<rparr>"

definition acknowledgeApplied :: "order_draft \<Rightarrow> order_draft" where
  "acknowledgeApplied d = d\<lparr>od_appliedFrom := None\<rparr>"

section \<open>Properties\<close>

lemma text_entries_snapshot: "text_entries (map (\<lambda>(s, v). (s, JStr v)) vs) = vs"
  by (induction vs) (auto simp: text_entries_def List.map_filter_simps)

lemma unit_field_text: "map_of raw k = Some (JStr (unit_text u)) \<Longrightarrow> unit_field raw k = Some u"
  by (cases u) (simp_all add: unit_field_def str_field_def unit_text_def)

text \<open>A reload is invisible to the ticket: the draft mirrored into the storage and read back is the draft
  itself, every field, price and remembered size of it, except the acknowledgement and the suggested side,
  which are dropped on purpose.\<close>

theorem draft_survives_reload:
  assumes "od_kind d \<noteq> StopLimit" "text \<noteq> ''''" "parse text = Some (draft_snapshot d)"
  shows "load_draft parse (Some (Some text)) = d\<lparr>od_appliedFrom := None, od_side := None\<rparr>"
proof -
  obtain k v p sl slu tp tpu af si sy vs where d: "d = \<lparr>od_kind = k, od_volume = v, od_price = p, od_stopLoss = sl,
      od_stopLossUnit = slu, od_takeProfit = tp, od_takeProfitUnit = tpu, od_appliedFrom = af, od_side = si,
      od_symbol = sy, od_volumeBySymbol = vs\<rparr>" by (cases d)
  have raw: "readPersistedDraft parse (Some (Some text)) = (case draft_snapshot d of JObj fs \<Rightarrow> fs | _ \<Rightarrow> [])"
    using assms by (simp add: readPersistedDraft_def draft_snapshot_def)
  show ?thesis using assms(1) unfolding load_draft_def raw
    by (cases k; cases sy)
      (simp_all add: d draft_snapshot_def sanitise_def str_field_def unit_field_text set_draft_def INITIAL_def
        no_patch_def kind_text_def js_entries_def text_entries_snapshot)
qed

definition sample_draft :: order_draft where
  "sample_draft = INITIAL\<lparr>od_kind := Limit, od_price := ''1.0850'', od_symbol := Some ''EURUSD'', od_volume := ''0.05'',
     od_volumeBySymbol := [(''XAUUSD'', ''0.10'')], od_side := Some Buy\<rparr>"

theorem draft_survives_reload_witness:
  "load_draft (\<lambda>_. Some (draft_snapshot sample_draft)) (Some (Some ''text'')) = sample_draft\<lparr>od_side := None\<rparr>"
proof -
  have "load_draft (\<lambda>_. Some (draft_snapshot sample_draft)) (Some (Some ''text'')) =
      sample_draft\<lparr>od_appliedFrom := None, od_side := None\<rparr>"
    by (rule draft_survives_reload) (simp_all add: sample_draft_def)
  then show ?thesis by (simp add: sample_draft_def INITIAL_def)
qed

text \<open>No number follows the trader to another instrument: moving to another symbol, by a switch or by a
  remount, clears the entry price, both brackets and the suggestion, and sizes the ticket with the new
  symbol's own remembered volume or the default; staying on the symbol changes nothing; and a switch there
  and back restores the size that was left.\<close>

theorem draft_keeps_to_its_symbol:
  assumes "od_symbol d = Some a" "a \<noteq> b" "a \<noteq> ''''" "b \<noteq> ''''"
  shows "let d1 = adoptSymbol b d; d2 = resetForSymbol (Some a) (Some b) d; d3 = resetForSymbol (Some b) (Some a) d2 in
    adoptSymbol a d = d \<and>
    (\<forall>x\<in>{d1, d2}. od_symbol x = Some b \<and> od_price x = '''' \<and> od_stopLoss x = '''' \<and> od_takeProfit x = '''' \<and>
       od_appliedFrom x = None \<and> od_side x = None \<and>
       od_volume x = or_else (map_of (od_volumeBySymbol d) b) ''0.01'') \<and>
    od_volume d3 = od_volume d \<and> map_of (od_volumeBySymbol d3) a = Some (od_volume d)"
  using assms by (simp add: Let_def adoptSymbol_def resetForSymbol_def truthy_text_def INITIAL_def)

theorem draft_keeps_to_its_symbol_witness:
  "od_price (adoptSymbol ''XAUUSD'' sample_draft) = '''' \<and> od_volume (adoptSymbol ''XAUUSD'' sample_draft) = ''0.10''"
proof -
  have pre: "od_symbol sample_draft = Some ''EURUSD''" "''EURUSD'' \<noteq> ''XAUUSD''" "''EURUSD'' \<noteq> ''''" "''XAUUSD'' \<noteq> ''''"
    by (simp_all add: sample_draft_def)
  show ?thesis using draft_keeps_to_its_symbol [OF pre] by (simp add: Let_def sample_draft_def INITIAL_def)
qed

text \<open>
  The remount forgets the size of the symbol it leaves: only a switch remembers it, so a size typed on
  one symbol is lost when the terminal reloads on another, although each symbol is to keep its own.
\<close>

lemma remount_forgets_size:
  assumes "od_symbol d = Some a" "a \<noteq> b" "a \<noteq> ''''" "b \<noteq> ''''" "map_of (od_volumeBySymbol d) a = None"
  shows "od_volume (resetForSymbol (Some b) (Some a) (adoptSymbol b d)) = ''0.01''"
  using assms by (simp add: adoptSymbol_def resetForSymbol_def truthy_text_def INITIAL_def)

text \<open>A size equal to the default is replaced by the instrument's minimum even where the trader typed it.\<close>

lemma typed_default_overwritten:
  assumes "od_symbol d = Some s" "map_of (od_volumeBySymbol d) s = None"
    "js_Number m = Fin x" "js_less (js_Number ''0.01'') (Fin x)"
  shows "od_volume (seedMinimumVolume s m (set_draft (no_patch\<lparr>dp_volume := Some ''0.01''\<rparr>) d)) = m"
  using assms by (simp add: seedMinimumVolume_def set_draft_def no_patch_def INITIAL_def)

end
