(* ===== verification/JsArith.thy ===== *)
theory JsArith
  imports JsFloat
begin

text \<open>
  Arithmetic of JavaScript numbers: \<^verbatim>\<open>+ * /\<close>, \<^verbatim>\<open>Math.min\<close> and \<^verbatim>\<open>Math.max\<close>, each
  result rounded to a double. \<open>is_double\<close> are the values a variable can hold. A zero divisor counts as the
  positive zero, the sign of zero not being represented.
\<close>

fun js_add :: "js_number \<Rightarrow> js_number \<Rightarrow> js_number" where
  "js_add (Fin a) (Fin b) = fl (a + b)"
| "js_add NaN _ = NaN"
| "js_add _ NaN = NaN"
| "js_add PosInf NegInf = NaN"
| "js_add NegInf PosInf = NaN"
| "js_add PosInf _ = PosInf"
| "js_add _ PosInf = PosInf"
| "js_add NegInf _ = NegInf"
| "js_add _ NegInf = NegInf"

fun js_neg :: "js_number \<Rightarrow> js_number" where
  "js_neg (Fin a) = Fin (- a)"
| "js_neg PosInf = NegInf"
| "js_neg NegInf = PosInf"
| "js_neg NaN = NaN"

definition js_sub :: "js_number \<Rightarrow> js_number \<Rightarrow> js_number" where
  "js_sub a b = js_add a (js_neg b)"

text \<open>An infinite value of the sign of \<open>a\<close> times the sign of \<open>b\<close>.\<close>

definition js_sign :: "js_number \<Rightarrow> int" where
  "js_sign a = (case a of Fin x \<Rightarrow> if 0 < x then 1 else if x < 0 then - 1 else 0
     | PosInf \<Rightarrow> 1 | NegInf \<Rightarrow> - 1 | NaN \<Rightarrow> 0)"

definition js_inf :: "int \<Rightarrow> js_number" where
  "js_inf s = (if 0 < s then PosInf else if s < 0 then NegInf else NaN)"

fun js_mul :: "js_number \<Rightarrow> js_number \<Rightarrow> js_number" where
  "js_mul (Fin a) (Fin b) = fl (a * b)"
| "js_mul NaN _ = NaN"
| "js_mul _ NaN = NaN"
| "js_mul a b = js_inf (js_sign a * js_sign b)"

fun js_div :: "js_number \<Rightarrow> js_number \<Rightarrow> js_number" where
  "js_div (Fin a) (Fin b) = (if b = 0 then js_inf (js_sign (Fin a)) else fl (a / b))"
| "js_div NaN _ = NaN"
| "js_div _ NaN = NaN"
| "js_div (Fin a) _ = Fin 0"
| "js_div a (Fin b) = (if b < 0 then js_neg a else a)"
| "js_div _ _ = NaN"

definition js_max :: "js_number \<Rightarrow> js_number \<Rightarrow> js_number" where
  "js_max a b = (if a = NaN \<or> b = NaN then NaN else if js_less a b then b else a)"

definition js_min :: "js_number \<Rightarrow> js_number \<Rightarrow> js_number" where
  "js_min a b = (if a = NaN \<or> b = NaN then NaN else if js_less b a then b else a)"

definition is_double :: "js_number \<Rightarrow> bool" where
  "is_double x = (case x of Fin a \<Rightarrow> fl a = Fin a | _ \<Rightarrow> True)"

section \<open>Rounding is idempotent\<close>

lemma nearest_le_up: "0 < x \<Longrightarrow> nearest x \<le> p2 (ulp_exp x + 53)"
proof -
  assume x: "0 < x"
  have "lg x + 1 \<le> ulp_exp x + 53" by (simp add: ulp_exp_def)
  then have "x \<le> p2 (ulp_exp x + 53)"
    using lg_bounds(2) [of x] p2_mono [of "lg x + 1" "ulp_exp x + 53"] x by simp
  then show ?thesis by (rule nearest_le_p2) simp
qed

lemma fl_idem:
  assumes "0 \<le> x" "fl x = Fin r"
  shows "fl r = Fin r"
proof (cases "x = 0 \<or> r = 0")
  case True
  then show ?thesis using assms(2) by (auto simp: fl_def [of 0])
next
  case False
  then have x: "0 < x" using assms(1) by simp
  then have r: "r = nearest x" "lg r < 1024" using assms(2) False by (auto simp: fl_nearest split: if_splits)
  define m where "m = round_even (x / p2 (ulp_exp x))"
  have rm: "r = of_int m * p2 (ulp_exp x)" by (simp add: r(1) nearest_def m_def)
  have "of_int m * p2 (ulp_exp x) \<le> p2 53 * p2 (ulp_exp x)"
    using nearest_le_up [OF x] rm r(1) by (simp add: p2_add mult.commute)
  then have "(of_int m :: rat) \<le> p2 53" by (simp add: mult_le_cancel_right)
  then have "(of_int m :: rat) \<le> of_int (2 ^ 53)" by (simp add: p2_def)
  then have m: "m \<le> 2 ^ 53" by (simp only: of_int_le_iff)
  have "0 \<le> r" using nearest_nonneg [OF x] r(1) by simp
  then have "0 \<le> m" using rm p2_pos [of "ulp_exp x"] by (metis not_le of_int_0_le_iff zero_le_mult_iff)
  moreover have "- 1074 \<le> ulp_exp x" by (simp add: ulp_exp_def)
  moreover have "\<bar>r\<bar> < p2 1024"
  proof -
    have "\<bar>r\<bar> < p2 (lg r + 1)" using lg_bounds(2) False by blast
    also have "\<dots> \<le> p2 1024" using r(2) by (intro p2_mono) simp
    finally show ?thesis .
  qed
  ultimately show ?thesis using rm m by (intro fl_exact [of r m "ulp_exp x"]) simp_all
qed

lemma fl_nonneg: "0 \<le> x \<Longrightarrow> (\<exists>r. fl x = Fin r \<and> 0 \<le> r) \<or> fl x = PosInf"
proof (cases "x = 0")
  case False
  assume "0 \<le> x"
  then show ?thesis using False nearest_nonneg [of x] by (simp add: fl_nearest)
qed (simp add: fl_def)

lemma is_double_fl: "0 \<le> x \<Longrightarrow> is_double (fl x)"
  using fl_idem [of x] by (cases "fl x") (auto simp: is_double_def)

lemma is_double_int: "\<bar>n\<bar> \<le> 2 ^ 53 \<Longrightarrow> is_double (js_int n)"
  using fl_int [of n] by (simp add: is_double_def js_int_def)

section \<open>Numbers within bounds\<close>

text \<open>\<open>in_range lo hi x\<close>: a double between two integers, so neither infinite nor NaN.\<close>

definition in_range :: "int \<Rightarrow> int \<Rightarrow> js_number \<Rightarrow> bool" where
  "in_range lo hi x = (case x of Fin a \<Rightarrow> of_int lo \<le> a \<and> a \<le> of_int hi \<and> fl a = Fin a | _ \<Rightarrow> False)"

lemma in_rangeE:
  assumes "in_range lo hi x"
  obtains a where "x = Fin a" "of_int lo \<le> a" "a \<le> of_int hi" "fl a = Fin a"
  using assms by (auto simp: in_range_def split: js_number.splits)

lemma in_range_js_int: "lo \<le> n \<Longrightarrow> n \<le> hi \<Longrightarrow> \<bar>n\<bar> \<le> 2 ^ 53 \<Longrightarrow> in_range lo hi (js_int n)"
  using fl_int [of n] by (simp add: in_range_def js_int_def)

text \<open>A rounded value stays below an integer bound of its exact value.\<close>

lemma in_range_fl: "0 \<le> x \<Longrightarrow> x \<le> of_int hi \<Longrightarrow> \<bar>hi\<bar> \<le> 2 ^ 53 \<Longrightarrow> in_range 0 hi (fl x)"
proof -
  assume x: "0 \<le> x" "x \<le> of_int hi" and hi: "\<bar>hi\<bar> \<le> 2 ^ 53"
  have "fl (of_int hi) = Fin (of_int hi)" using fl_int [OF hi] by (simp add: js_int_def)
  then obtain a where a: "fl x = Fin a" "0 \<le> a" "a \<le> of_int hi" using fl_mono [OF x] by blast
  then show ?thesis using fl_idem [OF x(1) a(1)] by (simp add: in_range_def)
qed

end
