(* ===== verification/WorkspaceSchema.thy ===== *)
theory WorkspaceSchema
  imports JsArith
begin

text \<open>
  The workspace document, \<^verbatim>\<open>frontend/src/workspace/persistence/schema.ts\<close>: its types, the
  constraints its schema states (\<open>..._ok\<close>, one per schema), the identifiers of tab groups and the two
  shipped layouts. Reading a document against the schema is the work of the package zod; the constraints are
  the source's own. The clock is an argument, in milliseconds, and is read once per operation; the module's
  \<^verbatim>\<open>groupCounter\<close> is passed through.
\<close>

section \<open>The document\<close>

datatype region_id = RLeft | RRight | RBottom | ROverlay

record widget_group =
  wg_id :: string
  wg_widgetIds :: "string list"
  wg_active :: string
  wg_size :: js_number

record region_state =
  rs_groups :: "widget_group list"
  rs_collapsed :: bool
  rs_size :: js_number
  rs_pinned :: bool

datatype chart_layout = Single | TwoVertical | TwoHorizontal | Three | Four

record chart_pane =
  cp_id :: string
  cp_symbol :: string
  cp_interval :: string
  cp_chartState :: "js_value option"

record watchlist =
  wl_id :: string
  wl_name :: string
  wl_symbols :: "string list"

record table_prefs =
  tp_hiddenColumns :: "string list"
  tp_order :: "string list"

record regions =
  rg_left :: region_state
  rg_right :: region_state
  rg_bottom :: region_state
  rg_overlay :: region_state

datatype ws_theme = ThemeDark | ThemeLight | ThemeSystem
datatype ws_density = Compact | Normal | Relaxed

record workspace =
  ws_schemaVersion :: int
  ws_id :: string
  ws_name :: string
  ws_updatedAt :: int
  ws_theme :: ws_theme
  ws_density :: ws_density
  ws_activeSymbol :: string
  ws_activeInterval :: string
  ws_chartLayout :: chart_layout
  ws_chartPanes :: "chart_pane list"
  ws_regions :: regions
  ws_watchlists :: "watchlist list"
  ws_activeWatchlistId :: string
  ws_favorites :: "string list"
  ws_recentSymbols :: "string list"
  ws_oneClickTrading :: bool
  ws_confirmTrades :: bool
  ws_tables :: "(string \<times> table_prefs) list"

definition WORKSPACE_SCHEMA_VERSION :: int where
  "WORKSPACE_SCHEMA_VERSION = 3"

text \<open>The regions in the order of the schema's keys.\<close>

definition REGION_IDS :: "region_id list" where
  "REGION_IDS = [RLeft, RRight, RBottom, ROverlay]"

text \<open>\<^verbatim>\<open>regions[r]\<close>, and \<^verbatim>\<open>{...regions, [r]: s}\<close>.\<close>

fun region_at :: "regions \<Rightarrow> region_id \<Rightarrow> region_state" where
  "region_at R RLeft = rg_left R"
| "region_at R RRight = rg_right R"
| "region_at R RBottom = rg_bottom R"
| "region_at R ROverlay = rg_overlay R"

fun with_region :: "region_id \<Rightarrow> region_state \<Rightarrow> regions \<Rightarrow> regions" where
  "with_region RLeft s R = R\<lparr>rg_left := s\<rparr>"
| "with_region RRight s R = R\<lparr>rg_right := s\<rparr>"
| "with_region RBottom s R = R\<lparr>rg_bottom := s\<rparr>"
| "with_region ROverlay s R = R\<lparr>rg_overlay := s\<rparr>"

lemma region_at_with [simp]: "region_at (with_region r s R) r' = (if r' = r then s else region_at R r')"
  by (cases r; cases r') simp_all

lemma regions_eqI: "(\<And>r. region_at R r = region_at R' r) \<Longrightarrow> (R :: regions) = R'"
proof -
  assume "\<And>r. region_at R r = region_at R' r"
  from this [of RLeft] this [of RRight] this [of RBottom] this [of ROverlay] show "R = R'"
    by (cases R, cases R') simp
qed

lemma REGION_IDS_all [simp]: "set REGION_IDS = UNIV" "distinct REGION_IDS"
proof -
  have "r \<in> set REGION_IDS" for r by (cases r) (simp_all add: REGION_IDS_def)
  then show "set REGION_IDS = UNIV" by auto
qed (simp add: REGION_IDS_def)

section \<open>The schema's constraints\<close>

definition widgetGroupSchema :: "widget_group \<Rightarrow> bool" where
  "widgetGroupSchema g = (wg_id g \<noteq> '''' \<and> wg_widgetIds g \<noteq> [] \<and> '''' \<notin> set (wg_widgetIds g) \<and> wg_active g \<noteq> '''' \<and>
     in_range 0 100 (wg_size g))"

definition regionStateSchema :: "region_state \<Rightarrow> bool" where
  "regionStateSchema s = (list_all widgetGroupSchema (rs_groups s) \<and> in_range 4 80 (rs_size s))"

definition chartPaneSchema :: "chart_pane \<Rightarrow> bool" where
  "chartPaneSchema p = (cp_id p \<noteq> '''' \<and> cp_symbol p \<noteq> '''' \<and> cp_interval p \<noteq> '''')"

definition watchlistSchema :: "watchlist \<Rightarrow> bool" where
  "watchlistSchema w = (wl_id w \<noteq> '''' \<and> wl_name w \<noteq> '''' \<and> length (wl_name w) \<le> 60 \<and> '''' \<notin> set (wl_symbols w) \<and>
     length (wl_symbols w) \<le> 500)"

definition tablePreferencesSchema :: "table_prefs \<Rightarrow> bool" where
  "tablePreferencesSchema t = ('''' \<notin> set (tp_hiddenColumns t) \<and> '''' \<notin> set (tp_order t))"

definition workspaceSchema :: "workspace \<Rightarrow> bool" where
  "workspaceSchema w = (ws_schemaVersion w = WORKSPACE_SCHEMA_VERSION \<and> ws_id w \<noteq> '''' \<and>
     ws_name w \<noteq> '''' \<and> length (ws_name w) \<le> 60 \<and> 0 \<le> ws_updatedAt w \<and>
     ws_activeSymbol w \<noteq> '''' \<and> ws_activeInterval w \<noteq> '''' \<and>
     list_all chartPaneSchema (ws_chartPanes w) \<and> 1 \<le> length (ws_chartPanes w) \<and> length (ws_chartPanes w) \<le> 4 \<and>
     list_all (\<lambda>r. regionStateSchema (region_at (ws_regions w) r)) REGION_IDS \<and>
     list_all watchlistSchema (ws_watchlists w) \<and> ws_watchlists w \<noteq> [] \<and> ws_activeWatchlistId w \<noteq> '''' \<and>
     '''' \<notin> set (ws_favorites w) \<and> length (ws_favorites w) \<le> 500 \<and>
     '''' \<notin> set (ws_recentSymbols w) \<and> length (ws_recentSymbols w) \<le> 30 \<and>
     list_all (\<lambda>(k, t). tablePreferencesSchema t) (ws_tables w))"

section \<open>Group identifiers\<close>

text \<open>\<^verbatim>\<open>n.toString(36)\<close> of a natural number.\<close>

definition digit36 :: "int \<Rightarrow> char" where
  "digit36 d = (if d < 10 then char_of (48 + nat d) else char_of (87 + nat d))"

function show36 :: "int \<Rightarrow> string" where
  "show36 n = (if n < 36 then [digit36 n] else show36 (n div 36) @ [digit36 (n mod 36)])"
  by pat_completeness auto
termination by (relation "measure nat") auto

declare show36.simps [simp del]

text \<open>The clock and the counter after the increment.\<close>

definition group_id :: "int \<Rightarrow> nat \<Rightarrow> string" where
  "group_id now c = ''g'' @ show36 now @ show_int (int c)"

definition newGroupId :: "int \<Rightarrow> nat \<Rightarrow> string \<times> nat" where
  "newGroupId now counter = (group_id now (Suc counter), Suc counter)"

text \<open>\<open>None\<close> is the exception of a group without a widget.\<close>

definition group :: "int \<Rightarrow> string list \<Rightarrow> js_number \<Rightarrow> nat \<Rightarrow> (widget_group \<times> nat) option" where
  "group now ids sz counter = (case ids of [] \<Rightarrow> None
     | first # _ \<Rightarrow> let (i, c) = newGroupId now counter
         in Some (\<lparr>wg_id = i, wg_widgetIds = ids, wg_active = first, wg_size = sz\<rparr>, c))"

section \<open>The shipped layouts\<close>

definition default_watchlist :: watchlist where
  "default_watchlist = \<lparr>wl_id = ''default'', wl_name = ''My symbols'',
     wl_symbols = [''XAUUSD'', ''EURUSD'', ''GBPUSD'', ''USDJPY'', ''AUDUSD'', ''USDCAD'']\<rparr>"

text \<open>\<open>oid\<close>, \<open>oname\<close> and \<open>osymbol\<close> are the overrides.\<close>

definition createDefaultWorkspace ::
    "int \<Rightarrow> string option \<Rightarrow> string option \<Rightarrow> string option \<Rightarrow> nat \<Rightarrow> (workspace \<times> nat) option" where
  "createDefaultWorkspace now oid oname osymbol c0 = do {
     let symbol = or_else osymbol ''XAUUSD'';
     (g1, c1) \<leftarrow> group now [''watchlist'', ''symbol-search''] (js_int 60) c0;
     (g2, c2) \<leftarrow> group now [''favorites''] (js_int 40) c1;
     (g3, c3) \<leftarrow> group now [''order-ticket''] (js_int 62) c2;
     (g4, c4) \<leftarrow> group now [''symbol-details'', ''risk-calculator''] (js_int 38) c3;
     (g5, c5) \<leftarrow> group now [''positions'', ''pending-orders'', ''order-history'', ''deals'', ''account-summary'',
        ''system-messages''] (js_int 100) c4;
     Some (\<lparr>ws_schemaVersion = WORKSPACE_SCHEMA_VERSION, ws_id = or_else oid ''default'', ws_name = or_else oname ''Default'',
        ws_updatedAt = now, ws_theme = ThemeDark, ws_density = Normal, ws_activeSymbol = symbol, ws_activeInterval = ''1'',
        ws_chartLayout = Single,
        ws_chartPanes = [\<lparr>cp_id = ''pane-1'', cp_symbol = symbol, cp_interval = ''1'', cp_chartState = None\<rparr>],
        ws_regions = \<lparr>
          rg_left = \<lparr>rs_groups = [g1, g2], rs_collapsed = False, rs_size = js_int 17, rs_pinned = True\<rparr>,
          rg_right = \<lparr>rs_groups = [g3, g4], rs_collapsed = False, rs_size = js_int 20, rs_pinned = True\<rparr>,
          rg_bottom = \<lparr>rs_groups = [g5], rs_collapsed = False, rs_size = js_int 26, rs_pinned = True\<rparr>,
          rg_overlay = \<lparr>rs_groups = [], rs_collapsed = True, rs_size = js_int 20, rs_pinned = False\<rparr>\<rparr>,
        ws_watchlists = [default_watchlist], ws_activeWatchlistId = ''default'', ws_favorites = [], ws_recentSymbols = [],
        ws_oneClickTrading = False, ws_confirmTrades = True, ws_tables = []\<rparr>, c5) }"

definition createChartFocusedWorkspace :: "int \<Rightarrow> nat \<Rightarrow> (workspace \<times> nat) option" where
  "createChartFocusedWorkspace now c0 = do {
     (base, c1) \<leftarrow> createDefaultWorkspace now (Some ''chart-focus'') (Some ''Chart focus'') None c0;
     (g1, c2) \<leftarrow> group now [''watchlist''] (js_int 100) c1;
     (g2, c3) \<leftarrow> group now [''positions'', ''pending-orders''] (js_int 100) c2;
     let R = ws_regions base;
     Some (base\<lparr>ws_regions := R\<lparr>rg_left := (rg_left R)\<lparr>rs_groups := [g1], rs_size := js_int 13\<rparr>,
       rg_right := (rg_right R)\<lparr>rs_collapsed := True, rs_size := js_int 18\<rparr>,
       rg_bottom := (rg_bottom R)\<lparr>rs_groups := [g2], rs_size := js_int 18\<rparr>\<rparr>\<rparr>, c3) }"

section \<open>Identifiers are unique\<close>

lemma digit36_inject [simp]: "0 \<le> d \<Longrightarrow> d < 36 \<Longrightarrow> 0 \<le> e \<Longrightarrow> e < 36 \<Longrightarrow> digit36 d = digit36 e \<longleftrightarrow> d = e"
  by (auto simp: digit36_def char_of_eq_iff take_bit_eq_mod dest!: arg_cong [of _ _ "of_char :: char \<Rightarrow> nat"])

lemma show36_small: "n < 36 \<Longrightarrow> show36 n = [digit36 n]"
  and show36_big: "\<not> n < 36 \<Longrightarrow> show36 n = show36 (n div 36) @ [digit36 (n mod 36)]"
  by (subst show36.simps; simp)+

lemma show36_Nil [simp]: "show36 n \<noteq> []"
  by (cases "n < 36") (simp_all add: show36_small show36_big)

lemma Nil_show36 [simp]: "[] \<noteq> show36 n"
  using show36_Nil [of n] by (simp only: eq_commute) simp

lemma show36_inject: "0 \<le> m \<Longrightarrow> 0 \<le> n \<Longrightarrow> show36 m = show36 n \<Longrightarrow> m = n"
proof (induction m arbitrary: n rule: show36.induct)
  case (1 m)
  consider "m < 36" "n < 36" | "m < 36" "\<not> n < 36" | "\<not> m < 36" "n < 36" | "\<not> m < 36" "\<not> n < 36" by blast
  then show ?case
  proof cases
    case 4
    then have "show36 (m div 36) @ [digit36 (m mod 36)] = show36 (n div 36) @ [digit36 (n mod 36)]"
      using 1(4) by (simp add: show36_big)
    then have "show36 (m div 36) = show36 (n div 36)" "m mod 36 = n mod 36" by simp_all
    then have "m div 36 = n div 36" using 1(1) [of "n div 36"] 1(2,3) 4 by simp
    then show ?thesis using \<open>m mod 36 = n mod 36\<close> by (metis div_mult_mod_eq)
  qed (use 1 in \<open>simp_all add: show36_small show36_big\<close>)
qed

lemma show36_length: "0 \<le> n \<Longrightarrow> 36 ^ k \<le> n \<Longrightarrow> n < 36 ^ Suc k \<Longrightarrow> length (show36 n) = Suc k"
proof (induction k arbitrary: n)
  case 0
  then show ?case by (subst show36.simps) simp
next
  case (Suc k)
  then have "36 ^ k \<le> n div 36" "n div 36 < 36 ^ Suc k" by simp_all
  moreover have "\<not> n < 36"
  proof
    assume "n < 36"
    then have "n div 36 < 1" by simp
    moreover have "(0::int) < 36 ^ k" by simp
    ultimately show False using \<open>36 ^ k \<le> n div 36\<close> by linarith
  qed
  ultimately show ?case using Suc.IH [of "n div 36"] Suc.prems(1) by (subst show36.simps) simp
qed

text \<open>From 1972 to 2059 the clock has eight digits in base 36.\<close>

definition clock_ok :: "int \<Rightarrow> bool" where
  "clock_ok t = (36 ^ 7 \<le> t \<and> t < 36 ^ 8)"

text \<open>Group identifiers never collide: two calls of \<^verbatim>\<open>newGroupId\<close> give the same identifier only if both
  the clock and the counter agree, so that within a session, where the counter only grows, and between
  sessions, where the clock has moved on, every tab group of a layout has an identifier of its own.\<close>

lemma group_id_inject: "clock_ok t \<Longrightarrow> clock_ok t' \<Longrightarrow> group_id t c = group_id t' c' \<longleftrightarrow> t = t' \<and> c = c'"
proof -
  assume t: "clock_ok t" "clock_ok t'"
  have "length (show36 t) = length (show36 t')"
    using show36_length [of t 7] show36_length [of t' 7] t by (simp add: clock_ok_def)
  then show ?thesis using show36_inject [of t t'] t by (auto simp: group_id_def clock_ok_def)
qed

end
