(* ===== verification/Migrations.thy ===== *)
theory Migrations
  imports WorkspaceSchema
begin

text \<open>
  The migrations of stored layouts, \<^verbatim>\<open>frontend/src/workspace/persistence/migrations.ts\<close>. A stored
  document is an untyped JavaScript value; an object is the list of its properties. The loop is
  the code's with its guard; the table of migrations is an argument of it.
\<close>

section \<open>Untyped objects\<close>

definition obj_get :: "(string \<times> js_value) list \<Rightarrow> string \<Rightarrow> js_value" where
  "obj_get fs k = or_else (map_of fs k) JUndefined"

text \<open>\<^verbatim>\<open>(v ?? {})[k]\<close> for a name that neither arrays nor texts have.\<close>

definition get_prop :: "js_value \<Rightarrow> string \<Rightarrow> js_value" where
  "get_prop v k = (case v of JObj fs \<Rightarrow> obj_get fs k | _ \<Rightarrow> JUndefined)"

definition coalesce :: "js_value \<Rightarrow> js_value \<Rightarrow> js_value" where
  "coalesce v d = (case v of JUndefined \<Rightarrow> d | JNull \<Rightarrow> d | _ \<Rightarrow> v)"

text \<open>\<^verbatim>\<open>Object.entries(v ?? {})\<close>\<close>

definition indexed :: "js_value list \<Rightarrow> (string \<times> js_value) list" where
  "indexed vs = zip (map (\<lambda>i. show_int (int i)) [0..<length vs]) vs"

definition entries_of :: "js_value \<Rightarrow> (string \<times> js_value) list" where
  "entries_of v = (case v of JObj fs \<Rightarrow> fs | JArr vs \<Rightarrow> indexed vs | JStr s \<Rightarrow> indexed (map (\<lambda>c. JStr [c]) s) | _ \<Rightarrow> [])"

definition texts_of :: "js_value \<Rightarrow> string list" where
  "texts_of v = (case v of JArr vs \<Rightarrow> List.map_filter (\<lambda>x. case x of JStr s \<Rightarrow> Some s | _ \<Rightarrow> None) vs | _ \<Rightarrow> [])"

section \<open>The migrations\<close>

type_synonym js_object = "(string \<times> js_value) list"
type_synonym migration = "js_object \<Rightarrow> nat \<Rightarrow> js_object \<times> nat"

definition migrated_group :: "int \<Rightarrow> nat \<Rightarrow> string \<Rightarrow> nat \<Rightarrow> js_value \<times> nat" where
  "migrated_group now count x c = (let (i, c') = newGroupId now c in
     (JObj [(''id'', JStr i), (''widgetIds'', JArr [JStr x]), (''activeWidgetId'', JStr x),
        (''size'', JNum (if 0 < count then js_div (Fin 100) (js_int (int count)) else Fin 100))], c'))"

fun migrated_groups :: "int \<Rightarrow> nat \<Rightarrow> string list \<Rightarrow> nat \<Rightarrow> js_value list \<times> nat" where
  "migrated_groups now count [] c = ([], c)"
| "migrated_groups now count (x # xs) c =
     (let (g, c1) = migrated_group now count x c; (gs, c2) = migrated_groups now count xs c1 in (g # gs, c2))"

definition migrated_region :: "int \<Rightarrow> js_value \<Rightarrow> nat \<Rightarrow> js_value \<times> nat" where
  "migrated_region now region c =
     (let ids = texts_of (get_prop region ''widgetIds''); (gs, c') = migrated_groups now (length ids) ids c
      in (JObj [(''groups'', JArr gs), (''collapsed'', coalesce (get_prop region ''collapsed'') (JBool False)),
           (''size'', coalesce (get_prop region ''size'') (JNum (Fin 20))),
           (''pinned'', coalesce (get_prop region ''pinned'') (JBool True))], c'))"

fun migrated_regions :: "int \<Rightarrow> js_object \<Rightarrow> js_object \<Rightarrow> nat \<Rightarrow> js_object \<times> nat" where
  "migrated_regions now acc [] c = (acc, c)"
| "migrated_regions now acc ((k, v) # rest) c =
     (let (r, c') = migrated_region now v c in migrated_regions now (alist_set k r acc) rest c')"

definition text_or :: "js_value \<Rightarrow> string \<Rightarrow> js_value" where
  "text_or v d = (case v of JStr s \<Rightarrow> JStr s | _ \<Rightarrow> JStr d)"

definition migrateV1ToV2 :: "int \<Rightarrow> migration" where
  "migrateV1ToV2 now input c =
     (let (regions, c') = migrated_regions now [] (entries_of (obj_get input ''regions'')) c;
          panes = JArr [JObj [(''id'', JStr ''pane-1''), (''symbol'', text_or (obj_get input ''activeSymbol'') ''XAUUSD''),
            (''interval'', text_or (obj_get input ''activeInterval'') ''1''), (''chartState'', obj_get input ''chartState'')]]
      in (alist_set ''chartPanes'' panes (alist_set ''chartLayout'' (JStr ''single'')
            (alist_set ''regions'' (JObj regions) (alist_set ''schemaVersion'' (JNum (Fin 2)) input))), c'))"

definition is_object :: "js_value \<Rightarrow> bool" where
  "is_object v = (case v of JObj _ \<Rightarrow> True | JArr _ \<Rightarrow> True | _ \<Rightarrow> False)"

definition migrateV2ToV3 :: migration where
  "migrateV2ToV3 input c = (alist_set ''tables'' (if is_object (obj_get input ''tables'') then obj_get input ''tables'' else JObj [])
     (alist_set ''schemaVersion'' (JNum (Fin 3)) input), c)"

text \<open>\<^verbatim>\<open>MIGRATIONS[version]\<close>: a number is looked up by its text, so that only 1 and 2 are found.\<close>

definition MIGRATIONS :: "int \<Rightarrow> js_number \<Rightarrow> migration option" where
  "MIGRATIONS now version = (if version = Fin 1 then Some (migrateV1ToV2 now)
     else if version = Fin 2 then Some migrateV2ToV3 else None)"

section \<open>The loop\<close>

definition version_or :: "js_number \<Rightarrow> js_object \<Rightarrow> js_number" where
  "version_or d doc = (case obj_get doc ''schemaVersion'' of JNum n \<Rightarrow> n | _ \<Rightarrow> d)"

definition not_advanced :: "js_number \<Rightarrow> js_number \<Rightarrow> bool" where
  "not_advanced next version = (next \<noteq> NaN \<and> version \<noteq> NaN \<and> \<not> js_less version next)"

abbreviation CURRENT :: js_number where "CURRENT \<equiv> js_int WORKSPACE_SCHEMA_VERSION"

function migrate_loop :: "(js_number \<Rightarrow> migration option) \<Rightarrow> nat \<Rightarrow> js_number \<Rightarrow> js_object \<Rightarrow> nat \<Rightarrow> js_object option \<times> nat" where
  "migrate_loop table guard version doc c =
     (if \<not> js_less version CURRENT then (Some doc, c)
      else if 32 < guard then (None, c)
      else case table version of None \<Rightarrow> (None, c)
        | Some m \<Rightarrow> let (doc', c') = m doc c; next = version_or (js_add version (Fin 1)) doc'
            in if not_advanced next version then (None, c') else migrate_loop table (Suc guard) next doc' c')"
  by pat_completeness auto
termination by (relation "measure (\<lambda>(_, guard, _, _, _). 33 - guard)") auto

declare migrate_loop.simps [simp del]

definition migrateWorkspace :: "int \<Rightarrow> js_value \<Rightarrow> nat \<Rightarrow> js_object option \<times> nat" where
  "migrateWorkspace now input c = (case input of
     JObj doc \<Rightarrow> let version = version_or (Fin 1) doc in
       if js_less CURRENT version then (None, c) else migrate_loop (MIGRATIONS now) 0 version doc c
   | _ \<Rightarrow> (None, c))"

text \<open>The same loop without the guard, which might not end.\<close>

partial_function (option) unguarded_loop ::
    "(js_number \<Rightarrow> migration option) \<Rightarrow> js_number \<Rightarrow> js_object \<Rightarrow> nat \<Rightarrow> (js_object option \<times> nat) option" where
  "unguarded_loop table version doc c =
     (if \<not> js_less version CURRENT then Some (Some doc, c)
      else case table version of None \<Rightarrow> Some (None, c)
        | Some m \<Rightarrow> let (doc', c') = m doc c; next = version_or (js_add version (Fin 1)) doc'
            in if not_advanced next version then Some (None, c') else unguarded_loop table next doc' c')"

section \<open>Properties\<close>

lemma get_alist_set [simp]: "obj_get (alist_set k v fs) k' = (if k' = k then v else obj_get fs k')"
  by (simp add: obj_get_def)

lemma V1_version: "migrateV1ToV2 now doc c = (doc', c') \<Longrightarrow> obj_get doc' ''schemaVersion'' = JNum (Fin 2)"
  by (auto simp: migrateV1ToV2_def split: prod.splits)

lemma V2_version: "migrateV2ToV3 doc c = (doc', c') \<Longrightarrow> obj_get doc' ''schemaVersion'' = JNum (Fin 3)"
  by (auto simp: migrateV2ToV3_def)

lemma current [simp]: "CURRENT = Fin 3"
  by (simp add: js_int_def WORKSPACE_SCHEMA_VERSION_def)

lemma loop_done: "\<not> js_less version (Fin 3) \<Longrightarrow> migrate_loop table guard version doc c = (Some doc, c)"
  "\<not> js_less version (Fin 3) \<Longrightarrow> unguarded_loop table version doc c = Some (Some doc, c)"
  by (simp_all add: migrate_loop.simps unguarded_loop.simps)

lemma loop_unknown:
  assumes "js_less version (Fin 3)" "version \<noteq> Fin 1" "version \<noteq> Fin 2"
  shows "migrate_loop (MIGRATIONS now) 0 version doc c = (None, c)" "unguarded_loop (MIGRATIONS now) version doc c = Some (None, c)"
  using assms by (simp_all add: migrate_loop.simps unguarded_loop.simps MIGRATIONS_def)

lemma loop_2:
  "guard \<le> 32 \<Longrightarrow> migrate_loop (MIGRATIONS now) guard (Fin 2) doc c = (case migrateV2ToV3 doc c of (d, c') \<Rightarrow> (Some d, c'))"
  "unguarded_loop (MIGRATIONS now) (Fin 2) doc c = (case migrateV2ToV3 doc c of (d, c') \<Rightarrow> Some (Some d, c'))"
  using V2_version [of doc c]
  by (cases "migrateV2ToV3 doc c"; simp add: migrate_loop.simps [of _ _ "Fin 2"] unguarded_loop.simps [of _ "Fin 2"]
      MIGRATIONS_def version_or_def not_advanced_def loop_done)+

lemma loop_1:
  "migrate_loop (MIGRATIONS now) 0 (Fin 1) doc c = (case migrateV1ToV2 now doc c of (d, c') \<Rightarrow> case migrateV2ToV3 d c' of (d', c'') \<Rightarrow> (Some d', c''))"
  "unguarded_loop (MIGRATIONS now) (Fin 1) doc c = (case migrateV1ToV2 now doc c of (d, c') \<Rightarrow> case migrateV2ToV3 d c' of (d', c'') \<Rightarrow> Some (Some d', c''))"
  using V1_version [of now doc c]
  by (cases "migrateV1ToV2 now doc c"; simp add: migrate_loop.simps [of _ _ "Fin 1"] unguarded_loop.simps [of _ "Fin 1"]
      MIGRATIONS_def version_or_def not_advanced_def loop_2)+

text \<open>Migration always ends, and not because of its guard: on every stored document the loop without the
  guard returns, with the very result of the loop that has it; so the guard only protects against a faulty
  table of migrations.\<close>

theorem migration_ends_without_guard:
  "unguarded_loop (MIGRATIONS now) version doc c = Some (migrate_loop (MIGRATIONS now) 0 version doc c)"
proof -
  consider "\<not> js_less version (Fin 3)" | "version = Fin 1" | "version = Fin 2"
    | "js_less version (Fin 3)" "version \<noteq> Fin 1" "version \<noteq> Fin 2" by blast
  then show ?thesis by cases (simp_all add: loop_done loop_1 loop_2 loop_unknown split: prod.split)
qed

text \<open>A stored value is brought to the current version exactly when it is an object whose version is 1, 2
  or 3 - an absent or textual version counting as 1 - and what comes out then says version 3; every other
  value, in particular a document of a newer build, is refused rather than guessed at.\<close>

theorem migrate_accepts_iff:
  assumes "version_or (Fin 1) (entries_of v) \<noteq> NaN"
  shows "case fst (migrateWorkspace now v c) of
     Some d \<Rightarrow> (\<exists>fs. v = JObj fs \<and> version_or (Fin 1) fs \<in> {Fin 1, Fin 2, Fin 3}) \<and> obj_get d ''schemaVersion'' = JNum (Fin 3)
   | None \<Rightarrow> \<not> (\<exists>fs. v = JObj fs \<and> version_or (Fin 1) fs \<in> {Fin 1, Fin 2, Fin 3})"
proof (cases v)
  case (JObj fs)
  let ?v = "version_or (Fin 1) fs"
  have nan: "?v \<noteq> NaN" using assms JObj by (simp add: entries_of_def)
  have three: "obj_get fs ''schemaVersion'' = JNum (Fin 3)" if "?v = Fin 3"
    using that by (simp add: version_or_def split: js_value.splits)
  consider "?v = Fin 1" | "?v = Fin 2" | "?v = Fin 3" | "?v \<notin> {Fin 1, Fin 2, Fin 3}" "js_less ?v (Fin 3)"
    | "?v \<notin> {Fin 1, Fin 2, Fin 3}" "js_less (Fin 3) ?v"
  proof -
    have "?v = Fin 3 \<or> js_less ?v (Fin 3) \<or> js_less (Fin 3) ?v" using nan by (cases ?v) (auto simp: less_le)
    then show thesis using that by auto
  qed
  then show ?thesis
  proof cases
    case 1
    then show ?thesis using JObj V2_version by (auto simp: migrateWorkspace_def loop_1 split: prod.split)
  next
    case 2
    then show ?thesis using JObj V2_version by (auto simp: migrateWorkspace_def loop_2 split: prod.split)
  next
    case 3
    then show ?thesis using JObj three by (simp add: migrateWorkspace_def loop_done)
  next
    case 4
    then have "\<not> js_less (Fin 3) ?v" by (cases ?v) auto
    then show ?thesis using JObj 4 by (simp add: migrateWorkspace_def loop_unknown)
  next
    case 5
    then show ?thesis using JObj by (simp add: migrateWorkspace_def)
  qed
qed (simp_all add: migrateWorkspace_def)

theorem migrate_accepts_iff_witness:
  "fst (migrateWorkspace 0 (JObj [(''schemaVersion'', JNum (Fin 4))]) 0) = None"
proof -
  have pre: "version_or (Fin 1) (entries_of (JObj [(''schemaVersion'', JNum (Fin 4))])) \<noteq> NaN"
    by (simp add: version_or_def entries_of_def obj_get_def)
  show ?thesis using migrate_accepts_iff [OF pre, of 0 0]
    by (auto simp: version_or_def obj_get_def split: option.splits)
qed

end
