(* ===== verification/Workspace.thy ===== *)
theory Workspace
  imports WorkspaceSchema
begin

text \<open>
  The layout mutations of \<^verbatim>\<open>frontend/src/workspace/layout/workspace-store.ts\<close>: the helpers on the
  document first, then the actions on the store's state. A widget is named by its id. Indices are whole
  numbers, sizes are JavaScript numbers. Loading and saving documents is in \<open>WorkspaceStorage\<close>.
\<close>

section \<open>Helpers\<close>

definition MAX_CHART_PANES :: "chart_layout \<Rightarrow> nat" where
  "MAX_CHART_PANES l = (case l of Single \<Rightarrow> 1 | TwoVertical \<Rightarrow> 2 | TwoHorizontal \<Rightarrow> 2 | Three \<Rightarrow> 3 | Four \<Rightarrow> 4)"

definition clamp :: "js_number \<Rightarrow> js_number \<Rightarrow> js_number \<Rightarrow> js_number" where
  "clamp value lo hi = js_min hi (js_max lo value)"

definition clamp_index :: "int \<Rightarrow> nat \<Rightarrow> nat" where
  "clamp_index i len = nat (min (int len) (max 0 i))"

text \<open>\<^verbatim>\<open>splice(i, 0, x)\<close> within the list, and the position \<^verbatim>\<open>splice(i, 1)\<close> removes at:
  a negative index counts from the end.\<close>

definition splice_in :: "nat \<Rightarrow> 'a \<Rightarrow> 'a list \<Rightarrow> 'a list" where
  "splice_in i x xs = take i xs @ x # drop i xs"

definition splice_at :: "int \<Rightarrow> nat \<Rightarrow> nat" where
  "splice_at i len = (if i < 0 then nat (max 0 (int len + i)) else min (nat i) len)"

definition insertAt :: "'a list \<Rightarrow> 'a \<Rightarrow> int option \<Rightarrow> 'a list" where
  "insertAt items item index = splice_in (case index of None \<Rightarrow> length items | Some i \<Rightarrow> clamp_index i (length items)) item items"

text \<open>Taking one element out and putting it back; \<open>None\<close> where there is none at the position.\<close>

definition move_item :: "int \<Rightarrow> int \<Rightarrow> 'a list \<Rightarrow> 'a list option" where
  "move_item from to xs = (let i = splice_at from (length xs) in
     if length xs \<le> i then None
     else let rest = take i xs @ drop (Suc i) xs in Some (splice_in (clamp_index to (length rest)) (xs ! i) rest))"

definition on_region :: "region_id \<Rightarrow> (region_state \<Rightarrow> region_state) \<Rightarrow> workspace \<Rightarrow> workspace" where
  "on_region r f w = w\<lparr>ws_regions := with_region r (f (region_at (ws_regions w) r)) (ws_regions w)\<rparr>"

fun find_group :: "string \<Rightarrow> widget_group list \<Rightarrow> string option" where
  "find_group x [] = None"
| "find_group x (g # gs) = (if x \<in> set (wg_widgetIds g) then Some (wg_id g) else find_group x gs)"

fun find_region :: "string \<Rightarrow> regions \<Rightarrow> region_id list \<Rightarrow> (region_id \<times> string) option" where
  "find_region x R [] = None"
| "find_region x R (r # rs) = (case find_group x (rs_groups (region_at R r)) of
     Some i \<Rightarrow> Some (r, i) | None \<Rightarrow> find_region x R rs)"

definition findWidget :: "workspace \<Rightarrow> string \<Rightarrow> (region_id \<times> string) option" where
  "findWidget w x = find_region x (ws_regions w) REGION_IDS"

definition js_leq :: "js_number \<Rightarrow> js_number \<Rightarrow> bool" where
  "js_leq a b = (a \<noteq> NaN \<and> b \<noteq> NaN \<and> \<not> js_less b a)"

text \<open>Rebalances group sizes to sum to 100 after an add or a remove.\<close>

definition sum_sizes :: "widget_group list \<Rightarrow> js_number" where
  "sum_sizes gs = foldl (\<lambda>s g. js_add s (wg_size g)) (Fin 0) gs"

definition normaliseSizes :: "widget_group list \<Rightarrow> widget_group list" where
  "normaliseSizes gs = (if gs = [] then gs else
     let t = sum_sizes gs in
     if js_leq t (Fin 0) then map (\<lambda>g. g\<lparr>wg_size := js_div (Fin 100) (js_int (int (length gs)))\<rparr>) gs
     else map (\<lambda>g. g\<lparr>wg_size := js_mul (js_div (wg_size g) t) (Fin 100)\<rparr>) gs)"

definition remove_from_group :: "string \<Rightarrow> widget_group \<Rightarrow> widget_group option" where
  "remove_from_group x g = (if x \<notin> set (wg_widgetIds g) then Some g
     else case filter (\<lambda>i. i \<noteq> x) (wg_widgetIds g) of [] \<Rightarrow> None
       | first # rest \<Rightarrow> Some (g\<lparr>wg_widgetIds := first # rest,
           wg_active := (if wg_active g = x then first else wg_active g)\<rparr>))"

definition remove_from_region :: "string \<Rightarrow> region_state \<Rightarrow> region_state" where
  "remove_from_region x s = (if \<not> list_ex (\<lambda>g. x \<in> set (wg_widgetIds g)) (rs_groups s) then s
     else s\<lparr>rs_groups := normaliseSizes (List.map_filter (remove_from_group x) (rs_groups s))\<rparr>)"

definition removeWidgetFrom :: "workspace \<Rightarrow> string \<Rightarrow> workspace" where
  "removeWidgetFrom w x = fold (\<lambda>r. on_region r (remove_from_region x)) REGION_IDS w"

definition activateWidgetIn :: "workspace \<Rightarrow> string \<Rightarrow> workspace" where
  "activateWidgetIn w x = (case findWidget w x of None \<Rightarrow> w
     | Some (r, gid) \<Rightarrow> on_region r (\<lambda>s. s\<lparr>rs_collapsed := False,
         rs_groups := map (\<lambda>g. if wg_id g = gid then g\<lparr>wg_active := x\<rparr> else g) (rs_groups s)\<rparr>) w)"

definition mapWatchlist :: "workspace \<Rightarrow> string option \<Rightarrow> (watchlist \<Rightarrow> watchlist) \<Rightarrow> workspace" where
  "mapWatchlist w wid f = (let target = or_else wid (ws_activeWatchlistId w) in
     w\<lparr>ws_watchlists := map (\<lambda>l. if wl_id l = target then f l else l) (ws_watchlists w)\<rparr>)"

text \<open>Every widget placed in the workspace, in any region.\<close>

definition openWidgetIds :: "workspace \<Rightarrow> string set" where
  "openWidgetIds w = set (concat (map (\<lambda>r. concat (map wg_widgetIds (rs_groups (region_at (ws_regions w) r)))) REGION_IDS))"

definition isPlausibleSymbol :: "string \<Rightarrow> bool" where
  "isPlausibleSymbol s = (0 < length s \<and> length s \<le> 32 \<and>
     \<not> list_ex (\<lambda>c. c = CHR '','' \<or> js_ws c \<or> c = CHR ''*'' \<or> c = CHR ''?'') s)"

definition selectActiveWatchlist :: "workspace \<Rightarrow> watchlist option" where
  "selectActiveWatchlist w = (case List.find (\<lambda>l. wl_id l = ws_activeWatchlistId w) (ws_watchlists w) of
     Some l \<Rightarrow> Some l | None \<Rightarrow> (case ws_watchlists w of [] \<Rightarrow> None | l # _ \<Rightarrow> Some l))"

section \<open>Mutations of the document\<close>

definition set_region_size :: "region_id \<Rightarrow> js_number \<Rightarrow> workspace \<Rightarrow> workspace" where
  "set_region_size r sz = on_region r (\<lambda>s. s\<lparr>rs_size := clamp sz (Fin 4) (Fin 80)\<rparr>)"

definition toggle_region_collapsed :: "region_id \<Rightarrow> workspace \<Rightarrow> workspace" where
  "toggle_region_collapsed r = on_region r (\<lambda>s. s\<lparr>rs_collapsed := \<not> rs_collapsed s\<rparr>)"

definition set_region_collapsed :: "region_id \<Rightarrow> bool \<Rightarrow> workspace \<Rightarrow> workspace" where
  "set_region_collapsed r b = on_region r (\<lambda>s. s\<lparr>rs_collapsed := b\<rparr>)"

definition set_group_size :: "region_id \<Rightarrow> string \<Rightarrow> js_number \<Rightarrow> workspace \<Rightarrow> workspace" where
  "set_group_size r gid sz = on_region r (\<lambda>s. s\<lparr>rs_groups :=
     map (\<lambda>g. if wg_id g = gid then g\<lparr>wg_size := clamp sz (Fin 0) (Fin 100)\<rparr> else g) (rs_groups s)\<rparr>)"

definition new_group :: "string \<Rightarrow> string \<Rightarrow> widget_group" where
  "new_group gid x = \<lparr>wg_id = gid, wg_widgetIds = [x], wg_active = x, wg_size = js_int 40\<rparr>"

definition add_widget :: "int \<Rightarrow> string \<Rightarrow> region_id \<Rightarrow> workspace \<times> nat \<Rightarrow> workspace \<times> nat" where
  "add_widget now x r = (\<lambda>(w, c). (case findWidget w x of
     Some _ \<Rightarrow> (activateWidgetIn w x, c)
   | None \<Rightarrow> let (gid, c') = newGroupId now c in
       (on_region r (\<lambda>s. s\<lparr>rs_groups := normaliseSizes (rs_groups s @ [new_group gid x]), rs_collapsed := False\<rparr>) w, c')))"

definition truthy :: "string option \<Rightarrow> string option" where
  "truthy t = (case t of Some s \<Rightarrow> if s = '''' then None else Some s | None \<Rightarrow> None)"

definition drop_into :: "string \<Rightarrow> string \<Rightarrow> int option \<Rightarrow> region_state \<Rightarrow> region_state" where
  "drop_into x gid index s = s\<lparr>rs_groups := map (\<lambda>g. if wg_id g = gid
       then g\<lparr>wg_widgetIds := insertAt (wg_widgetIds g) x index, wg_active := x\<rparr> else g) (rs_groups s),
     rs_collapsed := False\<rparr>"

definition move_widget :: "int \<Rightarrow> string \<Rightarrow> region_id \<Rightarrow> string option \<Rightarrow> int option \<Rightarrow> workspace \<times> nat \<Rightarrow> workspace \<times> nat" where
  "move_widget now x r groupId index = (\<lambda>(w, c). (case findWidget w x of None \<Rightarrow> (w, c)
   | Some _ \<Rightarrow> let next = removeWidgetFrom w x in
       case truthy groupId of
         Some gid \<Rightarrow> (on_region r (drop_into x gid index) next, c)
       | None \<Rightarrow> let (gid, c') = newGroupId now c in
           (on_region r (\<lambda>s. s\<lparr>rs_groups := normaliseSizes (insertAt (rs_groups s) (new_group gid x) index),
              rs_collapsed := False\<rparr>) next, c')))"

definition reorder_group :: "region_id \<Rightarrow> int \<Rightarrow> int \<Rightarrow> workspace \<Rightarrow> workspace" where
  "reorder_group r from to w = (case move_item from to (rs_groups (region_at (ws_regions w) r)) of
     None \<Rightarrow> w | Some gs \<Rightarrow> on_region r (\<lambda>s. s\<lparr>rs_groups := gs\<rparr>) w)"

definition on_first_pane :: "(chart_pane \<Rightarrow> chart_pane) \<Rightarrow> chart_pane list \<Rightarrow> chart_pane list" where
  "on_first_pane f ps = (case ps of [] \<Rightarrow> [] | p # rest \<Rightarrow> f p # rest)"

definition set_active_symbol :: "string \<Rightarrow> workspace \<Rightarrow> workspace" where
  "set_active_symbol smb w = w\<lparr>ws_activeSymbol := smb,
     ws_chartPanes := on_first_pane (\<lambda>p. p\<lparr>cp_symbol := smb\<rparr>) (ws_chartPanes w),
     ws_recentSymbols := take 20 (smb # filter (\<lambda>s. s \<noteq> smb) (ws_recentSymbols w))\<rparr>"

definition set_active_interval :: "string \<Rightarrow> workspace \<Rightarrow> workspace" where
  "set_active_interval i w = w\<lparr>ws_activeInterval := i,
     ws_chartPanes := on_first_pane (\<lambda>p. p\<lparr>cp_interval := i\<rparr>) (ws_chartPanes w)\<rparr>"

definition pane_id :: "nat \<Rightarrow> string" where
  "pane_id n = ''pane-'' @ show_int (int n)"

function grow_panes :: "nat \<Rightarrow> string \<Rightarrow> string \<Rightarrow> chart_pane list \<Rightarrow> chart_pane list" where
  "grow_panes wanted smb i ps = (if length ps < wanted
     then grow_panes wanted smb i (ps @ [\<lparr>cp_id = pane_id (length ps + 1), cp_symbol = smb, cp_interval = i, cp_chartState = None\<rparr>])
     else ps)"
  by pat_completeness auto
termination by (relation "measure (\<lambda>(wanted, _, _, ps). wanted - length ps)") auto

declare grow_panes.simps [simp del]

definition set_chart_layout :: "chart_layout \<Rightarrow> workspace \<Rightarrow> workspace" where
  "set_chart_layout l w = (let wanted = MAX_CHART_PANES l in
     w\<lparr>ws_chartLayout := l,
       ws_chartPanes := take wanted (grow_panes wanted (ws_activeSymbol w) (ws_activeInterval w) (ws_chartPanes w))\<rparr>)"

definition on_pane :: "string \<Rightarrow> (chart_pane \<Rightarrow> chart_pane) \<Rightarrow> workspace \<Rightarrow> workspace" where
  "on_pane pid f w = w\<lparr>ws_chartPanes := map (\<lambda>p. if cp_id p = pid then f p else p) (ws_chartPanes w)\<rparr>"

definition toggle_table_column :: "string \<Rightarrow> string \<Rightarrow> workspace \<Rightarrow> workspace" where
  "toggle_table_column tid cid w =
     (let current = or_else (map_of (ws_tables w) tid) \<lparr>tp_hiddenColumns = [], tp_order = []\<rparr>;
          hidden = tp_hiddenColumns current;
          hidden' = (if cid \<in> set hidden then filter (\<lambda>i. i \<noteq> cid) hidden else hidden @ [cid])
      in w\<lparr>ws_tables := alist_set tid (current\<lparr>tp_hiddenColumns := hidden'\<rparr>) (ws_tables w)\<rparr>)"

definition reset_table_columns :: "string \<Rightarrow> workspace \<Rightarrow> workspace" where
  "reset_table_columns tid w = w\<lparr>ws_tables := alist_del tid (ws_tables w)\<rparr>"

definition watchlist_id :: "int \<Rightarrow> string" where
  "watchlist_id now = ''wl-'' @ show36 now"

definition add_watchlist :: "int \<Rightarrow> string \<Rightarrow> workspace \<Rightarrow> workspace" where
  "add_watchlist now name w = w\<lparr>ws_watchlists := ws_watchlists w @ [\<lparr>wl_id = watchlist_id now, wl_name = name, wl_symbols = []\<rparr>],
     ws_activeWatchlistId := watchlist_id now\<rparr>"

definition remove_watchlist :: "string \<Rightarrow> workspace \<Rightarrow> workspace" where
  "remove_watchlist i w = (if length (ws_watchlists w) \<le> 1 then w
     else let rest = filter (\<lambda>l. wl_id l \<noteq> i) (ws_watchlists w) in
       w\<lparr>ws_watchlists := rest, ws_activeWatchlistId :=
         (case rest of first # _ \<Rightarrow> if ws_activeWatchlistId w = i then wl_id first else ws_activeWatchlistId w
          | [] \<Rightarrow> ws_activeWatchlistId w)\<rparr>)"

definition add_symbol :: "string \<Rightarrow> string option \<Rightarrow> workspace \<Rightarrow> workspace" where
  "add_symbol smb wid w = mapWatchlist w wid (\<lambda>l. if smb \<in> set (wl_symbols l) then l else l\<lparr>wl_symbols := wl_symbols l @ [smb]\<rparr>)"

definition remove_symbol :: "string \<Rightarrow> string option \<Rightarrow> workspace \<Rightarrow> workspace" where
  "remove_symbol smb wid w = mapWatchlist w wid (\<lambda>l. l\<lparr>wl_symbols := filter (\<lambda>s. s \<noteq> smb) (wl_symbols l)\<rparr>)"

text \<open>\<^verbatim>\<open>if (!moved)\<close>: an empty symbol is falsy as well.\<close>

definition reorder_symbols :: "int \<Rightarrow> int \<Rightarrow> string option \<Rightarrow> workspace \<Rightarrow> workspace" where
  "reorder_symbols from to wid w = mapWatchlist w wid (\<lambda>l.
     let syms = wl_symbols l; i = splice_at from (length syms) in
     if i < length syms \<and> syms ! i = '''' then l
     else case move_item from to syms of None \<Rightarrow> l | Some ss \<Rightarrow> l\<lparr>wl_symbols := ss\<rparr>)"

definition toggle_favorite :: "string \<Rightarrow> workspace \<Rightarrow> workspace" where
  "toggle_favorite smb w = w\<lparr>ws_favorites := (if smb \<in> set (ws_favorites w)
     then filter (\<lambda>s. s \<noteq> smb) (ws_favorites w) else ws_favorites w @ [smb])\<rparr>"

section \<open>The store\<close>

record ws_summary =
  su_id :: string
  su_name :: string
  su_updatedAt :: js_value

text \<open>The state of the store, with the module's variables \<^verbatim>\<open>pendingSave\<close>, \<^verbatim>\<open>saveTimer\<close>
  and \<^verbatim>\<open>groupCounter\<close>.\<close>

record ws_state =
  st_workspace :: workspace
  st_savedLayouts :: "ws_summary list"
  st_recoveryNotice :: "string option"
  st_hydrated :: bool
  st_urlSymbolIntent :: "string option"
  st_urlTabIntent :: "string option"
  st_pendingSave :: "workspace option"
  st_saveTimer :: bool
  st_groupCounter :: nat

definition scheduleSave :: "workspace \<Rightarrow> ws_state \<Rightarrow> ws_state" where
  "scheduleSave w st = st\<lparr>st_pendingSave := Some w, st_saveTimer := True\<rparr>"

text \<open>\<^verbatim>\<open>update\<close>, for a mutation that may draw a group identifier.\<close>

definition update_with :: "(workspace \<times> nat \<Rightarrow> workspace \<times> nat) \<Rightarrow> ws_state \<Rightarrow> ws_state" where
  "update_with f st = (let (w, c) = f (st_workspace st, st_groupCounter st)
     in (scheduleSave w st)\<lparr>st_workspace := w, st_groupCounter := c\<rparr>)"

definition update :: "(workspace \<Rightarrow> workspace) \<Rightarrow> ws_state \<Rightarrow> ws_state" where
  "update f = update_with (\<lambda>(w, c). (f w, c))"

definition activateWidget :: "string \<Rightarrow> ws_state \<Rightarrow> ws_state" where
  "activateWidget x st = update (\<lambda>w. activateWidgetIn w x)
     (if st_urlTabIntent st \<noteq> None \<and> st_urlTabIntent st \<noteq> Some x then st\<lparr>st_urlTabIntent := None\<rparr> else st)"

definition adoptUrlTab :: "string \<Rightarrow> ws_state \<Rightarrow> ws_state" where
  "adoptUrlTab x st = (activateWidget x (st\<lparr>st_urlTabIntent := Some x\<rparr>))\<lparr>st_urlTabIntent := Some x\<rparr>"

definition setActiveSymbol :: "string \<Rightarrow> ws_state \<Rightarrow> ws_state" where
  "setActiveSymbol smb st = (if \<not> isPlausibleSymbol smb then st
     else update (set_active_symbol smb)
       (if st_urlSymbolIntent st \<noteq> None \<and> st_urlSymbolIntent st \<noteq> Some smb then st\<lparr>st_urlSymbolIntent := None\<rparr> else st))"

definition adoptUrlSymbol :: "string \<Rightarrow> ws_state \<Rightarrow> ws_state" where
  "adoptUrlSymbol smb st = (setActiveSymbol smb (st\<lparr>st_urlSymbolIntent := Some smb\<rparr>))\<lparr>st_urlSymbolIntent := Some smb\<rparr>"

text \<open>\<open>None\<close> would be the exception of a default group without a widget.\<close>

definition resetToDefault :: "int \<Rightarrow> ws_state \<Rightarrow> ws_state option" where
  "resetToDefault now st = do {
     (w, c) \<leftarrow> createDefaultWorkspace now (Some (ws_id (st_workspace st))) (Some (ws_name (st_workspace st))) None (st_groupCounter st);
     Some ((scheduleSave w st)\<lparr>st_workspace := w, st_recoveryNotice := None, st_groupCounter := c\<rparr>) }"

definition clearRecoveryNotice :: "ws_state \<Rightarrow> ws_state" where
  "clearRecoveryNotice st = st\<lparr>st_recoveryNotice := None\<rparr>"

text \<open>The store as the module creates it.\<close>

definition initial_state :: "int \<Rightarrow> ws_state option" where
  "initial_state now = do { (w, c) \<leftarrow> createDefaultWorkspace now None None None 0;
     Some \<lparr>st_workspace = w, st_savedLayouts = [], st_recoveryNotice = None, st_hydrated = False, st_urlSymbolIntent = None,
       st_urlTabIntent = None, st_pendingSave = None, st_saveTimer = False, st_groupCounter = c\<rparr> }"

text \<open>What a resynchronisation shows: the link's symbol and tab outrank the layout's remembered ones.\<close>

definition with_intents :: "ws_state \<Rightarrow> workspace \<Rightarrow> workspace" where
  "with_intents st doc = (let w = (case truthy (st_urlSymbolIntent st) of
       Some smb \<Rightarrow> if smb \<noteq> ws_activeSymbol doc
         then doc\<lparr>ws_activeSymbol := smb, ws_chartPanes := on_first_pane (\<lambda>p. p\<lparr>cp_symbol := smb\<rparr>) (ws_chartPanes doc)\<rparr>
         else doc
     | None \<Rightarrow> doc)
     in case truthy (st_urlTabIntent st) of Some x \<Rightarrow> activateWidgetIn w x | None \<Rightarrow> w)"

section \<open>The state changes of loading\<close>

record load_result =
  lr_workspace :: workspace
  lr_recovered :: bool
  lr_reason :: "string option"

definition notice_of :: "load_result \<Rightarrow> string option" where
  "notice_of res = (if lr_recovered res then Some (or_else (lr_reason res) ''saved layout was reset'') else None)"

text \<open>The \<^verbatim>\<open>set\<close> calls that end \<^verbatim>\<open>hydrate\<close>, \<^verbatim>\<open>resync\<close> and \<^verbatim>\<open>loadLayout\<close>.\<close>

definition hydrated_with :: "load_result \<Rightarrow> ws_summary list \<Rightarrow> ws_state \<Rightarrow> ws_state" where
  "hydrated_with res layouts st = st\<lparr>st_workspace := lr_workspace res, st_savedLayouts := layouts,
     st_recoveryNotice := notice_of res, st_hydrated := True\<rparr>"

definition resynced_with :: "load_result \<Rightarrow> ws_summary list \<Rightarrow> ws_state \<Rightarrow> ws_state" where
  "resynced_with res layouts st = st\<lparr>st_workspace := with_intents st (lr_workspace res), st_savedLayouts := layouts,
     st_recoveryNotice := notice_of res\<rparr>"

definition loaded_with :: "load_result \<Rightarrow> ws_state \<Rightarrow> ws_state" where
  "loaded_with res st = st\<lparr>st_workspace := lr_workspace res, st_recoveryNotice := notice_of res\<rparr>"

text \<open>The save timer fires, or the page is hidden: the pending document is handed to the store.\<close>

definition fire_save :: "ws_state \<Rightarrow> ws_state \<times> workspace option" where
  "fire_save st = (st\<lparr>st_saveTimer := False, st_pendingSave := None\<rparr>, st_pendingSave st)"

section \<open>Actions\<close>

datatype ws_action =
    SetRegionSize region_id js_number | ToggleRegionCollapsed region_id | SetRegionCollapsed region_id bool
  | SetGroupSize region_id string js_number | AddWidget string region_id | RemoveWidget string | ActivateWidget string
  | MoveWidget string region_id "string option" "int option" | ReorderGroup region_id int int
  | SetActiveSymbol string | AdoptUrlSymbol string | AdoptUrlTab string | SetActiveInterval string
  | SetChartLayout chart_layout | SetPaneSymbol string string | SetPaneInterval string string
  | SetPaneChartState string js_value | ToggleTableColumn string string | ResetTableColumns string
  | SetTheme ws_theme | SetDensity ws_density | SetOneClickTrading bool | SetConfirmTrades bool
  | SetActiveWatchlist string | AddWatchlist string | RemoveWatchlist string
  | AddSymbol string "string option" | RemoveSymbol string "string option" | ReorderSymbols int int "string option"
  | ToggleFavorite string | ClearRecoveryNotice

fun ws_act :: "int \<Rightarrow> ws_action \<Rightarrow> ws_state \<Rightarrow> ws_state" where
  "ws_act now (SetRegionSize r sz) = update (set_region_size r sz)"
| "ws_act now (ToggleRegionCollapsed r) = update (toggle_region_collapsed r)"
| "ws_act now (SetRegionCollapsed r b) = update (set_region_collapsed r b)"
| "ws_act now (SetGroupSize r gid sz) = update (set_group_size r gid sz)"
| "ws_act now (AddWidget x r) = update_with (add_widget now x r)"
| "ws_act now (RemoveWidget x) = update (\<lambda>w. removeWidgetFrom w x)"
| "ws_act now (ActivateWidget x) = activateWidget x"
| "ws_act now (MoveWidget x r gid i) = update_with (move_widget now x r gid i)"
| "ws_act now (ReorderGroup r i j) = update (reorder_group r i j)"
| "ws_act now (SetActiveSymbol smb) = setActiveSymbol smb"
| "ws_act now (AdoptUrlSymbol smb) = adoptUrlSymbol smb"
| "ws_act now (AdoptUrlTab x) = adoptUrlTab x"
| "ws_act now (SetActiveInterval i) = update (set_active_interval i)"
| "ws_act now (SetChartLayout l) = update (set_chart_layout l)"
| "ws_act now (SetPaneSymbol p smb) = update (on_pane p (\<lambda>x. x\<lparr>cp_symbol := smb\<rparr>))"
| "ws_act now (SetPaneInterval p i) = update (on_pane p (\<lambda>x. x\<lparr>cp_interval := i\<rparr>))"
| "ws_act now (SetPaneChartState p v) = update (on_pane p (\<lambda>x. x\<lparr>cp_chartState := Some v\<rparr>))"
| "ws_act now (ToggleTableColumn t c) = update (toggle_table_column t c)"
| "ws_act now (ResetTableColumns t) = update (reset_table_columns t)"
| "ws_act now (SetTheme t) = update (\<lambda>w. w\<lparr>ws_theme := t\<rparr>)"
| "ws_act now (SetDensity d) = update (\<lambda>w. w\<lparr>ws_density := d\<rparr>)"
| "ws_act now (SetOneClickTrading b) = update (\<lambda>w. w\<lparr>ws_oneClickTrading := b\<rparr>)"
| "ws_act now (SetConfirmTrades b) = update (\<lambda>w. w\<lparr>ws_confirmTrades := b\<rparr>)"
| "ws_act now (SetActiveWatchlist i) = update (\<lambda>w. w\<lparr>ws_activeWatchlistId := i\<rparr>)"
| "ws_act now (AddWatchlist name) = update (add_watchlist now name)"
| "ws_act now (RemoveWatchlist i) = update (remove_watchlist i)"
| "ws_act now (AddSymbol smb wid) = update (add_symbol smb wid)"
| "ws_act now (RemoveSymbol smb wid) = update (remove_symbol smb wid)"
| "ws_act now (ReorderSymbols i j wid) = update (reorder_symbols i j wid)"
| "ws_act now (ToggleFavorite smb) = update (toggle_favorite smb)"
| "ws_act now ClearRecoveryNotice = clearRecoveryNotice"

end
