(* ===== verification/WorkspaceInvariants.thy ===== *)
theory WorkspaceInvariants
  imports Workspace "HOL-Library.Multiset"
begin

text \<open>
  What every mutation of the layout keeps. \<open>layout_ok\<close> is the well-formedness of a document:
  every widget is placed at most once, every tab group is non-empty with its active tab among its own, group
  identifiers are distinct and sizes within their bounds; the panes are those of the chart layout, there is a
  watchlist and the active one exists, lists hold no duplicates. The locale \<open>region_mutation\<close> is the
  contract of an operation on one region, proved once for all of them.
\<close>

section \<open>Sizes\<close>

lemma clamp_range:
  assumes "sz \<noteq> NaN" "is_double sz" "0 \<le> lo" "lo \<le> hi" "hi \<le> 2 ^ 53"
  shows "in_range lo hi (clamp sz (js_int lo) (js_int hi))"
proof -
  have "in_range lo hi (js_int lo)" "in_range lo hi (js_int hi)" using assms by (simp_all add: in_range_js_int)
  then show ?thesis using assms
    by (cases sz) (auto simp: clamp_def js_min_def js_max_def js_int_def is_double_def in_range_def)
qed

lemma js_add_grows:
  assumes "0 \<le> a" "fl a = Fin a" "0 \<le> x" "fl x = Fin x"
  shows "js_add (Fin a) (Fin x) = PosInf \<or>
    (\<exists>b. js_add (Fin a) (Fin x) = Fin b \<and> a \<le> b \<and> x \<le> b \<and> fl b = Fin b)"
proof -
  consider (inf) "fl (a + x) = PosInf" | (fin) b where "fl (a + x) = Fin b" "0 \<le> b"
    using fl_nonneg [of "a + x"] assms by auto
  then show ?thesis
  proof cases
    case fin
    moreover have "a \<le> b" using fl_mono [of a "a + x" b] assms fin by auto
    moreover have "x \<le> b" using fl_mono [of x "a + x" b] assms fin by auto
    moreover have "fl b = Fin b" using fl_idem [of "a + x" b] assms fin by simp
    ultimately show ?thesis by simp
  qed simp
qed

text \<open>The rounded sum of the sizes is at least each of them, if it does not overflow.\<close>

lemma sum_sizes_from:
  assumes "\<forall>g\<in>set gs. in_range 0 100 (wg_size g)" "0 \<le> a" "fl a = Fin a"
  shows "foldl (\<lambda>s g. js_add s (wg_size g)) (Fin a) gs = PosInf \<or>
    (\<exists>b. foldl (\<lambda>s g. js_add s (wg_size g)) (Fin a) gs = Fin b \<and> a \<le> b \<and>
      (\<forall>g\<in>set gs. \<forall>x. wg_size g = Fin x \<longrightarrow> x \<le> b))"
  using assms
proof (induction gs arbitrary: a)
  case (Cons g gs)
  have inf: "\<forall>g\<in>set hs. in_range 0 100 (wg_size g) \<Longrightarrow> foldl (\<lambda>s g. js_add s (wg_size g)) PosInf hs = PosInf" for hs
    by (induction hs) (auto elim!: in_rangeE)
  obtain x where x: "wg_size g = Fin x" "0 \<le> x" "fl x = Fin x" using Cons.prems(1) by (auto elim: in_rangeE)
  from js_add_grows [OF Cons.prems(2,3) x(2,3)] show ?case
  proof
    assume "js_add (Fin a) (Fin x) = PosInf"
    then show ?thesis using inf [of gs] Cons.prems(1) x(1) by simp
  next
    assume "\<exists>b. js_add (Fin a) (Fin x) = Fin b \<and> a \<le> b \<and> x \<le> b \<and> fl b = Fin b"
    then obtain b where b: "js_add (Fin a) (Fin x) = Fin b" "a \<le> b" "x \<le> b" "fl b = Fin b" by blast
    then have "0 \<le> b" using Cons.prems(2) by simp
    from Cons.IH [OF _ this b(4)] Cons.prems(1) show ?thesis using b x(1) by (auto intro: order_trans)
  qed
qed simp

lemma normaliseSizes_simps [simp]:
  "map wg_id (normaliseSizes gs) = map wg_id gs"
  "map wg_widgetIds (normaliseSizes gs) = map wg_widgetIds gs"
  "normaliseSizes gs = [] \<longleftrightarrow> gs = []"
  by (simp_all add: normaliseSizes_def Let_def)

lemma normaliseSizes_range:
  assumes "\<forall>g\<in>set gs. in_range 0 100 (wg_size g)"
  shows "\<forall>g\<in>set (normaliseSizes gs). in_range 0 100 (wg_size g)"
proof (cases "gs = []")
  case False
  have sum: "sum_sizes gs = PosInf \<or> (\<exists>b. sum_sizes gs = Fin b \<and> 0 \<le> b \<and> (\<forall>g\<in>set gs. \<forall>x. wg_size g = Fin x \<longrightarrow> x \<le> b))"
    using sum_sizes_from [OF assms, of 0] by (simp add: sum_sizes_def fl_def)
  have zero: "in_range 0 100 (Fin 0)" by (simp add: in_range_def fl_def)
  from sum show ?thesis
  proof
    assume "sum_sizes gs = PosInf"
    moreover have "js_mul (js_div (wg_size g) PosInf) (Fin 100) = Fin 0" if "g \<in> set gs" for g
      using assms that by (auto simp: fl_def [of 0] elim!: in_rangeE dest!: bspec)
    ultimately show ?thesis using zero False by (auto simp: normaliseSizes_def Let_def js_leq_def)
  next
    assume "\<exists>b. sum_sizes gs = Fin b \<and> 0 \<le> b \<and> (\<forall>g\<in>set gs. \<forall>x. wg_size g = Fin x \<longrightarrow> x \<le> b)"
    then obtain b where b: "sum_sizes gs = Fin b" "0 \<le> b" "\<And>g x. g \<in> set gs \<Longrightarrow> wg_size g = Fin x \<Longrightarrow> x \<le> b" by blast
    show ?thesis
    proof (cases "b = 0")
      case True
      have "1 \<le> length gs" using False by (cases gs) simp_all
      then have "in_range 0 100 (fl (100 / of_nat (length gs)))"
        by (intro in_range_fl) (simp_all add: divide_le_eq)
      then show ?thesis using False b True by (auto simp: normaliseSizes_def Let_def js_leq_def js_int_def)
    next
      case nz: False
      have "in_range 0 100 (js_mul (js_div (wg_size g) (Fin b)) (Fin 100))" if g: "g \<in> set gs" for g
      proof -
        obtain x where x: "wg_size g = Fin x" "0 \<le> x" using bspec [OF assms g] by (elim in_rangeE) simp
        have "in_range 0 1 (fl (x / b))" using x b(2) b(3) [OF g x(1)] nz by (intro in_range_fl) simp_all
        then obtain q where q: "fl (x / b) = Fin q" "0 \<le> q" "q \<le> 1" by (auto elim: in_rangeE)
        then have "in_range 0 100 (fl (q * 100))" by (intro in_range_fl) simp_all
        then show ?thesis using q x nz by simp
      qed
      then show ?thesis using False b nz by (auto simp: normaliseSizes_def Let_def js_leq_def)
    qed
  qed
qed (simp add: normaliseSizes_def)

section \<open>Well-formed documents\<close>

definition group_ok :: "widget_group \<Rightarrow> bool" where
  "group_ok g = (wg_id g \<noteq> '''' \<and> wg_widgetIds g \<noteq> [] \<and> '''' \<notin> set (wg_widgetIds g) \<and>
     wg_active g \<in> set (wg_widgetIds g) \<and> in_range 0 100 (wg_size g))"

definition region_ok :: "region_state \<Rightarrow> bool" where
  "region_ok s = (list_all group_ok (rs_groups s) \<and> in_range 4 80 (rs_size s))"

definition tabs :: "region_state \<Rightarrow> string list" where
  "tabs s = concat (map wg_widgetIds (rs_groups s))"

definition gids :: "region_state \<Rightarrow> string list" where
  "gids s = map wg_id (rs_groups s)"

definition over :: "(region_state \<Rightarrow> 'a list) \<Rightarrow> workspace \<Rightarrow> 'a list" where
  "over f w = concat (map (\<lambda>r. f (region_at (ws_regions w) r)) REGION_IDS)"

abbreviation placed :: "workspace \<Rightarrow> string list" where "placed \<equiv> over tabs"
abbreviation group_ids :: "workspace \<Rightarrow> string list" where "group_ids \<equiv> over gids"

definition regions_ok :: "workspace \<Rightarrow> bool" where
  "regions_ok w = ((\<forall>r. region_ok (region_at (ws_regions w) r)) \<and> distinct (placed w) \<and> distinct (group_ids w))"

definition panes_ok :: "workspace \<Rightarrow> bool" where
  "panes_ok w = (map cp_id (ws_chartPanes w) = map pane_id [1..<Suc (MAX_CHART_PANES (ws_chartLayout w))] \<and>
     list_all chartPaneSchema (ws_chartPanes w))"

definition watchlist_ok :: "watchlist \<Rightarrow> bool" where
  "watchlist_ok l = (wl_id l \<noteq> '''' \<and> wl_name l \<noteq> '''' \<and> '''' \<notin> set (wl_symbols l) \<and> distinct (wl_symbols l))"

definition watchlists_ok :: "workspace \<Rightarrow> bool" where
  "watchlists_ok w = (list_all watchlist_ok (ws_watchlists w) \<and> distinct (map wl_id (ws_watchlists w)) \<and>
     ws_activeWatchlistId w \<in> set (map wl_id (ws_watchlists w)))"

definition lists_ok :: "workspace \<Rightarrow> bool" where
  "lists_ok w = (distinct (ws_favorites w) \<and> '''' \<notin> set (ws_favorites w) \<and>
     distinct (ws_recentSymbols w) \<and> '''' \<notin> set (ws_recentSymbols w) \<and> length (ws_recentSymbols w) \<le> 20 \<and>
     distinct (map fst (ws_tables w)) \<and> list_all (\<lambda>(k, t). tablePreferencesSchema t) (ws_tables w))"

definition head_ok :: "workspace \<Rightarrow> bool" where
  "head_ok w = (ws_schemaVersion w = WORKSPACE_SCHEMA_VERSION \<and> ws_id w \<noteq> '''' \<and> ws_name w \<noteq> '''' \<and>
     0 \<le> ws_updatedAt w \<and> ws_activeSymbol w \<noteq> '''' \<and> ws_activeInterval w \<noteq> '''')"

definition layout_ok :: "workspace \<Rightarrow> bool" where
  "layout_ok w = (regions_ok w \<and> panes_ok w \<and> watchlists_ok w \<and> lists_ok w \<and> head_ok w)"

lemmas layout_defs = layout_ok_def panes_ok_def watchlists_ok_def lists_ok_def head_ok_def

section \<open>Operations on one region\<close>

lemma distinct_count: "distinct xs \<longleftrightarrow> (\<forall>x. count_list xs x \<le> 1)"
proof (induction xs)
  case (Cons y xs)
  have "count_list xs y = 0 \<longleftrightarrow> y \<notin> set xs" by (rule count_list_0_iff)
  then show ?case using Cons
    by (auto simp: le_Suc_eq split: if_splits)
qed simp

lemma on_region_simps [simp]:
  "region_at (ws_regions (on_region r h w)) r' = (if r' = r then h (region_at (ws_regions w) r) else region_at (ws_regions w) r')"
  by (simp add: on_region_def)

lemma count_over:
  "count_list (over f (on_region r h w)) x + count_list (f (region_at (ws_regions w) r)) x =
   count_list (over f w) x + count_list (f (h (region_at (ws_regions w) r))) x"
  by (cases r) (simp_all add: over_def REGION_IDS_def)

lemma count_over_region: "count_list (f (region_at (ws_regions w) r)) x \<le> count_list (over f w) x"
  by (cases r) (simp_all add: over_def REGION_IDS_def)

lemma panes_ok_regions [simp]: "panes_ok (on_region r h w) = panes_ok w"
  and watchlists_ok_regions [simp]: "watchlists_ok (on_region r h w) = watchlists_ok w"
  and lists_ok_regions [simp]: "lists_ok (on_region r h w) = lists_ok w"
  and head_ok_regions [simp]: "head_ok (on_region r h w) = head_ok w"
  by (simp_all add: on_region_def layout_defs)

lemma regions_ok_on_region:
  assumes "regions_ok w" "region_ok (h (region_at (ws_regions w) r))"
    "\<And>x. count_list (tabs (h (region_at (ws_regions w) r))) x \<le> count_list (tabs (region_at (ws_regions w) r)) x \<or>
       x \<notin> set (placed w) \<and> count_list (tabs (h (region_at (ws_regions w) r))) x \<le> 1"
    "\<And>i. count_list (gids (h (region_at (ws_regions w) r))) i \<le> count_list (gids (region_at (ws_regions w) r)) i \<or>
       i \<notin> set (group_ids w) \<and> count_list (gids (h (region_at (ws_regions w) r))) i \<le> 1"
  shows "regions_ok (on_region r h w)"
proof -
  let ?s = "region_at (ws_regions w) r"
  have "count_list (over f (on_region r h w)) x \<le> 1"
    if c: "count_list (f (h ?s)) x \<le> count_list (f ?s) x \<or> x \<notin> set (over f w) \<and> count_list (f (h ?s)) x \<le> 1"
      and d: "distinct (over f w)" for f :: "region_state \<Rightarrow> string list" and x
  proof -
    have "count_list (over f w) x \<le> 1" using d by (simp add: distinct_count)
    moreover have "count_list (f (h ?s)) x \<le> count_list (f ?s) x \<or> count_list (over f w) x = 0 \<and> count_list (f (h ?s)) x \<le> 1"
      using c by (simp add: count_list_0_iff)
    ultimately show ?thesis using count_over [of f r h w x] count_over_region [of f w r x] by linarith
  qed
  then show ?thesis using assms unfolding regions_ok_def by (simp add: distinct_count [of "over f (on_region r h w)" for f :: "region_state \<Rightarrow> string list"])
qed

text \<open>The contract of an operation that adds nothing to the regions it may be applied to.\<close>

locale region_mutation =
  fixes h :: "region_state \<Rightarrow> region_state"
    and P :: "region_state \<Rightarrow> bool"
  assumes keeps: "region_ok s \<Longrightarrow> P s \<Longrightarrow> region_ok (h s)"
    and tabs_le: "P s \<Longrightarrow> count_list (tabs (h s)) x \<le> count_list (tabs s) x"
    and gids_le: "P s \<Longrightarrow> count_list (gids (h s)) i \<le> count_list (gids s) i"
begin

lemma on_region_ok: "regions_ok w \<Longrightarrow> P (region_at (ws_regions w) r) \<Longrightarrow> regions_ok (on_region r h w)"
  by (rule regions_ok_on_region) (auto simp: regions_ok_def keeps tabs_le gids_le)

lemma on_region_layout: "layout_ok w \<Longrightarrow> P (region_at (ws_regions w) r) \<Longrightarrow> layout_ok (on_region r h w)"
  by (simp add: layout_ok_def on_region_ok)

lemma no_new_group: "P (region_at (ws_regions w) r) \<Longrightarrow> set (group_ids (on_region r h w)) \<subseteq> set (group_ids w)"
proof
  fix x assume p: "P (region_at (ws_regions w) r)" and "x \<in> set (group_ids (on_region r h w))"
  then have "count_list (group_ids (on_region r h w)) x \<noteq> 0" by (simp add: count_list_0_iff)
  then have "count_list (group_ids w) x \<noteq> 0"
    using count_over [of gids r h w x] gids_le [OF p, of x] by linarith
  then show "x \<in> set (group_ids w)" by (simp add: count_list_0_iff)
qed

end

section \<open>The operations meet the contract\<close>

lemma list_all_normalise: "list_all group_ok gs \<Longrightarrow> list_all group_ok (normaliseSizes gs)"
proof -
  assume ok: "list_all group_ok gs"
  have "\<exists>g0\<in>set gs. \<exists>sz. g = g0\<lparr>wg_size := sz\<rparr>" if "g \<in> set (normaliseSizes gs)" for g
    using that by (auto simp: normaliseSizes_def Let_def split: if_splits)
  moreover have "in_range 0 100 (wg_size g)" if "g \<in> set (normaliseSizes gs)" for g
    using normaliseSizes_range [of gs] ok that by (auto simp: list_all_iff group_ok_def)
  ultimately show ?thesis using ok unfolding list_all_iff group_ok_def by fastforce
qed

lemma tabs_normalise [simp]: "tabs (s\<lparr>rs_groups := normaliseSizes gs\<rparr>) = concat (map wg_widgetIds gs)"
  "tabs (s\<lparr>rs_groups := normaliseSizes gs, rs_collapsed := b\<rparr>) = concat (map wg_widgetIds gs)"
  by (simp_all add: tabs_def)

lemma gids_normalise [simp]: "gids (s\<lparr>rs_groups := normaliseSizes gs\<rparr>) = map wg_id gs"
  "gids (s\<lparr>rs_groups := normaliseSizes gs, rs_collapsed := b\<rparr>) = map wg_id gs"
  by (simp_all add: gids_def)

lemma count_filter_neq: "count_list (filter (\<lambda>i. i \<noteq> x) xs) y = (if y = x then 0 else count_list xs y)"
  by (induction xs) auto

lemma remove_from_group_Some:
  "remove_from_group x g = Some g' \<Longrightarrow> wg_id g' = wg_id g \<and> wg_widgetIds g' = filter (\<lambda>i. i \<noteq> x) (wg_widgetIds g) \<and>
     wg_size g' = wg_size g \<and> (group_ok g \<longrightarrow> group_ok g')"
proof (cases "x \<in> set (wg_widgetIds g)")
  case False
  then have "filter (\<lambda>i. i \<noteq> x) (wg_widgetIds g) = wg_widgetIds g" by (induction "wg_widgetIds g") (auto intro!: filter_True)
  then show "remove_from_group x g = Some g' \<Longrightarrow> ?thesis" using False by (simp add: remove_from_group_def)
next
  case True
  assume r: "remove_from_group x g = Some g'"
  obtain f fs where f: "filter (\<lambda>i. i \<noteq> x) (wg_widgetIds g) = f # fs"
    using r True by (cases "filter (\<lambda>i. i \<noteq> x) (wg_widgetIds g)") (simp_all add: remove_from_group_def)
  then have "g' = g\<lparr>wg_widgetIds := f # fs, wg_active := (if wg_active g = x then f else wg_active g)\<rparr>"
    using r True by (simp add: remove_from_group_def)
  moreover have "set (f # fs) = set (wg_widgetIds g) - {x}" unfolding f [symmetric] by auto
  ultimately show ?thesis using f by (auto simp: group_ok_def)
qed

lemma remove_from_group_None: "remove_from_group x g = None \<Longrightarrow> filter (\<lambda>i. i \<noteq> x) (wg_widgetIds g) = []"
  by (simp add: remove_from_group_def split: if_splits list.splits)

lemma removed_widgets: "concat (map wg_widgetIds (List.map_filter (remove_from_group x) gs)) =
    filter (\<lambda>i. i \<noteq> x) (concat (map wg_widgetIds gs))"
proof (induction gs)
  case (Cons g gs)
  show ?case
  proof (cases "remove_from_group x g")
    case None
    then show ?thesis using Cons remove_from_group_None [OF None] by (simp add: List.map_filter_simps)
  next
    case (Some g')
    then show ?thesis using Cons remove_from_group_Some [OF Some] by (simp add: List.map_filter_simps)
  qed
qed (simp add: List.map_filter_simps)

lemma removed_gids: "count_list (map wg_id (List.map_filter (remove_from_group x) gs)) i \<le> count_list (map wg_id gs) i"
  by (induction gs) (auto simp: List.map_filter_simps dest!: remove_from_group_Some split: option.splits)

lemma removed_ok: "list_all group_ok gs \<Longrightarrow> list_all group_ok (List.map_filter (remove_from_group x) gs)"
  by (induction gs) (auto simp: List.map_filter_simps dest!: remove_from_group_Some split: option.splits)

lemma count_absent: "\<not> list_ex (\<lambda>g. x \<in> set (wg_widgetIds g)) gs \<Longrightarrow> count_list (concat (map wg_widgetIds gs)) x = 0"
  by (auto simp: list_ex_iff count_list_0_iff)

lemma remove_tabs: "count_list (tabs (remove_from_region x s)) y = (if y = x then 0 else count_list (tabs s) y)"
proof (cases "list_ex (\<lambda>g. x \<in> set (wg_widgetIds g)) (rs_groups s)")
  case False
  then show ?thesis using count_absent [of x "rs_groups s"] by (simp add: remove_from_region_def tabs_def)
qed (simp add: remove_from_region_def removed_widgets count_filter_neq, simp add: tabs_def)

interpretation removal: region_mutation "remove_from_region x" "\<lambda>_. True" for x
proof
  fix s y i
  show "region_ok s \<Longrightarrow> region_ok (remove_from_region x s)"
    by (simp add: remove_from_region_def region_ok_def list_all_normalise removed_ok)
  show "count_list (tabs (remove_from_region x s)) y \<le> count_list (tabs s) y" by (simp add: remove_tabs)
  show "count_list (gids (remove_from_region x s)) i \<le> count_list (gids s) i"
    using removed_gids [of x "rs_groups s" i] by (simp add: remove_from_region_def) (simp add: gids_def)
qed

interpretation resize: region_mutation "\<lambda>s. s\<lparr>rs_size := clamp sz (Fin 4) (Fin 80)\<rparr>" "\<lambda>_. sz \<noteq> NaN \<and> is_double sz" for sz
  using clamp_range [of sz 4 80] by unfold_locales (simp_all add: region_ok_def tabs_def gids_def js_int_def)

interpretation toggling: region_mutation "\<lambda>s. s\<lparr>rs_collapsed := \<not> rs_collapsed s\<rparr>" "\<lambda>_. True"
  by unfold_locales (simp_all add: region_ok_def tabs_def gids_def)

interpretation collapsing: region_mutation "\<lambda>s. s\<lparr>rs_collapsed := b\<rparr>" "\<lambda>_. True" for b
  by unfold_locales (simp_all add: region_ok_def tabs_def gids_def)

text \<open>Rewriting the groups one by one without touching their identifiers and tabs.\<close>

lemma map_groups:
  assumes "\<And>g. wg_id (f g) = wg_id g" "\<And>g. wg_widgetIds (f g) = wg_widgetIds g"
  shows "tabs (s\<lparr>rs_groups := map f (rs_groups s)\<rparr>) = tabs s" "gids (s\<lparr>rs_groups := map f (rs_groups s)\<rparr>) = gids s"
    "tabs (s\<lparr>rs_collapsed := b, rs_groups := map f (rs_groups s)\<rparr>) = tabs s"
    "gids (s\<lparr>rs_collapsed := b, rs_groups := map f (rs_groups s)\<rparr>) = gids s"
  using assms by (simp_all add: tabs_def gids_def comp_def)

interpretation group_sizing: region_mutation
    "\<lambda>s. s\<lparr>rs_groups := map (\<lambda>g. if wg_id g = gid then g\<lparr>wg_size := clamp sz (Fin 0) (Fin 100)\<rparr> else g) (rs_groups s)\<rparr>"
    "\<lambda>_. sz \<noteq> NaN \<and> is_double sz" for gid sz
  using clamp_range [of sz 0 100]
  by unfold_locales (auto simp: region_ok_def list_all_iff group_ok_def js_int_def map_groups)

definition activate_in :: "string \<Rightarrow> string \<Rightarrow> region_state \<Rightarrow> region_state" where
  "activate_in x gid s = s\<lparr>rs_collapsed := False,
     rs_groups := map (\<lambda>g. if wg_id g = gid then g\<lparr>wg_active := x\<rparr> else g) (rs_groups s)\<rparr>"

interpretation activation: region_mutation "activate_in x gid"
    "\<lambda>s. \<forall>g\<in>set (rs_groups s). wg_id g = gid \<longrightarrow> x \<in> set (wg_widgetIds g)" for x gid
  unfolding activate_in_def by unfold_locales (auto simp: region_ok_def list_all_iff group_ok_def map_groups)

lemma mset_splice_in [simp]: "mset (splice_in i x xs) = add_mset x (mset xs)"
proof -
  have "mset xs = mset (take i xs) + mset (drop i xs)" by (metis append_take_drop_id mset_append)
  then show ?thesis by (simp add: splice_in_def)
qed

lemma mset_insertAt [simp]: "mset (insertAt xs x i) = add_mset x (mset xs)"
  by (simp add: insertAt_def)

lemma mset_move_item: "move_item i j xs = Some ys \<Longrightarrow> mset ys = mset xs"
proof -
  assume m: "move_item i j xs = Some ys"
  define k where "k = splice_at i (length xs)"
  have k: "k < length xs" using m by (simp add: move_item_def k_def Let_def split: if_splits)
  have "mset ys = add_mset (xs ! k) (mset (take k xs @ drop (Suc k) xs))"
    using m k by (auto simp: move_item_def Let_def k_def split: if_splits)
  also have "\<dots> = mset (take k xs @ xs ! k # drop (Suc k) xs)" by simp
  also have "\<dots> = mset xs" using k by (simp only: id_take_nth_drop [symmetric])
  finally show ?thesis .
qed

lemma count_list_mset: "count_list xs x = count (mset xs) x"
  by (induction xs) auto

lemma mset_concat_map: "mset gs = mset hs \<Longrightarrow> mset (concat (map f gs)) = mset (concat (map f hs))"
proof -
  have "mset (concat (map f gs)) = sum_mset (image_mset (\<lambda>g. mset (f g)) (mset gs))" for gs
    by (induction gs) auto
  then show "mset gs = mset hs \<Longrightarrow> ?thesis" by simp
qed

interpretation reordering: region_mutation "\<lambda>s. s\<lparr>rs_groups := gs\<rparr>" "\<lambda>s. mset gs = mset (rs_groups s)" for gs
proof
  fix s :: region_state and x i
  assume m: "mset gs = mset (rs_groups s)"
  show "region_ok s \<Longrightarrow> region_ok (s\<lparr>rs_groups := gs\<rparr>)"
    using mset_eq_setD [OF m] by (simp add: region_ok_def list_all_iff)
  show "count_list (tabs (s\<lparr>rs_groups := gs\<rparr>)) x \<le> count_list (tabs s) x"
    using mset_concat_map [OF m, of wg_widgetIds] by (simp add: tabs_def count_list_mset)
  show "count_list (gids (s\<lparr>rs_groups := gs\<rparr>)) i \<le> count_list (gids s) i"
    using m by (simp add: gids_def count_list_mset)
qed

end
