(* ===== verification/WorkspaceGuarantees.thy ===== *)
theory WorkspaceGuarantees
  imports WorkspaceInvariants
begin

text \<open>
  Every mutation of the workspace keeps the document well-formed, and so does every sequence of actions;
  what a move of a widget conserves; when the saved document is accepted again by its own schema.
\<close>

section \<open>Looking a widget up\<close>

lemma find_group_Some: "find_group x gs = Some i \<Longrightarrow> \<exists>g\<in>set gs. wg_id g = i \<and> x \<in> set (wg_widgetIds g)"
  by (induction gs) (auto split: if_splits)

lemma find_group_None: "find_group x gs = None \<longleftrightarrow> x \<notin> set (concat (map wg_widgetIds gs))"
  by (induction gs) auto

lemma find_region_Some: "find_region x R rs = Some (r, i) \<Longrightarrow> find_group x (rs_groups (region_at R r)) = Some i"
  by (induction rs) (auto split: option.splits)

lemma find_region_None: "find_region x R rs = None \<longleftrightarrow> (\<forall>r\<in>set rs. find_group x (rs_groups (region_at R r)) = None)"
  by (induction rs) (auto split: option.splits)

lemma set_over: "set (over f w) = (\<Union>r. set (f (region_at (ws_regions w) r)))"
  using REGION_IDS_all(1) by (simp add: over_def)

lemma findWidget_None: "findWidget w x = None \<longleftrightarrow> x \<notin> set (placed w)"
  by (simp add: findWidget_def find_region_None find_group_None set_over tabs_def)

lemma distinct_region: "distinct (over f w) \<Longrightarrow> distinct (f (region_at (ws_regions w) r))"
  by (cases r) (simp_all add: over_def REGION_IDS_def)

lemma findWidget_Some:
  assumes "regions_ok w" "findWidget w x = Some (r, gid)"
  shows "\<forall>g\<in>set (rs_groups (region_at (ws_regions w) r)). wg_id g = gid \<longrightarrow> x \<in> set (wg_widgetIds g)"
proof -
  obtain g where g: "g \<in> set (rs_groups (region_at (ws_regions w) r))" "wg_id g = gid" "x \<in> set (wg_widgetIds g)"
    using find_group_Some [OF find_region_Some] assms(2) unfolding findWidget_def by blast
  moreover have "inj_on wg_id (set (rs_groups (region_at (ws_regions w) r)))"
    using distinct_region [of gids w r] assms(1) by (simp add: regions_ok_def gids_def distinct_map)
  ultimately show ?thesis by (auto dest: inj_onD)
qed

section \<open>Mutations of the regions\<close>

lemma mem_count: "x \<in> set xs \<longleftrightarrow> 0 < count_list xs x"
  using count_list_0_iff [of xs x] by auto

lemma activate_ok:
  assumes "layout_ok w"
  shows "layout_ok (activateWidgetIn w x)" "set (group_ids (activateWidgetIn w x)) \<subseteq> set (group_ids w)"
proof -
  have "layout_ok (activateWidgetIn w x) \<and> set (group_ids (activateWidgetIn w x)) \<subseteq> set (group_ids w)"
  proof (cases "findWidget w x")
    case None
    then show ?thesis using assms by (simp add: activateWidgetIn_def)
  next
    case (Some rg)
    then obtain r gid where f: "findWidget w x = Some (r, gid)" by (cases rg) simp
    have e: "activateWidgetIn w x = on_region r (activate_in x gid) w" using f by (simp add: activateWidgetIn_def activate_in_def [abs_def])
    have P: "\<forall>g\<in>set (rs_groups (region_at (ws_regions w) r)). wg_id g = gid \<longrightarrow> x \<in> set (wg_widgetIds g)"
      using findWidget_Some [OF _ f] assms by (simp add: layout_ok_def)
    show ?thesis unfolding e using activation.on_region_layout [OF assms P] activation.no_new_group [OF P] by blast
  qed
  then show "layout_ok (activateWidgetIn w x)" "set (group_ids (activateWidgetIn w x)) \<subseteq> set (group_ids w)" by auto
qed

lemma fold_on_region: "distinct rs \<Longrightarrow> region_at (ws_regions (fold (\<lambda>r. on_region r h) rs w)) r =
    (if r \<in> set rs then h (region_at (ws_regions w) r) else region_at (ws_regions w) r)"
  by (induction rs arbitrary: w) auto

lemma removed_region: "region_at (ws_regions (removeWidgetFrom w x)) r = remove_from_region x (region_at (ws_regions w) r)"
  unfolding removeWidgetFrom_def fold_on_region [OF REGION_IDS_all(2)] by simp

lemma remove_ok:
  assumes "layout_ok w"
  shows "layout_ok (removeWidgetFrom w x)" "set (group_ids (removeWidgetFrom w x)) \<subseteq> set (group_ids w)"
proof -
  have "layout_ok (fold (\<lambda>r. on_region r (remove_from_region x)) rs w) \<and>
      set (group_ids (fold (\<lambda>r. on_region r (remove_from_region x)) rs w)) \<subseteq> set (group_ids w)" for rs
    using assms
  proof (induction rs arbitrary: w)
    case (Cons r rs)
    have "layout_ok (on_region r (remove_from_region x) w)" using Cons.prems by (rule removal.on_region_layout) simp
    then show ?case using Cons.IH removal.no_new_group [where w = w and r = r and x = x] by fastforce
  qed simp
  then show "layout_ok (removeWidgetFrom w x)" "set (group_ids (removeWidgetFrom w x)) \<subseteq> set (group_ids w)"
    by (simp_all add: removeWidgetFrom_def)
qed

lemma removed_placed: "count_list (placed (removeWidgetFrom w x)) y = (if y = x then 0 else count_list (placed w) y)"
  by (simp add: over_def REGION_IDS_def removed_region remove_tabs)

lemma removed_not_placed: "x \<notin> set (placed (removeWidgetFrom w x))"
  by (simp flip: count_list_0_iff add: removed_placed)

text \<open>Adding a group of its own for a widget that is not placed.\<close>

definition add_group_at :: "widget_group \<Rightarrow> (widget_group list \<Rightarrow> widget_group list) \<Rightarrow> region_state \<Rightarrow> region_state" where
  "add_group_at g ins s = s\<lparr>rs_groups := normaliseSizes (ins (rs_groups s)), rs_collapsed := False\<rparr>"

lemma add_group_counts:
  assumes "mset (ins (rs_groups s)) = add_mset (new_group gid x) (mset (rs_groups s))"
  shows "count_list (tabs (add_group_at (new_group gid x) ins s)) y = count_list (tabs s) y + (if y = x then 1 else 0)"
    "count_list (gids (add_group_at (new_group gid x) ins s)) i = count_list (gids s) i + (if i = gid then 1 else 0)"
proof -
  have m: "mset (ins (rs_groups s)) = mset (new_group gid x # rs_groups s)" using assms by simp
  have "mset (concat (map wg_widgetIds (ins (rs_groups s)))) = mset (concat (map wg_widgetIds (new_group gid x # rs_groups s)))"
    using m by (rule mset_concat_map)
  then show "count_list (tabs (add_group_at (new_group gid x) ins s)) y = count_list (tabs s) y + (if y = x then 1 else 0)"
    by (simp add: add_group_at_def count_list_mset tabs_def new_group_def)
  have "mset (map wg_id (ins (rs_groups s))) = mset (map wg_id (new_group gid x # rs_groups s))"
    using m by (simp only: mset_map)
  then show "count_list (gids (add_group_at (new_group gid x) ins s)) i = count_list (gids s) i + (if i = gid then 1 else 0)"
    by (simp add: add_group_at_def count_list_mset gids_def new_group_def)
qed

lemma new_group_ok: "x \<noteq> '''' \<Longrightarrow> gid \<noteq> '''' \<Longrightarrow> group_ok (new_group gid x)"
  using in_range_js_int [of 0 40 100] by (simp add: group_ok_def new_group_def)

lemma add_group_ok:
  assumes "layout_ok w" "x \<notin> set (placed w)" "x \<noteq> ''''" "gid \<notin> set (group_ids w)" "gid \<noteq> ''''"
    "\<And>gs. mset (ins gs) = add_mset (new_group gid x) (mset gs)"
  shows "layout_ok (on_region r (add_group_at (new_group gid x) ins) w)"
    "set (group_ids (on_region r (add_group_at (new_group gid x) ins) w)) = insert gid (set (group_ids w))"
proof -
  let ?h = "add_group_at (new_group gid x) ins"
  let ?s = "region_at (ws_regions w) r"
  have s: "region_ok ?s" using assms(1) by (simp add: layout_ok_def regions_ok_def)
  have "set (ins (rs_groups ?s)) = insert (new_group gid x) (set (rs_groups ?s))"
    using assms(6) [of "rs_groups ?s"] by (metis set_mset_add_mset_insert set_mset_mset)
  then have "list_all group_ok (ins (rs_groups ?s))"
    using s new_group_ok [OF assms(3,5)] by (simp add: region_ok_def list_all_iff)
  then have h: "region_ok (?h ?s)" using s by (simp add: region_ok_def add_group_at_def list_all_normalise)
  note counts = add_group_counts [of ins ?s gid x, OF assms(6)]
  have absent: "count_list (f ?s) y = 0" if "y \<notin> set (over f w)" for f :: "region_state \<Rightarrow> string list" and y
    using that count_over_region [of f w r y] by (simp flip: count_list_0_iff)
  have "regions_ok (on_region r ?h w)"
  proof (rule regions_ok_on_region)
    show "region_ok (?h ?s)" by (rule h)
  qed (use assms absent in \<open>auto simp: counts layout_ok_def\<close>)
  then show "layout_ok (on_region r ?h w)" using assms(1) by (simp add: layout_ok_def)
  have "i \<in> set (group_ids (on_region r ?h w)) \<longleftrightarrow> i \<in> insert gid (set (group_ids w))" for i
    using count_over [of gids r ?h w i] counts(2) [of i] by (simp add: mem_count)
  then show "set (group_ids (on_region r ?h w)) = insert gid (set (group_ids w))" by blast
qed

text \<open>Dropping a widget that is not placed into the group \<open>gid\<close>.\<close>

lemma drop_into_tabs: "count_list (tabs (drop_into x gid index s)) y =
    count_list (tabs s) y + (if y = x then count_list (gids s) gid else 0)"
proof -
  have "count_list (concat (map wg_widgetIds (map (\<lambda>g. if wg_id g = gid
       then g\<lparr>wg_widgetIds := insertAt (wg_widgetIds g) x index, wg_active := x\<rparr> else g) gs))) y =
    count_list (concat (map wg_widgetIds gs)) y + (if y = x then count_list (map wg_id gs) gid else 0)" for gs
    by (induction gs) (simp_all add: count_list_mset)
  from this [of "rs_groups s"] show ?thesis by (simp add: drop_into_def tabs_def gids_def)
qed

lemma drop_into_gids [simp]: "gids (drop_into x gid index s) = gids s"
  by (simp add: drop_into_def gids_def comp_def if_distrib cong: if_cong)

lemma set_insertAt [simp]: "set (insertAt xs x i) = insert x (set xs)"
  by (metis mset_insertAt set_mset_add_mset_insert set_mset_mset)

lemma drop_into_ok:
  assumes "layout_ok w" "x \<notin> set (placed w)" "x \<noteq> ''''"
  shows "layout_ok (on_region r (drop_into x gid index) w)"
    "set (group_ids (on_region r (drop_into x gid index) w)) = set (group_ids w)"
proof -
  let ?s = "region_at (ws_regions w) r"
  have s: "region_ok ?s" "distinct (gids ?s)"
    using assms(1) distinct_region [of gids w r] by (simp_all add: layout_ok_def regions_ok_def)
  have ne: "insertAt xs x index \<noteq> []" for xs using set_insertAt [of xs x index] by (metis insert_not_empty set_empty)
  have h: "region_ok (drop_into x gid index ?s)"
    using s(1) assms(3) ne by (auto simp: region_ok_def drop_into_def list_all_iff group_ok_def)
  have le: "count_list (gids ?s) gid \<le> 1" using s(2) by (simp add: distinct_count)
  have "count_list (tabs ?s) x = 0" using assms(2) count_over_region [of tabs w r x] by (simp flip: count_list_0_iff)
  then have absent: "count_list (tabs (drop_into x gid index ?s)) x \<le> 1" using le by (simp add: drop_into_tabs)
  have "regions_ok (on_region r (drop_into x gid index) w)"
  proof (rule regions_ok_on_region)
    show "region_ok (drop_into x gid index ?s)" by (rule h)
  qed (use assms absent in \<open>auto simp: drop_into_tabs layout_ok_def\<close>)
  then show "layout_ok (on_region r (drop_into x gid index) w)" using assms(1) by (simp add: layout_ok_def)
  have "i \<in> set (group_ids (on_region r (drop_into x gid index) w)) \<longleftrightarrow> i \<in> set (group_ids w)" for i
    using count_over [of gids r "drop_into x gid index" w i] by (simp add: mem_count)
  then show "set (group_ids (on_region r (drop_into x gid index) w)) = set (group_ids w)" by blast
qed

lemma group_id_ne [simp]: "group_id t c \<noteq> ''''" "[] \<noteq> group_id t c"
  by (simp_all add: group_id_def)

definition fresh :: "int \<Rightarrow> workspace \<times> nat \<Rightarrow> bool" where
  "fresh now = (\<lambda>(w, c). group_id now (Suc c) \<notin> set (group_ids w))"

lemma add_widget_ok:
  assumes "layout_ok w" "x \<noteq> ''''" "fresh now (w, c)" "add_widget now x r (w, c) = (w', c')"
  shows "layout_ok w'" "set (group_ids w') \<subseteq> insert (group_id now (Suc c)) (set (group_ids w)) \<and> (c' = c \<and> set (group_ids w') \<subseteq> set (group_ids w) \<or> c' = Suc c)"
proof -
  have "layout_ok w' \<and> set (group_ids w') \<subseteq> insert (group_id now (Suc c)) (set (group_ids w)) \<and> (c' = c \<and> set (group_ids w') \<subseteq> set (group_ids w) \<or> c' = Suc c)"
  proof (cases "findWidget w x")
    case None
    let ?g = "new_group (group_id now (Suc c)) x"
    have m: "mset (gs @ [?g]) = add_mset ?g (mset gs)" for gs by simp
    have e: "w' = on_region r (add_group_at ?g (\<lambda>gs. gs @ [?g])) w" "c' = Suc c"
      using assms(4) None by (auto simp: add_widget_def newGroupId_def add_group_at_def [abs_def])
    have "x \<notin> set (placed w)" using None by (simp add: findWidget_None)
    then show ?thesis using add_group_ok [OF assms(1) _ assms(2) _ group_id_ne(1) m, of r] assms(3) e by (simp add: fresh_def)
  next
    case (Some p)
    then have "w' = activateWidgetIn w x" "c' = c" using assms(4) by (simp_all add: add_widget_def)
    then show ?thesis using activate_ok [OF assms(1), of x] by auto
  qed
  then show "layout_ok w'" "set (group_ids w') \<subseteq> insert (group_id now (Suc c)) (set (group_ids w)) \<and> (c' = c \<and> set (group_ids w') \<subseteq> set (group_ids w) \<or> c' = Suc c)" by auto
qed

lemma move_widget_ok:
  assumes "layout_ok w" "fresh now (w, c)" "move_widget now x r gid index (w, c) = (w', c')"
  shows "layout_ok w'" "set (group_ids w') \<subseteq> insert (group_id now (Suc c)) (set (group_ids w)) \<and> (c' = c \<and> set (group_ids w') \<subseteq> set (group_ids w) \<or> c' = Suc c)"
proof -
  have "layout_ok w' \<and> set (group_ids w') \<subseteq> insert (group_id now (Suc c)) (set (group_ids w)) \<and> (c' = c \<and> set (group_ids w') \<subseteq> set (group_ids w) \<or> c' = Suc c)"
  proof (cases "findWidget w x")
    case None
    then have "w' = w" "c' = c" using assms(3) by (simp_all add: move_widget_def)
    then show ?thesis using assms(1) by auto
  next
    case (Some p)
    let ?n = "removeWidgetFrom w x"
    note n = remove_ok [OF assms(1), of x] removed_not_placed [of x w]
    have "x \<in> set (placed w)" using Some findWidget_None [of w x] by simp
    then have x: "x \<noteq> ''''" using assms(1)
      by (auto simp: set_over tabs_def layout_ok_def regions_ok_def region_ok_def list_all_iff group_ok_def)
    show ?thesis
    proof (cases "truthy gid")
      case None
      let ?g = "new_group (group_id now (Suc c)) x"
      have m: "mset (insertAt gs ?g index) = add_mset ?g (mset gs)" for gs by simp
      have e: "w' = on_region r (add_group_at ?g (\<lambda>gs. insertAt gs ?g index)) ?n" "c' = Suc c"
        using assms(3) Some None by (auto simp: move_widget_def newGroupId_def add_group_at_def [abs_def])
      have "group_id now (Suc c) \<notin> set (group_ids ?n)" using n(2) assms(2) by (auto simp: fresh_def)
      then show ?thesis using add_group_ok [OF n(1) n(3) x _ group_id_ne(1) m, of r] n(2) e by auto
    next
      case (Some i)
      then have "w' = on_region r (drop_into x i index) ?n" "c' = c"
        using assms(3) \<open>findWidget w x = Some p\<close> by (auto simp: move_widget_def)
      then show ?thesis using drop_into_ok [OF n(1) n(3) x, of r i index] n(2) by auto
    qed
  qed
  then show "layout_ok w'" "set (group_ids w') \<subseteq> insert (group_id now (Suc c)) (set (group_ids w)) \<and> (c' = c \<and> set (group_ids w') \<subseteq> set (group_ids w) \<or> c' = Suc c)" by auto
qed

lemma reorder_ok:
  assumes "layout_ok w"
  shows "layout_ok (reorder_group r i j w)" "set (group_ids (reorder_group r i j w)) \<subseteq> set (group_ids w)"
proof -
  have "layout_ok (reorder_group r i j w) \<and> set (group_ids (reorder_group r i j w)) \<subseteq> set (group_ids w)"
  proof (cases "move_item i j (rs_groups (region_at (ws_regions w) r))")
    case None
    then show ?thesis using assms by (simp add: reorder_group_def)
  next
    case (Some gs)
    then have m: "mset gs = mset (rs_groups (region_at (ws_regions w) r))" by (rule mset_move_item)
    show ?thesis using reordering.on_region_layout [OF assms m] reordering.no_new_group [OF m] Some
      by (simp add: reorder_group_def)
  qed
  then show "layout_ok (reorder_group r i j w)" "set (group_ids (reorder_group r i j w)) \<subseteq> set (group_ids w)" by auto
qed

section \<open>Mutations of the other parts\<close>

lemma regions_ok_cong: "ws_regions w' = ws_regions w \<Longrightarrow> regions_ok w' = regions_ok w"
  by (simp add: regions_ok_def over_def)

lemma group_ids_cong: "ws_regions w' = ws_regions w \<Longrightarrow> group_ids w' = group_ids w"
  by (simp add: over_def)

lemma pane_simp: "chartPaneSchema \<lparr>cp_id = a, cp_symbol = b, cp_interval = c, cp_chartState = d\<rparr> \<longleftrightarrow> a \<noteq> [] \<and> b \<noteq> [] \<and> c \<noteq> []"
  by (simp add: chartPaneSchema_def)

lemma grow_panes_ids:
  "map cp_id ps = map pane_id [1..<Suc (length ps)] \<Longrightarrow> list_all chartPaneSchema ps \<Longrightarrow> sy \<noteq> '''' \<Longrightarrow> i \<noteq> '''' \<Longrightarrow>
   map cp_id (grow_panes n sy i ps) = map pane_id [1..<Suc (max n (length ps))] \<and> list_all chartPaneSchema (grow_panes n sy i ps)"
proof (induction n sy i ps rule: grow_panes.induct)
  case (1 n sy i ps)
  show ?case
  proof (cases "length ps < n")
    case True
    have "max n (Suc (length ps)) = max n (length ps)" using True by simp
    moreover have "pane_id k \<noteq> ''''" for k by (simp add: pane_id_def)
    moreover have "map pane_id [Suc 0..<Suc (length ps)] @ [pane_id (Suc (length ps))] = map pane_id [Suc 0..<Suc (Suc (length ps))]"
      by simp
    moreover have g: "grow_panes n sy i ps = grow_panes n sy i (ps @ [\<lparr>cp_id = pane_id (length ps + 1), cp_symbol = sy, cp_interval = i, cp_chartState = None\<rparr>])"
      using True by (subst grow_panes.simps) simp
    ultimately show ?thesis using 1 True unfolding g by (simp add: pane_simp del: upt_Suc)
  next
    case False
    then show ?thesis using 1 by (subst (1 2) grow_panes.simps) (simp add: max_def)
  qed
qed

lemma set_chart_layout_ok: "layout_ok w \<Longrightarrow> layout_ok (set_chart_layout l w)"
proof -
  assume w: "layout_ok w"
  let ?n = "MAX_CHART_PANES l"
  let ?g = "grow_panes ?n (ws_activeSymbol w) (ws_activeInterval w) (ws_chartPanes w)"
  have ids: "map cp_id (ws_chartPanes w) = map pane_id [1..<Suc (MAX_CHART_PANES (ws_chartLayout w))]"
    using w by (simp add: layout_defs)
  then have len: "length (ws_chartPanes w) = MAX_CHART_PANES (ws_chartLayout w)"
    by (metis diff_Suc_1 length_map length_upt)
  have g: "map cp_id ?g = map pane_id [1..<Suc (max ?n (length (ws_chartPanes w)))]" "list_all chartPaneSchema ?g"
    using grow_panes_ids [of "ws_chartPanes w"] ids len w by (simp_all add: layout_defs)
  have "map cp_id (take ?n ?g) = take ?n (map pane_id [1..<Suc (max ?n (length (ws_chartPanes w)))])"
    using g(1) by (metis take_map)
  also have "\<dots> = map pane_id [1..<Suc ?n]" by (simp add: take_map del: upt_Suc)
  finally have "map cp_id (take ?n ?g) = map pane_id [1..<Suc ?n]" .
  moreover have "list_all chartPaneSchema (take ?n ?g)" using g(2) by (auto simp: list_all_iff dest: in_set_takeD)
  moreover have "regions_ok (set_chart_layout l w) = regions_ok w" by (rule regions_ok_cong) (simp add: set_chart_layout_def Let_def)
  ultimately show "layout_ok (set_chart_layout l w)" using w by (simp add: layout_defs set_chart_layout_def Let_def)
qed

lemma on_first_pane_simps: "(\<And>p. cp_id (f p) = cp_id p) \<Longrightarrow> map cp_id (on_first_pane f ps) = map cp_id ps"
  "(\<And>p. chartPaneSchema p \<Longrightarrow> chartPaneSchema (f p)) \<Longrightarrow> list_all chartPaneSchema ps \<Longrightarrow> list_all chartPaneSchema (on_first_pane f ps)"
  by (cases ps; simp add: on_first_pane_def)+

lemma on_pane_ok:
  assumes "layout_ok w" "\<And>p. cp_id (f p) = cp_id p" "\<And>p. chartPaneSchema p \<Longrightarrow> chartPaneSchema (f p)"
  shows "layout_ok (on_pane pid f w)"
proof -
  have ids: "map (cp_id \<circ> (\<lambda>p. if cp_id p = pid then f p else p)) ps = map cp_id ps" for ps
    using assms(2) by (induction ps) auto
  have "panes_ok (on_pane pid f w)"
    using assms(1,3) by (auto simp: on_pane_def layout_ok_def panes_ok_def ids list_all_iff)
  moreover have "regions_ok (on_pane pid f w) = regions_ok w" by (rule regions_ok_cong) (simp add: on_pane_def)
  moreover have "watchlists_ok (on_pane pid f w) = watchlists_ok w" "lists_ok (on_pane pid f w) = lists_ok w"
    "head_ok (on_pane pid f w) = head_ok w"
    by (simp_all add: watchlists_ok_def lists_ok_def head_ok_def on_pane_def)
  ultimately show ?thesis using assms(1) by (simp add: layout_ok_def)
qed

lemma mapWatchlist_ok:
  assumes "layout_ok w" "\<And>l. wl_id (f l) = wl_id l" "\<And>l. watchlist_ok l \<Longrightarrow> watchlist_ok (f l)"
  shows "layout_ok (mapWatchlist w wid f)"
proof -
  have ids: "map (wl_id \<circ> (\<lambda>l. if wl_id l = t then f l else l)) ls = map wl_id ls" for ls t
    using assms(2) by (induction ls) auto
  have "map wl_id (ws_watchlists (mapWatchlist w wid f)) = map wl_id (ws_watchlists w)"
    by (simp add: mapWatchlist_def Let_def ids)
  moreover have "list_all watchlist_ok (ws_watchlists (mapWatchlist w wid f))"
    using assms(1,3) by (auto simp: mapWatchlist_def Let_def layout_defs list_all_iff)
  moreover have "ws_activeWatchlistId (mapWatchlist w wid f) = ws_activeWatchlistId w" by (simp add: mapWatchlist_def Let_def)
  ultimately have "watchlists_ok (mapWatchlist w wid f)"
    using assms(1) unfolding watchlists_ok_def layout_ok_def by (simp only:)
  moreover have "regions_ok (mapWatchlist w wid f) = regions_ok w" by (rule regions_ok_cong) (simp add: mapWatchlist_def Let_def)
  moreover have "panes_ok (mapWatchlist w wid f) = panes_ok w" "lists_ok (mapWatchlist w wid f) = lists_ok w"
    "head_ok (mapWatchlist w wid f) = head_ok w"
    by (simp_all add: panes_ok_def lists_ok_def head_ok_def mapWatchlist_def Let_def)
  ultimately show ?thesis using assms(1) by (simp add: layout_ok_def)
qed

lemma remove_watchlist_ok: "layout_ok w \<Longrightarrow> layout_ok (remove_watchlist i w)"
proof (cases "length (ws_watchlists w) \<le> 1")
  case False
  assume w: "layout_ok w"
  let ?rest = "filter (\<lambda>l. wl_id l \<noteq> i) (ws_watchlists w)"
  have d: "distinct (map wl_id (ws_watchlists w))" using w by (simp add: layout_defs)
  have "?rest \<noteq> []"
  proof
    assume "?rest = []"
    then have "\<forall>l\<in>set (ws_watchlists w). wl_id l = i" by (auto simp: filter_empty_conv)
    moreover obtain a b ls where "ws_watchlists w = a # b # ls" using False
      by (cases "ws_watchlists w"; cases "tl (ws_watchlists w)") auto
    ultimately show False using d by simp
  qed
  then obtain f fs where f: "?rest = f # fs" by (cases ?rest) auto
  have "watchlists_ok (remove_watchlist i w)"
  proof -
    have "list_all watchlist_ok ?rest" "distinct (map wl_id ?rest)"
      using w d by (auto simp: layout_defs list_all_iff intro: distinct_map_filter)
    moreover have "(if ws_activeWatchlistId w = i then wl_id f else ws_activeWatchlistId w) \<in> set (map wl_id ?rest)"
    proof (cases "ws_activeWatchlistId w = i")
      case True
      then show ?thesis by (simp add: f)
    next
      case other: False
      then show ?thesis using w by (auto simp: layout_defs)
    qed
    moreover have "ws_watchlists (remove_watchlist i w) = ?rest"
      "ws_activeWatchlistId (remove_watchlist i w) = (if ws_activeWatchlistId w = i then wl_id f else ws_activeWatchlistId w)"
      using False f by (simp_all add: remove_watchlist_def)
    ultimately show ?thesis unfolding watchlists_ok_def by (simp only:)
  qed
  moreover have "regions_ok (remove_watchlist i w) = regions_ok w"
    by (rule regions_ok_cong) (simp add: remove_watchlist_def Let_def)
  ultimately show "layout_ok (remove_watchlist i w)" using w False
    by (simp add: layout_ok_def) (simp add: remove_watchlist_def Let_def layout_defs)
qed (simp add: remove_watchlist_def)

lemma plausible_ne: "isPlausibleSymbol sy \<Longrightarrow> sy \<noteq> ''''"
  by (auto simp: isPlausibleSymbol_def)

lemma on_first_pane_ok:
  assumes "layout_ok w" "\<And>p. cp_id (f p) = cp_id p" "\<And>p. chartPaneSchema p \<Longrightarrow> chartPaneSchema (f p)"
  shows "panes_ok (w\<lparr>ws_chartPanes := on_first_pane f (ws_chartPanes w)\<rparr>)"
  using assms on_first_pane_simps [of f] by (simp add: layout_ok_def panes_ok_def)

lemma set_active_symbol_ok:
  assumes "layout_ok w" "sy \<noteq> ''''"
  shows "layout_ok (set_active_symbol sy w)"
proof -
  have p: "panes_ok (w\<lparr>ws_chartPanes := on_first_pane (\<lambda>p. p\<lparr>cp_symbol := sy\<rparr>) (ws_chartPanes w)\<rparr>)"
    using assms by (intro on_first_pane_ok) (simp_all add: chartPaneSchema_def)
  have "set (take 19 (filter (\<lambda>s. s \<noteq> sy) (ws_recentSymbols w))) \<subseteq> set (filter (\<lambda>s. s \<noteq> sy) (ws_recentSymbols w))"
    by (rule set_take_subset)
  then have "lists_ok (set_active_symbol sy w)"
    using assms by (auto simp: set_active_symbol_def layout_defs)
  moreover have "regions_ok (set_active_symbol sy w) = regions_ok w" by (rule regions_ok_cong) (simp add: set_active_symbol_def)
  ultimately show ?thesis using assms p
    by (simp add: layout_ok_def) (simp add: set_active_symbol_def layout_defs)
qed

lemma set_active_interval_ok:
  assumes "layout_ok w" "i \<noteq> ''''"
  shows "layout_ok (set_active_interval i w)"
proof -
  have p: "panes_ok (w\<lparr>ws_chartPanes := on_first_pane (\<lambda>p. p\<lparr>cp_interval := i\<rparr>) (ws_chartPanes w)\<rparr>)"
    using assms by (intro on_first_pane_ok) (simp_all add: chartPaneSchema_def)
  moreover have "regions_ok (set_active_interval i w) = regions_ok w" by (rule regions_ok_cong) (simp add: set_active_interval_def)
  ultimately show ?thesis using assms
    by (simp add: layout_ok_def) (simp add: set_active_interval_def layout_defs)
qed

lemma tables_ok:
  assumes "layout_ok w"
  shows "cid \<noteq> '''' \<Longrightarrow> layout_ok (toggle_table_column tid cid w)" "layout_ok (reset_table_columns tid w)"
proof -
  let ?cur = "or_else (map_of (ws_tables w) tid) \<lparr>tp_hiddenColumns = [], tp_order = []\<rparr>"
  have cur: "tablePreferencesSchema ?cur"
    using assms map_of_SomeD [of "ws_tables w" tid]
    by (cases "map_of (ws_tables w) tid") (auto simp: layout_defs tablePreferencesSchema_def list_all_iff)
  show "layout_ok (toggle_table_column tid cid w)" if "cid \<noteq> ''''"
  proof -
    let ?h = "if cid \<in> set (tp_hiddenColumns ?cur) then filter (\<lambda>i. i \<noteq> cid) (tp_hiddenColumns ?cur) else tp_hiddenColumns ?cur @ [cid]"
    have "tablePreferencesSchema (?cur\<lparr>tp_hiddenColumns := ?h\<rparr>)" using cur that by (auto simp: tablePreferencesSchema_def)
    then have "list_all (\<lambda>(k, t). tablePreferencesSchema t) (alist_set tid (?cur\<lparr>tp_hiddenColumns := ?h\<rparr>) (ws_tables w))"
      using assms by (auto simp: layout_defs list_all_iff dest!: set_alist_set)
    moreover have "regions_ok (toggle_table_column tid cid w) = regions_ok w"
      by (rule regions_ok_cong) (simp add: toggle_table_column_def Let_def)
    ultimately show ?thesis using assms
      by (simp add: layout_ok_def) (simp add: toggle_table_column_def Let_def layout_defs distinct_alist_set)
  qed
  have "regions_ok (reset_table_columns tid w) = regions_ok w" by (rule regions_ok_cong) (simp add: reset_table_columns_def)
  then show "layout_ok (reset_table_columns tid w)" using assms
    by (simp add: layout_ok_def) (auto simp: reset_table_columns_def layout_defs alist_del_def list_all_iff distinct_map_filter)
qed

lemma add_watchlist_ok:
  assumes "layout_ok w" "name \<noteq> ''''" "watchlist_id now \<notin> set (map wl_id (ws_watchlists w))"
  shows "layout_ok (add_watchlist now name w)"
proof -
  have "regions_ok (add_watchlist now name w) = regions_ok w" by (rule regions_ok_cong) (simp add: add_watchlist_def)
  then show ?thesis using assms
    by (simp add: layout_ok_def) (simp add: add_watchlist_def layout_defs watchlist_ok_def watchlist_id_def)
qed

lemma toggle_favorite_ok:
  assumes "layout_ok w" "sy \<noteq> ''''"
  shows "layout_ok (toggle_favorite sy w)"
proof -
  have "regions_ok (toggle_favorite sy w) = regions_ok w" by (rule regions_ok_cong) (simp add: toggle_favorite_def)
  then show ?thesis using assms by (simp add: layout_ok_def) (auto simp: toggle_favorite_def layout_defs)
qed

lemma reorder_symbols_ok: "layout_ok w \<Longrightarrow> layout_ok (reorder_symbols i j wid w)"
  unfolding reorder_symbols_def
proof (rule mapWatchlist_ok)
  fix l :: watchlist
  let ?f = "let syms = wl_symbols l; k = splice_at i (length syms)
    in if k < length syms \<and> syms ! k = '''' then l
       else case move_item i j syms of None \<Rightarrow> l | Some ss \<Rightarrow> l\<lparr>wl_symbols := ss\<rparr>"
  show "wl_id ?f = wl_id l" by (simp add: Let_def split: option.split)
  assume ok: "watchlist_ok l"
  have "watchlist_ok (l\<lparr>wl_symbols := ss\<rparr>)" if "move_item i j (wl_symbols l) = Some ss" for ss
    using ok mset_eq_setD [OF mset_move_item [OF that]] mset_eq_imp_distinct_iff [OF mset_move_item [OF that]]
    by (simp add: watchlist_ok_def)
  then show "watchlist_ok ?f" using ok by (simp add: Let_def split: option.split)
qed

section \<open>The store's states\<close>

text \<open>The identifiers issued so far: in an earlier session, or with this session's counter.\<close>

definition issued :: "int \<Rightarrow> int \<Rightarrow> nat \<Rightarrow> string \<Rightarrow> bool" where
  "issued start clk c i = (\<exists>t k. i = group_id t k \<and> clock_ok t \<and> t \<le> clk \<and> (t < start \<or> k \<le> c))"

definition all_issued :: "int \<Rightarrow> int \<Rightarrow> nat \<Rightarrow> workspace \<Rightarrow> bool" where
  "all_issued start clk c w = (\<forall>i\<in>set (group_ids w). issued start clk c i)"

lemma issued_mono: "issued start clk c i \<Longrightarrow> clk \<le> clk' \<Longrightarrow> c \<le> c' \<Longrightarrow> issued start clk' c' i"
proof -
  assume "issued start clk c i" and le: "clk \<le> clk'" "c \<le> c'"
  then obtain t k where "i = group_id t k" "clock_ok t" "t \<le> clk'" "t < start \<or> k \<le> c'" unfolding issued_def by force
  then show ?thesis unfolding issued_def by blast
qed

lemma issued_new: "clock_ok now \<Longrightarrow> k \<le> c \<Longrightarrow> issued start now c (group_id now k)"
  by (auto simp: issued_def)

lemma issued_fresh:
  assumes "all_issued start clk c w" "clock_ok now" "start \<le> now"
  shows "fresh now (w, c)"
proof -
  have "\<not> issued start clk c (group_id now (Suc c))"
  proof
    assume "issued start clk c (group_id now (Suc c))"
    then obtain t k where t: "group_id now (Suc c) = group_id t k" "clock_ok t" "t < start \<or> k \<le> c" by (auto simp: issued_def)
    then have "now = t \<and> Suc c = k" using group_id_inject [OF assms(2)] by blast
    then show False using t assms(3) by auto
  qed
  then show ?thesis using assms(1) by (auto simp: fresh_def all_issued_def)
qed

definition ws_ok :: "int \<Rightarrow> int \<Rightarrow> ws_state \<Rightarrow> bool" where
  "ws_ok start clk st = (layout_ok (st_workspace st) \<and> all_issued start clk (st_groupCounter st) (st_workspace st) \<and>
     (st_saveTimer st \<longleftrightarrow> st_pendingSave st \<noteq> None) \<and> (\<forall>w. st_pendingSave st = Some w \<longrightarrow> layout_ok w))"

text \<open>What the interface passes to the actions.\<close>

fun admissible :: "int \<Rightarrow> ws_action \<Rightarrow> workspace \<Rightarrow> bool" where
  "admissible now (SetRegionSize r sz) w = (sz \<noteq> NaN \<and> is_double sz)"
| "admissible now (SetGroupSize r gid sz) w = (sz \<noteq> NaN \<and> is_double sz)"
| "admissible now (AddWidget x r) w = (x \<noteq> '''')"
| "admissible now (SetActiveInterval i) w = (i \<noteq> '''')"
| "admissible now (SetPaneSymbol p sy) w = (sy \<noteq> '''')"
| "admissible now (SetPaneInterval p i) w = (i \<noteq> '''')"
| "admissible now (ToggleTableColumn t c) w = (c \<noteq> '''')"
| "admissible now (SetActiveWatchlist i) w = (i \<in> set (map wl_id (ws_watchlists w)))"
| "admissible now (AddWatchlist name) w = (name \<noteq> '''' \<and> watchlist_id now \<notin> set (map wl_id (ws_watchlists w)))"
| "admissible now (AddSymbol sy wid) w = (sy \<noteq> '''')"
| "admissible now (ToggleFavorite sy) w = (sy \<noteq> '''')"
| "admissible now _ w = True"

lemma update_with_ok:
  assumes "ws_ok start clk st" "clk \<le> now" "f (st_workspace st, st_groupCounter st) = (w', c')" "layout_ok w'"
    "all_issued start now c' w'"
  shows "ws_ok start now (update_with f st)"
  using assms by (simp add: ws_ok_def update_with_def scheduleSave_def)

lemma all_issued_mono:
  "all_issued start clk c w \<Longrightarrow> clk \<le> now \<Longrightarrow> c \<le> c' \<Longrightarrow> set (group_ids w') \<subseteq> set (group_ids w) \<Longrightarrow> all_issued start now c' w'"
  unfolding all_issued_def by (meson issued_mono subsetD)

lemma update_ok:
  assumes "ws_ok start clk st" "clk \<le> now" "layout_ok (f (st_workspace st))"
    "set (group_ids (f (st_workspace st))) \<subseteq> set (group_ids (st_workspace st))"
  shows "ws_ok start now (update f st)"
proof -
  have "all_issued start now (st_groupCounter st) (f (st_workspace st))"
    using assms(1) all_issued_mono [OF _ assms(2) order_refl assms(4)] by (simp add: ws_ok_def)
  then show ?thesis unfolding update_def by (rule update_with_ok [OF assms(1,2) _ assms(3), rotated]) simp
qed

text \<open>A mutation that may draw one identifier.\<close>

lemma update_drawing_ok:
  assumes st: "ws_ok start clk st" "clk \<le> now" "clock_ok now" "start \<le> now"
    and f: "f (st_workspace st, st_groupCounter st) = (w', c')" "layout_ok w'"
    "set (group_ids w') \<subseteq> insert (group_id now (Suc (st_groupCounter st))) (set (group_ids (st_workspace st))) \<and>
      (c' = st_groupCounter st \<and> set (group_ids w') \<subseteq> set (group_ids (st_workspace st)) \<or> c' = Suc (st_groupCounter st))"
  shows "ws_ok start now (update_with f st)"
proof -
  let ?w = "st_workspace st" and ?c = "st_groupCounter st"
  have old: "all_issued start clk ?c ?w" using st(1) by (simp add: ws_ok_def)
  have "all_issued start now c' w'"
  proof (cases "c' = ?c \<and> set (group_ids w') \<subseteq> set (group_ids ?w)")
    case True
    then show ?thesis using all_issued_mono [OF old st(2)] by auto
  next
    case False
    then have c': "c' = Suc ?c" using f(3) by blast
    have "issued start now c' i" if "i \<in> set (group_ids w')" for i
    proof (cases "i = group_id now (Suc ?c)")
      case True
      then show ?thesis using issued_new [OF st(3), of "Suc ?c" c'] c' by simp
    next
      case False
      then have "i \<in> set (group_ids ?w)" using that f(3) by blast
      then show ?thesis using old issued_mono [of start clk ?c i now c'] st(2) c' by (simp add: all_issued_def)
    qed
    then show ?thesis by (simp add: all_issued_def)
  qed
  then show ?thesis using update_with_ok [where f = f, OF st(1,2) f(1,2)] by blast
qed

lemma intents_only: "ws_ok start clk st \<Longrightarrow> ws_ok start clk (st\<lparr>st_urlTabIntent := a, st_urlSymbolIntent := b\<rparr>)"
  by (simp add: ws_ok_def)

lemma ws_ok_intents [simp]: "ws_ok start clk (st\<lparr>st_urlTabIntent := a\<rparr>) = ws_ok start clk st"
  "ws_ok start clk (st\<lparr>st_urlSymbolIntent := a\<rparr>) = ws_ok start clk st"
  "ws_ok start clk (st\<lparr>st_recoveryNotice := n\<rparr>) = ws_ok start clk st"
  by (simp_all add: ws_ok_def)

text \<open>A mutation that leaves the regions alone.\<close>

lemma update_elsewhere_ok:
  assumes "ws_ok start clk st" "clk \<le> now" "layout_ok (f (st_workspace st))" "ws_regions (f (st_workspace st)) = ws_regions (st_workspace st)"
  shows "ws_ok start now (update f st)"
  using assms(1-3) group_ids_cong [OF assms(4)] by (intro update_ok) auto

lemma activateWidget_ok:
  assumes "ws_ok start clk st" "clk \<le> now"
  shows "ws_ok start now (activateWidget x st)"
proof -
  have "ws_ok start now (update (\<lambda>w. activateWidgetIn w x) st')" if "ws_ok start clk st'" for st'
    using that assms(2) activate_ok [of "st_workspace st'" x] by (intro update_ok) (auto simp: ws_ok_def)
  then show ?thesis using assms by (simp add: activateWidget_def)
qed

lemma setActiveSymbol_ok:
  assumes "ws_ok start clk st" "clk \<le> now"
  shows "ws_ok start now (setActiveSymbol sy st)"
proof (cases "isPlausibleSymbol sy")
  case True
  have "ws_ok start now (update (set_active_symbol sy) st')" if "ws_ok start clk st'" for st'
    using that assms(2) set_active_symbol_ok [of "st_workspace st'"] plausible_ne [OF True]
    by (intro update_elsewhere_ok) (auto simp: ws_ok_def set_active_symbol_def)
  then show ?thesis using assms True by (simp add: setActiveSymbol_def)
next
  case False
  then show ?thesis using assms all_issued_mono [of start clk "st_groupCounter st" "st_workspace st" now] 
    by (auto simp: setActiveSymbol_def ws_ok_def)
qed

lemma ws_act_ok:
  assumes st: "ws_ok start clk st" "clk \<le> now" "clock_ok now" "start \<le> now" and a: "admissible now a (st_workspace st)"
  shows "ws_ok start now (ws_act now a st)"
proof -
  let ?w = "st_workspace st" and ?c = "st_groupCounter st"
  have w: "layout_ok ?w" and old: "all_issued start clk ?c ?w" using st(1) by (simp_all add: ws_ok_def)
  have fr: "fresh now (?w, ?c)"
    using issued_fresh [OF _ st(3,4)] all_issued_mono [OF old st(2) order_refl order_refl] by blast
  note elsewhere = update_elsewhere_ok [OF st(1,2)]
  show ?thesis
  proof (cases a)
    case (SetRegionSize r sz)
    then show ?thesis using a w resize.on_region_layout [where w = ?w and r = r and sz = sz] resize.no_new_group [where w = ?w and r = r and sz = sz]
      by (auto simp: set_region_size_def intro!: update_ok [OF st(1,2)])
  next
    case (ToggleRegionCollapsed r)
    then show ?thesis using w toggling.on_region_layout [where w = ?w and r = r] toggling.no_new_group [where w = ?w and r = r]
      by (auto simp: toggle_region_collapsed_def intro!: update_ok [OF st(1,2)])
  next
    case (SetRegionCollapsed r b)
    then show ?thesis using w collapsing.on_region_layout [where w = ?w and r = r and b = b] collapsing.no_new_group [where w = ?w and r = r and b = b]
      by (auto simp: set_region_collapsed_def intro!: update_ok [OF st(1,2)])
  next
    case (SetGroupSize r gid sz)
    then show ?thesis using a w group_sizing.on_region_layout [where w = ?w and r = r and sz = sz and gid = gid] group_sizing.no_new_group [where w = ?w and r = r and sz = sz and gid = gid]
      by (auto simp: set_group_size_def intro!: update_ok [OF st(1,2)])
  next
    case (AddWidget x r)
    obtain w' c' where f: "add_widget now x r (?w, ?c) = (w', c')" by fastforce
    show ?thesis using AddWidget a update_drawing_ok [where f = "add_widget now x r", OF st f] add_widget_ok [OF w _ fr f] by simp
  next
    case (MoveWidget x r gid i)
    obtain w' c' where f: "move_widget now x r gid i (?w, ?c) = (w', c')" by fastforce
    show ?thesis using MoveWidget update_drawing_ok [where f = "move_widget now x r gid i", OF st f] move_widget_ok [OF w fr f] by simp
  next
    case (RemoveWidget x)
    then show ?thesis using remove_ok [OF w, of x] update_ok [OF st(1,2), of "\<lambda>w. removeWidgetFrom w x"] by simp
  next
    case (ActivateWidget x)
    then show ?thesis using activateWidget_ok [OF st(1,2)] by simp
  next
    case (ReorderGroup r i j)
    then show ?thesis using reorder_ok [OF w, of r i j] update_ok [OF st(1,2), of "reorder_group r i j"] by simp
  next
    case (SetActiveSymbol sy)
    then show ?thesis using setActiveSymbol_ok [OF st(1,2)] by simp
  next
    case (AdoptUrlSymbol sy)
    then show ?thesis using setActiveSymbol_ok [OF _ st(2), of start "st\<lparr>st_urlSymbolIntent := Some sy\<rparr>" sy] st(1) by (simp add: adoptUrlSymbol_def)
  next
    case (AdoptUrlTab x)
    then show ?thesis using activateWidget_ok [OF _ st(2), of start "st\<lparr>st_urlTabIntent := Some x\<rparr>" x] st(1) by (simp add: adoptUrlTab_def)
  next
    case (SetActiveInterval i)
    then show ?thesis using a set_active_interval_ok [OF w] elsewhere [of "set_active_interval i"] by (simp add: set_active_interval_def)
  next
    case (SetChartLayout l)
    then show ?thesis using set_chart_layout_ok [OF w] elsewhere [of "set_chart_layout l"] by (simp add: set_chart_layout_def Let_def)
  next
    case (SetPaneSymbol p sy)
    have "layout_ok (on_pane p (\<lambda>x. x\<lparr>cp_symbol := sy\<rparr>) ?w)"
      using a SetPaneSymbol by (intro on_pane_ok [OF w]) (simp_all add: chartPaneSchema_def)
    then show ?thesis using SetPaneSymbol elsewhere [of "on_pane p (\<lambda>x. x\<lparr>cp_symbol := sy\<rparr>)"] by (simp add: on_pane_def)
  next
    case (SetPaneInterval p i)
    have "layout_ok (on_pane p (\<lambda>x. x\<lparr>cp_interval := i\<rparr>) ?w)"
      using a SetPaneInterval by (intro on_pane_ok [OF w]) (simp_all add: chartPaneSchema_def)
    then show ?thesis using SetPaneInterval elsewhere [of "on_pane p (\<lambda>x. x\<lparr>cp_interval := i\<rparr>)"] by (simp add: on_pane_def)
  next
    case (SetPaneChartState p v)
    have "layout_ok (on_pane p (\<lambda>x. x\<lparr>cp_chartState := Some v\<rparr>) ?w)"
      by (intro on_pane_ok [OF w]) (simp_all add: chartPaneSchema_def)
    then show ?thesis using SetPaneChartState elsewhere [of "on_pane p (\<lambda>x. x\<lparr>cp_chartState := Some v\<rparr>)"] by (simp add: on_pane_def)
  next
    case (ToggleTableColumn t c)
    then show ?thesis using a tables_ok(1) [OF w] elsewhere [of "toggle_table_column t c"] by (simp add: toggle_table_column_def Let_def)
  next
    case (ResetTableColumns t)
    then show ?thesis using tables_ok(2) [OF w] elsewhere [of "reset_table_columns t"] by (simp add: reset_table_columns_def)
  next
    case (AddWatchlist name)
    then show ?thesis using a add_watchlist_ok [OF w] elsewhere [of "add_watchlist now name"] by (simp add: add_watchlist_def)
  next
    case (RemoveWatchlist i)
    then show ?thesis using remove_watchlist_ok [OF w] elsewhere [of "remove_watchlist i"] by (simp add: remove_watchlist_def Let_def)
  next
    case (AddSymbol sy wid)
    have "layout_ok (add_symbol sy wid ?w)"
      using a AddSymbol unfolding add_symbol_def by (intro mapWatchlist_ok [OF w]) (auto simp: watchlist_ok_def)
    then show ?thesis using AddSymbol elsewhere [of "add_symbol sy wid"] by (simp add: add_symbol_def mapWatchlist_def Let_def)
  next
    case (RemoveSymbol sy wid)
    have "layout_ok (remove_symbol sy wid ?w)"
      unfolding remove_symbol_def by (intro mapWatchlist_ok [OF w]) (auto simp: watchlist_ok_def)
    then show ?thesis using RemoveSymbol elsewhere [of "remove_symbol sy wid"] by (simp add: remove_symbol_def mapWatchlist_def Let_def)
  next
    case (ReorderSymbols i j wid)
    then show ?thesis using reorder_symbols_ok [OF w] elsewhere [of "reorder_symbols i j wid"]
      by (simp add: reorder_symbols_def mapWatchlist_def Let_def)
  next
    case (ToggleFavorite sy)
    then show ?thesis using a toggle_favorite_ok [OF w] elsewhere [of "toggle_favorite sy"] by (simp add: toggle_favorite_def)
  next
    case ClearRecoveryNotice
    then show ?thesis using w old st all_issued_mono [OF old st(2) order_refl order_refl] by (simp add: clearRecoveryNotice_def ws_ok_def)
  qed (use w a in \<open>auto intro!: elsewhere simp: layout_defs regions_ok_def over_def\<close>)
qed

section \<open>The shipped layout\<close>

lemma group_Some: "ids \<noteq> [] \<Longrightarrow> group now ids sz c =
    Some (\<lparr>wg_id = group_id now (Suc c), wg_widgetIds = ids, wg_active = hd ids, wg_size = sz\<rparr>, Suc c)"
  by (cases ids) (simp_all add: group_def newGroupId_def)

lemma group_id_same_clock [simp]: "group_id now c = group_id now c' \<longleftrightarrow> c = c'"
  by (simp add: group_id_def)

lemma default_workspace:
  assumes "oid \<noteq> Some ''''" "oname \<noteq> Some ''''" "osymbol \<noteq> Some ''''" "0 \<le> now" "clock_ok now"
  obtains w where "createDefaultWorkspace now oid oname osymbol c = Some (w, c + 5)" "layout_ok w"
    "ws_id w = or_else oid ''default''" "ws_name w = or_else oname ''Default''"
    "group_ids w = map (group_id now) [c + 1, c + 2, c + 3, c + 4, c + 5]"
proof -
  have sizes: "in_range 0 100 (js_int n)" if "0 \<le> n" "n \<le> 100" for n using that by (intro in_range_js_int) auto
  have rsizes: "in_range 4 80 (js_int n)" if "4 \<le> n" "n \<le> 80" for n using that by (intro in_range_js_int) auto
  have texts: "or_else oid ''default'' \<noteq> ''''" "or_else oname ''Default'' \<noteq> ''''" "or_else osymbol ''XAUUSD'' \<noteq> ''''"
    using assms(1-3) by (cases oid; cases oname; cases osymbol; simp)+
  define w where "w = fst (the (createDefaultWorkspace now oid oname osymbol c))"
  have w: "createDefaultWorkspace now oid oname osymbol c = Some (w, c + 5)"
    by (simp add: w_def createDefaultWorkspace_def group_Some Let_def)
  note e = w_def [unfolded createDefaultWorkspace_def group_Some [OF list.distinct(2)] Let_def, simplified]
  have all: "(\<forall>r. Q r) \<longleftrightarrow> Q RLeft \<and> Q RRight \<and> Q RBottom \<and> Q ROverlay" for Q by (metis region_id.exhaust)
  have "regions_ok w" unfolding e regions_ok_def all
    by (simp add: region_ok_def group_ok_def over_def tabs_def gids_def REGION_IDS_def sizes rsizes)
  moreover have "panes_ok w" "lists_ok w" "head_ok w" unfolding e
    using assms(4) texts
    by (simp_all add: panes_ok_def lists_ok_def head_ok_def MAX_CHART_PANES_def pane_id_def show_int_def show_pos.simps digit_char_def chartPaneSchema_def)
  moreover have "watchlists_ok w" unfolding e
    by (simp add: watchlists_ok_def watchlist_ok_def default_watchlist_def)
  moreover have "group_ids w = map (group_id now) [c + 1, c + 2, c + 3, c + 4, c + 5]" unfolding e
    by (simp add: over_def gids_def REGION_IDS_def)
  moreover have "ws_id w = or_else oid ''default''" "ws_name w = or_else oname ''Default''" unfolding e by simp_all
  ultimately show thesis using that w by (simp add: layout_ok_def)
qed

section \<open>Every sequence of actions\<close>

text \<open>
  The states of a session that began at \<open>start\<close>: the interface acts, the timer fires or the page is
  hidden, the layout is reset, and documents this program stored earlier are shown.
\<close>

inductive ws_reachable :: "int \<Rightarrow> int \<Rightarrow> ws_state \<Rightarrow> bool" for start where
  created: "clock_ok start \<Longrightarrow> initial_state start = Some st \<Longrightarrow> ws_reachable start start st"
| acted: "ws_reachable start clk st \<Longrightarrow> clk \<le> now \<Longrightarrow> clock_ok now \<Longrightarrow> admissible now a (st_workspace st) \<Longrightarrow>
    ws_reachable start now (ws_act now a st)"
| defaulted: "ws_reachable start clk st \<Longrightarrow> clk \<le> now \<Longrightarrow> clock_ok now \<Longrightarrow> resetToDefault now st = Some st' \<Longrightarrow>
    ws_reachable start now st'"
| fired: "ws_reachable start clk st \<Longrightarrow> fire_save st = (st', w) \<Longrightarrow> ws_reachable start clk st'"
| hydrated: "ws_reachable start clk st \<Longrightarrow> layout_ok (lr_workspace res) \<Longrightarrow>
    all_issued start clk (st_groupCounter st) (lr_workspace res) \<Longrightarrow> ws_reachable start clk (hydrated_with res layouts st)"
| resynced: "ws_reachable start clk st \<Longrightarrow> layout_ok (lr_workspace res) \<Longrightarrow>
    all_issued start clk (st_groupCounter st) (lr_workspace res) \<Longrightarrow> ws_reachable start clk (resynced_with res layouts st)"
| loaded: "ws_reachable start clk st \<Longrightarrow> layout_ok (lr_workspace res) \<Longrightarrow>
    all_issued start clk (st_groupCounter st) (lr_workspace res) \<Longrightarrow> ws_reachable start clk (loaded_with res st)"

inductive_cases ws_reachableE: "ws_reachable start clk st"

lemma initial_ok:
  assumes "clock_ok start"
  obtains st where "initial_state start = Some st" "ws_ok start start st"
proof -
  have "0 \<le> start" using assms by (simp add: clock_ok_def)
  then obtain w where w: "createDefaultWorkspace start None None None 0 = Some (w, 0 + 5)" "layout_ok w"
    "group_ids w = map (group_id start) [0 + 1, 0 + 2, 0 + 3, 0 + 4, 0 + 5]"
    using assms default_workspace [where oid = None and oname = None and osymbol = None and now = start and c = 0] by blast
  have "all_issued start start 5 w" unfolding all_issued_def w(3) using assms by (auto intro: issued_new)
  then show thesis using that w by (simp add: initial_state_def ws_ok_def)
qed

lemma resetToDefault_ok:
  assumes "ws_ok start clk st" "clock_ok now"
  obtains st' where "resetToDefault now st = Some st'" "ws_ok start now st'"
proof -
  let ?c = "st_groupCounter st"
  have "0 \<le> now" using assms(2) by (simp add: clock_ok_def)
  moreover have "ws_id (st_workspace st) \<noteq> ''''" "ws_name (st_workspace st) \<noteq> ''''"
    using assms(1) by (simp_all add: ws_ok_def layout_defs)
  ultimately obtain w where w: "createDefaultWorkspace now (Some (ws_id (st_workspace st))) (Some (ws_name (st_workspace st))) None ?c = Some (w, ?c + 5)"
    "layout_ok w" "group_ids w = map (group_id now) [?c + 1, ?c + 2, ?c + 3, ?c + 4, ?c + 5]"
    using assms(2) default_workspace [where oid = "Some (ws_id (st_workspace st))" and oname = "Some (ws_name (st_workspace st))"
      and osymbol = None and now = now and c = ?c] by blast
  have "all_issued start now (?c + 5) w" unfolding all_issued_def w(3) using assms(2) by (auto intro: issued_new)
  then show thesis using that w by (simp add: resetToDefault_def scheduleSave_def ws_ok_def)
qed

lemma with_intents_ok:
  assumes "layout_ok doc"
  shows "layout_ok (with_intents st doc)" "set (group_ids (with_intents st doc)) \<subseteq> set (group_ids doc)"
proof -
  let ?w = "case truthy (st_urlSymbolIntent st) of Some sy \<Rightarrow> if sy \<noteq> ws_activeSymbol doc
      then doc\<lparr>ws_activeSymbol := sy, ws_chartPanes := on_first_pane (\<lambda>p. p\<lparr>cp_symbol := sy\<rparr>) (ws_chartPanes doc)\<rparr> else doc
    | None \<Rightarrow> doc"
  have "layout_ok ?w"
  proof (cases "truthy (st_urlSymbolIntent st)")
    case (Some sy)
    then have "sy \<noteq> ''''" by (auto simp: truthy_def split: option.splits if_splits)
    then have "panes_ok (doc\<lparr>ws_chartPanes := on_first_pane (\<lambda>p. p\<lparr>cp_symbol := sy\<rparr>) (ws_chartPanes doc)\<rparr>)"
      using assms by (intro on_first_pane_ok) (simp_all add: chartPaneSchema_def)
    then show ?thesis using Some \<open>sy \<noteq> ''''\<close> assms by (simp add: layout_defs regions_ok_def over_def del: upt_Suc)
  qed (use assms in simp)
  moreover have "group_ids ?w = group_ids doc" by (rule group_ids_cong) (simp split: option.split)
  ultimately show "layout_ok (with_intents st doc)" "set (group_ids (with_intents st doc)) \<subseteq> set (group_ids doc)"
    using activate_ok [of ?w] by (auto simp: with_intents_def Let_def split: option.splits)
qed

lemma reachable_ws_ok: "ws_reachable start clk st \<Longrightarrow> ws_ok start clk st \<and> start \<le> clk \<and> clock_ok clk"
proof (induction rule: ws_reachable.induct)
  case (created st)
  then show ?case using initial_ok [of start] by auto
next
  case (acted clk st now a)
  then show ?case using ws_act_ok [of start clk st now a] by auto
next
  case (defaulted clk st now st')
  then show ?case using resetToDefault_ok [of start clk st now] by auto
next
  case (fired clk st st' w)
  then show ?case by (auto simp: fire_save_def ws_ok_def)
next
  case (hydrated clk st res layouts)
  then show ?case by (simp add: hydrated_with_def ws_ok_def)
next
  case (resynced clk st res layouts)
  then have "all_issued start clk (st_groupCounter st) (with_intents st (lr_workspace res))"
    using all_issued_mono [OF _ order_refl order_refl with_intents_ok(2)] by blast
  then show ?case using resynced with_intents_ok(1) by (simp add: resynced_with_def ws_ok_def)
next
  case (loaded clk st res)
  then show ?case by (simp add: loaded_with_def ws_ok_def)
qed

section \<open>Properties\<close>


lemma sample_session:
  obtains st where "initial_state 1780000000000 = Some st" "ws_reachable 1780000000000 1780000000005 (ws_act 1780000000005 (AddWidget ''news'' RLeft) st)"
proof -
  have clk: "clock_ok 1780000000000" "clock_ok 1780000000005" by (simp_all add: clock_ok_def)
  obtain st where st: "initial_state 1780000000000 = Some st" using initial_ok [OF clk(1)] by blast
  show thesis using that st ws_reachable.acted [OF ws_reachable.created [OF clk(1) st] _ clk(2), of "AddWidget ''news'' RLeft"] by simp
qed


lemma layout_schema_iff:
  assumes w: "layout_ok w"
  shows "workspaceSchema w \<longleftrightarrow> length (ws_name w) \<le> 60 \<and> length (ws_favorites w) \<le> 500 \<and>
    (\<forall>l\<in>set (ws_watchlists w). length (wl_name l) \<le> 60 \<and> length (wl_symbols l) \<le> 500)"
proof -
  have "map cp_id (ws_chartPanes w) = map pane_id [1..<Suc (MAX_CHART_PANES (ws_chartLayout w))]"
    using w by (simp add: layout_defs)
  then have len: "length (ws_chartPanes w) = MAX_CHART_PANES (ws_chartLayout w)" by (metis diff_Suc_1 length_map length_upt)
  have panes: "1 \<le> length (ws_chartPanes w)" "length (ws_chartPanes w) \<le> 4"
    unfolding len by (cases "ws_chartLayout w"; simp add: MAX_CHART_PANES_def)+
  have "widgetGroupSchema g" if "group_ok g" for g using that by (auto simp: group_ok_def widgetGroupSchema_def)
  then have "regionStateSchema (region_at (ws_regions w) r)" for r
    using w by (auto simp: layout_ok_def regions_ok_def region_ok_def regionStateSchema_def list_all_iff)
  then have regions: "list_all (\<lambda>r. regionStateSchema (region_at (ws_regions w) r)) REGION_IDS" by (simp add: list_all_iff)
  have lists: "ws_watchlists w \<noteq> []" "ws_activeWatchlistId w \<noteq> ''''" "\<forall>l\<in>set (ws_watchlists w). watchlist_ok l"
    using w by (auto simp: layout_ok_def watchlists_ok_def watchlist_ok_def list_all_iff)
  then have "list_all watchlistSchema (ws_watchlists w) \<longleftrightarrow> (\<forall>l\<in>set (ws_watchlists w). length (wl_name l) \<le> 60 \<and> length (wl_symbols l) \<le> 500)"
    by (auto simp: list_all_iff watchlist_ok_def watchlistSchema_def)
  moreover have "list_all chartPaneSchema (ws_chartPanes w)" "lists_ok w" "head_ok w"
    using w by (simp_all add: layout_ok_def panes_ok_def)
  ultimately show ?thesis using panes regions lists(1,2)
    by (auto simp: workspaceSchema_def lists_ok_def head_ok_def)
qed

lemmas layout_schema = layout_schema_iff [THEN iffD2]

text \<open>C19. The document a session holds satisfies its own schema, so that what is saved is accepted when it is
  loaded, exactly when the names are at most 60 characters and the watchlists and the favourites at most 500
  symbols long: every other constraint of the schema is kept by the mutations, and these are kept by none.\<close>

theorem schema_accepts_iff:
  assumes "ws_reachable start clk st" "w = st_workspace st"
  shows "workspaceSchema w \<longleftrightarrow> length (ws_name w) \<le> 60 \<and> length (ws_favorites w) \<le> 500 \<and>
    (\<forall>l\<in>set (ws_watchlists w). length (wl_name l) \<le> 60 \<and> length (wl_symbols l) \<le> 500)"
  using layout_schema_iff reachable_ws_ok [OF assms(1)] assms(2) by (simp add: ws_ok_def)

theorem schema_accepts_iff_witness:
  "\<exists>st. initial_state 1780000000000 = Some st \<and> workspaceSchema (st_workspace st)"
proof -
  have clk: "clock_ok 1780000000000" by (simp add: clock_ok_def)
  obtain st where st: "initial_state 1780000000000 = Some st" using initial_ok [OF clk] by blast
  then have "ws_name (st_workspace st) = ''Default''" "ws_favorites (st_workspace st) = []" "ws_watchlists (st_workspace st) = [default_watchlist]"
    by (auto simp: initial_state_def createDefaultWorkspace_def group_Some Let_def)
  then show ?thesis using st schema_accepts_iff [OF ws_reachable.created [OF clk st] refl] by (simp add: default_watchlist_def)
qed

text \<open>The mutations do not keep those bounds: one symbol more than the schema allows, and the saved layout is refused.\<close>

lemma full_watchlist_refused:
  assumes "l \<in> set (ws_watchlists w)" "wl_id l = ws_activeWatchlistId w" "length (wl_symbols l) = 500" "sy \<notin> set (wl_symbols l)"
  shows "\<not> workspaceSchema (add_symbol sy None w)"
proof -
  have "l\<lparr>wl_symbols := wl_symbols l @ [sy]\<rparr> \<in> set (ws_watchlists (add_symbol sy None w))"
    using assms by (force simp: add_symbol_def mapWatchlist_def)
  then show ?thesis using assms(3) by (auto simp: workspaceSchema_def list_all_iff watchlistSchema_def dest!: bspec)
qed

lemma gids_after_removal:
  assumes "region_ok s" "distinct (tabs s)"
  shows "i \<in> set (gids (remove_from_region x s)) \<longleftrightarrow> (\<exists>g\<in>set (rs_groups s). wg_id g = i \<and> wg_widgetIds g \<noteq> [x])"
proof -
  have d: "distinct (wg_widgetIds g)" if "g \<in> set (rs_groups s)" for g
    using assms(2) that by (auto simp: tabs_def distinct_concat_iff)
  have one: "filter (\<lambda>i. i \<noteq> x) (wg_widgetIds g) = [] \<longleftrightarrow> wg_widgetIds g = [x]" if "g \<in> set (rs_groups s)" for g
  proof -
    have "wg_widgetIds g \<noteq> []" using assms(1) that by (auto simp: region_ok_def list_all_iff group_ok_def)
    then obtain a as where as: "wg_widgetIds g = a # as" by (cases "wg_widgetIds g") auto
    show ?thesis
    proof
      assume "filter (\<lambda>i. i \<noteq> x) (wg_widgetIds g) = []"
      then have "a = x" "set as \<subseteq> {x}" "x \<notin> set as" using d [OF that] as by (auto simp: filter_empty_conv split: if_splits)
      then have "set as = {}" by (metis insertI1 subset_singletonD)
      then show "wg_widgetIds g = [x]" using as \<open>a = x\<close> by simp
    qed simp
  qed
  have kept: "i \<in> set (map wg_id (List.map_filter (remove_from_group x) gs)) \<longleftrightarrow>
      (\<exists>g\<in>set gs. wg_id g = i \<and> remove_from_group x g \<noteq> None)" for gs
    by (induction gs) (auto simp: List.map_filter_simps dest!: remove_from_group_Some split: option.splits)
  have some: "remove_from_group x g \<noteq> None \<longleftrightarrow> wg_widgetIds g \<noteq> [x]" if "g \<in> set (rs_groups s)" for g
    using one [OF that] by (auto simp: remove_from_group_def split: list.splits)
  show ?thesis
  proof (cases "list_ex (\<lambda>g. x \<in> set (wg_widgetIds g)) (rs_groups s)")
    case True
    then have "gids (remove_from_region x s) = map wg_id (List.map_filter (remove_from_group x) (rs_groups s))"
      by (simp add: remove_from_region_def)
    then show ?thesis using kept [of "rs_groups s"] some by auto
  next
    case False
    then show ?thesis by (force simp: remove_from_region_def gids_def list_ex_iff)
  qed
qed

text \<open>C18. Moving a widget conserves the layout: every other widget is placed as often as before, and the moved
  one ends in the target region - in a group of its own, or in the named group - except in one case: a
  named group that is not among the region's, or whose only tab is the widget itself. Then the removal that
  comes first deletes the group, nothing matches any more, and the widget is gone from the layout.\<close>

theorem move_conserves:
  assumes "layout_ok w" "x \<in> set (placed w)" "move_widget now x r gid index (w, c) = (w', c')"
  shows "(\<forall>y. y = x \<or> count_list (placed w') y = count_list (placed w) y) \<and>
    (x \<in> set (placed w') \<longleftrightarrow> x \<in> set (tabs (region_at (ws_regions w') r))) \<and>
    (x \<in> set (tabs (region_at (ws_regions w') r)) \<longleftrightarrow>
       (truthy gid = None \<or> (\<exists>g\<in>set (rs_groups (region_at (ws_regions w) r)). Some (wg_id g) = gid \<and> wg_widgetIds g \<noteq> [x])))"
proof -
  let ?n = "removeWidgetFrom w x" and ?s = "remove_from_region x (region_at (ws_regions w) r)"
  obtain p where p: "findWidget w x = Some p" using assms(2) findWidget_None [of w x] by auto
  have s: "region_ok (region_at (ws_regions w) r)" "distinct (tabs (region_at (ws_regions w) r))"
    using assms(1) distinct_region by (auto simp: layout_ok_def regions_ok_def)
  define h where "h = (case truthy gid of Some i \<Rightarrow> drop_into x i index
    | None \<Rightarrow> add_group_at (new_group (group_id now (Suc c)) x) (\<lambda>gs. insertAt gs (new_group (group_id now (Suc c)) x) index))"
  have w': "w' = on_region r h ?n"
    using assms(3) p by (auto simp: move_widget_def h_def newGroupId_def add_group_at_def [abs_def] split: option.splits)
  have h_tabs: "count_list (tabs (h ?s)) y = count_list (tabs ?s) y + (if y = x then
      (case truthy gid of Some i \<Rightarrow> count_list (gids ?s) i | None \<Rightarrow> 1) else 0)" for y
  proof (cases "truthy gid")
    case None
    then show ?thesis using add_group_counts(1) [of "\<lambda>gs. insertAt gs (new_group (group_id now (Suc c)) x) index" ?s "group_id now (Suc c)" x y]
      by (simp add: h_def)
  next
    case (Some i)
    then show ?thesis using drop_into_tabs by (simp add: h_def)
  qed
  have cnt: "count_list (placed w') y = (if y = x then count_list (tabs (h ?s)) x else count_list (placed w) y)" for y
    using count_over [of tabs r h ?n y] h_tabs [of y] removed_placed [of w x y] remove_tabs [of x "region_at (ws_regions w) r" y]
    by (cases "y = x") (simp_all add: w' removed_region)
  then have others: "\<forall>y. y = x \<or> count_list (placed w') y = count_list (placed w) y" by simp
  have reg: "region_at (ws_regions w') r = h ?s" by (simp add: w' removed_region)
  have here: "x \<in> set (placed w') \<longleftrightarrow> x \<in> set (tabs (region_at (ws_regions w') r))" using cnt [of x] by (simp add: mem_count reg)
  have "x \<in> set (tabs (region_at (ws_regions w') r)) \<longleftrightarrow> (case truthy gid of Some i \<Rightarrow> i \<in> set (gids ?s) | None \<Rightarrow> True)"
    using h_tabs [of x] by (simp add: mem_count reg remove_tabs split: option.split)
  also have "\<dots> \<longleftrightarrow> truthy gid = None \<or> (\<exists>g\<in>set (rs_groups (region_at (ws_regions w) r)). Some (wg_id g) = gid \<and> wg_widgetIds g \<noteq> [x])"
    using gids_after_removal [OF s] by (auto simp: truthy_def split: option.splits if_splits)
  finally show ?thesis using others here by blast
qed

definition lone_panel :: workspace where
  "lone_panel = (st_workspace (the (initial_state 1780000000000)))"

text \<open>Dropping a panel that is alone in its group back onto itself loses it.\<close>

theorem move_conserves_witness:
  "''favorites'' \<in> set (placed lone_panel) \<and>
   ''favorites'' \<notin> set (placed (fst (move_widget 1780000000000 ''favorites'' RLeft (Some (group_id 1780000000000 2)) None (lone_panel, 5))))"
proof -
  have clk: "clock_ok 1780000000000" by (simp add: clock_ok_def)
  obtain st where st: "initial_state 1780000000000 = Some st" "ws_ok 1780000000000 1780000000000 st" using initial_ok [OF clk] by blast
  then have ok: "layout_ok lone_panel" by (simp add: lone_panel_def ws_ok_def)
  have left: "rs_groups (region_at (ws_regions lone_panel) RLeft) =
     [\<lparr>wg_id = group_id 1780000000000 1, wg_widgetIds = [''watchlist'', ''symbol-search''], wg_active = ''watchlist'', wg_size = js_int 60\<rparr>,
      \<lparr>wg_id = group_id 1780000000000 2, wg_widgetIds = [''favorites''], wg_active = ''favorites'', wg_size = js_int 40\<rparr>]"
    by (simp add: lone_panel_def initial_state_def createDefaultWorkspace_def group_Some Let_def numeral_2_eq_2)
  have pl: "''favorites'' \<in> set (placed lone_panel)" unfolding set_over using left by (auto simp: tabs_def intro!: exI [of _ RLeft])
  obtain w' c' where m: "move_widget 1780000000000 ''favorites'' RLeft (Some (group_id 1780000000000 2)) None (lone_panel, 5) = (w', c')"
    by fastforce
  have "truthy (Some (group_id 1780000000000 2)) \<noteq> None" by (simp add: truthy_def)
  then have "''favorites'' \<notin> set (placed w')"
    using move_conserves [OF ok pl m] left by (auto simp: truthy_def)
  then show ?thesis using pl m by simp
qed

end
