(* ===== verification/WorkspaceStorage.thy ===== *)
theory WorkspaceStorage
  imports Migrations WorkspaceGuarantees
begin

text \<open>
  Layouts in the browser's storage, \<^verbatim>\<open>frontend/src/workspace/persistence/storage.ts\<close>, and the actions of
  \<^verbatim>\<open>workspace-store.ts\<close> that load and save them. The storage keeps texts of a type of its own: what
  \<^verbatim>\<open>JSON.stringify\<close> makes of a document and \<^verbatim>\<open>JSON.parse\<close> reads back (or refuses, with a message) are
  the arguments \<open>stringify\<close> and \<open>parse\<close>, and the schema package's \<^verbatim>\<open>safeParse\<close> is \<open>safe\<close>, which
  returns the issues of a document it refuses. Writing a text may fail (a full or a blocked storage).
\<close>

section \<open>The document as JSON\<close>

definition layout_text :: "chart_layout \<Rightarrow> string" where
  "layout_text l = (case l of Single \<Rightarrow> ''single'' | TwoVertical \<Rightarrow> ''two-vertical''
     | TwoHorizontal \<Rightarrow> ''two-horizontal'' | Three \<Rightarrow> ''three'' | Four \<Rightarrow> ''four'')"

definition theme_text :: "ws_theme \<Rightarrow> string" where
  "theme_text t = (case t of ThemeDark \<Rightarrow> ''dark'' | ThemeLight \<Rightarrow> ''light'' | ThemeSystem \<Rightarrow> ''system'')"

definition density_text :: "ws_density \<Rightarrow> string" where
  "density_text d = (case d of Compact \<Rightarrow> ''compact'' | Normal \<Rightarrow> ''normal'' | Relaxed \<Rightarrow> ''relaxed'')"

definition texts_json :: "string list \<Rightarrow> js_value" where
  "texts_json xs = JArr (map JStr xs)"

definition group_json :: "widget_group \<Rightarrow> js_value" where
  "group_json g = JObj [(''id'', JStr (wg_id g)), (''widgetIds'', texts_json (wg_widgetIds g)),
     (''activeWidgetId'', JStr (wg_active g)), (''size'', JNum (wg_size g))]"

definition region_json :: "region_state \<Rightarrow> js_value" where
  "region_json s = JObj [(''groups'', JArr (map group_json (rs_groups s))), (''collapsed'', JBool (rs_collapsed s)),
     (''size'', JNum (rs_size s)), (''pinned'', JBool (rs_pinned s))]"

definition pane_json :: "chart_pane \<Rightarrow> js_value" where
  "pane_json p = JObj ([(''id'', JStr (cp_id p)), (''symbol'', JStr (cp_symbol p)), (''interval'', JStr (cp_interval p))] @
     (case cp_chartState p of None \<Rightarrow> [] | Some v \<Rightarrow> [(''chartState'', v)]))"

definition watchlist_json :: "watchlist \<Rightarrow> js_value" where
  "watchlist_json l = JObj [(''id'', JStr (wl_id l)), (''name'', JStr (wl_name l)), (''symbols'', texts_json (wl_symbols l))]"

definition table_json :: "table_prefs \<Rightarrow> js_value" where
  "table_json t = JObj [(''hiddenColumns'', texts_json (tp_hiddenColumns t)), (''order'', texts_json (tp_order t))]"

definition workspace_fields :: "workspace \<Rightarrow> js_object" where
  "workspace_fields w = [(''schemaVersion'', JNum (js_int (ws_schemaVersion w))), (''id'', JStr (ws_id w)), (''name'', JStr (ws_name w)),
     (''updatedAt'', JNum (js_int (ws_updatedAt w))), (''theme'', JStr (theme_text (ws_theme w))),
     (''density'', JStr (density_text (ws_density w))), (''activeSymbol'', JStr (ws_activeSymbol w)),
     (''activeInterval'', JStr (ws_activeInterval w)), (''chartLayout'', JStr (layout_text (ws_chartLayout w))),
     (''chartPanes'', JArr (map pane_json (ws_chartPanes w))),
     (''regions'', JObj [(''left'', region_json (rg_left (ws_regions w))), (''right'', region_json (rg_right (ws_regions w))),
        (''bottom'', region_json (rg_bottom (ws_regions w))), (''center-overlay'', region_json (rg_overlay (ws_regions w)))]),
     (''watchlists'', JArr (map watchlist_json (ws_watchlists w))), (''activeWatchlistId'', JStr (ws_activeWatchlistId w)),
     (''favorites'', texts_json (ws_favorites w)), (''recentSymbols'', texts_json (ws_recentSymbols w)),
     (''oneClickTrading'', JBool (ws_oneClickTrading w)), (''confirmTrades'', JBool (ws_confirmTrades w)),
     (''tables'', JObj (map (\<lambda>(k, t). (k, table_json t)) (ws_tables w)))]"

section \<open>The local store\<close>

text \<open>The items of the workspace store and the active id, which is kept as plain text.\<close>

record 'text browser_storage =
  bs_items :: "(string \<times> 'text) list"
  bs_active :: "string option"
  bs_accepts :: "string \<Rightarrow> bool"
  bs_readable :: bool

record 'text json =
  parse :: "'text \<Rightarrow> string + js_value"
  stringify :: "js_value \<Rightarrow> 'text"

type_synonym issue = "string list \<times> string"
type_synonym safe_parse = "js_object \<Rightarrow> issue list + workspace"

definition KEY_PREFIX :: string where "KEY_PREFIX = ''tradeplatform.workspace.v3.''"
definition INDEX_KEY :: string where "INDEX_KEY = ''tradeplatform.workspace.index''"

datatype read_result = Absent | ReadOk js_value | Unreadable string

text \<open>A storage whose \<^verbatim>\<open>getItem\<close> throws reads as unreadable.\<close>

definition readJson :: "'text json \<Rightarrow> 'text browser_storage option \<Rightarrow> string \<Rightarrow> read_result" where
  "readJson J st key = (case st of None \<Rightarrow> Absent
   | Some b \<Rightarrow> if \<not> bs_readable b then Unreadable ''storage unavailable''
       else case map_of (bs_items b) key of None \<Rightarrow> Absent
         | Some t \<Rightarrow> (case parse J t of Inl m \<Rightarrow> Unreadable m | Inr v \<Rightarrow> ReadOk v))"

definition summary_of :: "js_value \<Rightarrow> ws_summary option" where
  "summary_of v = (case (get_prop v ''id'', get_prop v ''name'') of
     (JStr i, JStr n) \<Rightarrow> Some \<lparr>su_id = i, su_name = n, su_updatedAt = get_prop v ''updatedAt''\<rparr> | _ \<Rightarrow> None)"

definition summary_json :: "ws_summary \<Rightarrow> js_value" where
  "summary_json s = JObj [(''id'', JStr (su_id s)), (''name'', JStr (su_name s)), (''updatedAt'', su_updatedAt s)]"

definition list_layouts :: "'text json \<Rightarrow> 'text browser_storage option \<Rightarrow> ws_summary list" where
  "list_layouts J st = (case readJson J st INDEX_KEY of ReadOk (JArr vs) \<Rightarrow> List.map_filter summary_of vs | _ \<Rightarrow> [])"

definition join_with :: "string \<Rightarrow> string list \<Rightarrow> string" where
  "join_with sep xs = (case xs of [] \<Rightarrow> '''' | y # ys \<Rightarrow> y @ concat (map (\<lambda>z. sep @ z) ys))"

definition issues_text :: "issue list \<Rightarrow> string" where
  "issues_text is = join_with ''; '' (map (\<lambda>(path, m). join_with ''.'' path @ '': '' @ m) (take 3 is))"

definition recovered :: "int \<Rightarrow> string \<Rightarrow> string \<Rightarrow> nat \<Rightarrow> (load_result \<times> nat) option" where
  "recovered now i why c = do { (w, c') \<leftarrow> createDefaultWorkspace now (Some i) None None c;
     Some (\<lparr>lr_workspace = w, lr_recovered = True, lr_reason = Some (''saved layout \"'' @ i @ ''\" '' @ why)\<rparr>, c') }"

definition load :: "'text json \<Rightarrow> safe_parse \<Rightarrow> 'text browser_storage option \<Rightarrow> int \<Rightarrow> string \<Rightarrow> nat \<Rightarrow> (load_result \<times> nat) option" where
  "load J safe st now i c = (case readJson J st (KEY_PREFIX @ i) of
     Absent \<Rightarrow> do { (w, c') \<leftarrow> createDefaultWorkspace now (Some i) None None c;
       Some (\<lparr>lr_workspace = w, lr_recovered = False, lr_reason = None\<rparr>, c') }
   | Unreadable why \<Rightarrow> recovered now i (''could not be read ('' @ why @ '')'') c
   | ReadOk raw \<Rightarrow> (case migrateWorkspace now raw c of
       (None, c') \<Rightarrow> recovered now i ''could not be migrated from its stored version'' c'
     | (Some doc, c') \<Rightarrow> (case safe doc of
         Inl is \<Rightarrow> recovered now i (''was invalid: '' @ issues_text is) c'
       | Inr w \<Rightarrow> Some (\<lparr>lr_workspace = w, lr_recovered = False, lr_reason = None\<rparr>, c'))))"

definition put_item :: "'text json \<Rightarrow> string \<Rightarrow> js_value \<Rightarrow> 'text browser_storage \<Rightarrow> 'text browser_storage option" where
  "put_item J key v b = (if bs_accepts b key then Some (b\<lparr>bs_items := alist_set key (stringify J v) (bs_items b)\<rparr>) else None)"

text \<open>Each of the two writes may be refused; what was written before stays.\<close>

definition save :: "'text json \<Rightarrow> int \<Rightarrow> workspace \<Rightarrow> 'text browser_storage option \<Rightarrow> 'text browser_storage option" where
  "save J now w st = (case st of None \<Rightarrow> None
   | Some b \<Rightarrow> let doc = w\<lparr>ws_schemaVersion := WORKSPACE_SCHEMA_VERSION, ws_updatedAt := now\<rparr> in
       (case put_item J (KEY_PREFIX @ ws_id doc) (JObj (workspace_fields doc)) b of None \<Rightarrow> Some b
        | Some b1 \<Rightarrow> let index = filter (\<lambda>e. su_id e \<noteq> ws_id doc) (list_layouts J (Some b1)) @
              [\<lparr>su_id = ws_id doc, su_name = ws_name doc, su_updatedAt = JNum (js_int now)\<rparr>]
            in Some (or_else (put_item J INDEX_KEY (JArr (map summary_json index)) b1) b1)))"

definition remove_layout :: "'text json \<Rightarrow> string \<Rightarrow> 'text browser_storage option \<Rightarrow> 'text browser_storage option" where
  "remove_layout J i st = (case st of None \<Rightarrow> None
   | Some b \<Rightarrow> let b1 = b\<lparr>bs_items := alist_del (KEY_PREFIX @ i) (bs_items b)\<rparr>;
         index = filter (\<lambda>e. su_id e \<noteq> i) (list_layouts J (Some b1))
       in Some (or_else (put_item J INDEX_KEY (JArr (map summary_json index)) b1) b1))"

definition getActiveId :: "'text browser_storage option \<Rightarrow> string option" where
  "getActiveId st = (case st of None \<Rightarrow> None | Some b \<Rightarrow> if bs_readable b then bs_active b else None)"

definition setActiveId :: "string \<Rightarrow> 'text browser_storage option \<Rightarrow> 'text browser_storage option" where
  "setActiveId i st = map_option (\<lambda>b. if bs_accepts b ''tradeplatform.workspace.active'' then b\<lparr>bs_active := Some i\<rparr> else b) st"

section \<open>Loading and saving from the workspace store\<close>

text \<open>The local part of \<^verbatim>\<open>hydrate\<close> and of \<^verbatim>\<open>resync\<close>, after the pull.\<close>

definition read_active :: "'text json \<Rightarrow> safe_parse \<Rightarrow> 'text browser_storage option \<Rightarrow> int \<Rightarrow> nat \<Rightarrow> (load_result \<times> ws_summary list \<times> nat) option" where
  "read_active J safe b now c = do {
     (res, c') \<leftarrow> load J safe b now (or_else (getActiveId b) ''default'') c;
     Some (res, list_layouts J b, c') }"

definition hydrate :: "'text json \<Rightarrow> safe_parse \<Rightarrow> 'text browser_storage option \<Rightarrow> int \<Rightarrow> ws_state \<Rightarrow> ws_state option" where
  "hydrate J safe b now st = do {
     (res, layouts, c) \<leftarrow> read_active J safe b now (st_groupCounter st);
     Some (hydrated_with res layouts (st\<lparr>st_groupCounter := c\<rparr>)) }"

definition resync :: "'text json \<Rightarrow> safe_parse \<Rightarrow> 'text browser_storage option \<Rightarrow> int \<Rightarrow> bool \<Rightarrow> ws_state \<Rightarrow> ws_state option" where
  "resync J safe b now changed st = (if \<not> changed then Some st else do {
     (res, layouts, c) \<leftarrow> read_active J safe b now (st_groupCounter st);
     Some (resynced_with res layouts (st\<lparr>st_groupCounter := c\<rparr>)) })"

definition loadLayout :: "'text json \<Rightarrow> safe_parse \<Rightarrow> int \<Rightarrow> string \<Rightarrow> ws_state \<times> 'text browser_storage option \<Rightarrow>
    (ws_state \<times> 'text browser_storage option) option" where
  "loadLayout J safe now i = (\<lambda>(st, b). do {
     (res, c) \<leftarrow> load J safe b now i (st_groupCounter st);
     Some (loaded_with res (st\<lparr>st_groupCounter := c\<rparr>), setActiveId i b) })"

definition layout_id :: "int \<Rightarrow> string" where
  "layout_id now = ''ws-'' @ show36 now"

definition saveAs :: "'text json \<Rightarrow> int \<Rightarrow> string \<Rightarrow> ws_state \<times> 'text browser_storage option \<Rightarrow> ws_state \<times> 'text browser_storage option" where
  "saveAs J now name = (\<lambda>(st, b). let next = (st_workspace st)\<lparr>ws_id := layout_id now, ws_name := name, ws_updatedAt := now\<rparr>;
       b' = setActiveId (layout_id now) (save J now next b)
     in (st\<lparr>st_workspace := next, st_savedLayouts := list_layouts J b'\<rparr>, b'))"

definition renameActive :: "'text json \<Rightarrow> int \<Rightarrow> string \<Rightarrow> ws_state \<times> 'text browser_storage option \<Rightarrow> ws_state \<times> 'text browser_storage option" where
  "renameActive J now name = (\<lambda>(st, b). let next = (st_workspace st)\<lparr>ws_name := name\<rparr>; b' = save J now next b
     in (st\<lparr>st_workspace := next, st_savedLayouts := list_layouts J b'\<rparr>, b'))"

definition duplicateActive :: "'text json \<Rightarrow> int \<Rightarrow> string \<Rightarrow> ws_state \<times> 'text browser_storage option \<Rightarrow> ws_state \<times> 'text browser_storage option" where
  "duplicateActive J now name = (\<lambda>(st, b). let b' = save J now ((st_workspace st)\<lparr>ws_id := layout_id now, ws_name := name\<rparr>) b
     in (st\<lparr>st_savedLayouts := list_layouts J b'\<rparr>, b'))"

definition deleteLayout :: "'text json \<Rightarrow> int \<Rightarrow> string \<Rightarrow> ws_state \<times> 'text browser_storage option \<Rightarrow>
    (ws_state \<times> 'text browser_storage option) option" where
  "deleteLayout J now i = (\<lambda>(st, b). let b' = remove_layout J i b; st' = st\<lparr>st_savedLayouts := list_layouts J b'\<rparr> in
     if ws_id (st_workspace st) = i then do {
       (w, c) \<leftarrow> createDefaultWorkspace now None None None (st_groupCounter st');
       Some (st'\<lparr>st_workspace := w, st_groupCounter := c\<rparr>, setActiveId (ws_id w) b') }
     else Some (st', b'))"

text \<open>The debounced save, and \<^verbatim>\<open>flushWorkspaceSave\<close>, write what is pending.\<close>

definition write_pending :: "'text json \<Rightarrow> int \<Rightarrow> ws_state \<times> 'text browser_storage option \<Rightarrow> ws_state \<times> 'text browser_storage option" where
  "write_pending J now = (\<lambda>(st, b). let (st', doc) = fire_save st in (st', case doc of None \<Rightarrow> b | Some w \<Rightarrow> save J now w b))"

section \<open>Properties\<close>

text \<open>The values JSON represents: no \<^verbatim>\<open>undefined\<close>, no infinite number and no bigint.\<close>

fun json_safe :: "js_value \<Rightarrow> bool" where
  "json_safe JUndefined = False"
| "json_safe (JNum n) = js_is_finite n"
| "json_safe (JBigInt n) = False"
| "json_safe (JArr vs) = list_all json_safe vs"
| "json_safe (JObj fs) = list_all (\<lambda>p. json_safe (snd p)) fs"
| "json_safe v = True"

text \<open>The contract of \<^verbatim>\<open>JSON\<close> that the round trip rests on.\<close>

definition json_law :: "'text json \<Rightarrow> bool" where
  "json_law J = (\<forall>v. json_safe v \<longrightarrow> parse J (stringify J v) = Inr v)"

definition stamped :: "int \<Rightarrow> workspace \<Rightarrow> workspace" where
  "stamped now w = w\<lparr>ws_schemaVersion := WORKSPACE_SCHEMA_VERSION, ws_updatedAt := now\<rparr>"

lemma json_safe_texts [simp]: "json_safe (texts_json xs)"
  by (simp add: texts_json_def list_all_iff)

lemma finite_js_int [simp]: "js_is_finite (js_int n)"
  by (simp add: js_int_def)

lemma in_range_finite [simp]: "in_range lo hi x \<Longrightarrow> js_is_finite x"
  by (cases x) (simp_all add: in_range_def)

lemma workspace_json_safe:
  assumes "workspaceSchema w" "\<forall>p\<in>set (ws_chartPanes w). \<forall>v. cp_chartState p = Some v \<longrightarrow> json_safe v"
  shows "json_safe (JObj (workspace_fields w))"
proof -
  have "json_safe (group_json g)" if "widgetGroupSchema g" for g
    using that by (auto simp: group_json_def widgetGroupSchema_def)
  then have r: "json_safe (region_json s)" if "regionStateSchema s" for s
    using that by (auto simp: region_json_def regionStateSchema_def list_all_iff)
  have rr: "regionStateSchema (region_at (ws_regions w) r)" for r
    using assms(1) unfolding workspaceSchema_def by (simp add: list_all_iff)
  from rr [of RLeft] rr [of RRight] rr [of RBottom] rr [of ROverlay]
  have "json_safe (region_json (rg_left (ws_regions w)))" "json_safe (region_json (rg_right (ws_regions w)))"
    "json_safe (region_json (rg_bottom (ws_regions w)))" "json_safe (region_json (rg_overlay (ws_regions w)))"
    using r by simp_all
  moreover have "list_all json_safe (map pane_json (ws_chartPanes w))"
    using assms(2) by (auto simp: list_all_iff pane_json_def split: option.split)
  moreover have "list_all json_safe (map watchlist_json (ws_watchlists w))" by (simp add: list_all_iff watchlist_json_def)
  moreover have "list_all (\<lambda>p. json_safe (snd p)) (map (\<lambda>(k, t). (k, table_json t)) (ws_tables w))"
    by (auto simp: list_all_iff table_json_def)
  ultimately show ?thesis by (auto simp: workspace_fields_def list_all_iff)
qed

lemma summary_roundtrip: "summary_of (summary_json e) = Some e"
  by (simp add: summary_of_def summary_json_def get_prop_def obj_get_def)

lemma summaries_roundtrip: "List.map_filter summary_of (map summary_json es) = es"
  by (induction es) (simp_all add: List.map_filter_simps summary_roundtrip)

lemma keys_differ [simp]: "KEY_PREFIX @ i \<noteq> INDEX_KEY" "INDEX_KEY \<noteq> KEY_PREFIX @ i"
  by (simp_all add: KEY_PREFIX_def INDEX_KEY_def)

lemma save_then_load:
  assumes json: "json_law J"
    and storage: "bs_readable b" "bs_accepts b (KEY_PREFIX @ ws_id w)" "bs_accepts b INDEX_KEY"
    and index: "\<forall>e\<in>set (list_layouts J (Some b)). json_safe (su_updatedAt e)"
    and doc: "workspaceSchema (stamped now w)" "\<forall>p\<in>set (ws_chartPanes w). \<forall>v. cp_chartState p = Some v \<longrightarrow> json_safe v"
    and zod: "safe (workspace_fields (stamped now w)) = Inr (stamped now w)"
  shows "load J safe (save J now w (Some b)) now' (ws_id w) c = Some (\<lparr>lr_workspace = stamped now w, lr_recovered = False, lr_reason = None\<rparr>, c) \<and>
    list_layouts J (save J now w (Some b)) = filter (\<lambda>e. su_id e \<noteq> ws_id w) (list_layouts J (Some b)) @
      [\<lparr>su_id = ws_id w, su_name = ws_name w, su_updatedAt = JNum (js_int now)\<rparr>]"
proof -
  let ?d = "stamped now w" and ?k = "KEY_PREFIX @ ws_id w"
  define b1 where "b1 = b\<lparr>bs_items := alist_set ?k (stringify J (JObj (workspace_fields ?d))) (bs_items b)\<rparr>"
  have list1: "list_layouts J (Some b1) = list_layouts J (Some b)" by (simp add: list_layouts_def readJson_def b1_def)
  define index' where "index' = filter (\<lambda>e. su_id e \<noteq> ws_id w) (list_layouts J (Some b)) @
      [\<lparr>su_id = ws_id w, su_name = ws_name w, su_updatedAt = JNum (js_int now)\<rparr>]"
  define b2 where "b2 = b1\<lparr>bs_items := alist_set INDEX_KEY (stringify J (JArr (map summary_json index'))) (bs_items b1)\<rparr>"
  have sv: "save J now w (Some b) = Some b2"
    using storage list1 by (simp add: save_def put_item_def Let_def stamped_def [symmetric] b1_def [symmetric] b2_def index'_def)
      (simp add: stamped_def b1_def)
  have "json_safe (JObj (workspace_fields ?d))" using doc by (intro workspace_json_safe) (simp_all add: stamped_def)
  then have rd: "readJson J (Some b2) ?k = ReadOk (JObj (workspace_fields ?d))"
    using json storage by (simp add: readJson_def b2_def b1_def json_law_def)
  have mig: "migrateWorkspace now' (JObj (workspace_fields ?d)) c = (Some (workspace_fields ?d), c)"
  proof -
    have "obj_get (workspace_fields ?d) ''schemaVersion'' = JNum (Fin 3)"
      by (simp add: obj_get_def workspace_fields_def stamped_def WORKSPACE_SCHEMA_VERSION_def js_int_def)
    then show ?thesis by (simp add: migrateWorkspace_def version_or_def loop_done)
  qed
  have "json_safe (JArr (map summary_json index'))"
    using index by (auto simp: index'_def list_all_iff summary_json_def)
  then have "list_layouts J (Some b2) = index'"
    using json storage by (simp add: list_layouts_def readJson_def b2_def b1_def json_law_def summaries_roundtrip)
  then show ?thesis using sv rd mig zod by (simp add: load_def index'_def)
qed


definition plain_json :: "js_value json" where
  "plain_json = \<lparr>parse = Inr, stringify = (\<lambda>v. v)\<rparr>"

definition empty_storage :: "js_value browser_storage" where
  "empty_storage = \<lparr>bs_items = [], bs_active = None, bs_accepts = (\<lambda>_. True), bs_readable = True\<rparr>"


text \<open>The terminal always opens. Whatever the storage holds, whatever JSON and the schema make of it, loading
  never throws: a stored document that is readable, migrates and satisfies the schema is shown; nothing
  stored gives the default layout without a notice; anything else gives the default layout, under the asked
  id and well-formed, with a notice that says why.\<close>

theorem load_always_opens:
  assumes "i \<noteq> ''''" "clock_ok now"
  shows "\<exists>res c'. load J safe st now i c = Some (res, c') \<and>
    (case readJson J st (KEY_PREFIX @ i) of
       Absent \<Rightarrow> \<not> lr_recovered res \<and> layout_ok (lr_workspace res) \<and> ws_id (lr_workspace res) = i
     | Unreadable _ \<Rightarrow> lr_recovered res \<and> lr_reason res \<noteq> None \<and> layout_ok (lr_workspace res) \<and> ws_id (lr_workspace res) = i
     | ReadOk raw \<Rightarrow> (case Option.bind (fst (migrateWorkspace now raw c)) (\<lambda>doc. case safe doc of Inr w \<Rightarrow> Some w | Inl _ \<Rightarrow> None) of
         Some w \<Rightarrow> \<not> lr_recovered res \<and> lr_workspace res = w
       | None \<Rightarrow> lr_recovered res \<and> lr_reason res \<noteq> None \<and> layout_ok (lr_workspace res) \<and> ws_id (lr_workspace res) = i))"
proof -
  have def: "\<exists>w. createDefaultWorkspace now (Some i) None None k = Some (w, k + 5) \<and> layout_ok w \<and> ws_id w = i" for k
    using default_workspace [where oid = "Some i" and oname = None and osymbol = None and now = now and c = k] assms
    by (simp add: clock_ok_def) metis
  have rec: "\<exists>res. recovered now i why k = Some (res, k + 5) \<and> lr_recovered res \<and> lr_reason res \<noteq> None \<and>
      layout_ok (lr_workspace res) \<and> ws_id (lr_workspace res) = i" for why k
    using def [of k] by (auto simp: recovered_def)
  show ?thesis
  proof (cases "readJson J st (KEY_PREFIX @ i)")
    case Absent
    then show ?thesis using def [of c] by (auto simp: load_def)
  next
    case (ReadOk raw)
    obtain o' k where m: "migrateWorkspace now raw c = (o', k)" by fastforce
    show ?thesis
    proof (cases o')
      case None
      then show ?thesis using rec [of "''could not be migrated from its stored version''" k] ReadOk m by (auto simp: load_def)
    next
      case (Some doc)
      show ?thesis
      proof (cases "safe doc")
        case (Inl iss)
        then show ?thesis using rec [of "''was invalid: '' @ issues_text iss" k] ReadOk m Some by (auto simp: load_def)
      qed (use ReadOk m Some in \<open>simp add: load_def\<close>)
    qed
  next
    case (Unreadable why)
    then show ?thesis using rec [of "''could not be read ('' @ why @ '')''" c] by (auto simp: load_def)
  qed
qed

theorem load_always_opens_witness:
  "\<exists>res c'. load plain_json (\<lambda>_. Inl [([''name''], ''too long'')]) (Some (empty_storage\<lparr>bs_items := [(KEY_PREFIX @ ''ws-1'', JObj [])]\<rparr>)) 1780000000000 ''ws-1'' 0
     = Some (res, c') \<and> lr_recovered res"
proof -
  have pre: "''ws-1'' \<noteq> ''''" "clock_ok 1780000000000" by (simp_all add: clock_ok_def)
  let ?b = "Some (empty_storage\<lparr>bs_items := [(KEY_PREFIX @ ''ws-1'', JObj [])]\<rparr>)"
  have "readJson plain_json ?b (KEY_PREFIX @ ''ws-1'') = ReadOk (JObj [])" by (simp add: readJson_def empty_storage_def plain_json_def)
  then show ?thesis using load_always_opens [OF pre, of plain_json "\<lambda>_. Inl [([''name''], ''too long'')]" ?b 0]
    by (auto split: option.splits)
qed

text \<open>
  Deleting the layout that is shown does not cancel its pending save: the timer that an earlier change armed
  writes the deleted document again.
\<close>

lemma deleted_layout_returns:
  assumes "st_pendingSave st = Some w" "ws_id w = i" "ws_id (st_workspace st) = i" "i \<noteq> ''''" "clock_ok now"
    "bs_accepts b (KEY_PREFIX @ i)" "deleteLayout J now i (st, Some b) = Some (st', b')"
  shows "\<exists>b''. snd (write_pending J now' (st', b')) = Some b'' \<and> map_of (bs_items b'') (KEY_PREFIX @ i) \<noteq> None"
proof -
  let ?r = "remove_layout J i (Some b)"
  obtain b1 where b1: "?r = Some b1" "bs_accepts b1 = bs_accepts b"
    by (cases "put_item J INDEX_KEY (JArr (map summary_json (filter (\<lambda>e. su_id e \<noteq> i) (list_layouts J (Some (b\<lparr>bs_items := alist_del (KEY_PREFIX @ i) (bs_items b)\<rparr>))))))
      (b\<lparr>bs_items := alist_del (KEY_PREFIX @ i) (bs_items b)\<rparr>)")
      (auto simp: remove_layout_def Let_def put_item_def split: if_splits)
  obtain d c where d: "st_pendingSave st' = Some w" "b' = setActiveId d (Some b1)"
    using assms(1,3,7) b1 by (auto simp: deleteLayout_def Let_def split: option.splits Option.bind_splits)
  then obtain b2 where b2: "b' = Some b2" "bs_accepts b2 = bs_accepts b" using b1 by (auto simp: setActiveId_def)
  let ?doc = "w\<lparr>ws_schemaVersion := WORKSPACE_SCHEMA_VERSION, ws_updatedAt := now'\<rparr>"
  let ?b3 = "b2\<lparr>bs_items := alist_set (KEY_PREFIX @ i) (stringify J (JObj (workspace_fields ?doc))) (bs_items b2)\<rparr>"
  have "save J now' w (Some b2) \<noteq> None" by (simp add: save_def Let_def split: option.split)
  then obtain b3 where b3: "save J now' w (Some b2) = Some b3" by blast
  have "map_of (bs_items b3) (KEY_PREFIX @ i) \<noteq> None"
    using b3 assms(2,6) b2(2)
    by (auto simp: save_def Let_def put_item_def split: if_splits)
  then show ?thesis using d b2(1) b3 by (simp add: write_pending_def fire_save_def)
qed

end
