(* ===== verification/SyncedStore.thy ===== *)
theory SyncedStore
  imports WorkspaceStorage JsText "HOL-Library.List_Lexorder"
begin

text \<open>
  Layouts mirrored to the gateway, \<^verbatim>\<open>frontend/src/workspace/persistence/synced-store.ts\<close>: a state
  machine over the local store. An event is a call of the store, a timer, or the answer to a request; the
  account, the capability and the journal are changed by the environment. The awaits on the local store end
  before another event is handled; those on the gateway do not: a pull and a push are a request and, later,
  its answer. Arguments are the JSON of the local store, its schema \<open>safe\<close>, the bundle's schema
  \<open>safe_bundle\<close>, and \<open>quote\<close>, the text \<^verbatim>\<open>JSON.stringify\<close> gives a value that is not an object
  (\<open>null\<close> for \<^verbatim>\<open>undefined\<close>).
\<close>

section \<open>Signatures\<close>

fun stable_stringify :: "(js_value \<Rightarrow> string) \<Rightarrow> js_value \<Rightarrow> string" where
  "stable_stringify quote (JArr vs) = ''['' @ join_with '','' (map (stable_stringify quote) vs) @ '']''"
| "stable_stringify quote (JObj fs) = ''{'' @ join_with '','' (map (\<lambda>(k, t). quote (JStr k) @ '':'' @ t)
     (sort_key fst (map (\<lambda>(k, v). (k, stable_stringify quote v)) (filter (\<lambda>(k, v). v \<noteq> JUndefined) fs)))) @ ''}''"
| "stable_stringify quote v = quote v"

text \<open>The signature is compared for equality only; the outer \<^verbatim>\<open>JSON.stringify\<close> of its three parts is kept as the triple.\<close>

type_synonym signature = "string option \<times> string list \<times> string"

definition bundleSignature :: "(js_value \<Rightarrow> string) \<Rightarrow> string option \<Rightarrow> workspace list \<Rightarrow> js_value list \<Rightarrow> signature" where
  "bundleSignature quote active ws journal =
     (active, sort (map (\<lambda>w. stable_stringify quote (JObj (alist_del ''updatedAt'' (workspace_fields w)))) ws),
      stable_stringify quote (JArr journal))"

section \<open>The store and its surroundings\<close>

record remote_bundle =
  rb_updatedAt :: js_number
  rb_activeId :: "string option"
  rb_workspaces :: "js_value list"
  rb_journal :: "js_value list option"

record push =
  ps_login :: string
  ps_signature :: signature

record 'text sync_world =
  sw_pulledFor :: "string option"
  sw_pushTimer :: bool
  sw_pushInFlight :: "push option"
  sw_lastPushed :: "signature option"
  sw_local :: "'text browser_storage option"
  sw_counter :: nat
  sw_login :: "string option"
  sw_enabled :: bool
  sw_journal :: "js_value list"
  sw_pulls :: "string list"
  sw_sent :: "(string \<times> remote_bundle) list"
  sw_applied :: "js_value list list"
  sw_errors :: nat

record 'text sync_env =
  se_json :: "'text json"
  se_safe :: safe_parse
  se_bundle :: "js_value \<Rightarrow> remote_bundle option"
  se_quote :: "js_value \<Rightarrow> string"

definition new_synced :: "'text browser_storage option \<Rightarrow> string option \<Rightarrow> bool \<Rightarrow> 'text sync_world" where
  "new_synced b login enabled = \<lparr>sw_pulledFor = None, sw_pushTimer = False, sw_pushInFlight = None, sw_lastPushed = None,
     sw_local = b, sw_counter = 0, sw_login = login, sw_enabled = enabled, sw_journal = [], sw_pulls = [], sw_sent = [],
     sw_applied = [], sw_errors = 0\<rparr>"

definition schedulePush :: "'text sync_world \<Rightarrow> 'text sync_world" where
  "schedulePush w = (if sw_pulledFor w = None then w else w\<lparr>sw_pushTimer := True\<rparr>)"

section \<open>Pulling\<close>

text \<open>\<^verbatim>\<open>entry.updatedAt || 0\<close> as a number; an array or an object counts as not a number.\<close>

definition stamp_of :: "js_value \<Rightarrow> js_number" where
  "stamp_of v = (case v of JNum n \<Rightarrow> if n = NaN then Fin 0 else n | JBool b \<Rightarrow> if b then Fin 1 else Fin 0
     | JStr s \<Rightarrow> if s = '''' then Fin 0 else js_Number s | JUndefined \<Rightarrow> Fin 0 | JNull \<Rightarrow> Fin 0 | _ \<Rightarrow> NaN)"

definition newest :: "ws_summary list \<Rightarrow> js_number" where
  "newest es = foldl (\<lambda>m e. js_max m (stamp_of (su_updatedAt e))) NegInf es"

definition remoteIsNewer :: "'text sync_env \<Rightarrow> remote_bundle \<Rightarrow> 'text sync_world \<Rightarrow> bool" where
  "remoteIsNewer E B w = (let es = list_layouts (se_json E) (sw_local w) in
     if es = [] then True else js_less (newest es) (rb_updatedAt B))"

fun apply_workspaces :: "'text sync_env \<Rightarrow> int \<Rightarrow> js_value list \<Rightarrow> bool \<times> 'text browser_storage option \<times> nat \<Rightarrow>
    bool \<times> 'text browser_storage option \<times> nat" where
  "apply_workspaces E now [] s = s"
| "apply_workspaces E now (v # vs) (wrote, b, c) = (case migrateWorkspace now v c of
     (None, c') \<Rightarrow> apply_workspaces E now vs (wrote, b, c')
   | (Some doc, c') \<Rightarrow> (case se_safe E doc of
       Inl _ \<Rightarrow> apply_workspaces E now vs (wrote, b, c')
     | Inr w \<Rightarrow> apply_workspaces E now vs (True, save (se_json E) now w b, c')))"

definition applyBundle :: "'text sync_env \<Rightarrow> int \<Rightarrow> remote_bundle \<Rightarrow> 'text sync_world \<Rightarrow> bool \<times> 'text sync_world" where
  "applyBundle E now B w = (let (wrote, b, c) = apply_workspaces E now (rb_workspaces B) (False, sw_local w, sw_counter w);
       b' = (case truthy (rb_activeId B) of Some i \<Rightarrow> if wrote then setActiveId i b else b | None \<Rightarrow> b)
     in (wrote, w\<lparr>sw_local := b', sw_counter := c\<rparr>))"

definition pull_start :: "'text sync_world \<Rightarrow> 'text sync_world" where
  "pull_start w = (case truthy (sw_login w) of Some l \<Rightarrow> if sw_enabled w then w\<lparr>sw_pulls := sw_pulls w @ [l]\<rparr> else w | None \<Rightarrow> w)"

datatype pull_reply = Failed | Body js_value

text \<open>The answer to the pull that was started for \<open>login\<close>; the result is what the pull resolves to.\<close>

definition pull_answer :: "'text sync_env \<Rightarrow> int \<Rightarrow> string \<Rightarrow> pull_reply \<Rightarrow> 'text sync_world \<Rightarrow> bool \<times> 'text sync_world" where
  "pull_answer E now login r w = (case r of
     Failed \<Rightarrow> (False, w\<lparr>sw_errors := Suc (sw_errors w)\<rparr>)
   | Body raw \<Rightarrow> if raw = JNull \<or> raw = JUndefined then (False, schedulePush (w\<lparr>sw_pulledFor := Some login\<rparr>))
       else (case se_bundle E raw of
         None \<Rightarrow> (False, w\<lparr>sw_errors := Suc (sw_errors w)\<rparr>)
       | Some B \<Rightarrow> let w1 = (case rb_journal B of None \<Rightarrow> w | Some j \<Rightarrow> w\<lparr>sw_applied := sw_applied w @ [j]\<rparr>) in
           if \<not> remoteIsNewer E B w1 then (False, schedulePush (w1\<lparr>sw_pulledFor := Some login\<rparr>))
           else let (applied, w2) = applyBundle E now B w1 in (applied, w2\<lparr>sw_pulledFor := Some login\<rparr>)))"

section \<open>Pushing\<close>

text \<open>The layouts that read without recovery, in the order of the index.\<close>

fun readable_layouts :: "'text sync_env \<Rightarrow> 'text browser_storage option \<Rightarrow> int \<Rightarrow> ws_summary list \<Rightarrow> nat \<Rightarrow> (workspace list \<times> nat) option" where
  "readable_layouts E b now [] c = Some ([], c)"
| "readable_layouts E b now (e # es) c = do {
     (res, c1) \<leftarrow> load (se_json E) (se_safe E) b now (su_id e) c;
     (ws, c2) \<leftarrow> readable_layouts E b now es c1;
     Some (if lr_recovered res then ws else lr_workspace res # ws, c2) }"

definition bundle_of :: "int \<Rightarrow> string option \<Rightarrow> workspace list \<Rightarrow> js_value list \<Rightarrow> remote_bundle" where
  "bundle_of now active ws journal = \<lparr>rb_updatedAt = js_int now, rb_activeId = active,
     rb_workspaces = map (\<lambda>w. JObj (workspace_fields w)) ws, rb_journal = (if journal = [] then None else Some journal)\<rparr>"

definition push_now :: "'text sync_env \<Rightarrow> int \<Rightarrow> 'text sync_world \<Rightarrow> 'text sync_world" where
  "push_now E now w = (case truthy (sw_login w) of None \<Rightarrow> w
   | Some login \<Rightarrow> if sw_pulledFor w \<noteq> Some login \<or> \<not> sw_enabled w then w
       else if sw_pushInFlight w \<noteq> None then w
       else (case readable_layouts E (sw_local w) now (list_layouts (se_json E) (sw_local w)) (sw_counter w) of
         None \<Rightarrow> w\<lparr>sw_errors := Suc (sw_errors w)\<rparr>
       | Some (ws, c) \<Rightarrow> let w1 = w\<lparr>sw_counter := c\<rparr>; active = getActiveId (sw_local w);
             sig = bundleSignature (se_quote E) active ws (sw_journal w) in
           if ws = [] then w1
           else if sw_lastPushed w = Some sig then w1
           else w1\<lparr>sw_pushInFlight := Some \<lparr>ps_login = login, ps_signature = sig\<rparr>,
                sw_sent := sw_sent w @ [(login, bundle_of now active ws (sw_journal w))]\<rparr>))"

definition push_answer :: "bool \<Rightarrow> 'text sync_world \<Rightarrow> 'text sync_world" where
  "push_answer acknowledged w = (case sw_pushInFlight w of None \<Rightarrow> w
   | Some p \<Rightarrow> if acknowledged then w\<lparr>sw_lastPushed := Some (ps_signature p), sw_pushInFlight := None\<rparr>
       else w\<lparr>sw_errors := Suc (sw_errors w), sw_pushInFlight := None\<rparr>)"

definition fire_push :: "'text sync_env \<Rightarrow> int \<Rightarrow> 'text sync_world \<Rightarrow> 'text sync_world" where
  "fire_push E now w = (if sw_pushTimer w then push_now E now (w\<lparr>sw_pushTimer := False\<rparr>) else w)"

definition flush_push :: "'text sync_env \<Rightarrow> int \<Rightarrow> 'text sync_world \<Rightarrow> 'text sync_world" where
  "flush_push E now w = push_now E now (w\<lparr>sw_pushTimer := False\<rparr>)"

definition reset :: "'text sync_world \<Rightarrow> 'text sync_world" where
  "reset w = w\<lparr>sw_pulledFor := None, sw_lastPushed := None, sw_pushTimer := False\<rparr>"

section \<open>Writes\<close>

definition save_synced :: "'text sync_env \<Rightarrow> int \<Rightarrow> workspace \<Rightarrow> 'text sync_world \<Rightarrow> 'text sync_world" where
  "save_synced E now doc w = schedulePush (w\<lparr>sw_local := save (se_json E) now doc (sw_local w)\<rparr>)"

definition remove_synced :: "'text sync_env \<Rightarrow> string \<Rightarrow> 'text sync_world \<Rightarrow> 'text sync_world" where
  "remove_synced E i w = schedulePush (w\<lparr>sw_local := remove_layout (se_json E) i (sw_local w)\<rparr>)"

definition setActive_synced :: "string \<Rightarrow> 'text sync_world \<Rightarrow> 'text sync_world" where
  "setActive_synced i w = schedulePush (w\<lparr>sw_local := setActiveId i (sw_local w)\<rparr>)"

definition notifyExternalChange :: "'text sync_world \<Rightarrow> 'text sync_world" where
  "notifyExternalChange w = schedulePush w"

section \<open>Events\<close>

datatype sync_event = Save workspace | Remove string | SetActive string | Notify | Pull | PullAnswer nat pull_reply
  | PushTimer | PushAnswer bool | Flush | Reset
  | LoginIs "string option" | EnabledIs bool | JournalIs "js_value list"

fun sync_step :: "'text sync_env \<Rightarrow> int \<Rightarrow> sync_event \<Rightarrow> 'text sync_world \<Rightarrow> 'text sync_world" where
  "sync_step E now (Save doc) w = save_synced E now doc w"
| "sync_step E now (Remove i) w = remove_synced E i w"
| "sync_step E now (SetActive i) w = setActive_synced i w"
| "sync_step E now Notify w = notifyExternalChange w"
| "sync_step E now Pull w = pull_start w"
| "sync_step E now (PullAnswer n r) w = (if n < length (sw_pulls w)
     then snd (pull_answer E now (sw_pulls w ! n) r (w\<lparr>sw_pulls := take n (sw_pulls w) @ drop (Suc n) (sw_pulls w)\<rparr>)) else w)"
| "sync_step E now PushTimer w = fire_push E now w"
| "sync_step E now (PushAnswer ok) w = push_answer ok w"
| "sync_step E now Flush w = flush_push E now w"
| "sync_step E now Reset w = reset w"
| "sync_step E now (LoginIs l) w = w\<lparr>sw_login := l\<rparr>"
| "sync_step E now (EnabledIs b) w = w\<lparr>sw_enabled := b\<rparr>"
| "sync_step E now (JournalIs j) w = w\<lparr>sw_journal := j\<rparr>"

section \<open>Properties\<close>

definition legible :: "'text sync_env \<Rightarrow> pull_reply \<Rightarrow> bool" where
  "legible E r = (case r of Failed \<Rightarrow> False | Body raw \<Rightarrow> raw = JNull \<or> raw = JUndefined \<or> se_bundle E raw \<noteq> None)"

text \<open>The accounts whose stored bundle is known since the last reset.\<close>

definition known_after :: "'text sync_env \<Rightarrow> sync_event \<Rightarrow> 'text sync_world \<Rightarrow> string set \<Rightarrow> string set" where
  "known_after E e w K = (case e of Reset \<Rightarrow> {}
     | PullAnswer n r \<Rightarrow> if n < length (sw_pulls w) \<and> legible E r then insert (sw_pulls w ! n) K else K
     | _ \<Rightarrow> K)"

inductive sync_reachable :: "'text sync_env \<Rightarrow> string set \<Rightarrow> 'text sync_world \<Rightarrow> bool" for E where
  created: "sync_reachable E {} (new_synced b login enabled)"
| stepped: "sync_reachable E K w \<Longrightarrow> sync_reachable E (known_after E e w K) (sync_step E now e w)"

inductive_cases sync_reachableE: "sync_reachable E K w"

lemma schedulePush_simps [simp]: "sw_pulledFor (schedulePush w) = sw_pulledFor w" "sw_sent (schedulePush w) = sw_sent w"
  "sw_lastPushed (schedulePush w) = sw_lastPushed w" "sw_pushInFlight (schedulePush w) = sw_pushInFlight w"
  "sw_local (schedulePush w) = sw_local w"
  by (simp_all add: schedulePush_def)

lemma applyBundle_simps: "applyBundle E now B w = (a, w') \<Longrightarrow> sw_sent w' = sw_sent w \<and> sw_pulledFor w' = sw_pulledFor w"
  by (auto simp: applyBundle_def Let_def split: prod.splits)

lemma pull_answer_effect:
  assumes "pull_answer E now login r w = (a, w')"
  shows "sw_sent w' = sw_sent w" "sw_pulledFor w' = (if legible E r then Some login else sw_pulledFor w)"
proof -
  have "sw_sent w' = sw_sent w \<and> sw_pulledFor w' = (if legible E r then Some login else sw_pulledFor w)"
  proof (cases r)
    case Failed
    then show ?thesis using assms by (auto simp: pull_answer_def legible_def)
  next
    case (Body raw)
    show ?thesis
    proof (cases "raw = JNull \<or> raw = JUndefined")
      case True
      then show ?thesis using assms Body by (auto simp: pull_answer_def legible_def)
    next
      case False
      then show ?thesis using assms Body
        by (auto simp: pull_answer_def legible_def Let_def dest!: applyBundle_simps split: option.splits if_splits prod.splits)
    qed
  qed
  then show "sw_sent w' = sw_sent w" "sw_pulledFor w' = (if legible E r then Some login else sw_pulledFor w)" by auto
qed

lemma push_now_pulledFor [simp]: "sw_pulledFor (push_now E now w) = sw_pulledFor w"
  by (simp add: push_now_def Let_def split: option.split prod.split)

text \<open>What a push does, by cases.\<close>

definition content :: "'text sync_env \<Rightarrow> int \<Rightarrow> 'text sync_world \<Rightarrow> (workspace list \<times> nat) option" where
  "content E now w = readable_layouts E (sw_local w) now (list_layouts (se_json E) (sw_local w)) (sw_counter w)"

definition signature_of :: "'text sync_env \<Rightarrow> 'text sync_world \<Rightarrow> workspace list \<Rightarrow> signature" where
  "signature_of E w ws = bundleSignature (se_quote E) (getActiveId (sw_local w)) ws (sw_journal w)"

lemma push_now_sends:
  "sw_sent (push_now E now w) = sw_sent w \<or>
   (\<exists>l ws c. truthy (sw_login w) = Some l \<and> sw_pulledFor w = Some l \<and> sw_enabled w \<and> sw_pushInFlight w = None \<and>
      content E now w = Some (ws, c) \<and> ws \<noteq> [] \<and> sw_lastPushed w \<noteq> Some (signature_of E w ws) \<and>
      sw_pushInFlight (push_now E now w) = Some \<lparr>ps_login = l, ps_signature = signature_of E w ws\<rparr> \<and>
      sw_sent (push_now E now w) = sw_sent w @ [(l, bundle_of now (getActiveId (sw_local w)) ws (sw_journal w))])"
proof (cases "truthy (sw_login w)")
  case (Some l)
  show ?thesis
  proof (cases "sw_pulledFor w = Some l \<and> sw_enabled w \<and> sw_pushInFlight w = None")
    case True
    show ?thesis
    proof (cases "content E now w")
      case (Some p)
      then obtain ws c where "content E now w = Some (ws, c)" by (cases p) auto
      then show ?thesis using \<open>truthy (sw_login w) = Some l\<close> True
        by (auto simp: push_now_def content_def signature_of_def Let_def)
    qed (use True \<open>truthy (sw_login w) = Some l\<close> in \<open>simp add: push_now_def content_def\<close>)
  qed (use Some in \<open>auto simp: push_now_def\<close>)
qed (simp add: push_now_def)

lemma pulled_known: "sync_reachable E K w \<Longrightarrow> sw_pulledFor w = None \<or> (\<exists>l\<in>K. sw_pulledFor w = Some l)"
proof (induction rule: sync_reachable.induct)
  case (created b login enabled)
  then show ?case by (simp add: new_synced_def)
next
  case (stepped K w e now)
  show ?case
  proof (cases e)
    case (PullAnswer n r)
    show ?thesis
    proof (cases "n < length (sw_pulls w)")
      case True
      let ?w = "w\<lparr>sw_pulls := take n (sw_pulls w) @ drop (Suc n) (sw_pulls w)\<rparr>"
      obtain a w' where p: "pull_answer E now (sw_pulls w ! n) r ?w = (a, w')" by fastforce
      have "sw_pulledFor w' = (if legible E r then Some (sw_pulls w ! n) else sw_pulledFor w)"
        using pull_answer_effect(2) [OF p] by simp
      then show ?thesis using stepped.IH True p PullAnswer by (auto simp: known_after_def)
    qed (use stepped.IH PullAnswer in \<open>auto simp: known_after_def\<close>)
  qed (use stepped.IH in \<open>auto simp: known_after_def save_synced_def remove_synced_def setActive_synced_def
      notifyExternalChange_def pull_start_def fire_push_def flush_push_def push_answer_def reset_def split: option.splits\<close>)
qed

text \<open>C20. Nothing is pushed until a pull has succeeded. In every reachable state, whatever happens next sends at
  most one bundle, and only when the push timer fires or the store is flushed; it goes to the account that is
  signed in, whose stored bundle was read, or found absent, since the last reset; storage is enabled, no other
  push is under way, and the bundle differs from the last one acknowledged. It holds the active layout's id, the
  journal and exactly the layouts that read without recovery, of which there is at least one.\<close>

theorem nothing_pushed_before_pull:
  assumes "sync_reachable E K w"
  shows "sw_sent (sync_step E now e w) = sw_sent w \<or>
    (\<exists>l ws c. sw_sent (sync_step E now e w) = sw_sent w @ [(l, bundle_of now (getActiveId (sw_local w)) ws (sw_journal w))] \<and>
       l \<in> K \<and> sw_login w = Some l \<and> sw_enabled w \<and> (e = PushTimer \<and> sw_pushTimer w \<or> e = Flush) \<and>
       sw_pushInFlight w = None \<and> sw_lastPushed w \<noteq> Some (signature_of E w ws) \<and> content E now w = Some (ws, c) \<and> ws \<noteq> [])"
proof -
  let ?w = "w\<lparr>sw_pushTimer := False\<rparr>"
  have push: "sw_sent (push_now E now ?w) = sw_sent w \<or>
      (\<exists>l ws c. sw_sent (push_now E now ?w) = sw_sent w @ [(l, bundle_of now (getActiveId (sw_local w)) ws (sw_journal w))] \<and>
       l \<in> K \<and> sw_login w = Some l \<and> sw_enabled w \<and> sw_pushInFlight w = None \<and>
       sw_lastPushed w \<noteq> Some (signature_of E w ws) \<and> content E now w = Some (ws, c) \<and> ws \<noteq> [])"
  proof -
    have eq: "content E now ?w = content E now w" "signature_of E ?w = signature_of E w" by (simp_all add: content_def signature_of_def fun_eq_iff)
    have l: "truthy (sw_login w) = Some l \<Longrightarrow> sw_login w = Some l" for l by (auto simp: truthy_def split: option.splits if_splits)
    from push_now_sends [of E now ?w] pulled_known [OF assms] show ?thesis unfolding eq using l by auto
  qed
  show ?thesis
  proof (cases e)
    case (PullAnswer n r)
    then show ?thesis
      using pull_answer_effect(1) [of E now "sw_pulls w ! n" r "w\<lparr>sw_pulls := take n (sw_pulls w) @ drop (Suc n) (sw_pulls w)\<rparr>"]
      by (cases "pull_answer E now (sw_pulls w ! n) r (w\<lparr>sw_pulls := take n (sw_pulls w) @ drop (Suc n) (sw_pulls w)\<rparr>)") auto
  next
    case PushTimer
    then show ?thesis using push by (simp add: fire_push_def)
  next
    case Flush
    then show ?thesis using push by (simp add: flush_push_def)
  qed (simp_all add: save_synced_def remove_synced_def setActive_synced_def notifyExternalChange_def pull_start_def
      push_answer_def reset_def split: option.split)
qed

theorem nothing_pushed_before_pull_witness:
  "sw_sent (sync_step \<lparr>se_json = plain_json, se_safe = (\<lambda>_. Inl []), se_bundle = (\<lambda>_. None), se_quote = (\<lambda>_. ''x'')\<rparr>
     5 Flush (new_synced (Some empty_storage) (Some ''1001'') True)) = []"
proof -
  let ?E = "\<lparr>se_json = plain_json, se_safe = (\<lambda>_. Inl []), se_bundle = (\<lambda>_. None), se_quote = (\<lambda>_. ''x'')\<rparr>"
  have r: "sync_reachable ?E {} (new_synced (Some empty_storage) (Some ''1001'') True)" by (rule sync_reachable.created)
  show ?thesis using nothing_pushed_before_pull [OF r, of 5 Flush] by (simp add: new_synced_def)
qed

text \<open>Only layouts that read without recovery are uploaded.\<close>

lemma readable_not_recovered:
  "readable_layouts E b now es c = Some (ws, c') \<Longrightarrow> d \<in> set ws \<Longrightarrow>
   \<exists>e\<in>set es. \<exists>c1 res c2. load (se_json E) (se_safe E) b now (su_id e) c1 = Some (res, c2) \<and> \<not> lr_recovered res \<and> lr_workspace res = d"
proof (induction es arbitrary: c ws c')
  case (Cons e es)
  obtain res c1 ws1 c2 where s: "load (se_json E) (se_safe E) b now (su_id e) c = Some (res, c1)"
    "readable_layouts E b now es c1 = Some (ws1, c2)" "ws = (if lr_recovered res then ws1 else lr_workspace res # ws1)"
    using Cons.prems(1) by (auto split: Option.bind_splits)
  show ?case
  proof (cases "d \<in> set ws1")
    case True
    then show ?thesis using Cons.IH [OF s(2)] by auto
  next
    case False
    then have "\<not> lr_recovered res" "lr_workspace res = d" using Cons.prems(2) s(3) by (auto split: if_splits)
    then show ?thesis using s(1) by auto
  qed
qed simp

text \<open>C21. When the debounce of a push ends, for an account that is signed in, enabled and pulled, and layouts that
  can be read: with no push under way, the current content is the one the gateway acknowledged last, or it is
  sent now; with a push under way, nothing is sent, the timer is off and nothing else changes, so that the
  answer to the push under way leaves the store with the older content acknowledged and no push scheduled -
  the change is mirrored only if another one follows.\<close>

theorem debounced_push_outcome:
  assumes ready: "truthy (sw_login w) = Some l" "sw_pulledFor w = Some l" "sw_enabled w" "sw_pushTimer w"
    and content: "content E now w = Some (ws, c)" "ws \<noteq> []"
  shows "(case sw_pushInFlight w of
     None \<Rightarrow> sw_lastPushed (fire_push E now w) = Some (signature_of E w ws) \<and> sw_sent (fire_push E now w) = sw_sent w \<or>
       sw_sent (fire_push E now w) = sw_sent w @ [(l, bundle_of now (getActiveId (sw_local w)) ws (sw_journal w))]
   | Some p \<Rightarrow> fire_push E now w = w\<lparr>sw_pushTimer := False\<rparr> \<and>
       push_answer True (fire_push E now w) = w\<lparr>sw_pushTimer := False, sw_pushInFlight := None, sw_lastPushed := Some (ps_signature p)\<rparr>)"
proof (cases "sw_pushInFlight w")
  case None
  then show ?thesis using assms
    by (auto simp: fire_push_def push_now_def content_def signature_of_def Let_def)
next
  case (Some p)
  then show ?thesis using assms by (simp add: fire_push_def push_now_def push_answer_def)
qed

definition one_layout :: "js_value sync_world" where
  "one_layout = (new_synced (Some empty_storage) (Some ''1001'') True)\<lparr>sw_pulledFor := Some ''1001'', sw_pushTimer := True,
     sw_local := Some (empty_storage\<lparr>bs_items := [(KEY_PREFIX @ ''default'', JObj (workspace_fields lone_panel)),
       (INDEX_KEY, JArr [summary_json \<lparr>su_id = ''default'', su_name = ''Default'', su_updatedAt = JNum (Fin 5)\<rparr>])]\<rparr>),
     sw_pushInFlight := Some \<lparr>ps_login = ''1001'', ps_signature = (None, [], ''[]'')\<rparr>\<rparr>"

definition sample_env :: "js_value sync_env" where
  "sample_env = \<lparr>se_json = plain_json, se_safe = (\<lambda>_. Inr lone_panel), se_bundle = (\<lambda>_. None), se_quote = (\<lambda>_. ''x'')\<rparr>"

lemma one_layout_content: "content sample_env 9 one_layout = Some ([lone_panel], 0)"
proof -
  have "obj_get (workspace_fields lone_panel) ''schemaVersion'' = JNum (Fin 3)"
    by (simp add: obj_get_def workspace_fields_def lone_panel_def initial_state_def createDefaultWorkspace_def group_Some Let_def
        WORKSPACE_SCHEMA_VERSION_def js_int_def)
  then have "migrateWorkspace 9 (JObj (workspace_fields lone_panel)) 0 = (Some (workspace_fields lone_panel), 0)"
    by (simp add: migrateWorkspace_def version_or_def loop_done)
  then show ?thesis
    by (simp add: content_def one_layout_def sample_env_def new_synced_def list_layouts_def readJson_def empty_storage_def plain_json_def
        List.map_filter_simps summary_roundtrip load_def)
qed

theorem debounced_push_outcome_witness:
  "sw_pushTimer (push_answer True (fire_push sample_env 9 one_layout)) = False \<and>
   sw_sent (push_answer True (fire_push sample_env 9 one_layout)) = []"
proof -
  have pre: "truthy (sw_login one_layout) = Some ''1001''" "sw_pulledFor one_layout = Some ''1001''" "sw_enabled one_layout" "sw_pushTimer one_layout"
    by (simp_all add: one_layout_def new_synced_def truthy_def)
  have f: "sw_pushInFlight one_layout = Some \<lparr>ps_login = ''1001'', ps_signature = (None, [], ''[]'')\<rparr>" "sw_sent one_layout = []"
    by (simp_all add: one_layout_def new_synced_def)
  show ?thesis using debounced_push_outcome [OF pre one_layout_content] f by (simp add: push_answer_def)
qed

text \<open>
  A reset does not forget the push under way: its acknowledgement arrives later and records the previous
  account's signature after all, so that the next account's first push of the same content is skipped.
\<close>

lemma reset_keeps_push_in_flight:
  assumes "sw_pushInFlight w = Some p" "ps_signature p = signature_of E w ws" "content E now w = Some (ws, c)"
    "truthy (Some l) = Some l"
  shows "let w1 = push_answer True (reset w); w2 = w1\<lparr>sw_login := Some l, sw_pulledFor := Some l\<rparr>
    in sw_lastPushed w1 = Some (signature_of E w ws) \<and> sw_sent (push_now E now w2) = sw_sent w"
proof -
  have "push_answer True (reset w) = w\<lparr>sw_pulledFor := None, sw_pushTimer := False, sw_lastPushed := Some (signature_of E w ws), sw_pushInFlight := None\<rparr>"
    using assms(1,2) by (simp add: push_answer_def reset_def)
  then show ?thesis using assms(3,4) by (simp add: push_now_def content_def signature_of_def Let_def)
qed

text \<open>
  A browser that has never seen the account saves its default layout on the first change, and that save is
  stamped with the clock; the pull that follows finds the local layout newer than the stored one, keeps it and
  schedules the push that replaces the account's real layout.
\<close>

lemma js_max_less: "js_less (js_max m x) b \<Longrightarrow> js_less m b \<and> js_less x b"
  by (cases m; cases x; cases b) (auto simp: js_max_def split: if_splits)

lemma newest_less:
  "js_less (foldl (\<lambda>m e. js_max m (stamp_of (su_updatedAt e))) m es) b \<Longrightarrow>
    js_less m b \<and> (\<forall>e\<in>set es. js_less (stamp_of (su_updatedAt e)) b)"
proof (induction es arbitrary: m)
  case (Cons e es)
  have "js_less (foldl (\<lambda>m e. js_max m (stamp_of (su_updatedAt e))) (js_max m (stamp_of (su_updatedAt e))) es) b"
    using Cons.prems by (simp only: foldl_Cons)
  from Cons.IH [OF this] have "js_less (js_max m (stamp_of (su_updatedAt e))) b" and r: "\<forall>e\<in>set es. js_less (stamp_of (su_updatedAt e)) b" by blast+
  from js_max_less [OF this(1)] r show ?case by (simp only: set_simps ball_simps)
qed simp

lemma autosave_beats_server:
  assumes doc: "json_law (se_json E)" "bs_readable b" "bs_accepts b (KEY_PREFIX @ ws_id d)" "bs_accepts b INDEX_KEY"
      "\<forall>e\<in>set (list_layouts (se_json E) (Some b)). json_safe (su_updatedAt e)" "workspaceSchema (stamped t d)"
      "\<forall>p\<in>set (ws_chartPanes d). \<forall>v. cp_chartState p = Some v \<longrightarrow> json_safe v"
      "se_safe E (workspace_fields (stamped t d)) = Inr (stamped t d)"
    and w: "sw_local w = Some b" and B: "se_bundle E raw = Some B" "raw \<noteq> JNull" "raw \<noteq> JUndefined" "rb_updatedAt B = Fin s" "s \<le> of_int t"
  shows "let w1 = save_synced E t d w; (applied, w2) = pull_answer E t' login (Body raw) w1
    in \<not> applied \<and> sw_local w2 = sw_local w1 \<and> sw_pulledFor w2 = Some login \<and> sw_pushTimer w2"
proof -
  let ?w1 = "save_synced E t d w"
  have "\<lparr>su_id = ws_id d, su_name = ws_name d, su_updatedAt = JNum (js_int t)\<rparr> \<in> set (list_layouts (se_json E) (sw_local ?w1))"
    using save_then_load [where J = "se_json E" and safe = "se_safe E", OF doc] w by (simp add: save_synced_def)
  moreover have "\<not> js_less (Fin (of_int t)) (rb_updatedAt B)" using B by simp
  ultimately have "\<not> js_less (newest (list_layouts (se_json E) (sw_local ?w1))) (rb_updatedAt B)"
    "list_layouts (se_json E) (sw_local ?w1) \<noteq> []"
    unfolding newest_def using newest_less by (fastforce simp: stamp_of_def js_int_def)+
  then have "\<not> remoteIsNewer E B (?w1\<lparr>sw_applied := x\<rparr>)" "\<not> remoteIsNewer E B ?w1" for x by (simp_all add: remoteIsNewer_def Let_def)
  then show ?thesis using B by (simp add: pull_answer_def Let_def schedulePush_def split: option.split)
qed

end
