(* ===== verification/Wire.thy ===== *)
theory Wire
  imports JsText JsArith "HOL-Library.Word"
begin

text \<open>
  The gateway's answers as the schemas of
  \<^verbatim>\<open>frontend/src/integrations/gateway/contracts/schemas.ts\<close> deliver them. Checking a payload
  against a schema is the work of the package zod; what is modelled is the repository's own part: the transforms
  of the lenient fields (\<^verbatim>\<open>looseDecimal\<close> and its kin) and the record types the schemas
  produce. A field whose transform gives a number is an integer here: tickets, sides, types, statuses and unix
  seconds are integers on the wire. Fields no mapper reads are left out of the records.
\<close>

section \<open>\<^verbatim>\<open>String(n)\<close>\<close>

text \<open>
  The shortest decimal that rounds to the double: as few significant digits as read back to it, seventeen at most.
\<close>

definition shortest_digits :: "rat \<Rightarrow> nat" where
  "shortest_digits x = or_else (List.find (\<lambda>k. fl (round_sig k x) = Fin x) [1..<17]) 17"

fun strip_zeros :: "string \<Rightarrow> string" where
  "strip_zeros [] = []"
| "strip_zeros (c # cs) = (let t = strip_zeros cs in if t = [] \<and> c = CHR ''0'' then [] else c # t)"

text \<open>The layout of a positive decimal with point position \<open>n\<close> (\<open>0.d1d2... * 10 ^ n\<close>).\<close>

definition layout :: "rat \<Rightarrow> string" where
  "layout v = (let n = mag v + 1 in
     if v = of_int \<lfloor>v\<rfloor> \<and> n \<le> 21 then show_pos \<lfloor>v\<rfloor>
     else let ds = strip_zeros (show_pos \<lfloor>v * 10 powi (17 - n)\<rfloor>) in
       if 0 < n \<and> n \<le> 21 then take (nat n) ds @ ''.'' @ drop (nat n) ds
       else if - 6 < n \<and> n \<le> 0 then ''0.'' @ replicate (nat (- n)) CHR ''0'' @ ds
       else take 1 ds @ (if length ds \<le> 1 then '''' else ''.'' @ drop 1 ds) @ ''e'' @
         (if 0 < n then ''+'' else ''-'') @ show_pos \<bar>n - 1\<bar>)"

fun js_String :: "js_number \<Rightarrow> string" where
  "js_String NaN = ''NaN''"
| "js_String PosInf = ''Infinity''"
| "js_String NegInf = ''-Infinity''"
| "js_String (Fin x) = (if x = 0 then ''0''
     else (if x < 0 then ''-'' else '''') @ layout (round_sig (shortest_digits \<bar>x\<bar>) \<bar>x\<bar>))"

lemma shortest_digits_int:
  assumes "0 < n" "n < 10 ^ 15"
  shows "round_sig (shortest_digits (of_int n)) (of_int n) = of_int n"
proof (cases "List.find (\<lambda>k. fl (round_sig k (of_int n)) = Fin (of_int n)) [1..<17]")
  case None
  have "round_sig 17 (of_int n) = of_int n"
    using assms by (intro round_sig_exact [of _ n 0]) simp_all
  then show ?thesis using None by (simp add: shortest_digits_def)
next
  case (Some k)
  define x where "x = (of_int n :: rat)"
  have x: "0 < x" "x \<noteq> 0" using assms by (simp_all add: x_def)
  have k: "fl (round_sig k x) = Fin x" "1 \<le> k"
    using Some by (auto simp: find_Some_iff x_def)
  have r: "shortest_digits x = k" unfolding shortest_digits_def x_def Some by simp
  define e where "e = mag x + 1 - int k"
  have rs: "round_sig k x = of_int (round_half_up (x / 10 powi e)) * 10 powi e"
    using round_sig_ulp [OF x(2), of k] by (simp add: ulp_def e_def)
  show ?thesis
  proof (cases "0 \<le> e")
    case False
    then have q: "x / 10 powi e = of_int (n * 10 ^ nat (- e))"
      by (simp add: x_def power_int_def field_simps)
    have "round_sig k x = x / 10 powi e * 10 powi e"
      unfolding rs by (subst (1) q, subst q) (simp only: round_half_up_int)
    then show ?thesis unfolding x_def [symmetric] r by simp
  next
    case True
    define m where "m = round_half_up (x / 10 powi e) * 10 ^ nat e"
    have m: "round_sig k x = of_int m" using True by (simp add: rs m_def power_int_def)
    have "\<bar>round_sig k x - x\<bar> \<le> \<bar>x\<bar> / (2 * 10 ^ (k - 1))" using k by (intro round_sig_error) simp
    also have "\<dots> \<le> \<bar>x\<bar> / 2" by (rule divide_left_mono) simp_all
    finally have "\<bar>of_int m - x\<bar> \<le> \<bar>x\<bar> / 2" unfolding m .
    then have "\<bar>of_int m\<bar> \<le> 2 * x" using x by linarith
    then have "(of_int \<bar>m\<bar> :: rat) \<le> of_int (2 * n)" by (simp add: x_def)
    then have "\<bar>m\<bar> \<le> 2 ^ 53" unfolding of_int_le_iff using assms(2) by simp
    then have "fl (of_int m) = js_int m" by (rule fl_int)
    then show ?thesis unfolding x_def [symmetric] r using k(1) m by (simp add: js_int_def)
  qed
qed

text \<open>An integer of up to fifteen digits is written out in full.\<close>

lemma js_String_int:
  assumes "\<bar>n\<bar> < 10 ^ 15"
  shows "js_String (js_int n) = show_int n"
proof (cases "n = 0")
  case False
  have "layout (of_int m) = show_pos m" if "0 < m" "m < 10 ^ 15" for m
  proof -
    have "(10::rat) powi mag (of_int m) \<le> of_int m" using mag_bounds [of "of_int m"] that by simp
    also have "\<dots> < 10 powi 15" using that(2) by (simp add: power_int_def)
    finally have "mag (of_int m) < 15" by (simp only: ten_powi_less_iff)
    then show ?thesis by (simp add: layout_def)
  qed
  moreover have "\<bar>of_int n :: rat\<bar> = of_int \<bar>n\<bar>" by simp
  ultimately show ?thesis
    using assms False shortest_digits_int [of "\<bar>n\<bar>"]
    by (cases "n < 0") (simp_all only: js_int_def js_String.simps, simp_all add: show_int_def)
qed (simp add: js_int_def show_int_def show_pos.simps digit_char_def)

section \<open>The lenient fields\<close>

text \<open>\<open>None\<close> is a payload the schema refuses, so that the whole answer is refused.\<close>

fun looseDecimal :: "js_value \<Rightarrow> string option" where
  "looseDecimal (JNum n) = (if n = NaN then None else Some (js_String n))"
| "looseDecimal (JStr s) = Some s"
| "looseDecimal _ = None"

fun looseOptionalDecimal :: "js_value \<Rightarrow> string option option" where
  "looseOptionalDecimal (JNum n) = (if n = NaN then None else Some (Some (js_String n)))"
| "looseOptionalDecimal (JStr s) = Some (if s = '''' then None else Some s)"
| "looseOptionalDecimal JNull = Some None"
| "looseOptionalDecimal JUndefined = Some None"
| "looseOptionalDecimal _ = None"

fun looseInt :: "js_value \<Rightarrow> js_number option" where
  "looseInt (JNum n) = (if n = NaN then None else Some (if js_is_finite n then n else js_int 0))"
| "looseInt (JStr s) = Some (let n = js_Number s in if js_is_finite n then n else js_int 0)"
| "looseInt _ = None"

fun looseOptionalInt :: "js_value \<Rightarrow> js_number option option" where
  "looseOptionalInt (JNum n) = (if n = NaN then None else Some (if js_is_finite n then Some n else None))"
| "looseOptionalInt (JStr s) = Some (if s = '''' then None
     else let n = js_Number s in if js_is_finite n then Some n else None)"
| "looseOptionalInt JNull = Some None"
| "looseOptionalInt JUndefined = Some None"
| "looseOptionalInt _ = None"

fun ticketId :: "js_value \<Rightarrow> string option" where
  "ticketId (JStr s) = Some s"
| "ticketId (JNum n) = (if n = NaN then None else Some (js_String n))"
| "ticketId _ = None"

text \<open>Whatever the gateway sends, a lenient integer is a finite number.\<close>

lemma looseInt_finite: "looseInt v = Some n \<Longrightarrow> js_is_finite n"
  and looseOptionalInt_finite: "looseOptionalInt v = Some (Some n) \<Longrightarrow> js_is_finite n"
  by (cases v; auto simp: js_int_def Let_def split: if_splits)+

text \<open>A ticket below \<open>10 ^ 15\<close> keeps its digits, sent as a number or as a text.\<close>

lemma ticketId_number: "\<bar>n\<bar> < 10 ^ 15 \<Longrightarrow> ticketId (JNum (js_int n)) = ticketId (JStr (show_int n))"
  using js_String_int [of n] by (simp add: js_int_def)

section \<open>The records\<close>

record crm_account_type =
  ct_id :: int
  ct_description :: "string option"
  ct_title :: "string option"
  ct_server :: "string option"

record crm_account_dto =
  ca_login :: string
  ca_currency :: "string option"
  ca_isReadOnly :: "bool option"
  ca_isEnabled :: "bool option"
  ca_type :: "crm_account_type option"

record tv_symbol_dto =
  ts_ticker :: string
  ts_name :: string
  ts_description :: string
  ts_type :: string
  ts_session :: string
  ts_timezone :: string
  ts_exchange :: string
  ts_pricescale :: int
  ts_minmov :: int
  ts_supported_resolutions :: "string list"
  ts_sector :: string
  ts_industry :: string
  ts_volume_min_lots :: "string option"
  ts_volume_max_lots :: "string option"
  ts_volume_step_lots :: "string option"

record mt5_symbol_detail =
  ms_Digits :: "int option"
  ms_ContractSize :: "string option"
  ms_VolumeMin :: "string option"
  ms_VolumeMax :: "string option"
  ms_VolumeStep :: "string option"
  ms_VolumeMinExt :: "string option"
  ms_VolumeMaxExt :: "string option"
  ms_VolumeStepExt :: "string option"
  ms_TickSize :: "string option"
  ms_TickValue :: "string option"
  ms_CurrencyProfit :: "string option"

record tv_quote_dto =
  tq_symbolname :: string
  tq_bid :: string
  tq_ask :: string
  tq_lastprice :: string
  tq_volume :: "string option"
  tq_time :: "int option"

record tv_position_dto =
  tp_Id :: string
  tp_profit :: string
  tp_qty :: string
  tp_side :: int
  tp_symbol :: string
  tp_last :: string
  tp_price :: string
  tp_timeCreate :: "int option"
  tp_priceSL :: "string option"
  tp_priceTP :: "string option"
  tp_qtyLots :: "string option"
  tp_swap :: "string option"
  tp_commission :: "string option"

record tv_order_dto =
  to_id :: string
  to_symbol :: string
  to_side :: int
  to_type :: int
  to_qty :: string
  to_limitPrice :: string
  to_stopPrice :: string
  to_last :: "string option"
  to_status :: int
  to_stopLoss :: "string option"
  to_takeProfit :: "string option"
  to_filledQty :: "string option"
  to_message :: "string option"
  to_timeSetup :: "int option"
  to_qtyLots :: "string option"
  to_filledQtyLots :: "string option"
  to_expiration :: "int option"

record mt5_account_answer =
  ma_Currency :: "string option"
  ma_Balance :: "string option"
  ma_Credit :: "string option"
  ma_Equity :: "string option"
  ma_Profit :: "string option"
  ma_Margin :: "string option"
  ma_MarginFree :: "string option"
  ma_MarginLevel :: "string option"
  ma_MarginLeverage :: "string option"

text \<open>Both casings of MT5; a pair holds the capitalised field and the other one.\<close>

record mt5_deal_dto =
  md_Deal :: "string option"
  md_deal :: "string option"
  md_Order :: "string option"
  md_order :: "string option"
  md_OrderID :: "string option"
  md_orderId :: "string option"
  md_PositionID :: "string option"
  md_positionID :: "string option"
  md_PositionId :: "string option"
  md_positionId :: "string option"
  md_Position :: "string option"
  md_position :: "string option"
  md_Action :: "int option"
  md_action :: "int option"
  md_Entry :: "int option"
  md_entry :: "int option"
  md_Symbol :: "string option"
  md_symbol :: "string option"
  md_Volume :: "string option"
  md_volume :: "string option"
  md_VolumeExt :: "string option"
  md_volumeExt :: "string option"
  md_Price :: "string option"
  md_price :: "string option"
  md_Profit :: "string option"
  md_profit :: "string option"
  md_Storage :: "string option"
  md_storage :: "string option"
  md_Swap :: "string option"
  md_swap :: "string option"
  md_Commission :: "string option"
  md_commission :: "string option"
  md_Time :: "int option"
  md_time :: "int option"
  md_Comment :: "string option"
  md_comment :: "string option"

text \<open>The history row: its quantities and prices stay numbers; \<open>th_timeDone\<close> tells an absent field
  (\<open>None\<close>) from a null one (\<open>Some None\<close>).\<close>

record tv_order_history_dto =
  th_id :: string
  th_symbol :: string
  th_side :: int
  th_type :: int
  th_qty :: "js_number option"
  th_qtyLots :: "js_number option"
  th_filledQty :: "js_number option"
  th_filledQtyLots :: "js_number option"
  th_limitPrice :: "js_number option"
  th_stopPrice :: "js_number option"
  th_stopLoss :: "js_number option"
  th_takeProfit :: "js_number option"
  th_status :: int
  th_updateTime :: "int option"
  th_timeSetup :: "int option"
  th_timeDone :: "int option option"
  th_message :: "string option"

section \<open>The rights of an account\<close>

definition MT5_RIGHT_TRADE_DISABLED :: "32 word" where
  "MT5_RIGHT_TRADE_DISABLED = 0x04"

definition MT5_RIGHT_INVESTOR :: "32 word" where
  "MT5_RIGHT_INVESTOR = 0x08"

definition MT5_RIGHT_READONLY :: "32 word" where
  "MT5_RIGHT_READONLY = 0x200"

end
