(* ===== verification/Mappers.thy ===== *)
theory Mappers
  imports Wire TradeCodes
begin

text \<open>
  Gateway record to domain model: \<^verbatim>\<open>frontend/src/integrations/gateway/mappers/to-domain.ts\<close>
  (the deals and the history are in the theory \<open>History\<close>). \<open>None\<close> as the outer result of a mapper is an
  exception of the decimal library, which a volume that is no number raises; the clock is an argument.

  Shown: a quote always has a positive bid and ask, and is refused only when it has not; a level of zero
  is never a level; a mapper throws only on a volume the library cannot read; the three flags that forbid
  trading are each enough for a read-only account, and no other bit is.
\<close>

section \<open>Helpers\<close>

text \<open>A text the library printed is one it reads: the two tests do not throw.\<close>

definition positiveDecimal :: "'d decimal_lib \<Rightarrow> js_value \<Rightarrow> string option" where
  "positiveDecimal D value = (case toDecimalString D value of None \<Rightarrow> None
     | Some parsed \<Rightarrow> if isZero D (Some parsed) = Some True \<or> isNegative D parsed = Some True then None else Some parsed)"

text \<open>\<^verbatim>\<open>Number(parsed) === 0\<close>\<close>

definition nullIfZeroString :: "string option \<Rightarrow> string option" where
  "nullIfZeroString value = (case value of None \<Rightarrow> None
     | Some s \<Rightarrow> if js_Number s = Fin 0 then None else Some s)"

fun opt_value :: "string option \<Rightarrow> js_value" where
  "opt_value None = JNull"
| "opt_value (Some s) = JStr s"

definition nullIfZero :: "'d decimal_lib \<Rightarrow> string option \<Rightarrow> string option" where
  "nullIfZero D value = nullIfZeroString (toDecimalString D (opt_value value))"

text \<open>\<^verbatim>\<open>s || null\<close>, and unix seconds to milliseconds where they are positive.\<close>

definition or_null :: "string \<Rightarrow> string option" where
  "or_null s = (if s = '''' then None else Some s)"

definition seconds_ms :: "int option \<Rightarrow> int option" where
  "seconds_ms t = (case t of None \<Rightarrow> None | Some s \<Rightarrow> if s > 0 then Some (s * 1000) else None)"

definition trimmed_comment :: "string option \<Rightarrow> string option" where
  "trimmed_comment m = (case m of None \<Rightarrow> None | Some s \<Rightarrow> or_null (js_trim s))"

section \<open>Symbols\<close>

text \<open>The nearest integer to the logarithm: \<open>10 ^ (e - 1 / 2) \<le> p < 10 ^ (e + 1 / 2)\<close>, squared.\<close>

definition round_log10 :: "int \<Rightarrow> int" where
  "round_log10 p = (let e = mag (of_int p) in if p * p < 10 ^ nat (2 * e + 1) then e else e + 1)"

definition digitsFromPricescale :: "int \<Rightarrow> int" where
  "digitsFromPricescale pricescale = (if pricescale \<le> 1 then 0 else round_log10 pricescale)"

definition stripGroupSuffix :: "string \<Rightarrow> string \<Rightarrow> string" where
  "stripGroupSuffix typ suffix =
     (if typ = '''' \<or> suffix = '''' \<or> \<not> ends_with typ suffix then typ
      else let stem = take (length typ - length suffix) typ in if stem = '''' then typ else stem)"

text \<open>\<^verbatim>\<open>toDecimalString(lots) ?? symbolVolumeToLots(standard, extended)\<close>\<close>

definition volume_limit ::
    "'d decimal_lib \<Rightarrow> string option \<Rightarrow> string option \<Rightarrow> string option \<Rightarrow> string option option" where
  "volume_limit D lots standard extended = (case toDecimalString D (opt_value lots) of Some s \<Rightarrow> Some (Some s)
     | None \<Rightarrow> symbolVolumeToLots D standard extended)"

definition mapTvSymbol ::
    "'d decimal_lib \<Rightarrow> tv_symbol_dto \<Rightarrow> suffix_policy \<Rightarrow> mt5_symbol_detail option \<Rightarrow> trading_symbol option" where
  "mapTvSymbol D dto suffix detail = do {
     let gatewayName = or_str (ts_name dto) (ts_ticker dto);
     let field = (\<lambda>f. case detail of None \<Rightarrow> None | Some m \<Rightarrow> f m);
     volumeMin \<leftarrow> volume_limit D (ts_volume_min_lots dto) (field ms_VolumeMin) (field ms_VolumeMinExt);
     volumeMax \<leftarrow> volume_limit D (ts_volume_max_lots dto) (field ms_VolumeMax) (field ms_VolumeMaxExt);
     volumeStep \<leftarrow> volume_limit D (ts_volume_step_lots dto) (field ms_VolumeStep) (field ms_VolumeStepExt);
     Some \<lparr>sy_name = gatewayName, sy_displayName = toDisplay suffix gatewayName,
       sy_description = ts_description dto, sy_type = stripGroupSuffix (ts_type dto) (sp_suffix suffix),
       sy_exchange = ts_exchange dto,
       sy_digits = or_else (case detail of None \<Rightarrow> None | Some m \<Rightarrow> ms_Digits m) (digitsFromPricescale (ts_pricescale dto)),
       sy_pricescale = ts_pricescale dto, sy_minMove = (if ts_minmov dto = 0 then 1 else ts_minmov dto),
       sy_volumeMin = volumeMin, sy_volumeMax = volumeMax, sy_volumeStep = volumeStep,
       sy_contractSize = toDecimalString D (opt_value (field ms_ContractSize)),
       sy_tickSize = positiveDecimal D (opt_value (field ms_TickSize)),
       sy_tickValue = positiveDecimal D (opt_value (field ms_TickValue)),
       sy_currencyCode = (case field ms_CurrencyProfit of None \<Rightarrow> None | Some c \<Rightarrow> or_null c),
       sy_session = ts_session dto, sy_timezone = ts_timezone dto,
       sy_supportedResolutions = ts_supported_resolutions dto,
       sy_sector = or_null (ts_sector dto), sy_industry = or_null (ts_industry dto)\<rparr> }"

section \<open>Quotes\<close>

definition quote_direction :: "quote option \<Rightarrow> string \<Rightarrow> direction" where
  "quote_direction previous lst = (case previous of None \<Rightarrow> Flat
     | Some q \<Rightarrow> let delta = js_sub (js_Number lst) (js_Number (q_last q)) in
         if js_less (Fin 0) delta then Up else if js_less delta (Fin 0) then Down else q_direction q)"

definition mapTvQuote ::
    "'d decimal_lib \<Rightarrow> tv_quote_dto \<Rightarrow> quote option \<Rightarrow> int \<Rightarrow> string option \<Rightarrow> quote option" where
  "mapTvQuote D dto previous receivedAt requestedSymbol =
     (case (positiveDecimal D (JStr (tq_bid dto)), positiveDecimal D (JStr (tq_ask dto))) of
        (Some bid, Some ask) \<Rightarrow>
          (let lst = toDecimalStringOrZero D (JStr (tq_lastprice dto)) in
           Some \<lparr>q_symbol = or_else requestedSymbol (tq_symbolname dto), q_bid = bid, q_ask = ask, q_last = lst,
             q_volume = toDecimalString D (opt_value (tq_volume dto)), q_receivedAt = receivedAt,
             q_brokerTime = seconds_ms (tq_time dto), q_direction = quote_direction previous lst\<rparr>)
      | _ \<Rightarrow> None)"

section \<open>Accounts\<close>

record account_options =
  ao_name :: "string option"
  ao_server :: "string option"
  ao_currency :: "string option"
  ao_readOnly :: "bool option"
  ao_asOf :: "int option"

definition mapAccountState ::
    "'d decimal_lib \<Rightarrow> string \<Rightarrow> mt5_account_answer \<Rightarrow> account_options \<Rightarrow> int \<Rightarrow> trading_account" where
  "mapAccountState D login dto options now =
     (let marginLevel = toDecimalString D (opt_value (ma_MarginLevel dto)) in
      \<lparr>ta_login = login, ta_name = or_else (ao_name options) login,
       ta_currency = (case ma_Currency dto of Some c \<Rightarrow> Some c | None \<Rightarrow> ao_currency options),
       ta_server = ao_server options,
       ta_balance = toDecimalStringOrZero D (opt_value (ma_Balance dto)),
       ta_credit = toDecimalString D (opt_value (ma_Credit dto)),
       ta_equity = toDecimalStringOrZero D (opt_value (ma_Equity dto)),
       ta_profit = toDecimalStringOrZero D (opt_value (ma_Profit dto)),
       ta_margin = toDecimalStringOrZero D (opt_value (ma_Margin dto)),
       ta_marginFree = toDecimalStringOrZero D (opt_value (ma_MarginFree dto)),
       ta_marginLevel = (case marginLevel of None \<Rightarrow> None
          | Some m \<Rightarrow> if m \<noteq> '''' \<and> js_less (Fin 0) (js_Number m) then Some m else None),
       ta_leverage = toDecimalString D (opt_value (ma_MarginLeverage dto)),
       ta_readOnly = or_else (ao_readOnly options) False, ta_asOf = or_else (ao_asOf options) now\<rparr>)"

text \<open>\<^verbatim>\<open>&\<close> works on the number reduced to 32 bits.\<close>

definition readOnlyFromRights :: "int option \<Rightarrow> bool option" where
  "readOnlyFromRights rights = (case rights of None \<Rightarrow> None
     | Some r \<Rightarrow> Some (and (word_of_int r) (or (or MT5_RIGHT_TRADE_DISABLED MT5_RIGHT_INVESTOR) MT5_RIGHT_READONLY) \<noteq> 0))"

datatype account_funds = FundsDemo | FundsLive | FundsUnknown

fun accountFundsOf :: "js_value \<Rightarrow> account_funds" where
  "accountFundsOf (JStr s) = (let v = js_lower (js_trim s) in
     if v = ''demo'' then FundsDemo else if v = ''live'' then FundsLive else FundsUnknown)"
| "accountFundsOf _ = FundsUnknown"

definition hasBadge :: "account_funds \<Rightarrow> bool" where
  "hasBadge funds = (funds \<noteq> FundsUnknown)"

record account_option =
  ac_login :: string
  ac_name :: string
  ac_kind :: account_funds
  ac_typeId :: "int option"
  ac_server :: "string option"
  ac_currency :: "string option"
  ac_readOnly :: bool
  ac_enabled :: bool
  ac_suffix :: "string option"

definition mapCrmAccount :: "crm_account_dto \<Rightarrow> account_option" where
  "mapCrmAccount dto =
     (let label = (case ca_type dto of None \<Rightarrow> ''Account''
          | Some t \<Rightarrow> or_str (or_else (ct_description t) '''') (or_str (or_else (ct_title t) '''') ''Account'')) in
      \<lparr>ac_login = ca_login dto, ac_name = label @ '' '' @ ca_login dto, ac_kind = FundsUnknown,
       ac_typeId = map_option ct_id (ca_type dto),
       ac_server = (case ca_type dto of None \<Rightarrow> None | Some t \<Rightarrow> ct_server t),
       ac_currency = ca_currency dto, ac_readOnly = (ca_isReadOnly dto = Some True),
       ac_enabled = (ca_isEnabled dto \<noteq> Some False), ac_suffix = None\<rparr>)"

section \<open>Positions and orders\<close>

text \<open>\<^verbatim>\<open>qtyLots !== null ? toDecimalStringOrZero(qtyLots) : mt5VolumeToLots(qty)\<close>\<close>

definition lots_of :: "'d decimal_lib \<Rightarrow> string option \<Rightarrow> string \<Rightarrow> string option" where
  "lots_of D qtyLots qty = (case qtyLots of Some l \<Rightarrow> Some (toDecimalStringOrZero D (JStr l))
     | None \<Rightarrow> mt5VolumeToLots D (JStr qty))"

definition mapTvPosition ::
    "'d decimal_lib \<Rightarrow> tv_position_dto \<Rightarrow> suffix_policy \<Rightarrow> position option option" where
  "mapTvPosition D dto suffix =
     (case toIdString (JStr (tp_Id dto)) of None \<Rightarrow> Some None
      | Some i \<Rightarrow> if js_trim (tp_symbol dto) = '''' then Some None
        else do {
          volume \<leftarrow> lots_of D (tp_qtyLots dto) (tp_qty dto);
          Some (Some \<lparr>p_id = i, p_symbol = tp_symbol dto, p_displaySymbol = toDisplay suffix (tp_symbol dto),
            p_side = sideFromTvSide (tp_side dto), p_volume = volume,
            p_openPrice = toDecimalStringOrZero D (JStr (tp_price dto)),
            p_currentPrice = toDecimalString D (JStr (tp_last dto)),
            p_stopLoss = nullIfZero D (tp_priceSL dto), p_takeProfit = nullIfZero D (tp_priceTP dto),
            p_profit = toDecimalString D (JStr (tp_profit dto)),
            p_swap = toDecimalString D (opt_value (tp_swap dto)),
            p_commission = toDecimalString D (opt_value (tp_commission dto)),
            p_openTime = seconds_ms (tp_timeCreate dto), p_comment = None\<rparr>) })"

definition filled_lots :: "'d decimal_lib \<Rightarrow> tv_order_dto \<Rightarrow> string option option" where
  "filled_lots D dto = (case to_filledQtyLots dto of Some l \<Rightarrow> Some (toDecimalString D (JStr l))
     | None \<Rightarrow> (case to_filledQty dto of None \<Rightarrow> Some None
        | Some q \<Rightarrow> map_option Some (mt5VolumeToLots D (JStr q))))"

definition mapTvOrder :: "'d decimal_lib \<Rightarrow> tv_order_dto \<Rightarrow> suffix_policy \<Rightarrow> trading_order option option" where
  "mapTvOrder D dto suffix =
     (case toIdString (JStr (to_id dto)) of None \<Rightarrow> Some None
      | Some i \<Rightarrow> if js_trim (to_symbol dto) = '''' then Some None
        else do {
          let kind = kindFromTvType (to_type dto);
          let price = toDecimalString D (JStr (if kind = Stop then to_stopPrice dto else to_limitPrice dto));
          filledLots \<leftarrow> filled_lots D dto;
          volume \<leftarrow> lots_of D (to_qtyLots dto) (to_qty dto);
          Some (Some \<lparr>o_id = i, o_symbol = to_symbol dto, o_displaySymbol = toDisplay suffix (to_symbol dto),
            o_side = sideFromTvSide (to_side dto), o_kind = kind, o_status = statusFromTvStatus (to_status dto),
            o_volume = volume, o_filledVolume = filledLots, o_price = nullIfZeroString price,
            o_currentPrice = nullIfZero D (to_last dto), o_stopLoss = nullIfZero D (to_stopLoss dto),
            o_takeProfit = nullIfZero D (to_takeProfit dto), o_expiration = seconds_ms (to_expiration dto),
            o_createdAt = seconds_ms (to_timeSetup dto), o_comment = trimmed_comment (to_message dto)\<rparr>) })"

section \<open>Lemmas\<close>

context decimal_js
begin

lemma toDecimalString_text:
  "s \<noteq> '''' \<Longrightarrow> toDecimalString D (JStr s) = (if is_dec D s then Some (decimalStringOf D (dnum D s)) else None)"
  by (auto simp: toDecimalString.simps is_dec_def dnum_def decimalStringOf_def split: option.splits)

lemma positiveDecimal_text:
  assumes "s \<noteq> ''''"
  shows "positiveDecimal D (JStr s) = (if is_dec D s \<and> 0 < dval D val s then Some (decimalStringOf D (dnum D s)) else None)"
proof (cases "is_dec D s")
  case True
  define f where "f = decimalStringOf D (dnum D s)"
  have f: "is_dec D f" "dval D val f = dval D val s" using True by (simp_all add: f_def)
  have "isZero D (Some f) = Some (dval D val s = 0)" using f by (simp add: isZero_def zero_val)
  moreover have "isNegative D f = Some (dval D val s < 0)"
    using f neg_val [of "dnum D f"] zero_val [of "dnum D f"] by (auto simp: isNegative_def)
  ultimately show ?thesis
    using True assms by (auto simp: positiveDecimal_def toDecimalString_text f_def [symmetric])
qed (simp add: positiveDecimal_def toDecimalString_text assms)

lemma positiveDecimal_empty [simp]: "positiveDecimal D (JStr '''') = None"
  by (simp add: positiveDecimal_def toDecimalString.simps)

lemma mt5VolumeToLots_text: "mt5VolumeToLots D (JStr s) = None \<longleftrightarrow> d_parse D s = None"
  by (simp add: mt5VolumeToLots_def dec_def split: bind_splits)

lemma lots_of_None: "lots_of D l q = None \<longleftrightarrow> l = None \<and> d_parse D q = None"
  by (simp add: lots_of_def mt5VolumeToLots_text split: option.splits)

end

lemma stripGroupSuffix_nonempty: "stripGroupSuffix t s = '''' \<Longrightarrow> t = ''''"
  by (auto simp: stripGroupSuffix_def Let_def split: if_splits)

text \<open>The bits of a small mask.\<close>

lemma readOnlyFromRights_bits:
  "readOnlyFromRights (Some r) = Some (bit r 2 \<or> bit r 3 \<or> bit r 9)"
proof -
  define w where "w = (word_of_int r :: 32 word)"
  have b: "bit w n = bit r n" if "n < 32" for n
    using that by (simp add: w_def bit_word_of_int_iff)
  have m: "or (or MT5_RIGHT_TRADE_DISABLED MT5_RIGHT_INVESTOR) MT5_RIGHT_READONLY = (0x20C :: 32 word)"
    by (simp add: MT5_RIGHT_TRADE_DISABLED_def MT5_RIGHT_INVESTOR_def MT5_RIGHT_READONLY_def)
  have "\<forall>n \<in> set [0..<32]. bit (0x20C :: 32 word) n \<longleftrightarrow> n = 2 \<or> n = 3 \<or> n = 9" by code_simp
  then have "bit (0x20C :: 32 word) n \<longleftrightarrow> n = 2 \<or> n = 3 \<or> n = 9" if "n < 32" for n using that by simp
  moreover have "and w 0x20C \<noteq> 0 \<longleftrightarrow> (\<exists>n < 32. bit w n \<and> bit (0x20C :: 32 word) n)"
    by (auto simp: bit_eq_iff bit_and_iff dest: bit_imp_le_length)
  ultimately have "and w 0x20C \<noteq> 0 \<longleftrightarrow> (\<exists>n < 32. bit w n \<and> (n = 2 \<or> n = 3 \<or> n = 9))" by blast
  then have "and w 0x20C \<noteq> 0 \<longleftrightarrow> bit w 2 \<or> bit w 3 \<or> bit w 9"
    by (simp add: conj_disj_distribL ex_disj_distrib)
  then show ?thesis
    using b [of 2] b [of 3] b [of 9] m by (simp add: readOnlyFromRights_def w_def)
qed

lemma mag_pow10: "mag (of_int (10 ^ d)) = int d"
proof -
  have "(10::rat) powi mag (10 ^ d) \<le> 10 powi int d \<and> (10::rat) powi int d < 10 powi (mag (10 ^ d) + 1)"
    using mag_bounds [of "10 ^ d"] unfolding ten_powi_nat by simp
  then have "mag (10 ^ d) \<le> int d" "int d < mag (10 ^ d) + 1"
    unfolding ten_powi_less_iff linorder_not_less [symmetric] by simp_all
  then show ?thesis by simp
qed

text \<open>The decimals of a price survive the pricescale.\<close>

lemma digits_pricescale: "0 < d \<Longrightarrow> digitsFromPricescale (10 ^ d) = int d"
proof -
  assume d: "0 < d"
  have "(10::int) ^ d * 10 ^ d < 10 ^ nat (2 * int d + 1)"
    by (simp add: power_add [symmetric] mult_2 [symmetric] nat_add_distrib nat_mult_distrib)
  moreover have "(1::int) < 10 ^ d" using d by (simp add: one_less_power)
  ultimately show ?thesis using mag_pow10 [of d] by (simp add: digitsFromPricescale_def round_log10_def)
qed

section \<open>Properties\<close>

text \<open>A tick becomes a quote exactly when its bid and its ask are both positive prices: no quote of a
  price of zero exists for a ticket to trade on. The quote carries those two prices, under the name that was
  asked for.\<close>

theorem quote_needs_prices:
  assumes "decimal_js D val"
  shows "case mapTvQuote D dto previous now requested of
       None \<Rightarrow> \<not> (\<forall>p \<in> {tq_bid dto, tq_ask dto}. p \<noteq> '''' \<and> is_dec D p \<and> 0 < dval D val p)
     | Some q \<Rightarrow> (\<forall>p \<in> {tq_bid dto, tq_ask dto}. p \<noteq> '''' \<and> is_dec D p \<and> 0 < dval D val p) \<and>
         denotes D val (q_bid q) (dval D val (tq_bid dto)) \<and> denotes D val (q_ask q) (dval D val (tq_ask dto)) \<and>
         q_symbol q = or_else requested (tq_symbolname dto)"
proof -
  have P: "positiveDecimal D (JStr t) = (if t \<noteq> '''' \<and> is_dec D t \<and> 0 < dval D val t
      then Some (decimalStringOf D (dnum D t)) else None)" for t
    using decimal_js.positiveDecimal_text [OF assms, of t] decimal_js.positiveDecimal_empty [OF assms]
    by (cases "t = ''''") simp_all
  have "denotes D val (decimalStringOf D (dnum D t)) (dval D val t)" if "is_dec D t" for t
    using decimal_js.denotes_fixed [OF assms decimal_js.finite_dnum [OF assms that]] by (simp add: dval_def)
  then show ?thesis by (simp add: mapTvQuote_def P Let_def) blast
qed

definition sample_tick :: "string \<Rightarrow> tv_quote_dto" where
  "sample_tick ask = \<lparr>tq_symbolname = ''EURUSD!'', tq_bid = ''1.1'', tq_ask = ask, tq_lastprice = ''1.1'',
     tq_volume = None, tq_time = None\<rparr>"

theorem quote_needs_prices_witness:
  "mapTvQuote ref_lib (sample_tick ''0'') None 0 (Some ''EURUSD'') = None \<and>
   (\<exists>q. mapTvQuote ref_lib (sample_tick ''1.2'') None 0 (Some ''EURUSD'') = Some q \<and>
      denotes ref_lib ref_val (q_ask q) (dval ref_lib ref_val ''1.2'') \<and> q_symbol q = ''EURUSD'')"
proof -
  have "is_dec ref_lib ''1.1'' \<and> dval ref_lib ref_val ''1.1'' = 11 / 10"
    "is_dec ref_lib ''1.2'' \<and> dval ref_lib ref_val ''1.2'' = 12 / 10"
    "is_dec ref_lib ''0'' \<and> dval ref_lib ref_val ''0'' = 0"
    by code_simp+
  then show ?thesis
    using quote_needs_prices [OF ref_laws, where dto = "sample_tick ''0''" and previous = None and now = 0
        and requested = "Some ''EURUSD''"]
      quote_needs_prices [OF ref_laws, where dto = "sample_tick ''1.2''" and previous = None and now = 0
        and requested = "Some ''EURUSD''"]
    by (auto simp: sample_tick_def split: option.splits)
qed

text \<open>An account is read-only exactly when one of the three flags that forbid trading is set; the other
  bits of the mask, the right to change the password among them, say nothing.\<close>

theorem rights_forbid_trading:
  "readOnlyFromRights (Some r) = Some (bit r 2 \<or> bit r 3 \<or> bit r 9) \<and> readOnlyFromRights None = None"
  by (simp add: readOnlyFromRights_bits) (simp add: readOnlyFromRights_def)

text \<open>A position row is lost to an exception exactly when it carries no lots of its own and its MT5
  volume is no number.\<close>

theorem position_row_throws_iff:
  assumes "decimal_js D val"
  shows "mapTvPosition D dto p = None \<longleftrightarrow> js_trim (tp_Id dto) \<noteq> '''' \<and> js_trim (tp_symbol dto) \<noteq> '''' \<and>
    tp_qtyLots dto = None \<and> d_parse D (tp_qty dto) = None"
  using decimal_js.lots_of_None [OF assms, of "tp_qtyLots dto" "tp_qty dto"]
  by (auto simp: mapTvPosition_def Let_def split: option.splits if_splits bind_splits)

end
