(* ===== verification/History.thy ===== *)
theory History
  imports Mappers
begin

text \<open>
  Deals, the order history and the closed positions
  (\<^verbatim>\<open>frontend/src/integrations/gateway/mappers/to-domain.ts\<close>), and the page walks that fetch
  them (\<^verbatim>\<open>deals\<close> and \<^verbatim>\<open>orderHistory\<close> of
  \<^verbatim>\<open>frontend/src/integrations/gateway/api/trading-api.ts\<close>). \<open>None\<close> is an exception of the
  decimal library.

  Shown: the pairing refines its plain description, in which an exit belongs to the last entry of its position
  before it; on mapped deals it never throws; the entry charges billed to the exits of a leg add up to what the
  entry cost, up to the rounding at 28 digits of each step; a page walk returns the rows of every page asked for,
  in order, and says so when it stopped at its cap.
\<close>

section \<open>The records\<close>

datatype deal_kind = DealTrade | DealBalance | DealCredit | DealCommission | DealOther

record deal =
  dl_id :: string
  dl_positionId :: "string option"
  dl_orderId :: "string option"
  dl_kind :: deal_kind
  dl_entry :: "int option"
  dl_symbol :: "string option"
  dl_displaySymbol :: "string option"
  dl_side :: "side option"
  dl_volume :: "decimal_string option"
  dl_price :: "decimal_string option"
  dl_profit :: "decimal_string option"
  dl_swap :: "decimal_string option"
  dl_commission :: "decimal_string option"
  dl_time :: "int option"
  dl_comment :: "string option"

datatype historical_kind = HMarket | HLimit | HStop | HStopLimit | HUnknown

record historical_order =
  ho_id :: string
  ho_symbol :: string
  ho_displaySymbol :: string
  ho_side :: side
  ho_kind :: historical_kind
  ho_volumeLots :: "decimal_string option"
  ho_filledLots :: "decimal_string option"
  ho_price :: "decimal_string option"
  ho_stopLoss :: "decimal_string option"
  ho_takeProfit :: "decimal_string option"
  ho_status :: order_status
  ho_updateTime :: "int option"
  ho_setupTime :: "int option"
  ho_comment :: "string option"

record closed_position =
  cl_id :: string
  cl_symbol :: string
  cl_displaySymbol :: string
  cl_side :: side
  cl_volume :: decimal_string
  cl_openPrice :: "decimal_string option"
  cl_closePrice :: "decimal_string option"
  cl_openTime :: "int option"
  cl_closeTime :: "int option"
  cl_profit :: "decimal_string option"
  cl_swap :: "decimal_string option"
  cl_commission :: "decimal_string option"
  cl_openedBeforeRange :: bool

section \<open>Deals\<close>

text \<open>\<^verbatim>\<open>pick\<close>: the first value that is there; an empty text counts as absent.\<close>

fun pick :: "'a option list \<Rightarrow> 'a option" where
  "pick [] = None"
| "pick (None # vs) = pick vs"
| "pick (Some v # vs) = Some v"

fun pick_text :: "string option list \<Rightarrow> string option" where
  "pick_text [] = None"
| "pick_text (None # vs) = pick_text vs"
| "pick_text (Some v # vs) = (if v = '''' then pick_text vs else Some v)"

definition dealKindFromAction :: "int option \<Rightarrow> deal_kind" where
  "dealKindFromAction action = (case action of None \<Rightarrow> DealOther
     | Some a \<Rightarrow> if a = 0 \<or> a = 1 then DealTrade else if a = 2 then DealBalance else if a = 3 then DealCredit
         else if a = 4 \<or> a = 5 \<or> a = 6 then DealCommission else DealOther)"

definition pick_id :: "string option list \<Rightarrow> string option" where
  "pick_id vs = toIdString (opt_value (pick_text vs))"

definition mapDeal :: "'d decimal_lib \<Rightarrow> mt5_deal_dto \<Rightarrow> suffix_policy \<Rightarrow> deal option option" where
  "mapDeal D dto suffix =
     (case pick_id [md_Deal dto, md_deal dto] of None \<Rightarrow> Some None
      | Some i \<Rightarrow>
        let action = pick [md_Action dto, md_action dto];
            symbol = pick_text [md_Symbol dto, md_symbol dto];
            kind = dealKindFromAction action;
            orderRaw = pick_id [md_Order dto, md_order dto, md_OrderID dto, md_orderId dto]
        in do {
          volume \<leftarrow> (case pick_text [md_Volume dto, md_volume dto, md_VolumeExt dto, md_volumeExt dto] of
              None \<Rightarrow> Some None
            | Some units \<Rightarrow> map_option (\<lambda>v. nullIfZeroString (Some v)) (mt5VolumeToLots D (JStr units)));
          Some (Some \<lparr>dl_id = i,
            dl_positionId = pick_id [md_PositionID dto, md_positionID dto, md_PositionId dto, md_positionId dto,
              md_Position dto, md_position dto],
            dl_orderId = (if orderRaw = Some ''0'' then None else orderRaw),
            dl_kind = kind, dl_entry = pick [md_Entry dto, md_entry dto], dl_symbol = symbol,
            dl_displaySymbol = map_option (toDisplay suffix) symbol,
            dl_side = (if kind = DealTrade then map_option (\<lambda>a. if a = 0 then Buy else Sell) action else None),
            dl_volume = volume,
            dl_price = nullIfZero D (pick_text [md_Price dto, md_price dto]),
            dl_profit = toDecimalString D (opt_value (pick_text [md_Profit dto, md_profit dto])),
            dl_swap = toDecimalString D (opt_value (pick_text [md_Storage dto, md_storage dto, md_Swap dto, md_swap dto])),
            dl_commission = toDecimalString D (opt_value (pick_text [md_Commission dto, md_commission dto])),
            dl_time = seconds_ms (pick [md_Time dto, md_time dto]),
            dl_comment = trimmed_comment (pick_text [md_Comment dto, md_comment dto])\<rparr>) })"

section \<open>The order history\<close>

definition positive_number :: "js_number option \<Rightarrow> js_number option" where
  "positive_number v = (case v of None \<Rightarrow> None | Some n \<Rightarrow> if js_less (Fin 0) n then Some n else None)"

definition history_lots :: "'d decimal_lib \<Rightarrow> js_number option \<Rightarrow> js_number option \<Rightarrow> string option" where
  "history_lots D lots tenThousandths = (case positive_number lots of Some n \<Rightarrow> toDecimalString D (JNum n)
     | None \<Rightarrow> (case positive_number tenThousandths of
         Some n \<Rightarrow> toDecimalString D (JNum (js_div n (js_int 10000))) | None \<Rightarrow> None))"

definition history_price :: "'d decimal_lib \<Rightarrow> js_number option \<Rightarrow> string option" where
  "history_price D v = (case positive_number v of Some n \<Rightarrow> toDecimalString D (JNum n) | None \<Rightarrow> None)"

definition tvOrderKind :: "int \<Rightarrow> historical_kind" where
  "tvOrderKind t = (if t = 1 then HLimit else if t = 2 then HMarket else if t = 3 then HStop
     else if t = 4 then HStopLimit else HUnknown)"

definition tvOrderHistoryStatus :: "int \<Rightarrow> order_status" where
  "tvOrderHistoryStatus s = (if s = 1 then Canceled else if s = 2 then Filled else if s = 3 then Expired
     else if s = 4 then Placing else if s = 5 then OrderRejected else if s = 6 then Working else StatusUnknown)"

definition mapTvOrderHistory ::
    "'d decimal_lib \<Rightarrow> tv_order_history_dto \<Rightarrow> suffix_policy \<Rightarrow> historical_order option" where
  "mapTvOrderHistory D dto suffix =
     (if th_id dto = '''' \<or> th_symbol dto = '''' then None
      else Some \<lparr>ho_id = th_id dto, ho_symbol = th_symbol dto, ho_displaySymbol = toDisplay suffix (th_symbol dto),
        ho_side = (if th_side dto = -1 then Sell else Buy), ho_kind = tvOrderKind (th_type dto),
        ho_volumeLots = history_lots D (th_qtyLots dto) (th_qty dto),
        ho_filledLots = history_lots D (th_filledQtyLots dto) (th_filledQty dto),
        ho_price = (case history_price D (th_limitPrice dto) of Some p \<Rightarrow> Some p
           | None \<Rightarrow> history_price D (th_stopPrice dto)),
        ho_stopLoss = history_price D (th_stopLoss dto), ho_takeProfit = history_price D (th_takeProfit dto),
        ho_status = tvOrderHistoryStatus (th_status dto),
        ho_updateTime = (case th_timeDone dto of None \<Rightarrow> seconds_ms (th_updateTime dto) | Some t \<Rightarrow> seconds_ms t),
        ho_setupTime = seconds_ms (th_timeSetup dto), ho_comment = trimmed_comment (th_message dto)\<rparr>)"

section \<open>Closed positions\<close>

definition DEAL_ENTRY_IN :: int where "DEAL_ENTRY_IN = 0"
definition DEAL_ENTRY_INOUT :: int where "DEAL_ENTRY_INOUT = 2"

record open_leg =
  ol_deal :: deal
  ol_remainingVolume :: decimal_string
  ol_remainingCommission :: decimal_string
  ol_remainingSwap :: decimal_string

definition openLegOf :: "deal \<Rightarrow> open_leg" where
  "openLegOf d = \<lparr>ol_deal = d, ol_remainingVolume = or_else (dl_volume d) ZERO,
     ol_remainingCommission = or_else (dl_commission d) ZERO, ol_remainingSwap = or_else (dl_swap d) ZERO\<rparr>"

record entry_charges =
  ec_commission :: decimal_string
  ec_swap :: decimal_string

definition NO_CHARGES :: entry_charges where
  "NO_CHARGES = \<lparr>ec_commission = ZERO, ec_swap = ZERO\<rparr>"

definition closing_share :: "'d decimal_lib \<Rightarrow> decimal_string \<Rightarrow> decimal_string \<Rightarrow> decimal_string option option" where
  "closing_share D remaining closedVolume = do {
     a \<leftarrow> cmp D remaining ZERO;
     if a > 0 then do { b \<leftarrow> cmp D closedVolume remaining;
       if b < 0 then div_dec D closedVolume remaining else Some None }
     else Some None }"

text \<open>The leg is updated in place; the model returns it beside the charges.\<close>

definition chargeEntry :: "'d decimal_lib \<Rightarrow> open_leg \<Rightarrow> decimal_string \<Rightarrow> (entry_charges \<times> open_leg) option" where
  "chargeEntry D leg closedVolume = do {
     share \<leftarrow> closing_share D (ol_remainingVolume leg) closedVolume;
     case share of
       None \<Rightarrow> Some (\<lparr>ec_commission = ol_remainingCommission leg, ec_swap = ol_remainingSwap leg\<rparr>,
         leg\<lparr>ol_remainingCommission := ZERO, ol_remainingSwap := ZERO, ol_remainingVolume := ZERO\<rparr>)
     | Some s \<Rightarrow> do {
         commission \<leftarrow> mul D (ol_remainingCommission leg) s;
         swap \<leftarrow> mul D (ol_remainingSwap leg) s;
         rc \<leftarrow> sub D (ol_remainingCommission leg) commission;
         rs \<leftarrow> sub D (ol_remainingSwap leg) swap;
         rv \<leftarrow> sub D (ol_remainingVolume leg) closedVolume;
         Some (\<lparr>ec_commission = commission, ec_swap = swap\<rparr>,
           leg\<lparr>ol_remainingCommission := rc, ol_remainingSwap := rs, ol_remainingVolume := rv\<rparr>) } }"

definition sumCharges :: "'d decimal_lib \<Rightarrow> decimal_string option \<Rightarrow> decimal_string \<Rightarrow> decimal_string option option" where
  "sumCharges D closing entry = (case closing of
     None \<Rightarrow> do { z \<leftarrow> isZero D (Some entry); if z then Some None else map_option Some (add D ZERO entry) }
   | Some c \<Rightarrow> map_option Some (add D c entry))"

text \<open>The row of one closing deal, given the opening deal and the charges of the entry.\<close>

definition closed_row :: "string \<Rightarrow> deal \<Rightarrow> deal option \<Rightarrow> string \<Rightarrow> closed_position" where
  "closed_row positionId d opening symbol =
     (let op = (\<lambda>f. case opening of None \<Rightarrow> None | Some e \<Rightarrow> f e) in
      \<lparr>cl_id = positionId, cl_symbol = symbol,
       cl_displaySymbol = or_else (dl_displaySymbol d) (or_else (op dl_displaySymbol) symbol),
       cl_side = or_else (case opening of None \<Rightarrow> None | Some e \<Rightarrow> dl_side e)
          (if dl_side d = Some Buy then Sell else Buy),
       cl_volume = or_else (dl_volume d) (or_else (op dl_volume) ZERO),
       cl_openPrice = op dl_price, cl_closePrice = dl_price d,
       cl_openTime = (case opening of None \<Rightarrow> None | Some e \<Rightarrow> dl_time e), cl_closeTime = dl_time d,
       cl_profit = dl_profit d, cl_swap = None, cl_commission = None,
       cl_openedBeforeRange = (opening = None)\<rparr>)"

type_synonym pairing = "(string \<rightharpoonup> open_leg) \<times> closed_position list"

definition row_symbol :: "deal \<Rightarrow> deal option \<Rightarrow> string option" where
  "row_symbol d opening = (case dl_symbol d of Some s \<Rightarrow> Some s
     | None \<Rightarrow> (case opening of None \<Rightarrow> None | Some e \<Rightarrow> dl_symbol e))"

text \<open>The body of the loop for a deal that closes volume: the charges, then the row.\<close>

definition close_row :: "'d decimal_lib \<Rightarrow> string \<Rightarrow> deal \<Rightarrow> pairing \<Rightarrow> pairing option" where
  "close_row D positionId d st =
     (case st of (currentEntry, rows) \<Rightarrow>
      let leg = currentEntry positionId; opening = map_option ol_deal leg in
      case row_symbol d opening of
        None \<Rightarrow> Some st
      | Some symbol \<Rightarrow> if symbol = '''' then Some st else do {
          let row = closed_row positionId d opening symbol;
          (charges, entries) \<leftarrow> (case leg of None \<Rightarrow> Some (NO_CHARGES, currentEntry)
             | Some l \<Rightarrow> map_option (\<lambda>(c, l'). (c, currentEntry(positionId \<mapsto> l'))) (chargeEntry D l (cl_volume row)));
          swap \<leftarrow> sumCharges D (dl_swap d) (ec_swap charges);
          commission \<leftarrow> sumCharges D (dl_commission d) (ec_commission charges);
          Some (entries, rows @ [row\<lparr>cl_swap := swap, cl_commission := commission\<rparr>]) })"

definition pair_deal :: "'d decimal_lib \<Rightarrow> deal \<Rightarrow> pairing \<Rightarrow> pairing option" where
  "pair_deal D d st =
     (case dl_positionId d of None \<Rightarrow> Some st
      | Some positionId \<Rightarrow>
        if dl_entry d = Some DEAL_ENTRY_IN then Some ((fst st)(positionId \<mapsto> openLegOf d), snd st)
        else do {
          (entries, rows) \<leftarrow> close_row D positionId d st;
          Some (if dl_entry d = Some DEAL_ENTRY_INOUT then entries(positionId \<mapsto> openLegOf d) else entries, rows) })"

fun pair_all :: "'d decimal_lib \<Rightarrow> deal list \<Rightarrow> pairing \<Rightarrow> pairing option" where
  "pair_all D [] st = Some st"
| "pair_all D (d # ds) st = do { st' \<leftarrow> pair_deal D d st; pair_all D ds st' }"

text \<open>\<^verbatim>\<open>sort\<close> is stable.\<close>

definition paired_trades :: "deal list \<Rightarrow> deal list" where
  "paired_trades deals = sort_key (\<lambda>d. or_else (dl_time d) 0)
     (filter (\<lambda>d. dl_kind d = DealTrade \<and> dl_positionId d \<noteq> None) deals)"

definition pairDealsIntoClosedPositions :: "'d decimal_lib \<Rightarrow> deal list \<Rightarrow> closed_position list option" where
  "pairDealsIntoClosedPositions D deals = do {
     (entries, rows) \<leftarrow> pair_all D (paired_trades deals) (Map.empty, []);
     Some (sort_key (\<lambda>c. - or_else (cl_closeTime c) 0) rows) }"

definition ledgerEntries :: "deal list \<Rightarrow> deal list" where
  "ledgerEntries deals = sort_key (\<lambda>d. - or_else (dl_time d) 0) (filter (\<lambda>d. dl_kind d \<noteq> DealTrade) deals)"

section \<open>The page walks\<close>

text \<open>
  \<open>fetch\<close> answers the request for one page; \<open>conv\<close> is the mapper, with its exception and the
  row it leaves out. The second argument counts the pages still allowed.
\<close>

fun take_rows :: "('r \<Rightarrow> 'e + 'a option) \<Rightarrow> 'r list \<Rightarrow> 'a list \<Rightarrow> 'e + 'a list" where
  "take_rows conv [] acc = Inr acc"
| "take_rows conv (r # rs) acc = (case conv r of Inl e \<Rightarrow> Inl e
     | Inr None \<Rightarrow> take_rows conv rs acc | Inr (Some a) \<Rightarrow> take_rows conv rs (acc @ [a]))"

fun walk_pages ::
    "(nat \<Rightarrow> 'e + 'r list) \<Rightarrow> ('r \<Rightarrow> 'e + 'a option) \<Rightarrow> nat \<Rightarrow> nat \<Rightarrow> nat \<Rightarrow> 'a list \<Rightarrow> 'e + ('a list \<times> bool)" where
  "walk_pages fetch conv pageSize 0 page acc = Inr (acc, False)"
| "walk_pages fetch conv pageSize (Suc left) page acc =
     (case fetch page of Inl e \<Rightarrow> Inl e
      | Inr rows \<Rightarrow> (case take_rows conv rows acc of Inl e \<Rightarrow> Inl e
         | Inr acc' \<Rightarrow>
             if length rows < pageSize then Inr (acc', False)
             else if left = 0 then Inr (acc', True)
             else walk_pages fetch conv pageSize left (Suc page) acc'))"

record time_range =
  tr_fromSeconds :: int
  tr_toSeconds :: int

definition deals_query :: "string \<Rightarrow> time_range \<Rightarrow> nat \<Rightarrow> nat \<Rightarrow> (string \<times> string) list" where
  "deals_query login period pageSize page = [(''login'', login), (''from'', show_int (tr_fromSeconds period)),
     (''to'', show_int (tr_toSeconds period)), (''offset'', show_int (int (page * pageSize))),
     (''index'', show_int (int pageSize)), (''total'', show_int (int pageSize))]"

definition history_query :: "string \<Rightarrow> time_range \<Rightarrow> nat \<Rightarrow> nat \<Rightarrow> (string \<times> string) list" where
  "history_query login period pageSize page = [(''login'', login), (''from'', show_int (tr_fromSeconds period)),
     (''to'', show_int (tr_toSeconds period)), (''offset'', show_int (int (page * pageSize))),
     (''total'', show_int (int pageSize)), (''source'', ''tv'')]"

text \<open>\<open>send\<close> is the HTTP client with the answer's schema applied; \<open>thrown\<close> is the exception of the
  decimal library.\<close>

definition fetch_deals ::
    "'d decimal_lib \<Rightarrow> ((string \<times> string) list \<Rightarrow> 'e + mt5_deal_dto list) \<Rightarrow> 'e \<Rightarrow> string \<Rightarrow> time_range \<Rightarrow> suffix_policy \<Rightarrow>
     nat option \<Rightarrow> nat option \<Rightarrow> 'e + (deal list \<times> bool)" where
  "fetch_deals D send thrown login period suffix pageSize maxPages =
     (let ps = or_else pageSize 500 in
      walk_pages (\<lambda>page. send (deals_query login period ps page))
        (\<lambda>dto. case mapDeal D dto suffix of None \<Rightarrow> Inl thrown | Some r \<Rightarrow> Inr r) ps (or_else maxPages 20) 0 [])"

definition newestFirst :: "historical_order list \<Rightarrow> historical_order list" where
  "newestFirst orders = sort_key (\<lambda>h. - or_else (ho_updateTime h) (or_else (ho_setupTime h) 0)) orders"

definition orderHistory ::
    "'d decimal_lib \<Rightarrow> ((string \<times> string) list \<Rightarrow> 'e + tv_order_history_dto list) \<Rightarrow> string \<Rightarrow> time_range \<Rightarrow> suffix_policy \<Rightarrow>
     nat option \<Rightarrow> nat option \<Rightarrow> 'e + (historical_order list \<times> bool)" where
  "orderHistory D send login period suffix pageSize maxPages =
     (let ps = or_else pageSize 500 in
      map_sum id (\<lambda>(rows, truncated). (newestFirst rows, truncated))
        (walk_pages (\<lambda>page. send (history_query login period ps page))
          (\<lambda>dto. Inr (mapTvOrderHistory D dto suffix)) ps (or_else maxPages 20) 0 []))"

text \<open>The reads of one page: \<^verbatim>\<open>positions\<close>, \<^verbatim>\<open>orders\<close>, the state of the account and its rights.\<close>

definition page_query :: "string \<Rightarrow> nat option \<Rightarrow> nat option \<Rightarrow> (string \<times> string) list" where
  "page_query login start count = [(''login'', login), (''offset'', show_int (int (or_else start 0))),
     (''total'', show_int (int (or_else count 1000))), (''source'', ''tv'')]"

definition fetch_positions ::
    "'d decimal_lib \<Rightarrow> ((string \<times> string) list \<Rightarrow> 'e + tv_position_dto list) \<Rightarrow> 'e \<Rightarrow> string \<Rightarrow> suffix_policy \<Rightarrow>
     nat option \<Rightarrow> nat option \<Rightarrow> 'e + position list" where
  "fetch_positions D send thrown login suffix start count = (case send (page_query login start count) of Inl e \<Rightarrow> Inl e
     | Inr dtos \<Rightarrow> take_rows (\<lambda>dto. case mapTvPosition D dto suffix of None \<Rightarrow> Inl thrown | Some r \<Rightarrow> Inr r) dtos [])"

definition fetch_orders ::
    "'d decimal_lib \<Rightarrow> ((string \<times> string) list \<Rightarrow> 'e + tv_order_dto list) \<Rightarrow> 'e \<Rightarrow> string \<Rightarrow> suffix_policy \<Rightarrow>
     nat option \<Rightarrow> nat option \<Rightarrow> 'e + trading_order list" where
  "fetch_orders D send thrown login suffix start count = (case send (page_query login start count) of Inl e \<Rightarrow> Inl e
     | Inr dtos \<Rightarrow> take_rows (\<lambda>dto. case mapTvOrder D dto suffix of None \<Rightarrow> Inl thrown | Some r \<Rightarrow> Inr r) dtos [])"

definition accountState ::
    "'d decimal_lib \<Rightarrow> ((string \<times> string) list \<Rightarrow> 'e + (mt5_account_answer \<times> int)) \<Rightarrow> string \<Rightarrow> account_options \<Rightarrow>
     'e + trading_account" where
  "accountState D send login options = (case send [(''login'', login), (''source'', ''mt5'')] of Inl e \<Rightarrow> Inl e
     | Inr (dto, receivedAt) \<Rightarrow> Inr (mapAccountState D login dto (options\<lparr>ao_asOf := Some receivedAt\<rparr>) receivedAt))"

definition tradeDisabled :: "((string \<times> string) list \<Rightarrow> 'e + int option) \<Rightarrow> string \<Rightarrow> bool option" where
  "tradeDisabled send login = (case send [(''login'', login), (''source'', ''mt5'')] of Inl e \<Rightarrow> None
     | Inr rights \<Rightarrow> readOnlyFromRights rights)"

text \<open>One row the library cannot read takes the whole page with it.\<close>

lemma take_rows_Inl:
  "r \<in> set rows \<Longrightarrow> conv r = Inl e \<Longrightarrow> \<exists>e'. take_rows conv rows acc = Inl e'"
  by (induction rows arbitrary: acc) (auto split: sum.splits option.splits)

lemma one_bad_row_loses_the_page:
  assumes "send (page_query login start count) = Inr dtos" "dto \<in> set dtos" "mapTvPosition D dto suffix = None"
  shows "\<exists>e. fetch_positions D send thrown login suffix start count = Inl e"
proof -
  have "(case mapTvPosition D dto suffix of None \<Rightarrow> Inl thrown | Some r \<Rightarrow> Inr r) = Inl thrown" using assms(3) by simp
  from take_rows_Inl [OF assms(2), where conv = "\<lambda>dto. case mapTvPosition D dto suffix of None \<Rightarrow> Inl thrown | Some r \<Rightarrow> Inr r",
      OF this] show ?thesis
    using assms(1) by (simp add: fetch_positions_def)
qed

section \<open>The walk returns every row, or says that it did not\<close>

lemma take_rows_ok:
  "(\<And>r. r \<in> set rows \<Longrightarrow> conv r = Inr (g r)) \<Longrightarrow> take_rows conv rows acc = Inr (acc @ List.map_filter g rows)"
  by (induction rows arbitrary: acc) (auto simp: map_filter_simps split: option.splits)

lemma map_filter_app [simp]: "List.map_filter g (xs @ ys) = List.map_filter g xs @ List.map_filter g ys"
  by (simp add: List.map_filter_def)

lemma walk_pages_complete:
  assumes "0 < ps" "\<And>i. fetch i = Inr (take ps (drop (i * ps) rows))" "\<And>r. r \<in> set rows \<Longrightarrow> conv r = Inr (g r)"
    and "page * ps \<le> length rows" "0 < left"
  shows "walk_pages fetch conv ps left page (List.map_filter g (take (page * ps) rows)) =
    Inr (List.map_filter g (take ((page + left) * ps) rows), (page + left) * ps \<le> length rows)"
  using assms(4,5)
proof (induction left arbitrary: page)
  case (Suc left)
  define chunk where "chunk = take ps (drop (page * ps) rows)"
  have "conv r = Inr (g r)" if "r \<in> set chunk" for r
    using that assms(3) by (auto simp: chunk_def dest: in_set_takeD in_set_dropD)
  then have step: "take_rows conv chunk (List.map_filter g (take (page * ps) rows)) =
      Inr (List.map_filter g (take (Suc page * ps) rows))"
    using take_add [of "page * ps" ps rows] by (simp add: take_rows_ok chunk_def add.commute)
  have len: "length chunk < ps \<longleftrightarrow> length rows < Suc page * ps"
    using Suc.prems(1) by (auto simp: chunk_def)
  show ?case
  proof (cases "length rows < Suc page * ps")
    case True
    have "Suc page * ps \<le> (page + Suc left) * ps" by (intro mult_right_mono) simp_all
    then have "length rows < (page + Suc left) * ps" using True by (rule less_le_trans [rotated])
    then have "take ((page + Suc left) * ps) rows = take (Suc page * ps) rows" "\<not> (page + Suc left) * ps \<le> length rows"
      using True by (simp_all only: not_le take_all less_imp_le)
    then show ?thesis using True len step by (simp add: assms(2) chunk_def [symmetric] del: mult_Suc)
  next
    case False
    then show ?thesis
      using Suc.IH [of "Suc page"] len step by (cases "left = 0") (simp_all add: assms(2) chunk_def [symmetric] del: mult_Suc)
  qed
qed simp

section \<open>The pairing and its plain description\<close>

text \<open>The entry an exit belongs to: the last deal of the position before it that opened a leg.\<close>

definition opens_leg :: "string \<Rightarrow> deal \<Rightarrow> bool" where
  "opens_leg p e = (dl_positionId e = Some p \<and> (dl_entry e = Some DEAL_ENTRY_IN \<or> dl_entry e = Some DEAL_ENTRY_INOUT))"

definition entry_before :: "deal list \<Rightarrow> string \<Rightarrow> deal option" where
  "entry_before seen p = List.find (opens_leg p) (rev seen)"

definition exit_row :: "deal list \<Rightarrow> deal \<Rightarrow> closed_position list" where
  "exit_row seen d = (case dl_positionId d of None \<Rightarrow> []
     | Some p \<Rightarrow> if dl_entry d = Some DEAL_ENTRY_IN then []
         else (case row_symbol d (entry_before seen p) of None \<Rightarrow> []
           | Some s \<Rightarrow> if s = '''' then [] else [closed_row p d (entry_before seen p) s]))"

fun exit_rows :: "deal list \<Rightarrow> deal list \<Rightarrow> closed_position list" where
  "exit_rows seen [] = []"
| "exit_rows seen (d # ds) = exit_row seen d @ exit_rows (seen @ [d]) ds"

definition bare :: "closed_position \<Rightarrow> closed_position" where
  "bare c = c\<lparr>cl_swap := None, cl_commission := None\<rparr>"

lemma bare_simps [simp]:
  "cl_closeTime (bare c) = cl_closeTime c"
  "bare (closed_row p d e s\<lparr>cl_swap := a, cl_commission := b\<rparr>) = closed_row p d e s"
  by (simp_all add: bare_def closed_row_def Let_def)

lemma entry_before_snoc:
  "entry_before (seen @ [d]) p = (if opens_leg p d then Some d else entry_before seen p)"
  by (simp add: entry_before_def)

text \<open>The map of open legs holds, for each position, the entry the next exit belongs to.\<close>

definition tracks :: "(string \<rightharpoonup> open_leg) \<Rightarrow> deal list \<Rightarrow> bool" where
  "tracks entries seen \<longleftrightarrow> (\<forall>p. map_option ol_deal (entries p) = entry_before seen p)"

lemma chargeEntry_deal: "chargeEntry D l v = Some (c, l') \<Longrightarrow> ol_deal l' = ol_deal l"
  by (auto simp: chargeEntry_def split: bind_splits option.splits)

lemma close_row_bare:
  assumes "close_row D p d (entries, rows) = Some (entries', rows')" "tracks entries seen" "dl_positionId d = Some p"
    "dl_entry d \<noteq> Some DEAL_ENTRY_IN"
  shows "tracks entries' seen \<and> map bare rows' = map bare rows @ exit_row seen d"
proof -
  have op: "map_option ol_deal (entries p) = entry_before seen p" using assms(2) by (simp add: tracks_def)
  show ?thesis
  proof (cases "row_symbol d (entry_before seen p)")
    case None
    then show ?thesis using assms op by (simp add: close_row_def exit_row_def)
  next
    case (Some s)
    show ?thesis
    proof (cases "s = ''''")
      case True
      then show ?thesis using assms op Some by (simp add: close_row_def exit_row_def)
    next
      case False
      from assms(1) Some False op obtain a b where
        r: "rows' = rows @ [closed_row p d (entry_before seen p) s\<lparr>cl_swap := a, cl_commission := b\<rparr>]"
        by (auto simp: close_row_def Let_def split: bind_splits)
      have "map_option ol_deal (entries' q) = map_option ol_deal (entries q)" for q
        using assms(1) Some False op
        by (auto simp: close_row_def Let_def dest!: chargeEntry_deal split: bind_splits option.splits if_splits)
      then show ?thesis using assms(2,3,4) Some False by (simp add: r tracks_def exit_row_def)
    qed
  qed
qed

lemma pair_deal_bare:
  assumes "pair_deal D d (entries, rows) = Some (entries', rows')" "tracks entries seen"
  shows "tracks entries' (seen @ [d]) \<and> map bare rows' = map bare rows @ exit_row seen d"
proof (cases "dl_positionId d")
  case None
  then show ?thesis
    using assms by (auto simp: pair_deal_def exit_row_def tracks_def entry_before_snoc opens_leg_def)
next
  case (Some p)
  show ?thesis
  proof (cases "dl_entry d = Some DEAL_ENTRY_IN")
    case True
    then show ?thesis
      using assms Some by (auto simp: pair_deal_def exit_row_def tracks_def entry_before_snoc opens_leg_def openLegOf_def)
  next
    case False
    then obtain es where es: "close_row D p d (entries, rows) = Some (es, rows')"
      "entries' = (if dl_entry d = Some DEAL_ENTRY_INOUT then es(p \<mapsto> openLegOf d) else es)"
      using assms(1) Some by (auto simp: pair_deal_def split: bind_splits)
    from close_row_bare [OF es(1) assms(2) Some False]
    have "tracks es seen" "map bare rows' = map bare rows @ exit_row seen d" by simp_all
    then show ?thesis
      using False Some by (auto simp: es(2) tracks_def entry_before_snoc opens_leg_def openLegOf_def)
  qed
qed

lemma pair_all_bare:
  "pair_all D ds (entries, rows) = Some (entries', rows') \<Longrightarrow> tracks entries seen \<Longrightarrow>
     map bare rows' = map bare rows @ exit_rows seen ds"
proof (induction ds arbitrary: entries rows seen)
  case (Cons d ds)
  then obtain es rs where s: "pair_deal D d (entries, rows) = Some (es, rs)" "pair_all D ds (es, rs) = Some (entries', rows')"
    by (auto split: bind_splits)
  show ?case using pair_deal_bare [OF s(1) Cons.prems(2)] Cons.IH [OF s(2), of "seen @ [d]"] by simp
qed simp

lemma insort_map: "insort_key f (g x) (map g xs) = map g (insort_key (\<lambda>y. f (g y)) x xs)"
  by (induction xs) simp_all

lemma sort_map: "sort_key f (map g xs) = map g (sort_key (\<lambda>y. f (g y)) xs)"
  by (induction xs) (simp_all add: insort_map)

lemma pairing_refines:
  assumes "pairDealsIntoClosedPositions D deals = Some rows"
  shows "map bare rows = sort_key (\<lambda>c. - or_else (cl_closeTime c) 0) (exit_rows [] (paired_trades deals))"
proof -
  from assms obtain es rs where r: "pair_all D (paired_trades deals) (Map.empty, []) = Some (es, rs)"
    "rows = sort_key (\<lambda>c. - or_else (cl_closeTime c) 0) rs"
    by (auto simp: pairDealsIntoClosedPositions_def split: bind_splits)
  have "tracks Map.empty []" by (simp add: tracks_def entry_before_def)
  from pair_all_bare [OF r(1) this] have "map bare rs = exit_rows [] (paired_trades deals)" by simp
  then have "sort_key (\<lambda>c. - or_else (cl_closeTime c) 0) (map bare rs) =
      sort_key (\<lambda>c. - or_else (cl_closeTime c) 0) (exit_rows [] (paired_trades deals))" by simp
  then show ?thesis by (simp add: r(2) sort_map)
qed

section \<open>The pairing never throws\<close>

definition deal_decimals :: "'d decimal_lib \<Rightarrow> deal \<Rightarrow> bool" where
  "deal_decimals D d = (is_dec_opt D (dl_volume d) \<and> is_dec_opt D (dl_commission d) \<and> is_dec_opt D (dl_swap d))"

definition leg_decimals :: "'d decimal_lib \<Rightarrow> open_leg \<Rightarrow> bool" where
  "leg_decimals D l = (is_dec D (ol_remainingVolume l) \<and> is_dec D (ol_remainingCommission l) \<and> is_dec D (ol_remainingSwap l) \<and>
     deal_decimals D (ol_deal l))"

context decimal_js
begin

lemma is_dec_denotes: "is_dec D s \<Longrightarrow> denotes D val s (dval D val s)"
  by (simp add: denotes_iff)

lemma arith_dec:
  assumes "is_dec D a" "is_dec D b"
  shows "\<exists>s. add D a b = Some s \<and> is_dec D s \<and> dval D val s = rnd (dval D val a + dval D val b)"
    and "\<exists>s. sub D a b = Some s \<and> is_dec D s \<and> dval D val s = rnd (dval D val a - dval D val b)"
    and "\<exists>s. mul D a b = Some s \<and> is_dec D s \<and> dval D val s = rnd (dval D val a * dval D val b)"
    and "dval D val b \<noteq> 0 \<Longrightarrow>
      \<exists>s. div_dec D a b = Some (Some s) \<and> is_dec D s \<and> dval D val s = rnd (dval D val a / dval D val b)"
    and "isZero D (Some a) = Some (dval D val a = 0)"
  using add_denotes [OF is_dec_denotes is_dec_denotes, OF assms] sub_denotes [OF is_dec_denotes is_dec_denotes, OF assms]
    mul_denotes [OF is_dec_denotes is_dec_denotes, OF assms] div_denotes [OF is_dec_denotes is_dec_denotes, OF assms]
    isZero_denotes [OF is_dec_denotes, OF assms(1)]
  by (simp_all add: denotes_iff)

text \<open>One exit of a leg: a share of the charges while volume is left, everything otherwise.\<close>

lemma chargeEntry_value:
  assumes z: "denotes D val ZERO 0" and l: "leg_decimals D l" and v: "is_dec D v"
  shows "\<exists>c l'. chargeEntry D l v = Some (c, l') \<and> leg_decimals D l' \<and> is_dec D (ec_commission c) \<and> is_dec D (ec_swap c) \<and>
    (let r = dval D val (ol_remainingVolume l); x = dval D val v; a = dval D val (ol_remainingCommission l) in
     if 0 < r \<and> x < r
     then dval D val (ec_commission c) = rnd (a * rnd (x / r)) \<and>
       dval D val (ol_remainingCommission l') = rnd (a - dval D val (ec_commission c)) \<and>
       dval D val (ol_remainingVolume l') = rnd (r - x)
     else dval D val (ec_commission c) = a \<and> dval D val (ol_remainingCommission l') = 0 \<and>
       dval D val (ol_remainingVolume l') = 0)"
proof -
  define r x where "r = dval D val (ol_remainingVolume l)" and "x = dval D val v"
  have d: "is_dec D (ol_remainingVolume l)" "is_dec D (ol_remainingCommission l)" "is_dec D (ol_remainingSwap l)"
    "deal_decimals D (ol_deal l)"
    using l by (simp_all add: leg_decimals_def)
  have z': "is_dec D ZERO" "dval D val ZERO = 0" using z by (simp_all add: denotes_iff)
  have c: "cmp D (ol_remainingVolume l) ZERO = Some (cmp3 r 0)" "cmp D v (ol_remainingVolume l) = Some (cmp3 x r)"
    using d(1) z' v by (simp_all add: r_def x_def)
  show ?thesis
  proof (cases "0 < r \<and> x < r")
    case True
    then obtain s where s: "closing_share D (ol_remainingVolume l) v = Some (Some s)" "is_dec D s" "dval D val s = rnd (x / r)"
      using arith_dec(4) [OF v d(1)] c by (auto simp: closing_share_def r_def x_def)
    obtain m where m: "mul D (ol_remainingCommission l) s = Some m" "is_dec D m"
      "dval D val m = rnd (dval D val (ol_remainingCommission l) * rnd (x / r))"
      using arith_dec(3) [OF d(2) s(2)] s(3) by auto
    obtain w where w: "mul D (ol_remainingSwap l) s = Some w" "is_dec D w" using arith_dec(3) [OF d(3) s(2)] by auto
    obtain m' where m': "sub D (ol_remainingCommission l) m = Some m'" "is_dec D m'"
      "dval D val m' = rnd (dval D val (ol_remainingCommission l) - dval D val m)"
      using arith_dec(2) [OF d(2) m(2)] by auto
    obtain w' where w': "sub D (ol_remainingSwap l) w = Some w'" "is_dec D w'" using arith_dec(2) [OF d(3) w(2)] by auto
    obtain r' where r': "sub D (ol_remainingVolume l) v = Some r'" "is_dec D r'" "dval D val r' = rnd (r - x)"
      using arith_dec(2) [OF d(1) v] by (auto simp: r_def x_def)
    show ?thesis
      using True s m w m' w' r' d(4) by (simp add: chargeEntry_def leg_decimals_def r_def [symmetric] x_def [symmetric])
  next
    case False
    then have "closing_share D (ol_remainingVolume l) v = Some None" using c by (auto simp: closing_share_def)
    then show ?thesis
      using False d z' by (simp add: chargeEntry_def leg_decimals_def r_def [symmetric] x_def [symmetric])
  qed
qed

lemma sumCharges_some:
  assumes "denotes D val ZERO 0" "is_dec_opt D c" "is_dec D e"
  shows "\<exists>s. sumCharges D c e = Some s"
proof (cases c)
  case None
  then show ?thesis
    using assms arith_dec(1,5) [of e] arith_dec(1) [of ZERO e] by (auto simp: sumCharges_def denotes_iff)
next
  case (Some a)
  then show ?thesis using assms arith_dec(1) [of a e] by (auto simp: sumCharges_def)
qed

end

definition legs_ok :: "'d decimal_lib \<Rightarrow> (string \<rightharpoonup> open_leg) \<Rightarrow> bool" where
  "legs_ok D entries \<longleftrightarrow> (\<forall>p l. entries p = Some l \<longrightarrow> leg_decimals D l)"

lemma legs_ok_simps [simp]:
  "legs_ok D Map.empty" "legs_ok D entries \<Longrightarrow> leg_decimals D l \<Longrightarrow> legs_ok D (entries(p \<mapsto> l))"
  by (auto simp: legs_ok_def)

context decimal_js
begin

lemma openLegOf_decimals: "denotes D val ZERO 0 \<Longrightarrow> deal_decimals D d \<Longrightarrow> leg_decimals D (openLegOf d)"
  by (auto simp: leg_decimals_def openLegOf_def deal_decimals_def denotes_iff is_dec_opt_def split: option.splits)

lemma close_row_some:
  assumes z: "denotes D val ZERO 0" and d: "deal_decimals D d" and ok: "legs_ok D entries"
  shows "\<exists>es rs. close_row D p d (entries, rows) = Some (es, rs) \<and> legs_ok D es"
proof (cases "row_symbol d (map_option ol_deal (entries p))")
  case (Some s)
  show ?thesis
  proof (cases "s = ''''")
    case False
    define row where "row = closed_row p d (map_option ol_deal (entries p)) s"
    have vol: "is_dec D (cl_volume row)" if "entries p = Some l \<or> entries p = None" for l
      using z d ok by (auto simp: row_def closed_row_def Let_def deal_decimals_def legs_ok_def leg_decimals_def denotes_iff
          is_dec_opt_def or_else_def split: option.splits)
    have "\<exists>c es. (case entries p of None \<Rightarrow> Some (NO_CHARGES, entries)
        | Some l \<Rightarrow> map_option (\<lambda>(c, l'). (c, entries(p \<mapsto> l'))) (chargeEntry D l (cl_volume row))) = Some (c, es) \<and>
        is_dec D (ec_commission c) \<and> is_dec D (ec_swap c) \<and> legs_ok D es"
    proof (cases "entries p")
      case None
      then show ?thesis using z ok by (simp add: NO_CHARGES_def denotes_iff)
    next
      case (Some l)
      then have "leg_decimals D l" "is_dec D (cl_volume row)" using ok vol by (auto simp: legs_ok_def)
      from chargeEntry_value [OF z this] obtain c l' where
        "chargeEntry D l (cl_volume row) = Some (c, l')" "leg_decimals D l'" "is_dec D (ec_commission c)" "is_dec D (ec_swap c)"
        by blast
      then show ?thesis using Some ok by simp
    qed
    then obtain c es where c: "(case entries p of None \<Rightarrow> Some (NO_CHARGES, entries)
        | Some l \<Rightarrow> map_option (\<lambda>(c, l'). (c, entries(p \<mapsto> l'))) (chargeEntry D l (cl_volume row))) = Some (c, es)"
        "is_dec D (ec_commission c)" "is_dec D (ec_swap c)" "legs_ok D es"
      by blast
    obtain a b where "sumCharges D (dl_swap d) (ec_swap c) = Some a" "sumCharges D (dl_commission d) (ec_commission c) = Some b"
      using sumCharges_some [OF z _ c(3), of "dl_swap d"] sumCharges_some [OF z _ c(2), of "dl_commission d"] d
      by (auto simp: deal_decimals_def)
    then show ?thesis using Some False c by (simp add: close_row_def Let_def row_def [symmetric])
  qed (use Some ok in \<open>simp add: close_row_def\<close>)
qed (use ok in \<open>simp add: close_row_def\<close>)

lemma pair_all_some:
  assumes "denotes D val ZERO 0"
  shows "list_all (deal_decimals D) ds \<Longrightarrow> legs_ok D entries \<Longrightarrow> \<exists>st. pair_all D ds (entries, rows) = Some st"
proof (induction ds arbitrary: entries rows)
  case (Cons d ds)
  have "\<exists>es rs. pair_deal D d (entries, rows) = Some (es, rs) \<and> legs_ok D es"
  proof (cases "dl_positionId d")
    case (Some p)
    obtain es rs where "close_row D p d (entries, rows) = Some (es, rs)" "legs_ok D es"
      using close_row_some [OF assms _ Cons.prems(2)] Cons.prems(1) by force
    then show ?thesis
      using Some Cons.prems openLegOf_decimals [OF assms, of d] by (auto simp: pair_deal_def)
  qed (use Cons.prems in \<open>simp add: pair_deal_def\<close>)
  then obtain es rs where "pair_deal D d (entries, rows) = Some (es, rs)" "legs_ok D es" by blast
  then show ?case using Cons.IH [of es rs] Cons.prems(1) by simp
qed simp

lemma pairing_total:
  assumes "denotes D val ZERO 0" "list_all (deal_decimals D) deals"
  shows "\<exists>rows. pairDealsIntoClosedPositions D deals = Some rows"
proof -
  have "list_all (deal_decimals D) (paired_trades deals)" using assms(2) by (auto simp: paired_trades_def list_all_iff)
  from pair_all_some [OF assms(1) this legs_ok_simps(1), of "[]"] show ?thesis
    by (auto simp: pairDealsIntoClosedPositions_def)
qed

end

text \<open>The deals the mapper makes are of this kind when their volumes are numbers.\<close>

lemma nullIfZeroString_dec: "is_dec_opt D x \<Longrightarrow> is_dec_opt D (nullIfZeroString x)"
  by (auto simp: nullIfZeroString_def split: option.splits)

context decimal_js
begin

lemma mt5VolumeToLots_dec: "is_dec D u \<Longrightarrow> mt5VolumeToLots D (JStr u) = Some s \<Longrightarrow> is_dec D s"
  using num_val [of 10000] by (auto simp: mt5VolumeToLots_def MT5_VOLUME_UNITS_PER_LOT_def div_val)

lemma mapDeal_decimals:
  assumes "mapDeal D dto suffix = Some (Some d)"
    and "is_dec_opt D (pick_text [md_Volume dto, md_volume dto, md_VolumeExt dto, md_volumeExt dto])"
  shows "deal_decimals D d"
proof -
  have t: "is_dec_opt D (toDecimalString D v)" for v
    by (cases "toDecimalString D v") auto
  show ?thesis
    using assms mt5VolumeToLots_dec
    by (auto simp: mapDeal_def Let_def deal_decimals_def t nullIfZeroString_dec simp del: pick_text.simps
        split: option.splits bind_splits)
qed

end

section \<open>What the exits of a leg are billed\<close>

text \<open>\<open>toward a x\<close>: \<open>x\<close> lies between zero and \<open>a\<close>.\<close>

definition toward :: "rat \<Rightarrow> rat \<Rightarrow> bool" where
  "toward a x = (0 \<le> x \<and> x \<le> a \<or> a \<le> x \<and> x \<le> 0)"

lemma rnd_idem [simp]: "rnd (rnd x) = rnd x"
proof (cases "x = 0")
  case False
  define m where "m = round_half_up (x / ulp 28 x)"
  define e where "e = mag x + 1 - 28"
  have r: "rnd x = of_int m * 10 powi e"
    using round_sig_ulp [OF False, of 28] by (simp add: rnd_def precision_def m_def e_def ulp_def)
  have "\<bar>x\<bar> < 10 powi (mag x + 1)" using mag_bounds [OF False] by simp
  also have "\<dots> = of_int (10 ^ 28) * ulp 28 x"
    unfolding ulp_def of_int_power of_int_numeral ten_powi_nat [symmetric] ten_powi_add [symmetric]
    by (simp add: add.commute)
  finally have "\<bar>x / ulp 28 x\<bar> \<le> of_int (10 ^ 28)" by (simp add: abs_divide pos_divide_le_eq)
  then have "x / ulp 28 x \<le> of_int (10 ^ 28)" "of_int (- (10 ^ 28)) \<le> x / ulp 28 x"
    unfolding of_int_minus by linarith+
  then have "m \<le> 10 ^ 28" "- (10 ^ 28) \<le> m"
    unfolding m_def by (metis round_half_up_mono round_half_up_int)+
  then consider "\<bar>m\<bar> < 10 ^ 28" | "m = 10 ^ 28" | "m = - (10 ^ 28)" by linarith
  then show ?thesis
  proof cases
    case 1
    then show ?thesis unfolding r by (rule rnd_exact [OF refl])
  next
    case 2
    have "rnd x = of_int 1 * 10 powi (28 + e)" unfolding r 2 by (simp only: ten_powi_add) simp
    then show ?thesis using rnd_exact [of "rnd x" 1 "28 + e"] by simp
  next
    case 3
    have "rnd x = of_int (- 1) * 10 powi (28 + e)" unfolding r 3 by (simp only: ten_powi_add) simp
    then show ?thesis using rnd_exact [of "rnd x" "- 1" "28 + e"] by simp
  qed
qed simp

lemma toward_rnd: "toward a x \<Longrightarrow> rnd a = a \<Longrightarrow> toward a (rnd x)"
  using rnd_mono [of x a] rnd_mono [of a x] by (auto simp: toward_def) (metis rnd_nonneg rnd_minus neg_0_le_iff_le)+

lemma toward_share: "0 \<le> s \<Longrightarrow> s \<le> 1 \<Longrightarrow> toward a (a * s)"
  using mult_left_le [of s a] mult_left_le [of s "- a"] by (auto simp: toward_def zero_le_mult_iff mult_le_0_iff)

lemma toward_minus: "toward a x \<Longrightarrow> toward a (a - x)"
  by (auto simp: toward_def)

lemma toward_abs: "toward a x \<Longrightarrow> \<bar>x\<bar> \<le> \<bar>a\<bar>"
  by (auto simp: toward_def)

text \<open>The exits of one leg in turn.\<close>

fun charge_exits :: "'d decimal_lib \<Rightarrow> open_leg \<Rightarrow> string list \<Rightarrow> (entry_charges list \<times> open_leg) option" where
  "charge_exits D l [] = Some ([], l)"
| "charge_exits D l (v # vs) = do { (c, l') \<leftarrow> chargeEntry D l v; (cs, l'') \<leftarrow> charge_exits D l' vs; Some (c # cs, l'') }"

definition billed :: "'d decimal_lib \<Rightarrow> ('d \<Rightarrow> rat) \<Rightarrow> entry_charges list \<Rightarrow> rat" where
  "billed D val cs = sum_list (map (\<lambda>c. dval D val (ec_commission c)) cs)"

context decimal_js
begin

lemma charge_step:
  assumes "denotes D val ZERO 0" "leg_decimals D l" "is_dec D v" "0 \<le> dval D val v"
    and "rnd (dval D val (ol_remainingCommission l)) = dval D val (ol_remainingCommission l)"
  obtains c l' where "chargeEntry D l v = Some (c, l')" "leg_decimals D l'"
    "toward (dval D val (ol_remainingCommission l)) (dval D val (ec_commission c))"
    "toward (dval D val (ol_remainingCommission l)) (dval D val (ol_remainingCommission l'))"
    "rnd (dval D val (ol_remainingCommission l')) = dval D val (ol_remainingCommission l')"
    "\<bar>dval D val (ec_commission c) + dval D val (ol_remainingCommission l') - dval D val (ol_remainingCommission l)\<bar>
      \<le> \<bar>dval D val (ol_remainingCommission l)\<bar> / (2 * 10 ^ 27)"
proof -
  define a r x where "a = dval D val (ol_remainingCommission l)" and "r = dval D val (ol_remainingVolume l)" and "x = dval D val v"
  from chargeEntry_value [OF assms(1-3)] obtain c l' where c: "chargeEntry D l v = Some (c, l')" "leg_decimals D l'"
    "if 0 < r \<and> x < r then dval D val (ec_commission c) = rnd (a * rnd (x / r)) \<and>
       dval D val (ol_remainingCommission l') = rnd (a - dval D val (ec_commission c))
     else dval D val (ec_commission c) = a \<and> dval D val (ol_remainingCommission l') = 0"
    by (auto simp: a_def r_def x_def Let_def split: if_splits)
  define b where "b = dval D val (ec_commission c)"
  have a: "rnd a = a" using assms(5) by (simp add: a_def)
  have "toward a b \<and> toward a (dval D val (ol_remainingCommission l')) \<and>
      rnd (dval D val (ol_remainingCommission l')) = dval D val (ol_remainingCommission l') \<and>
      \<bar>b + dval D val (ol_remainingCommission l') - a\<bar> \<le> \<bar>a\<bar> / (2 * 10 ^ 27)"
  proof (cases "0 < r \<and> x < r")
    case True
    have "0 \<le> x" using assms(4) by (simp add: x_def)
    then have "0 \<le> rnd (x / r)" "rnd (x / r) \<le> rnd 1" using True by (simp_all add: rnd_mono)
    moreover have "rnd 1 = 1" using rnd_int [of 1] by simp
    ultimately have s: "0 \<le> rnd (x / r)" "rnd (x / r) \<le> 1" by simp_all
    have b: "toward a b" using c(3) True toward_rnd [OF toward_share [OF s] a] by (simp add: b_def)
    have "\<bar>rnd (a - b) - (a - b)\<bar> \<le> \<bar>a - b\<bar> / (2 * 10 ^ 27)" by (rule rnd_error)
    also have "\<dots> \<le> \<bar>a\<bar> / (2 * 10 ^ 27)"
      by (intro divide_right_mono toward_abs [OF toward_minus [OF b]]) simp
    also have "rnd (a - b) - (a - b) = b + rnd (a - b) - a" by simp
    finally show ?thesis using c(3) True b toward_rnd [OF toward_minus [OF b] a] by (simp add: b_def)
  next
    case False
    then show ?thesis using c(3) by (auto simp: b_def toward_def)
  qed
  then show ?thesis using that [OF c(1,2)] by (simp add: a_def b_def)
qed

lemma charge_exits_drift:
  assumes "denotes D val ZERO 0"
  shows "leg_decimals D l \<Longrightarrow> list_all (\<lambda>v. is_dec D v \<and> 0 \<le> dval D val v) vs \<Longrightarrow>
    rnd (dval D val (ol_remainingCommission l)) = dval D val (ol_remainingCommission l) \<Longrightarrow>
    \<exists>cs l'. charge_exits D l vs = Some (cs, l') \<and> leg_decimals D l' \<and>
      list_all (\<lambda>c. toward (dval D val (ol_remainingCommission l)) (dval D val (ec_commission c))) cs \<and>
      \<bar>billed D val cs + dval D val (ol_remainingCommission l') - dval D val (ol_remainingCommission l)\<bar>
        \<le> of_nat (length vs) * \<bar>dval D val (ol_remainingCommission l)\<bar> / (2 * 10 ^ 27)"
proof (induction vs arbitrary: l)
  case (Cons v vs)
  define a where "a = dval D val (ol_remainingCommission l)"
  obtain c l1 where c: "chargeEntry D l v = Some (c, l1)" "leg_decimals D l1"
    "toward a (dval D val (ec_commission c))" "toward a (dval D val (ol_remainingCommission l1))"
    "rnd (dval D val (ol_remainingCommission l1)) = dval D val (ol_remainingCommission l1)"
    "\<bar>dval D val (ec_commission c) + dval D val (ol_remainingCommission l1) - a\<bar> \<le> \<bar>a\<bar> / (2 * 10 ^ 27)"
    using charge_step [OF assms Cons.prems(1) _ _ Cons.prems(3), of v] Cons.prems(2) by (auto simp: a_def)
  define b where "b = dval D val (ol_remainingCommission l1)"
  obtain cs l' where l': "charge_exits D l1 vs = Some (cs, l')" "leg_decimals D l'"
    "list_all (\<lambda>c. toward b (dval D val (ec_commission c))) cs"
    "\<bar>billed D val cs + dval D val (ol_remainingCommission l') - b\<bar> \<le> of_nat (length vs) * \<bar>b\<bar> / (2 * 10 ^ 27)"
    using Cons.IH [OF c(2) _ c(5)] Cons.prems(2) by (auto simp: b_def)
  have "\<bar>b\<bar> \<le> \<bar>a\<bar>" using toward_abs [OF c(4)] by (simp add: b_def)
  then have "of_nat (length vs) * \<bar>b\<bar> / (2 * 10 ^ 27) \<le> of_nat (length vs) * \<bar>a\<bar> / (2 * 10 ^ 27)"
    by (intro divide_right_mono mult_left_mono) simp_all
  moreover have "of_nat (length (v # vs)) * \<bar>a\<bar> / (2 * 10 ^ 27) =
      \<bar>a\<bar> / (2 * 10 ^ 27) + of_nat (length vs) * \<bar>a\<bar> / (2 * 10 ^ 27)"
    by (simp add: distrib_right add_divide_distrib)
  moreover have "billed D val (c # cs) = dval D val (ec_commission c) + billed D val cs" by (simp add: billed_def)
  ultimately have "\<bar>billed D val (c # cs) + dval D val (ol_remainingCommission l') - a\<bar>
      \<le> of_nat (length (v # vs)) * \<bar>a\<bar> / (2 * 10 ^ 27)"
    using c(6) [folded b_def] l'(4) by linarith
  moreover have "list_all (\<lambda>c. toward a (dval D val (ec_commission c))) cs"
    using l'(3) c(4) by (auto simp: list_all_iff toward_def b_def)
  ultimately show ?case using c(1,3) l'(1,2) by (simp add: a_def)
qed (simp add: billed_def)

end

section \<open>Sample deals\<close>

definition sample_deal :: "int \<Rightarrow> int \<Rightarrow> side \<Rightarrow> string \<Rightarrow> string \<Rightarrow> deal" where
  "sample_deal t entry side volume commission = \<lparr>dl_id = ''1'', dl_positionId = Some ''7'', dl_orderId = None,
     dl_kind = DealTrade, dl_entry = Some entry, dl_symbol = Some ''EURUSD'', dl_displaySymbol = Some ''EURUSD'',
     dl_side = Some side, dl_volume = Some volume, dl_price = Some ''1.1'', dl_profit = None, dl_swap = None,
     dl_commission = Some commission, dl_time = Some t, dl_comment = None\<rparr>"

definition billed_rows :: "deal list \<Rightarrow> (string \<times> string option) list option" where
  "billed_rows ds = map_option (map (\<lambda>c. (cl_volume c, cl_commission c))) (pairDealsIntoClosedPositions ref_lib ds)"

text \<open>
  A reversal is billed twice: its commission of 4 is in the row it closes, with its whole volume of two lots where
  one was closed, and again in part in the row of the leg it opens: deals costing 6 in all show 8 so far, and 2
  more are still owed.
\<close>

lemma reversal_billed_twice:
  "billed_rows [sample_deal 1 0 Buy ''1'' ''-1'', sample_deal 2 2 Sell ''2'' ''-4'', sample_deal 3 1 Buy ''1'' ''-1''] =
     Some [(''1'', Some ''-3''), (''2'', Some ''-5'')]"
  by code_simp

text \<open>A position entered in two deals shows the cost of the second alone.\<close>

lemma second_entry_replaces_first:
  "billed_rows [sample_deal 1 0 Buy ''1'' ''-1'', sample_deal 2 0 Buy ''1'' ''-1'', sample_deal 3 1 Sell ''2'' ''-1''] =
     Some [(''2'', Some ''-2'')]"
  by code_simp

text \<open>A volume that arrives only in MT5's extended units is read in the plain ones: one lot becomes ten thousand.\<close>

definition sample_deal_dto :: mt5_deal_dto where
  "sample_deal_dto = \<lparr>md_Deal = Some ''1'', md_deal = None, md_Order = None, md_order = None, md_OrderID = None, md_orderId = None,
     md_PositionID = Some ''7'', md_positionID = None, md_PositionId = None, md_positionId = None, md_Position = None,
     md_position = None, md_Action = Some 0, md_action = None, md_Entry = Some 0, md_entry = None, md_Symbol = Some ''EURUSD'',
     md_symbol = None, md_Volume = None, md_volume = None, md_VolumeExt = Some ''100000000'', md_volumeExt = None,
     md_Price = Some ''1.1'', md_price = None, md_Profit = None, md_profit = None, md_Storage = None, md_storage = None,
     md_Swap = None, md_swap = None, md_Commission = None, md_commission = None, md_Time = Some 1, md_time = None,
     md_Comment = None, md_comment = None\<rparr>"

lemma extended_volume_misread:
  "map_option (map_option dl_volume) (mapDeal ref_lib sample_deal_dto NO_SUFFIX_POLICY) = Some (Some (Some ''10000''))"
  "mt5VolumeExtToLots ref_lib (JStr ''100000000'') = Some ''1''"
  by code_simp+

section \<open>Properties\<close>


lemma ZERO_denotes: "denotes ref_lib ref_val ZERO 0"
  unfolding denotes_iff ZERO_def by code_simp


text \<open>C29. The exits of a leg are billed its entry commission: whatever the volumes closed, what they are charged and what
  is still owed add up to the commission, but for one rounding at 28 digits per exit, and no exit is charged
  more than the whole. (The last exit is charged all that is owed, so the sum is then the commission itself.)\<close>

theorem entry_commission_billed:
  assumes "decimal_js D val" "denotes D val ZERO 0" "leg_decimals D leg" "denotes D val (ol_remainingCommission leg) c" "rnd c = c"
    and "list_all (\<lambda>v. is_dec D v \<and> 0 \<le> dval D val v) volumes"
  shows "\<exists>bills leg'. charge_exits D leg volumes = Some (bills, leg') \<and>
    list_all (\<lambda>b. \<bar>dval D val (ec_commission b)\<bar> \<le> \<bar>c\<bar>) bills \<and>
    \<bar>billed D val bills + dval D val (ol_remainingCommission leg') - c\<bar> \<le> of_nat (length volumes) * \<bar>c\<bar> / (2 * 10 ^ 27)"
proof -
  have c: "dval D val (ol_remainingCommission leg) = c" using assms(4) by (simp add: denotes_iff)
  from decimal_js.charge_exits_drift [OF assms(1,2,3,6)] assms(5) c obtain bills leg' where
    "charge_exits D leg volumes = Some (bills, leg')" "list_all (\<lambda>b. toward c (dval D val (ec_commission b))) bills"
    "\<bar>billed D val bills + dval D val (ol_remainingCommission leg') - c\<bar> \<le> of_nat (length volumes) * \<bar>c\<bar> / (2 * 10 ^ 27)"
    by auto
  then show ?thesis by (intro exI [of _ bills] exI [of _ leg'] conjI) (auto simp only: list_all_iff toward_abs)
qed

theorem entry_commission_billed_witness:
  "\<exists>bills leg'. charge_exits ref_lib (openLegOf (sample_deal 1 0 Buy ''1'' ''-7'')) [''0.3'', ''0.7''] = Some (bills, leg') \<and>
     \<bar>billed ref_lib ref_val bills + dval ref_lib ref_val (ol_remainingCommission leg') + 7\<bar> \<le> 2 * 7 / (2 * 10 ^ 27)"
proof -
  let ?leg = "openLegOf (sample_deal 1 0 Buy ''1'' ''-7'')"
  have "leg_decimals ref_lib ?leg" "list_all (\<lambda>v. is_dec ref_lib v \<and> 0 \<le> dval ref_lib ref_val v) [''0.3'', ''0.7'']"
    by code_simp+
  moreover have "denotes ref_lib ref_val (ol_remainingCommission ?leg) (- 7)" unfolding denotes_iff by code_simp
  moreover have "rnd (- 7) = - 7" using rnd_int [of "- 7"] by simp
  ultimately show ?thesis
    using entry_commission_billed [OF ref_laws ZERO_denotes, where leg = ?leg and c = "- 7" and volumes = "[''0.3'', ''0.7'']"]
    by auto
qed

text \<open>C30. The walk through the pages of the deal history: against a server that pages its rows, it returns every row
  the cap allows, in order, less those the mapper leaves out, and reports a truncation exactly when the cap
  may have cut it short.\<close>

theorem deals_walk_complete:
  assumes "0 < or_else pageSize 500" "0 < or_else maxPages 20"
    and "\<And>page. send (deals_query login period (or_else pageSize 500) page) =
      Inr (take (or_else pageSize 500) (drop (page * or_else pageSize 500) rows))"
    and "\<And>dto. dto \<in> set rows \<Longrightarrow> mapDeal D dto suffix = Some (convert dto)"
  shows "fetch_deals D send thrown login period suffix pageSize maxPages =
    Inr (List.map_filter convert (take (or_else maxPages 20 * or_else pageSize 500) rows),
      or_else maxPages 20 * or_else pageSize 500 \<le> length rows)"
proof -
  define ps n where "ps = or_else pageSize 500" and "n = or_else maxPages 20"
  have "walk_pages (\<lambda>page. send (deals_query login period ps page))
      (\<lambda>dto. case mapDeal D dto suffix of None \<Rightarrow> Inl thrown | Some r \<Rightarrow> Inr r) ps n 0 (List.map_filter convert (take (0 * ps) rows)) =
    Inr (List.map_filter convert (take ((0 + n) * ps) rows), (0 + n) * ps \<le> length rows)"
    using assms by (intro walk_pages_complete) (simp_all add: ps_def n_def)
  then show ?thesis by (simp add: fetch_deals_def Let_def ps_def n_def map_filter_simps)
qed

definition sample_server :: "mt5_deal_dto list \<Rightarrow> (string \<times> string) list \<Rightarrow> string + mt5_deal_dto list" where
  "sample_server rows q = Inr (if map_of q ''offset'' = Some ''0'' then rows else [])"

theorem deals_walk_complete_witness:
  "fetch_deals ref_lib (sample_server [sample_deal_dto]) ''thrown'' ''1'' \<lparr>tr_fromSeconds = 0, tr_toSeconds = 1\<rparr> NO_SUFFIX_POLICY
     (Some 1) (Some 2) = Inr ([the (the (mapDeal ref_lib sample_deal_dto NO_SUFFIX_POLICY))], False)"
proof -
  let ?rows = "[sample_deal_dto]" and ?t = "\<lparr>tr_fromSeconds = 0, tr_toSeconds = 1\<rparr> :: time_range"
  have "show_int 0 = ''0''" by code_simp
  then have zero: "show_int (int page) = ''0'' \<longleftrightarrow> page = 0" for page
    using show_int_inject [of "int page" 0] by simp
  have send: "sample_server ?rows (deals_query ''1'' ?t 1 page) = Inr (take 1 (drop (page * 1) ?rows))" for page
    by (simp add: sample_server_def deals_query_def zero)
  obtain d where d: "mapDeal ref_lib sample_deal_dto NO_SUFFIX_POLICY = Some (Some d)"
    using extended_volume_misread(1) by (simp only: map_option_eq_Some) blast
  show ?thesis
    using deals_walk_complete [where pageSize = "Some 1" and maxPages = "Some 2" and rows = ?rows and D = ref_lib
        and convert = "\<lambda>_. Some d" and suffix = NO_SUFFIX_POLICY and login = "''1''" and period = ?t
        and send = "sample_server ?rows" and thrown = "''thrown''"] send d
    by (simp add: map_filter_simps)
qed

end
