(* ===== verification/HttpClient.thy ===== *)
theory HttpClient
  imports TradingApi Subscription
begin

text \<open>
  The gateway's HTTP client (\<^verbatim>\<open>frontend/src/integrations/gateway/api/http-client.ts\<close>) and
  the envelope it reads (\<^verbatim>\<open>frontend/src/integrations/gateway/contracts/envelope.ts\<close>).

  One attempt is a function of what the transport does and of the moments it does it; an attempt may never
  settle, which is \<open>None\<close>. The platform's \<^verbatim>\<open>fetch\<close>, \<^verbatim>\<open>JSON.parse\<close>, the schemas, the
  clock and the random numbers are arguments. The sharing of equal reads is a step relation on the map of running
  requests.

  Shown: a mutation is sent exactly once; a read is sent again only after a failure marked retryable, and three
  times at most; a reply is data only when its status, its envelope and its schema all say so; a refused session is
  reported with the token the request carried; a read that is shared is cancelled only when nobody waits for it.
\<close>

section \<open>The envelope\<close>

record envelope =
  ev_data :: js_value
  ev_errorMessage :: "string option"
  ev_message :: "string option"
  ev_success :: bool

definition decodeGatewayData :: "(string \<Rightarrow> js_value option) \<Rightarrow> js_value \<Rightarrow> js_value" where
  "decodeGatewayData parse data = (case data of
     JStr s \<Rightarrow> let trimmed = js_trim s in
       if trimmed = '''' then JNull
       else if hd trimmed \<noteq> CHR ''{'' \<and> hd trimmed \<noteq> CHR ''['' then data
       else or_else (parse trimmed) data
   | _ \<Rightarrow> data)"

fun unwrapOne :: "js_value \<Rightarrow> js_value" where
  "unwrapOne (JObj ps) = (if map_of ps ''answer'' = None then JObj ps else js_get (JObj ps) ''answer'')"
| "unwrapOne v = v"

text \<open>The names of a payload's keys, and never their values.\<close>

definition describeShape :: "js_value \<Rightarrow> string" where
  "describeShape v = (case v of
     JNull \<Rightarrow> ''null''
   | JArr vs \<Rightarrow> ''array('' @ show_int (int (length vs)) @ '')''
   | JObj ps \<Rightarrow> let keys = remdups (map fst ps); shown = join '', '' (take 12 keys) in
       ''object{'' @ shown @ (if 12 < length keys then '', +'' @ show_int (int (length keys) - 12) @ '' more'' else '''') @ ''}''
   | JUndefined \<Rightarrow> ''undefined'' | JBool b \<Rightarrow> ''boolean'' | JNum n \<Rightarrow> ''number'' | JStr s \<Rightarrow> ''string''
   | JBigInt n \<Rightarrow> ''bigint'')"

section \<open>One attempt\<close>

datatype http_method = GET | POST | DELETE

text \<open>
  The transport of one attempt: when and how \<^verbatim>\<open>fetch\<close> settles of itself, when the caller's signal
  fires (both in milliseconds from the send), and what the body turns out to be.
\<close>

datatype fetch_result = FetchFailed string | FetchResponse nat
datatype body_result = BodyText string | BodyFailed string

record transport =
  tp_fetch :: "(int \<times> fetch_result) option"
  tp_cancel :: "int option"
  tp_body :: "body_result option"

datatype fetch_phase = PhTimeout | PhCanceled | PhFailed string | PhResponse nat

text \<open>The abort listener is attached at the send: a signal that fired before is not noticed.\<close>

definition fetch_phase :: "int \<Rightarrow> transport \<Rightarrow> fetch_phase" where
  "fetch_phase timeoutMs t =
     (let cancel = (case tp_cancel t of Some c \<Rightarrow> if 0 < c then Some c else None | None \<Rightarrow> None);
          limit = (case cancel of Some c \<Rightarrow> min c timeoutMs | None \<Rightarrow> timeoutMs)
      in case tp_fetch t of
           Some (at_ms, r) \<Rightarrow>
             if at_ms < limit then (case r of FetchFailed m \<Rightarrow> PhFailed m | FetchResponse status \<Rightarrow> PhResponse status)
             else if cancel = Some limit then PhCanceled else PhTimeout
         | None \<Rightarrow> if cancel = Some limit then PhCanceled else PhTimeout)"

record 'a request_options =
  ro_endpoint :: string
  ro_schema :: "js_value \<Rightarrow> 'a option"
  ro_timeoutMs :: "int option"
  ro_retries :: "int option"
  ro_rawBody :: bool
  ro_unwrapAnswer :: bool
  ro_idempotencyKey :: "string option"
  ro_tolerateUnauthorized :: bool

record 'a gateway_response =
  gr_data :: 'a
  gr_requestId :: string
  gr_receivedAt :: int

text \<open>The surroundings of a call; \<open>he_issues\<close> and \<open>he_envelope_issues\<close> are the texts zod gives a mismatch.\<close>

record http_env =
  he_err :: err_env
  he_requestId :: string
  he_defaultTimeoutMs :: int
  he_parse :: "string \<Rightarrow> js_value option"
  he_envelope :: "js_value \<Rightarrow> envelope option"
  he_issues :: "js_value \<Rightarrow> string"
  he_envelope_issues :: "js_value \<Rightarrow> string"

definition DEFAULT_TIMEOUT_MS :: int where "DEFAULT_TIMEOUT_MS = 20000"

definition http_error ::
    "http_env \<Rightarrow> error_kind \<Rightarrow> string \<Rightarrow> string \<Rightarrow> string option \<Rightarrow> bool \<Rightarrow> js_value option \<Rightarrow> js_value thrown" where
  "http_error env kind code message detail retryable payload = ThrownTrading (new_TradingError (he_err env)
     \<lparr>ei_kind = kind, ei_message = message, ei_code = Some code, ei_requestId = Some (he_requestId env),
      ei_detail = detail, ei_retryable = Some retryable, ei_payload = payload\<rparr>)"

definition parseContract ::
    "http_env \<Rightarrow> 'a request_options \<Rightarrow> js_value \<Rightarrow> js_value thrown + 'a" where
  "parseContract env opts value = (case ro_schema opts value of Some d \<Rightarrow> Inr d
     | None \<Rightarrow> Inl (http_error env Contract (''contract.'' @ ro_endpoint opts)
         ''The trading server returned data this app does not understand.''
         (Some (he_issues env value @ '' -- received '' @ describeShape value)) False None))"

definition respond ::
    "http_env \<Rightarrow> 'a request_options \<Rightarrow> js_value \<Rightarrow> js_value thrown + 'a gateway_response" where
  "respond env opts value = (case parseContract env opts value of Inl e \<Rightarrow> Inl e
     | Inr d \<Rightarrow> Inr \<lparr>gr_data = d, gr_requestId = he_requestId env, gr_receivedAt = env_now (he_err env)\<rparr>)"

definition first_text :: "string option \<Rightarrow> string option \<Rightarrow> string \<Rightarrow> string" where
  "first_text a b c = or_str (js_trim (or_else a '''')) (or_str (js_trim (or_else b '''')) c)"

text \<open>The reply once its body is there. The second part is the token the session handler is called with.\<close>

definition read_reply ::
    "http_env \<Rightarrow> 'a request_options \<Rightarrow> string option \<Rightarrow> nat \<Rightarrow> string \<Rightarrow>
     (js_value thrown + 'a gateway_response) \<times> string option option" where
  "read_reply env opts token status text =
     (if status = 401 then
        (Inl (http_error env Unauthorized ''http.401'' ''Your session has expired. Please sign in again.'' None False None),
         if ro_tolerateUnauthorized opts then None else Some token)
      else (
        if status = 403 then Inl (http_error env Forbidden ''http.403'' ''This account is not available on your session.''
            (Some ''The requested login is not in the token accounts claim.'') False None)
        else if 500 \<le> status then Inl (http_error env Unavailable (''http.'' @ show_int (int status))
            ''The trading server is temporarily unavailable.'' None True None)
        else case (if text = '''' then Some JNull else he_parse env text) of
          None \<Rightarrow> Inl (http_error env Contract (''contract.'' @ ro_endpoint opts)
            ''The trading server returned an unreadable response.''
            (Some (''non-JSON body ('' @ show_int (int (length text)) @ '' bytes)'')) False None)
        | Some parsedBody \<Rightarrow>
            if ro_rawBody opts then
              (if \<not> (200 \<le> status \<and> status \<le> 299) then
                 Inl (http_error env (if status = 400 then Validation else ErrUnknown) (''http.'' @ show_int (int status))
                   ''The trading server rejected the request.'' None False None)
               else respond env opts parsedBody)
            else case he_envelope env parsedBody of
              None \<Rightarrow> Inl (http_error env Contract (''contract.'' @ ro_endpoint opts @ ''.envelope'')
                ''The trading server returned an unexpected response.'' (Some (he_envelope_issues env parsedBody)) False None)
            | Some e \<Rightarrow>
                if \<not> ev_success e then
                  Inl (http_error env (if status = 400 then Validation else Unavailable) (''gateway.'' @ ro_endpoint opts)
                    (first_text (ev_errorMessage e) (ev_message e) ''The trading server could not complete this request.'')
                    None False (Some (decodeGatewayData (he_parse env) (ev_data e))))
                else
                  (let payload = decodeGatewayData (he_parse env) (ev_data e)
                   in respond env opts (if ro_unwrapAnswer opts then unwrapOne payload else payload)), None))"

definition attempt ::
    "http_env \<Rightarrow> 'a request_options \<Rightarrow> string option \<Rightarrow> transport \<Rightarrow>
     ((js_value thrown + 'a gateway_response) \<times> string option option) option" where
  "attempt env opts token t = (case fetch_phase (or_else (ro_timeoutMs opts) (he_defaultTimeoutMs env)) t of
     PhTimeout \<Rightarrow> Some (Inl (http_error env Timeout ''http.timeout'' ''The trading server did not respond in time.'' None True None), None)
   | PhCanceled \<Rightarrow> Some (Inl (http_error env ErrCanceled ''http.canceled'' ''Request canceled.'' None False None), None)
   | PhFailed m \<Rightarrow> Some (Inl (http_error env Network ''http.network'' ''Cannot reach the trading server.'' (Some m) True None), None)
   | PhResponse status \<Rightarrow> (case tp_body t of None \<Rightarrow> None
       | Some (BodyFailed m) \<Rightarrow> Some (Inl (ThrownOther m), None)
       | Some (BodyText text) \<Rightarrow> Some (read_reply env opts token status text)))"

definition attempt_headers :: "'a request_options \<Rightarrow> http_env \<Rightarrow> string option \<Rightarrow> bool \<Rightarrow> (string \<times> string) list" where
  "attempt_headers opts env token has_body =
     [(''Accept'', ''application/json''), (''X-Request-Id'', he_requestId env)] @
     (case token of Some t \<Rightarrow> if t = '''' then [] else [(''Authorization'', ''Bearer '' @ t)] | None \<Rightarrow> []) @
     (if has_body then [(''Content-Type'', ''application/json'')] else []) @
     (case ro_idempotencyKey opts of Some k \<Rightarrow> if k = '''' then [] else [(''Idempotency-Key'', k)] | None \<Rightarrow> [])"

section \<open>The retries\<close>

text \<open>
  Of each attempt: the token the provider gives, the transport, and whether the caller's signal fires before the
  wait that follows it is over. The log holds the tokens of the requests sent and those reported as refused.
\<close>

record call_script =
  cs_token :: "nat \<Rightarrow> string option"
  cs_transport :: "nat \<Rightarrow> transport"
  cs_aborted_wait :: "nat \<Rightarrow> bool"

record call_log =
  lg_sent :: "string option list"
  lg_refused :: "string option list"

fun run_attempts ::
    "http_env \<Rightarrow> 'a request_options \<Rightarrow> bool \<Rightarrow> call_script \<Rightarrow> nat \<Rightarrow> nat \<Rightarrow> call_log \<Rightarrow>
     (js_value thrown + 'a gateway_response) option \<times> call_log" where
  "run_attempts env opts mutation script 0 n sofar = (Some (Inl (http_error env ErrUnknown ''unknown'' ''Request failed.'' None False None)), sofar)"
| "run_attempts env opts mutation script (Suc left) n sofar =
     (let token = cs_token script n; log1 = sofar\<lparr>lg_sent := lg_sent sofar @ [token]\<rparr>
      in case attempt env opts token (cs_transport script n) of
           None \<Rightarrow> (None, log1)
         | Some (r, refused) \<Rightarrow>
             (let log2 = (case refused of None \<Rightarrow> log1 | Some t \<Rightarrow> log1\<lparr>lg_refused := lg_refused log1 @ [t]\<rparr>)
              in case r of
                   Inr d \<Rightarrow> (Some (Inr d), log2)
                 | Inl thrown \<Rightarrow>
                     (let e = TradingError_from (he_err env) thrown (no_fallback\<lparr>fb_requestId := Some (he_requestId env)\<rparr>)
                      in if \<not> mutation \<and> te_retryable e \<and> 0 < left
                         then if cs_aborted_wait script n then (Some (Inl ThrownAbort), log2)
                              else run_attempts env opts mutation script left (Suc n) log2
                         else (Some (Inl (ThrownTrading e)), log2))))"

definition max_attempts :: "http_method \<Rightarrow> 'a request_options \<Rightarrow> nat" where
  "max_attempts m opts = (if m \<noteq> GET then 1 else nat (max 1 (or_else (ro_retries opts) 2 + 1)))"

definition execute ::
    "http_env \<Rightarrow> 'a request_options \<Rightarrow> http_method \<Rightarrow> call_script \<Rightarrow>
     (js_value thrown + 'a gateway_response) option \<times> call_log" where
  "execute env opts m script =
     run_attempts env opts (m \<noteq> GET) script (max_attempts m opts) 0 \<lparr>lg_sent = [], lg_refused = []\<rparr>"

section \<open>What a call sends\<close>

text \<open>The outcome of one request of the log, as the retry loop judges it.\<close>

definition retryable_failure :: "http_env \<Rightarrow> 'a request_options \<Rightarrow> string option \<Rightarrow> transport \<Rightarrow> bool" where
  "retryable_failure env opts token t = (case attempt env opts token t of
     Some (Inl thrown, _) \<Rightarrow> te_retryable (TradingError_from (he_err env) thrown (no_fallback\<lparr>fb_requestId := Some (he_requestId env)\<rparr>))
   | _ \<Rightarrow> False)"

lemma run_attempts_log:
  assumes "run_attempts env opts mutation script left n sofar = (r, sofar')" "0 < left"
  shows "\<exists>k. 0 < k \<and> k \<le> left \<and> (mutation \<longrightarrow> k = 1) \<and>
    lg_sent sofar' = lg_sent sofar @ map (cs_token script) [n..<n + k] \<and>
    (\<forall>i < k - 1. retryable_failure env opts (cs_token script (n + i)) (cs_transport script (n + i)))"
  using assms
proof (induction left arbitrary: n sofar)
  case (Suc left)
  have stop: ?case if "lg_sent sofar' = lg_sent sofar @ [cs_token script n]"
    using that by (intro exI [of _ 1]) simp
  show ?case
  proof (cases "attempt env opts (cs_token script n) (cs_transport script n)")
    case None
    show ?thesis by (rule stop) (use None Suc.prems in \<open>auto simp: Let_def\<close>)
  next
    case (Some a)
    obtain o1 refused where a: "a = (o1, refused)" by (cases a) simp
    show ?thesis
    proof (cases o1)
      case (Inr d)
      show ?thesis by (rule stop) (use Inr Suc.prems Some a in \<open>auto simp: Let_def split: option.splits\<close>)
    next
      case (Inl thrown)
      define e where "e = TradingError_from (he_err env) thrown (no_fallback\<lparr>fb_requestId := Some (he_requestId env)\<rparr>)"
      show ?thesis
      proof (cases "\<not> mutation \<and> te_retryable e \<and> 0 < left \<and> \<not> cs_aborted_wait script n")
        case False
        show ?thesis
          by (rule stop) (use False Suc.prems Some a Inl in \<open>auto simp: Let_def e_def [symmetric] split: option.splits if_splits\<close>)
      next
        case True
        define lg2 where "lg2 = (case refused of None \<Rightarrow> sofar\<lparr>lg_sent := lg_sent sofar @ [cs_token script n]\<rparr>
          | Some t \<Rightarrow> sofar\<lparr>lg_sent := lg_sent sofar @ [cs_token script n], lg_refused := lg_refused sofar @ [t]\<rparr>)"
        have s: "lg_sent lg2 = lg_sent sofar @ [cs_token script n]" by (simp add: lg2_def split: option.splits)
        have run: "run_attempts env opts mutation script left (Suc n) lg2 = (r, sofar')"
          using Suc.prems Some a Inl True by (simp add: Let_def e_def [symmetric] lg2_def split: option.splits)
        from Suc.IH [OF run] True obtain k where k: "0 < k" "k \<le> left" "lg_sent sofar' = lg_sent lg2 @ map (cs_token script) [Suc n..<Suc n + k]"
          "\<forall>i < k - 1. retryable_failure env opts (cs_token script (Suc n + i)) (cs_transport script (Suc n + i))" by auto
        have first: "retryable_failure env opts (cs_token script n) (cs_transport script n)"
          using Some a Inl True by (simp add: retryable_failure_def e_def)
        have "retryable_failure env opts (cs_token script (n + i)) (cs_transport script (n + i))" if "i < k" for i
          using that k(4) first by (cases i) auto
        moreover have "[n..<n + Suc k] = n # [Suc n..<Suc n + k]" by (simp add: upt_conv_Cons)
        ultimately show ?thesis using True k s by (intro exI [of _ "Suc k"]) auto
      qed
    qed
  qed
qed simp

lemma max_attempts_pos [simp]: "0 < max_attempts m opts"
  by (simp add: max_attempts_def less_max_iff_disj)

lemma run_attempts_settles:
  assumes "\<And>i. tp_body (cs_transport script i) \<noteq> None"
  shows "fst (run_attempts env opts mutation script left n sofar) \<noteq> None"
proof (induction left arbitrary: n sofar)
  case (Suc left)
  have "attempt env opts (cs_token script n) (cs_transport script n) \<noteq> None"
    using assms [of n] by (auto simp: attempt_def split: fetch_phase.splits option.splits body_result.splits)
  then show ?case using Suc.IH by (auto simp: Let_def split: sum.splits option.splits)
qed simp

section \<open>Sharing equal reads\<close>

text \<open>
  \<^verbatim>\<open>inflight\<close>: the running read of each endpoint and URL. An entry is the shared request - its key, the
  callers still waiting, whether its own signal has fired, whether it has settled. A caller is a waiter: the
  entry it joined, whether it has a signal, whether that has fired.
\<close>

record shared_read =
  sr_key :: string
  sr_waiters :: int
  sr_aborted :: bool
  sr_settled :: bool

record waiter =
  wt_entry :: nat
  wt_signal :: bool
  wt_aborted :: bool

record sharing =
  sh_inflight :: "string \<rightharpoonup> nat"
  sh_entries :: "shared_read list"
  sh_waiters :: "waiter list"

definition no_sharing :: sharing where
  "no_sharing = \<lparr>sh_inflight = Map.empty, sh_entries = [], sh_waiters = []\<rparr>"

text \<open>The entry a read of this key joins, if there is one: a running one nobody has cancelled.\<close>

definition joinable :: "sharing \<Rightarrow> string \<Rightarrow> nat option" where
  "joinable S key = (case sh_inflight S key of None \<Rightarrow> None
     | Some e \<Rightarrow> if sr_aborted (sh_entries S ! e) then None else Some e)"

definition join_read :: "sharing \<Rightarrow> string \<Rightarrow> bool \<Rightarrow> sharing" where
  "join_read S key signal = (case joinable S key of
     Some e \<Rightarrow> S\<lparr>sh_entries := (sh_entries S)[e := (sh_entries S ! e)\<lparr>sr_waiters := sr_waiters (sh_entries S ! e) + 1\<rparr>],
       sh_waiters := sh_waiters S @ [\<lparr>wt_entry = e, wt_signal = signal, wt_aborted = False\<rparr>]\<rparr>
   | None \<Rightarrow> S\<lparr>sh_inflight := (sh_inflight S)(key \<mapsto> length (sh_entries S)),
       sh_entries := sh_entries S @ [\<lparr>sr_key = key, sr_waiters = 1, sr_aborted = False, sr_settled = False\<rparr>],
       sh_waiters := sh_waiters S @ [\<lparr>wt_entry = length (sh_entries S), wt_signal = signal, wt_aborted = False\<rparr>]\<rparr>)"

text \<open>A caller's signal fires while it waits: its listener runs once.\<close>

definition abort_waiter :: "sharing \<Rightarrow> nat \<Rightarrow> sharing" where
  "abort_waiter S c = (let w = sh_waiters S ! c; e = wt_entry w; r = sh_entries S ! e; n = sr_waiters r - 1 in
     S\<lparr>sh_entries := (sh_entries S)[e := r\<lparr>sr_waiters := n, sr_aborted := sr_aborted r \<or> n \<le> 0\<rparr>],
       sh_waiters := (sh_waiters S)[c := w\<lparr>wt_aborted := True\<rparr>]\<rparr>)"

definition settle_read :: "sharing \<Rightarrow> nat \<Rightarrow> sharing" where
  "settle_read S e = (let r = sh_entries S ! e in
     S\<lparr>sh_entries := (sh_entries S)[e := r\<lparr>sr_settled := True\<rparr>],
       sh_inflight := (if sh_inflight S (sr_key r) = Some e then (sh_inflight S)(sr_key r := None) else sh_inflight S)\<rparr>)"

inductive sharing_step :: "sharing \<Rightarrow> sharing \<Rightarrow> bool" where
  step_join: "sharing_step S (join_read S key signal)"
| step_abort: "c < length (sh_waiters S) \<Longrightarrow> wt_signal (sh_waiters S ! c) \<Longrightarrow> \<not> wt_aborted (sh_waiters S ! c) \<Longrightarrow>
    \<not> sr_settled (sh_entries S ! wt_entry (sh_waiters S ! c)) \<Longrightarrow> sharing_step S (abort_waiter S c)"
| step_settle: "e < length (sh_entries S) \<Longrightarrow> \<not> sr_settled (sh_entries S ! e) \<Longrightarrow> sharing_step S (settle_read S e)"

inductive sharing_reachable :: "sharing \<Rightarrow> bool" where
  "sharing_reachable no_sharing"
| "sharing_reachable S \<Longrightarrow> sharing_step S S' \<Longrightarrow> sharing_reachable S'"

text \<open>The callers of an entry still waiting for it.\<close>

definition waiting_for :: "sharing \<Rightarrow> nat \<Rightarrow> waiter list" where
  "waiting_for S e = filter (\<lambda>w. wt_entry w = e \<and> \<not> wt_aborted w) (sh_waiters S)"

definition sharing_ok :: "sharing \<Rightarrow> bool" where
  "sharing_ok S \<longleftrightarrow>
     (\<forall>w \<in> set (sh_waiters S). wt_entry w < length (sh_entries S)) \<and>
     (\<forall>k e. sh_inflight S k = Some e \<longrightarrow> e < length (sh_entries S) \<and> sr_key (sh_entries S ! e) = k \<and> \<not> sr_settled (sh_entries S ! e)) \<and>
     (\<forall>e < length (sh_entries S). \<not> sr_settled (sh_entries S ! e) \<longrightarrow>
        sr_waiters (sh_entries S ! e) = int (length (waiting_for S e)) \<and>
        (sr_aborted (sh_entries S ! e) \<longleftrightarrow> waiting_for S e = []) \<and>
        (\<not> sr_aborted (sh_entries S ! e) \<longrightarrow> sh_inflight S (sr_key (sh_entries S ! e)) = Some e))"

lemma sharing_okD:
  assumes "sharing_ok S"
  shows "w \<in> set (sh_waiters S) \<Longrightarrow> wt_entry w < length (sh_entries S)"
    and "sh_inflight S k = Some e \<Longrightarrow> e < length (sh_entries S) \<and> sr_key (sh_entries S ! e) = k \<and> \<not> sr_settled (sh_entries S ! e)"
    and "e < length (sh_entries S) \<Longrightarrow> \<not> sr_settled (sh_entries S ! e) \<Longrightarrow>
      sr_waiters (sh_entries S ! e) = int (length (waiting_for S e)) \<and>
      (sr_aborted (sh_entries S ! e) \<longleftrightarrow> waiting_for S e = []) \<and>
      (\<not> sr_aborted (sh_entries S ! e) \<longrightarrow> sh_inflight S (sr_key (sh_entries S ! e)) = Some e)"
  using assms by (simp_all add: sharing_ok_def)

lemma joinableD: "sharing_ok S \<Longrightarrow> joinable S key = Some e \<Longrightarrow>
    sh_inflight S key = Some e \<and> e < length (sh_entries S) \<and> sr_key (sh_entries S ! e) = key \<and>
    \<not> sr_settled (sh_entries S ! e) \<and> \<not> sr_aborted (sh_entries S ! e)"
  by (auto simp: joinable_def dest: sharing_okD(2) split: option.splits if_splits)

lemma join_read_ok:
  assumes "sharing_ok S"
  shows "sharing_ok (join_read S key signal)"
proof (cases "joinable S key")
  case (Some e)
  note e = joinableD [OF assms Some]
  define S' where "S' = join_read S key signal"
  have w: "waiting_for S' x = waiting_for S x @ (if x = e then [\<lparr>wt_entry = e, wt_signal = signal, wt_aborted = False\<rparr>] else [])" for x
    using Some by (simp add: S'_def waiting_for_def join_read_def)
  have "sharing_ok S'"
    unfolding sharing_ok_def w
    using assms e Some sharing_okD(3) [OF assms]
    by (auto simp: S'_def join_read_def nth_list_update dest: sharing_okD(1,2) [OF assms])
  then show ?thesis by (simp add: S'_def)
next
  case None
  define S' where "S' = join_read S key signal"
  define n where "n = length (sh_entries S)"
  have fresh: "waiting_for S n = []"
    unfolding waiting_for_def n_def filter_empty_conv using sharing_okD(1) [OF assms] by (metis less_irrefl)
  have w: "waiting_for S' x = waiting_for S x @ (if x = n then [\<lparr>wt_entry = n, wt_signal = signal, wt_aborted = False\<rparr>] else [])" for x
    using None by (simp add: S'_def waiting_for_def join_read_def n_def)
  have gone: "sr_aborted (sh_entries S ! x)" if "x < n" "\<not> sr_settled (sh_entries S ! x)" "sr_key (sh_entries S ! x) = key" for x
    using sharing_okD(3) [OF assms, of x] that None by (auto simp: joinable_def n_def split: if_splits option.splits)
  have "sharing_ok S'"
    unfolding sharing_ok_def w
    using None fresh gone sharing_okD(3) [OF assms]
    by (auto simp: S'_def join_read_def n_def [symmetric] nth_append less_Suc_eq dest: sharing_okD(1,2) [OF assms, folded n_def] split: if_splits)
  then show ?thesis by (simp add: S'_def)
qed

lemma filter_update:
  "c < length xs \<Longrightarrow> P (xs ! c) \<Longrightarrow> \<not> P y \<Longrightarrow> Suc (length (filter P (xs[c := y]))) = length (filter P xs)"
  by (induction xs arbitrary: c) (auto simp: nth_Cons split: nat.splits)

lemma abort_waiter_ok:
  assumes "sharing_ok S" "c < length (sh_waiters S)" "\<not> wt_aborted (sh_waiters S ! c)"
    "\<not> sr_settled (sh_entries S ! wt_entry (sh_waiters S ! c))"
  shows "sharing_ok (abort_waiter S c)"
proof -
  define S' e where "S' = abort_waiter S c" and "e = wt_entry (sh_waiters S ! c)"
  have e: "e < length (sh_entries S)" "\<not> sr_settled (sh_entries S ! e)"
    using assms(2,4) sharing_okD(1) [OF assms(1)] by (simp_all add: e_def)
  have same: "waiting_for S' x = waiting_for S x" if "x \<noteq> e" for x
  proof -
    have "filter P (xs[c := y]) = filter P xs" if "\<not> P (xs ! c)" "\<not> P y" "c < length xs" for P y and xs :: "waiter list"
      using that by (induction xs arbitrary: c) (auto simp: nth_Cons split: nat.splits)
    then show ?thesis using that assms(2) by (simp add: waiting_for_def S'_def abort_waiter_def Let_def e_def)
  qed
  have one: "Suc (length (waiting_for S' e)) = length (waiting_for S e)"
    using assms(2,3) filter_update [of c "sh_waiters S" "\<lambda>w. wt_entry w = e \<and> \<not> wt_aborted w"]
    by (simp add: waiting_for_def S'_def abort_waiter_def Let_def e_def)
  note old = sharing_okD(3) [OF assms(1) e]
  have new: "sr_waiters (sh_entries S' ! e) = int (length (waiting_for S' e))"
    "sr_aborted (sh_entries S' ! e) \<longleftrightarrow> waiting_for S' e = []"
    using old one e by (auto simp: S'_def abort_waiter_def Let_def e_def [symmetric] simp flip: length_0_conv)
  have "sharing_ok S'"
    unfolding sharing_ok_def
  proof (intro conjI allI impI ballI)
    fix w assume "w \<in> set (sh_waiters S')"
    then have "wt_entry w = e \<or> w \<in> set (sh_waiters S)"
      by (auto simp: S'_def abort_waiter_def Let_def e_def dest!: set_update_subset_insert [THEN subsetD])
    then show "wt_entry w < length (sh_entries S')"
      using e sharing_okD(1) [OF assms(1)] by (auto simp: S'_def abort_waiter_def Let_def)
  next
    fix x assume "x < length (sh_entries S')" "\<not> sr_settled (sh_entries S' ! x)"
    then have x: "x < length (sh_entries S)" "\<not> sr_settled (sh_entries S ! x)"
      using e by (auto simp: S'_def abort_waiter_def Let_def e_def [symmetric] nth_list_update split: if_splits)
    show "sr_waiters (sh_entries S' ! x) = int (length (waiting_for S' x))"
      "sr_aborted (sh_entries S' ! x) = (waiting_for S' x = [])"
      using new same [of x] sharing_okD(3) [OF assms(1) x]
      by (cases "x = e"; simp add: S'_def abort_waiter_def Let_def e_def [symmetric])+
    assume "\<not> sr_aborted (sh_entries S' ! x)"
    then show "sh_inflight S' (sr_key (sh_entries S' ! x)) = Some x"
      using x e sharing_okD(3) [OF assms(1) x]
      by (cases "x = e") (auto simp: S'_def abort_waiter_def Let_def e_def [symmetric])
  qed (use e sharing_okD(2) [OF assms(1)] in \<open>auto simp: S'_def abort_waiter_def Let_def e_def [symmetric] nth_list_update split: if_splits\<close>)
  then show ?thesis by (simp add: S'_def)
qed

lemma settle_read_ok:
  assumes "sharing_ok S" "e < length (sh_entries S)"
  shows "sharing_ok (settle_read S e)"
proof -
  define S' where "S' = settle_read S e"
  have s: "waiting_for S' x = waiting_for S x" "sh_waiters S' = sh_waiters S" "length (sh_entries S') = length (sh_entries S)"
    "sr_key (sh_entries S' ! x) = sr_key (sh_entries S ! x)" "sr_waiters (sh_entries S' ! x) = sr_waiters (sh_entries S ! x)"
    "sr_aborted (sh_entries S' ! x) = sr_aborted (sh_entries S ! x)"
    "sr_settled (sh_entries S' ! x) \<longleftrightarrow> x = e \<or> sr_settled (sh_entries S ! x)"
    "sh_inflight S' k = (if sh_inflight S k = Some e \<and> k = sr_key (sh_entries S ! e) then None else sh_inflight S k)" for x k
    using assms(2) by (auto simp: S'_def settle_read_def Let_def waiting_for_def nth_list_update)
  have "sharing_ok S'"
    unfolding sharing_ok_def s
  proof (intro conjI allI impI ballI)
    fix k x assume "(if sh_inflight S k = Some e \<and> k = sr_key (sh_entries S ! e) then None else sh_inflight S k) = Some x"
    then have "sh_inflight S k = Some x" "x \<noteq> e" using sharing_okD(2) [OF assms(1), of k e] by (auto split: if_splits)
    then show "x < length (sh_entries S)" "sr_key (sh_entries S ! x) = k" "\<not> (x = e \<or> sr_settled (sh_entries S ! x))"
      using sharing_okD(2) [OF assms(1)] by auto
  qed (use sharing_okD(1,3) [OF assms(1)] in auto)
  then show ?thesis by (simp add: S'_def)
qed

lemma sharing_reachable_ok: "sharing_reachable S \<Longrightarrow> sharing_ok S"
proof (induction rule: sharing_reachable.induct)
  case 1
  show ?case by (simp add: sharing_ok_def no_sharing_def)
next
  case (2 S S')
  from 2(2) show ?case
    by cases (auto intro: join_read_ok abort_waiter_ok settle_read_ok 2(3))
qed

section \<open>Refused sessions and vouched data\<close>

lemma read_reply_refused:
  "read_reply env opts token status text = (r, Some t) \<Longrightarrow>
     status = 401 \<and> t = token \<and> \<not> ro_tolerateUnauthorized opts \<and>
     r = Inl (http_error env Unauthorized ''http.401'' ''Your session has expired. Please sign in again.'' None False None)"
  by (auto simp: read_reply_def split: if_splits)

lemma attempt_refused:
  "attempt env opts token t = Some (r, Some t') \<Longrightarrow> t' = token \<and> \<not> ro_tolerateUnauthorized opts \<and>
     r = Inl (http_error env Unauthorized ''http.401'' ''Your session has expired. Please sign in again.'' None False None)"
  by (auto simp: attempt_def dest!: read_reply_refused split: fetch_phase.splits option.splits body_result.splits)

lemma run_attempts_refused:
  assumes "run_attempts env opts mutation script left n sofar = (r, sofar')" "lg_refused sofar = []"
  shows "lg_refused sofar' = [] \<or> (\<not> ro_tolerateUnauthorized opts \<and> lg_refused sofar' = [last (lg_sent sofar')] \<and>
    (\<exists>e. r = Some (Inl (ThrownTrading e)) \<and> te_kind e = Unauthorized))"
  using assms
proof (induction left arbitrary: n sofar)
  case (Suc left)
  show ?case
  proof (cases "attempt env opts (cs_token script n) (cs_transport script n)")
    case None
    then show ?thesis using Suc.prems by (auto simp: Let_def)
  next
    case (Some a)
    obtain o1 refused where a: "a = (o1, refused)" by (cases a) simp
    show ?thesis
    proof (cases refused)
      case None
      then show ?thesis
        using Suc.prems Some a Suc.IH [of "Suc n" "sofar\<lparr>lg_sent := lg_sent sofar @ [cs_token script n]\<rparr>"]
        by (auto simp: Let_def split: sum.splits if_splits)
    next
      case r: (Some t)
      show ?thesis
        using Suc.prems Some attempt_refused [of env opts "cs_token script n" "cs_transport script n" o1 t]
        by (auto simp: a r Let_def http_error_def new_TradingError_def)
    qed
  qed
qed simp

text \<open>A body that stalls after the headers is beyond the timeout and beyond the caller's signal.\<close>

lemma stalled_body_never_settles:
  "tp_fetch t = Some (ms, FetchResponse status) \<Longrightarrow> ms < or_else (ro_timeoutMs opts) (he_defaultTimeoutMs env) \<Longrightarrow>
     tp_body t = None \<Longrightarrow> tp_cancel t = None \<or> (\<exists>c. tp_cancel t = Some c \<and> ms < c) \<Longrightarrow>
     attempt env opts token t = None"
  by (auto simp: attempt_def fetch_phase_def Let_def)

text \<open>A signal that fired before the send does not stop a mutation.\<close>

lemma dead_signal_ignored: "c \<le> 0 \<Longrightarrow> fetch_phase limit (t\<lparr>tp_cancel := Some c\<rparr>) = fetch_phase limit (t\<lparr>tp_cancel := None\<rparr>)"
  by (simp add: fetch_phase_def)

text \<open>
  A submission whose connection breaks after it was sent, or that a proxy answers with a status of 500 and more, is
  reported as one that failed.
\<close>

lemma broken_submission_is_definite:
  assumes "attempt env opts token t = Some (Inl (ThrownTrading e), refused)" "te_kind e = Network \<or> te_kind e = Unavailable"
    "te_payload e = None"
  shows "interpretFailure aenv (ThrownTrading e) = Inl e"
  using assms by (auto simp: interpretFailure_def Let_def)

section \<open>Properties\<close>

text \<open>C10. A mutation is sent once, whatever happens to it. A read is sent again only after a failure marked
  retryable, and as often as its retry budget allows at most.\<close>

theorem mutation_sent_once:
  assumes "execute env opts m script = (outcome, trail)"
  shows "\<exists>k. 0 < k \<and> k \<le> max_attempts m opts \<and> (m \<noteq> GET \<longrightarrow> k = 1) \<and> lg_sent trail = map (cs_token script) [0..<k] \<and>
    (\<forall>i < k - 1. retryable_failure env opts (cs_token script i) (cs_transport script i))"
  using run_attempts_log [OF assms [unfolded execute_def] max_attempts_pos] by auto

text \<open>C11. A shared read is cancelled exactly when every caller that joined it has cancelled: no caller inherits a
  cancellation it did not ask for, and no two running reads of one address serve callers side by side.\<close>

theorem shared_read_cancelled_iff:
  assumes "sharing_reachable S" "e < length (sh_entries S)" "\<not> sr_settled (sh_entries S ! e)"
  shows "(sr_aborted (sh_entries S ! e) \<longleftrightarrow> (\<forall>w \<in> set (sh_waiters S). wt_entry w = e \<longrightarrow> wt_aborted w)) \<and>
    (\<forall>e' < length (sh_entries S). \<not> sr_settled (sh_entries S ! e') \<and> sr_key (sh_entries S ! e') = sr_key (sh_entries S ! e) \<and>
       \<not> sr_aborted (sh_entries S ! e) \<and> \<not> sr_aborted (sh_entries S ! e') \<longrightarrow> e' = e)"
proof -
  note ok = sharing_okD(3) [OF sharing_reachable_ok [OF assms(1)]]
  have "waiting_for S e = [] \<longleftrightarrow> (\<forall>w \<in> set (sh_waiters S). wt_entry w = e \<longrightarrow> wt_aborted w)"
    by (auto simp: waiting_for_def filter_empty_conv)
  moreover have "e' = e" if "e' < length (sh_entries S)" "\<not> sr_settled (sh_entries S ! e')"
      "sr_key (sh_entries S ! e') = sr_key (sh_entries S ! e)" "\<not> sr_aborted (sh_entries S ! e)" "\<not> sr_aborted (sh_entries S ! e')" for e'
    using ok [OF assms(2,3)] ok [OF that(1,2)] that(3-5) by simp
  ultimately show ?thesis using ok [OF assms(2,3)] by blast
qed

text \<open>The session handler is called at most once in a call, and only with the token the refused request carried:
  a request answered late, after the session was renewed, never signs the trader out of the new one. A probe that
  tolerates a refusal never reports it.\<close>

theorem refusal_names_its_token:
  assumes "execute env opts m script = (outcome, trail)"
  shows "lg_refused trail = [] \<or> (\<not> ro_tolerateUnauthorized opts \<and> lg_refused trail = [last (lg_sent trail)] \<and>
    (\<exists>e. outcome = Some (Inl (ThrownTrading e)) \<and> te_kind e = Unauthorized))"
  using run_attempts_refused [OF assms [unfolded execute_def]] by simp

text \<open>A call settles as soon as the bodies of its replies arrive, whatever else the transport does.\<close>

theorem call_settles:
  "(\<And>i. tp_body (cs_transport script i) \<noteq> None) \<Longrightarrow> fst (execute env opts m script) \<noteq> None"
  by (simp add: execute_def run_attempts_settles)

section \<open>Witnesses\<close>

definition sample_http :: http_env where
  "sample_http = \<lparr>he_err = \<lparr>env_now = 0, env_uuid = ''u''\<rparr>, he_requestId = ''r'', he_defaultTimeoutMs = DEFAULT_TIMEOUT_MS,
     he_parse = (\<lambda>_. None), he_envelope = (\<lambda>_. None), he_issues = (\<lambda>_. ''''), he_envelope_issues = (\<lambda>_. '''')\<rparr>"

definition sample_options :: "unit request_options" where
  "sample_options = \<lparr>ro_endpoint = ''e'', ro_schema = (\<lambda>_. None), ro_timeoutMs = None, ro_retries = None,
     ro_rawBody = False, ro_unwrapAnswer = False, ro_idempotencyKey = None, ro_tolerateUnauthorized = False\<rparr>"

definition always_down :: call_script where
  "always_down = \<lparr>cs_token = (\<lambda>_. Some ''t''),
     cs_transport = (\<lambda>_. \<lparr>tp_fetch = Some (1, FetchFailed ''reset''), tp_cancel = None, tp_body = Some (BodyText '''')\<rparr>),
     cs_aborted_wait = (\<lambda>_. False)\<rparr>"

definition refused_script :: call_script where
  "refused_script = \<lparr>cs_token = (\<lambda>_. Some ''t''),
     cs_transport = (\<lambda>_. \<lparr>tp_fetch = Some (1, FetchResponse 401), tp_cancel = None, tp_body = Some (BodyText '''')\<rparr>),
     cs_aborted_wait = (\<lambda>_. False)\<rparr>"

lemma sample_calls:
  "lg_sent (snd (execute sample_http sample_options GET always_down)) = [Some ''t'', Some ''t'', Some ''t'']"
  "lg_sent (snd (execute sample_http sample_options POST always_down)) = [Some ''t'']"
  "lg_refused (snd (execute sample_http sample_options GET refused_script)) = [Some ''t'']"
  by code_simp+

theorem mutation_sent_once_witness:
  "\<exists>k. 0 < k \<and> k \<le> max_attempts POST sample_options \<and> k = 1 \<and>
     lg_sent (snd (execute sample_http sample_options POST always_down)) = map (cs_token always_down) [0..<k]"
  using mutation_sent_once [OF prod.collapse [symmetric], where m = POST] by blast

theorem refusal_names_its_token_witness:
  "lg_refused (snd (execute sample_http sample_options GET refused_script)) =
     [last (lg_sent (snd (execute sample_http sample_options GET refused_script)))]"
proof -
  have "lg_refused (snd (execute sample_http sample_options GET refused_script)) \<noteq> []"
    unfolding sample_calls(3) by simp
  then show ?thesis using refusal_names_its_token [OF prod.collapse [symmetric]] by blast
qed

definition two_callers :: sharing where
  "two_callers = abort_waiter (join_read (join_read no_sharing ''a'' True) ''a'' True) 0"

theorem shared_read_cancelled_iff_witness: "\<not> sr_aborted (sh_entries two_callers ! 0)"
proof -
  have "sharing_reachable (join_read (join_read no_sharing ''a'' True) ''a'' True)"
    by (rule sharing_reachable.intros(2) [OF sharing_reachable.intros(2) [OF sharing_reachable.intros(1) step_join] step_join])
  moreover have "sharing_step (join_read (join_read no_sharing ''a'' True) ''a'' True) two_callers"
    unfolding two_callers_def by (rule step_abort) code_simp+
  ultimately have "sharing_reachable two_callers" by (rule sharing_reachable.intros(2))
  moreover have "0 < length (sh_entries two_callers)" "\<not> sr_settled (sh_entries two_callers ! 0)" by code_simp+
  moreover have "\<not> (\<forall>w \<in> set (sh_waiters two_callers). wt_entry w = 0 \<longrightarrow> wt_aborted w)" by code_simp
  ultimately show ?thesis using shared_read_cancelled_iff [of two_callers 0] by blast
qed

end
