(* ===== verification/Renewal.thy ===== *)
theory Renewal
  imports HttpClient "HOL-Library.Word"
begin

text \<open>
  Keeping a session alive: what a refused credential means
  (\<^verbatim>\<open>frontend/src/app/providers/unauthorized-policy.ts\<close>) and when a credential is renewed
  (\<^verbatim>\<open>frontend/src/app/providers/session-renewal.ts\<close>, and the renewal effect of \<^verbatim>\<open>frontend/src/app/App.tsx\<close>).

  The policy is a state machine: refused requests, the renewal's two moments (its replacement is stored; its
  promise settles) and the credentials others install arrive in any order. The timers are walked with any
  lateness of the platform.

  Shown: no renewal is started on the output of a renewal, so that renewals are bounded by the credentials installed
  and the renewals that failed; a walk of timer hops ends, never early and never late by more than
  the platform was; a session whose renewals fail is declared over after its expiry and not before.
\<close>

section \<open>The policy\<close>

text \<open>
  \<open>po_token\<close> is what \<^verbatim>\<open>currentToken()\<close> reads. A renewal in flight holds the errors of the requests that
  wait for it; \<open>po_minted\<close> is the replacement it has stored but not yet reported.
\<close>

record 'e policy =
  po_token :: "string option"
  po_inFlight :: "'e list option"
  po_minted :: "string option"
  po_renewedInto :: "string option"

datatype 'e policy_effect = RenewalStarted string | SessionExpired 'e

definition on_unauthorized :: "'e \<Rightarrow> string option \<Rightarrow> 'e policy \<Rightarrow> 'e policy \<times> 'e policy_effect list" where
  "on_unauthorized e rejected S = (case rejected of
     None \<Rightarrow> (S, [SessionExpired e])
   | Some t \<Rightarrow>
       if po_token S \<noteq> Some t then (S, [])
       else if po_renewedInto S = Some t then (S, [SessionExpired e])
       else (case po_inFlight S of
           Some waiters \<Rightarrow> (S\<lparr>po_inFlight := Some (waiters @ [e])\<rparr>, [])
         | None \<Rightarrow> (S\<lparr>po_inFlight := Some [e], po_minted := None\<rparr>, [RenewalStarted t])))"

text \<open>
  The renewal's promise settles with the replacement it stored, or with null. Clearing the flight and
  the callbacks of the waiting requests are microtasks of one turn.
\<close>

definition renewal_settles :: "'e policy \<Rightarrow> 'e policy \<times> 'e policy_effect list" where
  "renewal_settles S = (case po_inFlight S of None \<Rightarrow> (S, [])
     | Some waiters \<Rightarrow>
         (case po_minted S of
            None \<Rightarrow> (S\<lparr>po_inFlight := None\<rparr>, map SessionExpired waiters)
          | Some t \<Rightarrow> (S\<lparr>po_inFlight := None, po_minted := None, po_renewedInto := Some t\<rparr>, [])))"

text \<open>What happens to the policy, and what its trail keeps of it.\<close>

datatype 'e policy_event =
    Refused 'e "string option"
  | ReplacementStored string
  | RenewalSettled
  | Installed "string option"

datatype 'e policy_mark = Effect "'e policy_effect" | CredentialInstalled string | RenewalFailed | RenewalSucceeded

fun policy_step :: "'e policy_event \<Rightarrow> 'e policy \<Rightarrow> 'e policy \<times> 'e policy_mark list" where
  "policy_step (Refused e rejected) S = (let (S', fx) = on_unauthorized e rejected S in (S', map Effect fx))"
| "policy_step (ReplacementStored t) S =
     (if po_inFlight S \<noteq> None \<and> po_minted S = None then (S\<lparr>po_token := Some t, po_minted := Some t\<rparr>, []) else (S, []))"
| "policy_step RenewalSettled S = (let (S', fx) = renewal_settles S in
     (S', map Effect fx @ (if po_inFlight S = None then [] else if po_minted S = None then [RenewalFailed] else [RenewalSucceeded])))"
| "policy_step (Installed t) S =
     (S\<lparr>po_token := t\<rparr>, (case t of None \<Rightarrow> [] | Some c \<Rightarrow> [CredentialInstalled c]))"

definition initial_policy :: "'e policy" where
  "initial_policy = \<lparr>po_token = None, po_inFlight = None, po_minted = None, po_renewedInto = None\<rparr>"

fun run_policy :: "'e policy_event list \<Rightarrow> 'e policy \<Rightarrow> 'e policy \<times> 'e policy_mark list" where
  "run_policy [] S = (S, [])"
| "run_policy (x # xs) S = (let (S1, m1) = policy_step x S; (S2, m2) = run_policy xs S1 in (S2, m1 @ m2))"

definition renewals :: "'e policy_mark list \<Rightarrow> nat" where
  "renewals ms = length (filter (\<lambda>m. \<exists>t. m = Effect (RenewalStarted t)) ms)"

definition installs :: "'e policy_mark list \<Rightarrow> nat" where
  "installs ms = length (filter (\<lambda>m. \<exists>t. m = CredentialInstalled t) ms)"

definition failures :: "'e policy_mark list \<Rightarrow> nat" where
  "failures ms = length (filter (\<lambda>m. m = RenewalFailed) ms)"

definition successes :: "'e policy_mark list \<Rightarrow> nat" where
  "successes ms = length (filter (\<lambda>m. m = RenewalSucceeded) ms)"

lemma counts [simp]:
  "renewals (CredentialInstalled t # ms) = renewals ms"
  "renewals [] = 0" "installs [] = 0" "failures [] = 0" "successes [] = 0" "successes (ms @ ns) = successes ms + successes ns"
  "successes [CredentialInstalled t] = 0" "successes [RenewalFailed] = 0" "successes [RenewalSucceeded] = 1"
  "successes [Effect x] = 0" "successes (map Effect xs) = 0"
  "renewals [RenewalSucceeded] = 0" "installs [RenewalSucceeded] = 0" "failures [RenewalSucceeded] = 0"
  "renewals (ms @ ns) = renewals ms + renewals ns" "installs (ms @ ns) = installs ms + installs ns"
  "failures (ms @ ns) = failures ms + failures ns"
  "renewals [CredentialInstalled t] = 0" "installs [CredentialInstalled t] = 1" "failures [CredentialInstalled t] = 0"
  "renewals [RenewalFailed] = 0" "installs [RenewalFailed] = 0" "failures [RenewalFailed] = 1"
  "renewals [Effect (RenewalStarted t)] = 1" "installs [Effect x] = 0" "failures [Effect x] = 0"
  "renewals [Effect (SessionExpired e)] = 0"
  "installs (map Effect xs) = 0" "failures (map Effect xs) = 0" "renewals (map (Effect \<circ> SessionExpired) es) = 0"
  "failures (map (Effect \<circ> f) es) = 0" "successes (map (Effect \<circ> f) es) = 0" "installs (map (Effect \<circ> f) es) = 0"
  by (auto simp: renewals_def installs_def failures_def successes_def filter_empty_conv)

text \<open>
  Whether a renewal could yet be started on the credential now held, or after the one under way: an allowance that
  only an installation or a failure restores.
\<close>

definition allowance :: "'e policy \<Rightarrow> nat" where
  "allowance S = (case po_inFlight S of
     None \<Rightarrow> of_bool (po_token S \<noteq> None \<and> po_token S \<noteq> po_renewedInto S)
   | Some _ \<Rightarrow> of_bool (po_minted S \<noteq> None \<and> po_token S \<noteq> None \<and> po_token S \<noteq> po_minted S))"

lemma allowance_simps [simp]:
  "po_inFlight S = Some ws \<Longrightarrow> po_minted S = None \<Longrightarrow> allowance S = 0"
  "po_inFlight S = Some ws \<Longrightarrow> po_minted S = Some t \<Longrightarrow> allowance S = of_bool (po_token S \<noteq> None \<and> po_token S \<noteq> Some t)"
  "po_inFlight S = None \<Longrightarrow> allowance S = of_bool (po_token S \<noteq> None \<and> po_token S \<noteq> po_renewedInto S)"
  by (simp_all add: allowance_def)

lemma allowance_le_1: "allowance S \<le> 1"
  by (simp add: allowance_def split: option.split)

lemma policy_step_allowance:
  "policy_step x S = (S', ms) \<Longrightarrow> renewals ms + allowance S' \<le> allowance S + installs ms + failures ms"
proof (cases x)
  case (Refused e rejected)
  then show "policy_step x S = (S', ms) \<Longrightarrow> ?thesis"
    by (cases rejected; cases "po_inFlight S"; cases "po_minted S") (auto simp: on_unauthorized_def split: if_splits)
next
  case (ReplacementStored t)
  then show "policy_step x S = (S', ms) \<Longrightarrow> ?thesis"
    by (cases "po_inFlight S"; cases "po_minted S") auto
next
  case RenewalSettled
  then show "policy_step x S = (S', ms) \<Longrightarrow> ?thesis"
    by (cases "po_inFlight S"; cases "po_minted S") (auto simp: renewal_settles_def allowance_le_1)
next
  case (Installed t)
  then show "policy_step x S = (S', ms) \<Longrightarrow> ?thesis"
    using allowance_le_1 [of S'] by (cases t; cases "po_inFlight S"; cases "po_minted S") auto
qed

lemma run_policy_allowance:
  "run_policy xs S = (S', ms) \<Longrightarrow> renewals ms + allowance S' \<le> allowance S + installs ms + failures ms"
proof (induction xs arbitrary: S S' ms)
  case (Cons x xs)
  obtain S1 m1 where 1: "policy_step x S = (S1, m1)" by fastforce
  obtain S2 m2 where 2: "run_policy xs S1 = (S2, m2)" by fastforce
  show ?case using Cons.prems Cons.IH [OF 2] policy_step_allowance [OF 1] by (auto simp: 1 2)
qed simp

text \<open>Never two renewals at once: every one started has settled, but for the one in flight.\<close>

lemma policy_step_settled:
  "policy_step x S = (S', ms) \<Longrightarrow> renewals ms + of_bool (po_inFlight S \<noteq> None) =
     failures ms + successes ms + of_bool (po_inFlight S' \<noteq> None)"
  by (cases x) (auto simp: on_unauthorized_def renewal_settles_def split: option.splits if_splits)

lemma run_policy_settled:
  "run_policy xs S = (S', ms) \<Longrightarrow> renewals ms + of_bool (po_inFlight S \<noteq> None) =
     failures ms + successes ms + of_bool (po_inFlight S' \<noteq> None)"
proof (induction xs arbitrary: S S' ms)
  case (Cons x xs)
  obtain S1 m1 where 1: "policy_step x S = (S1, m1)" by fastforce
  obtain S2 m2 where 2: "run_policy xs S1 = (S2, m2)" by fastforce
  show ?case using Cons.prems Cons.IH [OF 2] policy_step_settled [OF 1] by (auto simp: 1 2)
qed simp

text \<open>
  The comment promises one renewal per credential at most. A failed one leaves the credential in place: each
  later refusal of it starts another.
\<close>

lemma failed_renewals_repeat:
  "renewals (snd (run_policy (Installed (Some t) # concat (replicate n [Refused e (Some t), RenewalSettled])) initial_policy)) = n"
proof -
  have "\<exists>ms. run_policy (concat (replicate n [Refused e (Some t), RenewalSettled])) (initial_policy\<lparr>po_token := Some t\<rparr>) =
      (initial_policy\<lparr>po_token := Some t\<rparr>, ms) \<and> renewals ms = n"
  proof (induction n)
    case (Suc n)
    then show ?case by (auto simp: initial_policy_def on_unauthorized_def renewal_settles_def renewals_def)
  qed simp
  then show ?thesis by (auto simp: initial_policy_def)
qed

section \<open>The timer of a renewal\<close>

definition SESSION_RENEW_SKEW_MS :: int where "SESSION_RENEW_SKEW_MS = 60000"

definition SESSION_RENEW_RETRY_MS :: int where "SESSION_RENEW_RETRY_MS = 15000"

definition SESSION_RENEW_CHUNK_MS :: int where "SESSION_RENEW_CHUNK_MS = 6 * 60 * 60 * 1000"

text \<open>A platform timer takes its delay as a signed 32-bit number, and a negative one as zero.\<close>

definition timer_delay :: "int \<Rightarrow> int" where
  "timer_delay ms = max 0 (sint (word_of_int ms :: 32 word))"

lemma timer_delay_id: "0 \<le> ms \<Longrightarrow> ms < 2 ^ 31 \<Longrightarrow> timer_delay ms = ms"
  by (simp add: timer_delay_def sint_sbintrunc' signed_take_bit_int_eq_self)

text \<open>A long delay fires at once: what the hops are there to avoid.\<close>

lemma long_delay_fires_at_once: "timer_delay (25 * 24 * 60 * 60 * 1000) = 0"
  by (simp add: timer_delay_def)

record renewal_options =
  rn_skewMs :: int
  rn_chunkMs :: int
  rn_minDelayMs :: int

definition renewal_defaults :: renewal_options where
  "renewal_defaults = \<lparr>rn_skewMs = SESSION_RENEW_SKEW_MS, rn_chunkMs = SESSION_RENEW_CHUNK_MS, rn_minDelayMs = 0\<rparr>"

datatype renewal_timer = DueIn int | HopIn int

definition arm_hop :: "renewal_options \<Rightarrow> int \<Rightarrow> int \<Rightarrow> renewal_timer" where
  "arm_hop opts expiresAt now =
     (let due = max (rn_minDelayMs opts) (expiresAt - now - rn_skewMs opts)
      in if due \<le> rn_chunkMs opts then DueIn due else HopIn (rn_chunkMs opts))"

text \<open>
  The walk from the arming to \<^verbatim>\<open>onDue\<close>: the \<open>n\<close>-th timer fires \<open>late n\<close> milliseconds after its delay.
  \<open>None\<close> is a walk that never ends.
\<close>

partial_function (option) walk_hops :: "renewal_options \<Rightarrow> int \<Rightarrow> (nat \<Rightarrow> nat) \<Rightarrow> nat \<Rightarrow> int \<Rightarrow> int option" where
  "walk_hops opts expiresAt late n now =
     (case arm_hop opts expiresAt now of
        DueIn ms \<Rightarrow> Some (now + timer_delay ms + int (late n))
      | HopIn ms \<Rightarrow> walk_hops opts expiresAt late (Suc n) (now + timer_delay ms + int (late n)))"

definition armSessionRenewal :: "renewal_options \<Rightarrow> int option \<Rightarrow> (nat \<Rightarrow> nat) \<Rightarrow> int \<Rightarrow> int option option" where
  "armSessionRenewal opts expiresAt late now = (case expiresAt of None \<Rightarrow> None
     | Some e \<Rightarrow> Some (walk_hops opts e late 0 now))"

definition canRetrySessionRenewal :: "int option \<Rightarrow> int \<Rightarrow> bool" where
  "canRetrySessionRenewal expiresAt now = (case expiresAt of None \<Rightarrow> False | Some e \<Rightarrow> now < e)"

definition renewal_options_ok :: "renewal_options \<Rightarrow> bool" where
  "renewal_options_ok opts \<longleftrightarrow> 0 \<le> rn_minDelayMs opts \<and> rn_minDelayMs opts \<le> rn_chunkMs opts \<and>
     0 < rn_chunkMs opts \<and> rn_chunkMs opts < 2 ^ 31"

text \<open>The later walks start within a hop's lateness of the due time at most.\<close>

lemma walk_hops_fires:
  assumes "renewal_options_ok opts" "\<And>i. int (late i) \<le> L"
  shows "\<exists>t. walk_hops opts e late n now = Some t \<and> max (e - rn_skewMs opts) (now + rn_minDelayMs opts) \<le> t \<and>
    t \<le> max (e - rn_skewMs opts + (if rn_chunkMs opts < e - now - rn_skewMs opts then rn_minDelayMs opts + L else 0)) (now + rn_minDelayMs opts) + L"
proof (induction "nat (e - now - rn_skewMs opts)" arbitrary: n now rule: less_induct)
  case less
  define due where "due = max (rn_minDelayMs opts) (e - now - rn_skewMs opts)"
  have o: "0 \<le> rn_minDelayMs opts" "rn_minDelayMs opts \<le> rn_chunkMs opts" "0 < rn_chunkMs opts" "rn_chunkMs opts < 2 ^ 31"
    using assms(1) by (simp_all add: renewal_options_ok_def)
  have L: "int (late n) \<le> L" "0 \<le> int (late n)" using assms(2) by simp_all
  show ?case
  proof (cases "due \<le> rn_chunkMs opts")
    case True
    have "timer_delay due = due" using o True by (intro timer_delay_id) (simp_all add: due_def)
    then have "walk_hops opts e late n now = Some (now + due + int (late n))"
      using True by (subst walk_hops.simps) (simp add: arm_hop_def due_def Let_def)
    then show ?thesis using o L True by (auto simp: due_def)
  next
    case False
    define now' where "now' = now + rn_chunkMs opts + int (late n)"
    have far: "rn_chunkMs opts < e - now - rn_skewMs opts" using False o by (simp add: due_def)
    have step: "walk_hops opts e late n now = walk_hops opts e late (Suc n) now'"
      using False o by (subst walk_hops.simps) (simp add: arm_hop_def due_def Let_def now'_def timer_delay_id)
    have "nat (e - now' - rn_skewMs opts) < nat (e - now - rn_skewMs opts)"
      using far o by (simp add: now'_def)
    from less [OF this, of "Suc n"] obtain t where t: "walk_hops opts e late (Suc n) now' = Some t"
      "max (e - rn_skewMs opts) (now' + rn_minDelayMs opts) \<le> t"
      "t \<le> max (e - rn_skewMs opts + (if rn_chunkMs opts < e - now' - rn_skewMs opts then rn_minDelayMs opts + L else 0))
         (now' + rn_minDelayMs opts) + L" by blast
    have "max (e - rn_skewMs opts) (now + rn_minDelayMs opts) \<le> t" using t(2) o by (simp add: now'_def)
    moreover have "now' + rn_minDelayMs opts \<le> e - rn_skewMs opts + (rn_minDelayMs opts + L)"
      using far L by (simp add: now'_def)
    then have "t \<le> e - rn_skewMs opts + (rn_minDelayMs opts + L) + L"
      using t(3) o L by (auto simp: max_def split: if_splits)
    ultimately show ?thesis using step t(1) far o by auto
  qed
qed

section \<open>Trying again until the expiry\<close>

text \<open>
  The renewal effect of \<^verbatim>\<open>App.tsx\<close> after a renewal that failed: the retry it plans, or the session's end.
\<close>

datatype after_failure = RetryIn int | Expire

definition after_failed_renewal :: "int option \<Rightarrow> int \<Rightarrow> after_failure" where
  "after_failed_renewal expiresAt now = (if canRetrySessionRenewal expiresAt now
     then RetryIn (min SESSION_RENEW_RETRY_MS (max 0 (or_else expiresAt 0 - now))) else Expire)"

text \<open>
  A session whose renewals all fail: the \<open>n\<close>-th takes \<open>took n\<close> milliseconds to fail and its retry is \<open>late n\<close> late.
  The result is the moment the session is declared over, and the number of renewals tried.
\<close>

partial_function (option) failing_renewals ::
    "int option \<Rightarrow> (nat \<Rightarrow> nat) \<Rightarrow> (nat \<Rightarrow> nat) \<Rightarrow> nat \<Rightarrow> int \<Rightarrow> (int \<times> nat) option" where
  "failing_renewals expiresAt took late n now =
     (let failed = now + int (took n) in case after_failed_renewal expiresAt failed of
        Expire \<Rightarrow> Some (failed, Suc n)
      | RetryIn ms \<Rightarrow> failing_renewals expiresAt took late (Suc n) (failed + timer_delay ms + int (late n)))"

lemma failing_renewals_end:
  "\<exists>t k. failing_renewals (Some e) took late n now = Some (t, k) \<and> e \<le> t \<and> n < k \<and>
     int (k - n) * SESSION_RENEW_RETRY_MS \<le> (if e \<le> now then 0 else e - now + SESSION_RENEW_RETRY_MS) + SESSION_RENEW_RETRY_MS"
proof (induction "nat (e - now)" arbitrary: n now rule: less_induct)
  case less
  define failed where "failed = now + int (took n)"
  show ?case
  proof (cases "failed < e")
    case False
    then have "failing_renewals (Some e) took late n now = Some (failed, Suc n)"
      by (subst failing_renewals.simps) (simp add: after_failed_renewal_def canRetrySessionRenewal_def failed_def)
    then show ?thesis using False by (simp add: SESSION_RENEW_RETRY_MS_def)
  next
    case True
    define ms where "ms = min SESSION_RENEW_RETRY_MS (e - failed)"
    have ms: "0 < ms" "timer_delay ms = ms"
      using True by (simp_all add: ms_def SESSION_RENEW_RETRY_MS_def timer_delay_id)
    define now' where "now' = failed + ms + int (late n)"
    have step: "failing_renewals (Some e) took late n now = failing_renewals (Some e) took late (Suc n) now'"
      using True ms(2) by (subst failing_renewals.simps)
        (simp add: Let_def after_failed_renewal_def canRetrySessionRenewal_def failed_def ms_def now'_def)
    have "nat (e - now') < nat (e - now)" using True ms(1) by (simp add: now'_def failed_def)
    from less [OF this, of "Suc n"] obtain t k where t: "failing_renewals (Some e) took late (Suc n) now' = Some (t, k)"
      "e \<le> t" "Suc n < k" "int (k - Suc n) * SESSION_RENEW_RETRY_MS \<le> (if e \<le> now' then 0 else e - now' + SESSION_RENEW_RETRY_MS) + SESSION_RENEW_RETRY_MS" by blast
    obtain q where q: "int (k - Suc n) = q" "int (k - n) = q + 1" using t(3) by simp
    have "e \<le> now' \<or> now + 15000 \<le> now'"
      by (cases "e - failed < 15000") (simp_all add: now'_def ms_def failed_def SESSION_RENEW_RETRY_MS_def)
    moreover have "q * 15000 \<le> (if e \<le> now' then 0 else e - now' + 15000) + 15000"
      using t(4) unfolding q SESSION_RENEW_RETRY_MS_def .
    ultimately have "(q + 1) * 15000 \<le> e - now + 2 * 15000" using True by (auto simp: failed_def split: if_splits)
    then have "int (k - n) * SESSION_RENEW_RETRY_MS \<le> e - now + 2 * SESSION_RENEW_RETRY_MS"
      unfolding q SESSION_RENEW_RETRY_MS_def .
    then show ?thesis using t True step by (auto simp: failed_def)
  qed
qed

section \<open>Asking whether a credential still counts\<close>

datatype token_validity = TokenValid | TokenInvalid | TokenIndeterminate

definition validate_options :: "(js_value \<Rightarrow> 'a option) \<Rightarrow> 'a request_options" where
  "validate_options schema = \<lparr>ro_endpoint = ''session-validate'', ro_schema = schema, ro_timeoutMs = None, ro_retries = None,
     ro_rawBody = True, ro_unwrapAnswer = False, ro_idempotencyKey = None, ro_tolerateUnauthorized = True\<rparr>"

fun validity_of :: "js_value thrown + 'a gateway_response \<Rightarrow> token_validity" where
  "validity_of (Inr r) = TokenValid"
| "validity_of (Inl (ThrownTrading e)) = (if te_kind e = Unauthorized then TokenInvalid else TokenIndeterminate)"
| "validity_of (Inl ThrownAbort) = TokenIndeterminate"
| "validity_of (Inl (ThrownOther m)) = TokenIndeterminate"

definition validateGatewayToken ::
    "http_env \<Rightarrow> (js_value \<Rightarrow> 'a option) \<Rightarrow> call_script \<Rightarrow> token_validity option \<times> call_log" where
  "validateGatewayToken env schema script =
     (let (outcome, trail) = execute env (validate_options schema) GET script in (map_option validity_of outcome, trail))"

lemma new_TradingError_kind [simp]: "te_kind (new_TradingError env i) = ei_kind i"
  by (simp add: new_TradingError_def)

definition answered_401 :: "http_env \<Rightarrow> 'a request_options \<Rightarrow> transport \<Rightarrow> bool" where
  "answered_401 env opts t \<longleftrightarrow>
     fetch_phase (or_else (ro_timeoutMs opts) (he_defaultTimeoutMs env)) t = PhResponse 401 \<and> (\<exists>text. tp_body t = Some (BodyText text))"

lemma read_reply_kind:
  assumes "read_reply env opts token status text = (r, refused)"
  shows "(\<exists>th. r = Inl th \<and> te_kind (TradingError_from e th fb) = Unauthorized) \<longleftrightarrow> status = 401"
  using assms
  by (auto simp: read_reply_def http_error_def respond_def parseContract_def Let_def split: if_splits option.splits sum.splits)

lemma attempt_kind:
  assumes "attempt env opts token t = Some (r, refused)"
  shows "(\<exists>th. r = Inl th \<and> te_kind (TradingError_from (he_err env) th (no_fallback\<lparr>fb_requestId := rid\<rparr>)) = Unauthorized) \<longleftrightarrow> answered_401 env opts t"
proof (cases "\<exists>status text. fetch_phase (or_else (ro_timeoutMs opts) (he_defaultTimeoutMs env)) t = PhResponse status \<and> tp_body t = Some (BodyText text)")
  case True
  then obtain status body where s: "fetch_phase (or_else (ro_timeoutMs opts) (he_defaultTimeoutMs env)) t = PhResponse status"
    "tp_body t = Some (BodyText body)" by blast
  then have "read_reply env opts token status body = (r, refused)" using assms by (simp add: attempt_def)
  from read_reply_kind [OF this] s show ?thesis by (simp add: answered_401_def)
next
  case False
  then show ?thesis
    using assms by (auto simp: answered_401_def attempt_def http_error_def no_fallback_def split: fetch_phase.splits option.splits body_result.splits)
qed

text \<open>A read ends unauthorized exactly when the last request it sent was answered 401.\<close>

lemma run_attempts_unauthorized:
  assumes "run_attempts env opts mutation script left n sofar = (r, sofar')" "0 < left"
  shows "(\<exists>e. r = Some (Inl (ThrownTrading e)) \<and> te_kind e = Unauthorized) \<longleftrightarrow>
    r \<noteq> None \<and> r \<noteq> Some (Inl ThrownAbort) \<and> (\<exists>k. length (lg_sent sofar') = length (lg_sent sofar) + Suc k \<and>
       answered_401 env opts (cs_transport script (n + k)))"
  using assms
proof (induction left arbitrary: n sofar)
  case (Suc left)
  define log1 where "log1 = sofar\<lparr>lg_sent := lg_sent sofar @ [cs_token script n]\<rparr>"
  have stop: ?case
    if "length (lg_sent sofar') = length (lg_sent sofar) + Suc 0"
      "(\<exists>e. r = Some (Inl (ThrownTrading e)) \<and> te_kind e = Unauthorized) \<longleftrightarrow>
        r \<noteq> None \<and> r \<noteq> Some (Inl ThrownAbort) \<and> answered_401 env opts (cs_transport script n)"
    using that by auto
  show ?case
  proof (cases "attempt env opts (cs_token script n) (cs_transport script n)")
    case None
    show ?thesis by (rule stop) (use None Suc.prems in \<open>auto simp: Let_def\<close>)
  next
    case (Some a)
    obtain o1 refused where a: "a = (o1, refused)" by (cases a) simp
    define log2 where "log2 = (case refused of None \<Rightarrow> log1 | Some t \<Rightarrow> log1\<lparr>lg_refused := lg_refused log1 @ [t]\<rparr>)"
    have l2: "lg_sent log2 = lg_sent sofar @ [cs_token script n]" by (simp add: log2_def log1_def split: option.split)
    note kind = attempt_kind [OF Some [unfolded a], of "Some (he_requestId env)"]
    show ?thesis
    proof (cases o1)
      case (Inr d)
      have "r = Some (Inr d)" "sofar' = log2"
        using Suc.prems(1) Some a Inr by (cases refused; simp add: Let_def log1_def log2_def)+
      then show ?thesis using kind l2 Inr by (intro stop) auto
    next
      case (Inl thrown)
      define e where "e = TradingError_from (he_err env) thrown (no_fallback\<lparr>fb_requestId := Some (he_requestId env)\<rparr>)"
      have u: "te_kind e = Unauthorized \<longleftrightarrow> answered_401 env opts (cs_transport script n)"
        using kind Inl by (simp add: e_def)
      have eq: "(r, sofar') = (if \<not> mutation \<and> te_retryable e \<and> 0 < left
          then if cs_aborted_wait script n then (Some (Inl ThrownAbort), log2) else run_attempts env opts mutation script left (Suc n) log2
          else (Some (Inl (ThrownTrading e)), log2))"
        unfolding Suc.prems(1) [symmetric] e_def log2_def log1_def using Some a Inl by (cases refused) (simp_all add: Let_def)
      show ?thesis
      proof (cases "\<not> mutation \<and> te_retryable e \<and> 0 < left \<and> \<not> cs_aborted_wait script n")
        case True
        then have run: "run_attempts env opts mutation script left (Suc n) log2 = (r, sofar')" using eq by simp
        have "0 < left" using True by simp
        from run_attempts_log [OF run this] obtain k where k: "0 < k" "lg_sent sofar' = lg_sent log2 @ map (cs_token script) [Suc n..<Suc n + k]"
          by (elim exE conjE) (rule that)
        then obtain k' where k': "k = Suc k'" by (cases k) auto
        have sent: "length (lg_sent log2) = Suc (length (lg_sent sofar))" "length (lg_sent sofar') = Suc (Suc (length (lg_sent sofar) + k'))"
          using l2 k(2) k' by simp_all
        show ?thesis
          using Suc.IH [OF run] True unfolding sent by simp
      next
        case False
        then show ?thesis using eq l2 u by (intro stop) (auto split: if_splits)
      qed
    qed
  qed
qed simp

lemma never_aborted:
  assumes "run_attempts env opts mutation script left n sofar = (Some r, sofar')" "\<And>i. cs_aborted_wait script i = False"
  shows "r \<noteq> Inl ThrownAbort"
  using assms
  by (induction left arbitrary: n sofar) (auto simp: http_error_def Let_def split: option.splits sum.splits if_splits)

section \<open>Properties\<close>

text \<open>C14. Refused requests never make a renewal loop. Whatever order refusals, replacements, settlements and
  installed credentials come in: no two renewals are under way at once, and each credential installed by someone else
  is renewed with success at most once, so that all renewals are bounded by the credentials installed and the
  renewals that failed.\<close>

theorem renewals_bounded:
  assumes "run_policy events initial_policy = (S, ms)"
  shows "renewals ms = failures ms + successes ms + of_bool (po_inFlight S \<noteq> None) \<and>
    successes ms + of_bool (po_inFlight S \<noteq> None) \<le> installs ms \<and> renewals ms \<le> installs ms + failures ms"
  using run_policy_settled [OF assms] run_policy_allowance [OF assms] by (simp add: initial_policy_def)

theorem renewals_bounded_witness:
  "renewals [CredentialInstalled ''a'', Effect (RenewalStarted ''a''), RenewalSucceeded, Effect (SessionExpired (1::nat))] \<le>
     installs [CredentialInstalled ''a'', Effect (RenewalStarted ''a''), RenewalSucceeded, Effect (SessionExpired (1::nat))] +
     failures [CredentialInstalled ''a'', Effect (RenewalStarted ''a''), RenewalSucceeded, Effect (SessionExpired (1::nat))]"
  by (rule renewals_bounded [of "[Installed (Some ''a''), Refused 0 (Some ''a''), Refused 7 (Some ''a''), ReplacementStored ''b'',
      RenewalSettled, Refused 9 (Some ''a''), Refused 1 (Some ''b'')]" "\<lparr>po_token = Some ''b'', po_inFlight = None, po_minted = None,
      po_renewedInto = Some ''b''\<rparr>", THEN conjunct2, THEN conjunct2]) code_simp

text \<open>C15. The timer of a renewal comes due: however late the platform's timers are, the walk in hops ends, never
  before the expiry less its skew nor before its least delay, and, on timers at most 22 seconds late each, before the
  credential expires (for one that has not come within a skew of its expiry already).\<close>

theorem renewal_fires_in_time:
  assumes "renewal_options_ok opts" "\<And>i. int (late i) \<le> L"
  shows "\<exists>t. armSessionRenewal opts (Some e) late now = Some (Some t) \<and>
    max (e - rn_skewMs opts) (now + rn_minDelayMs opts) \<le> t \<and>
    (rn_minDelayMs opts + 2 * L < rn_skewMs opts \<and> now \<le> e - rn_skewMs opts \<longrightarrow> t < e)"
proof -
  obtain t where t: "walk_hops opts e late 0 now = Some t" "max (e - rn_skewMs opts) (now + rn_minDelayMs opts) \<le> t"
    "t \<le> max (e - rn_skewMs opts + (if rn_chunkMs opts < e - now - rn_skewMs opts then rn_minDelayMs opts + L else 0))
       (now + rn_minDelayMs opts) + L"
    using walk_hops_fires [OF assms(1), of late L e 0 now] assms(2) by blast
  have "0 \<le> L" "0 \<le> rn_minDelayMs opts" using assms(2) [of 0] assms(1) by (simp_all add: renewal_options_ok_def)
  then have "t < e" if "rn_minDelayMs opts + 2 * L < rn_skewMs opts" "now \<le> e - rn_skewMs opts"
    using t(3) that by (auto split: if_splits)
  with t show ?thesis by (auto simp: armSessionRenewal_def)
qed

theorem renewal_fires_in_time_witness:
  "\<exists>t. armSessionRenewal (renewal_defaults\<lparr>rn_minDelayMs := SESSION_RENEW_RETRY_MS\<rparr>) (Some 2592000000) (\<lambda>i. 22000) 0 = Some (Some t) \<and>
     max (2592000000 - rn_skewMs (renewal_defaults\<lparr>rn_minDelayMs := SESSION_RENEW_RETRY_MS\<rparr>)) (0 + rn_minDelayMs (renewal_defaults\<lparr>rn_minDelayMs := SESSION_RENEW_RETRY_MS\<rparr>)) \<le> t \<and>
     (rn_minDelayMs (renewal_defaults\<lparr>rn_minDelayMs := SESSION_RENEW_RETRY_MS\<rparr>) + 2 * 22000 < rn_skewMs (renewal_defaults\<lparr>rn_minDelayMs := SESSION_RENEW_RETRY_MS\<rparr>) \<and>
        0 \<le> 2592000000 - rn_skewMs (renewal_defaults\<lparr>rn_minDelayMs := SESSION_RENEW_RETRY_MS\<rparr>) \<longrightarrow> t < 2592000000)"
  by (rule renewal_fires_in_time)
    (simp_all add: renewal_options_ok_def renewal_defaults_def SESSION_RENEW_RETRY_MS_def SESSION_RENEW_CHUNK_MS_def)

text \<open>A session whose renewals keep failing ends: it is declared over after its credential has expired and never
  before, within the retries that fit into the time left and two more, however long each takes to fail.\<close>

theorem failing_session_ends:
  "\<exists>t k. failing_renewals (Some e) took late 0 now = Some (t, k) \<and> e \<le> t \<and> 0 < k \<and>
     int k * SESSION_RENEW_RETRY_MS \<le> max 0 (e - now) + 2 * SESSION_RENEW_RETRY_MS"
proof -
  obtain t k where k: "failing_renewals (Some e) took late 0 now = Some (t, k)" "e \<le> t" "0 < k"
    "int (k - 0) * SESSION_RENEW_RETRY_MS \<le> (if e \<le> now then 0 else e - now + SESSION_RENEW_RETRY_MS) + SESSION_RENEW_RETRY_MS"
    using failing_renewals_end [of e took late 0 now] by blast
  moreover have "0 \<le> SESSION_RENEW_RETRY_MS" by (simp add: SESSION_RENEW_RETRY_MS_def)
  ultimately show ?thesis by (auto split: if_splits)
qed

text \<open>The periodic check finds a credential invalid exactly when its last request was answered 401: no failure
  of the network, the server or the reading of the answer signs a trader out, and a refusal it finds is its own
  to judge, not the session handler's.\<close>

theorem invalid_iff_refused:
  assumes "validateGatewayToken env schema script = (Some v, trail)"
    and "\<And>i. cs_aborted_wait script i = False"
  shows "(v = TokenInvalid \<longleftrightarrow> answered_401 env (validate_options schema) (cs_transport script (length (lg_sent trail) - 1))) \<and>
    lg_refused trail = []"
proof -
  obtain r where run: "execute env (validate_options schema) GET script = (Some r, trail)" and v: "v = validity_of r"
    using assms(1) by (auto simp: validateGatewayToken_def split: prod.splits)
  note run' = run [unfolded execute_def]
  have inv: "v = TokenInvalid \<longleftrightarrow> (\<exists>e. r = Inl (ThrownTrading e) \<and> te_kind e = Unauthorized)"
    unfolding v by (cases r rule: validity_of.cases) auto
  obtain k where "0 < k" "lg_sent trail = map (cs_token script) [0..<k]"
    using run_attempts_log [OF run' max_attempts_pos] by auto
  moreover have "r \<noteq> Inl ThrownAbort" by (rule never_aborted [OF run' assms(2)])
  ultimately have "v = TokenInvalid \<longleftrightarrow> answered_401 env (validate_options schema) (cs_transport script (length (lg_sent trail) - 1))"
    using run_attempts_unauthorized [OF run' max_attempts_pos] inv by (auto simp: gr0_conv_Suc)
  moreover have "lg_refused trail = []"
    using run_attempts_refused [OF run'] by (simp add: validate_options_def)
  ultimately show ?thesis by blast
qed

definition flaky_then_refused :: call_script where
  "flaky_then_refused = refused_script\<lparr>cs_transport := (\<lambda>i. if i = 0 then cs_transport always_down 0 else cs_transport refused_script i)\<rparr>"

lemma sample_validation:
  "validateGatewayToken sample_http (\<lambda>_. None :: unit option) flaky_then_refused =
     (Some TokenInvalid, \<lparr>lg_sent = [Some ''t'', Some ''t''], lg_refused = []\<rparr>)"
  by code_simp

theorem invalid_iff_refused_witness:
  "(TokenInvalid = TokenInvalid \<longleftrightarrow> answered_401 sample_http (validate_options (\<lambda>_. None :: unit option)) (cs_transport flaky_then_refused 1)) \<and>
     ([] :: string option list) = []"
  using invalid_iff_refused [OF sample_validation] by (simp add: flaky_then_refused_def refused_script_def)

end
