(* ===== verification/AuthSession.thy ===== *)
theory AuthSession
  imports Jwt Errors
begin

text \<open>
  The signed-in session: \<^verbatim>\<open>frontend/src/integrations/gateway/auth/crm-session.ts\<close> over
  \<^verbatim>\<open>token-store.ts\<close>.

  The session is a state machine. A call that awaits the network is a job: the request it sent and what it will do
  with the reply; replies, and further calls, come in any order. A reply is the platform's \<^verbatim>\<open>fetch\<close>
  settling; the schemas of zod and \<^verbatim>\<open>JSON.parse\<close> of a token's payload are arguments.

  Shown: the accounts offered are those the token's claim names, enabled and of a known suffix; a session held is
  always renewable and never of two exchanges mixed; after a sign-out it stays signed out unless a call that was
  under way, or a new one, brings it back; the verdict on every reply of the sign-in service.
\<close>

section \<open>The token store\<close>

text \<open>A browser storage: absent, blocked (every call throws), or kept; a full one throws when it is written.\<close>

datatype web_storage = NoStorage | BlockedStorage | KeptStorage "string \<rightharpoonup> string" bool

fun get_item :: "string \<Rightarrow> web_storage \<Rightarrow> string option option" where
  "get_item k (KeptStorage m full) = Some (m k)"
| "get_item k _ = None"

fun set_item :: "string \<Rightarrow> string \<Rightarrow> web_storage \<Rightarrow> web_storage option" where
  "set_item k v (KeptStorage m full) = (if full then None else Some (KeptStorage (m(k \<mapsto> v)) full))"
| "set_item k v _ = None"

fun remove_item :: "string \<Rightarrow> web_storage \<Rightarrow> web_storage option" where
  "remove_item k (KeptStorage m full) = Some (KeptStorage (m(k := None)) full)"
| "remove_item k _ = None"

definition LEGACY_GATEWAY_TOKEN_KEY :: string where "LEGACY_GATEWAY_TOKEN_KEY = ''token''"

definition LEGACY_CRM_TOKEN_KEY :: string where "LEGACY_CRM_TOKEN_KEY = ''crm_token''"

record token_store =
  ts_tokens :: "session_tokens option"
  ts_legacy :: bool
  ts_storage :: web_storage

text \<open>A storage call that throws leaves what was done before it.\<close>

definition purgeLegacy :: "web_storage \<Rightarrow> web_storage" where
  "purgeLegacy st = (case remove_item LEGACY_GATEWAY_TOKEN_KEY st of None \<Rightarrow> st
     | Some st1 \<Rightarrow> or_else (remove_item LEGACY_CRM_TOKEN_KEY st1) st1)"

definition readLegacy :: "web_storage \<Rightarrow> session_tokens option" where
  "readLegacy st = (case get_item LEGACY_GATEWAY_TOKEN_KEY st of
     None \<Rightarrow> None
   | Some None \<Rightarrow> None
   | Some (Some t) \<Rightarrow> if t = '''' then None
       else (case get_item LEGACY_CRM_TOKEN_KEY st of None \<Rightarrow> None
         | Some crm \<Rightarrow> Some \<lparr>tk_gatewayToken = t, tk_crmToken = crm, tk_expiresAt = None\<rparr>))"

definition writeLegacy :: "session_tokens option \<Rightarrow> web_storage \<Rightarrow> web_storage" where
  "writeLegacy tokens st = (case tokens of
     None \<Rightarrow> purgeLegacy st
   | Some t \<Rightarrow> (case set_item LEGACY_GATEWAY_TOKEN_KEY (tk_gatewayToken t) st of None \<Rightarrow> st
       | Some st1 \<Rightarrow> (case tk_crmToken t of None \<Rightarrow> st1
           | Some crm \<Rightarrow> if crm = '''' then st1 else or_else (set_item LEGACY_CRM_TOKEN_KEY crm st1) st1)))"

definition new_token_store :: "bool \<Rightarrow> web_storage \<Rightarrow> token_store" where
  "new_token_store legacy st = (if legacy then \<lparr>ts_tokens = readLegacy st, ts_legacy = legacy, ts_storage = st\<rparr>
     else \<lparr>ts_tokens = None, ts_legacy = legacy, ts_storage = purgeLegacy st\<rparr>)"

definition gatewayToken :: "token_store \<Rightarrow> string option" where
  "gatewayToken S = map_option tk_gatewayToken (ts_tokens S)"

definition set_tokens :: "session_tokens option \<Rightarrow> token_store \<Rightarrow> token_store" where
  "set_tokens tokens S = S\<lparr>ts_tokens := tokens, ts_storage := (if ts_legacy S then writeLegacy tokens (ts_storage S) else ts_storage S)\<rparr>"

definition clear_tokens :: "token_store \<Rightarrow> token_store" where
  "clear_tokens = set_tokens None"

text \<open>Tokens without a CRM token leave the previous CRM token in the mirror, to be paired with them on reload.\<close>

lemma mirror_mixes_tokens:
  "readLegacy (ts_storage (set_tokens (Some \<lparr>tk_gatewayToken = ''b'', tk_crmToken = None, tk_expiresAt = None\<rparr>)
     (set_tokens (Some \<lparr>tk_gatewayToken = ''a'', tk_crmToken = Some ''x'', tk_expiresAt = None\<rparr>)
        (new_token_store True (KeptStorage Map.empty False))))) =
   Some \<lparr>tk_gatewayToken = ''b'', tk_crmToken = Some ''x'', tk_expiresAt = None\<rparr>"
  by (simp add: set_tokens_def new_token_store_def readLegacy_def writeLegacy_def LEGACY_GATEWAY_TOKEN_KEY_def LEGACY_CRM_TOKEN_KEY_def)

section \<open>Replies\<close>

text \<open>A \<^verbatim>\<open>fetch\<close> that rejects, or a status with its body; \<open>None\<close> is a body that is no JSON.\<close>

datatype auth_reply = Unreachable string | Answered nat "js_value option"

definition status_ok :: "nat \<Rightarrow> bool" where
  "status_ok status \<longleftrightarrow> 200 \<le> status \<and> status \<le> 299"

definition auth_error :: "err_env \<Rightarrow> error_kind \<Rightarrow> string \<Rightarrow> string \<Rightarrow> string option \<Rightarrow> bool option \<Rightarrow> unit thrown" where
  "auth_error env kind code message detail retryable = ThrownTrading (new_TradingError env
     \<lparr>ei_kind = kind, ei_message = message, ei_code = Some code, ei_requestId = None, ei_detail = detail,
      ei_retryable = retryable, ei_payload = None\<rparr>)"

text \<open>\<^verbatim>\<open>z.object({ token: z.string().min(1) })\<close>\<close>

definition token_of_body :: "js_value \<Rightarrow> string option" where
  "token_of_body v = (case js_get v ''token'' of JStr t \<Rightarrow> if t = '''' then None else Some t | _ \<Rightarrow> None)"

definition token_of_reply :: "err_env \<Rightarrow> string \<Rightarrow> auth_reply \<Rightarrow> unit thrown + string" where
  "token_of_reply env unauthorizedMessage r = (case r of
     Unreachable m \<Rightarrow> Inl (auth_error env Network ''auth.network'' ''Cannot reach the trading server.'' (Some m) None)
   | Answered status body \<Rightarrow>
       if status = 401 then Inl (auth_error env Unauthorized ''auth.401'' unauthorizedMessage None (Some False))
       else if \<not> status_ok status then Inl (auth_error env Unavailable (''auth.'' @ show_int (int status))
         ''Sign-in is temporarily unavailable.'' None None)
       else (case body of None \<Rightarrow> Inl (ThrownOther ''SyntaxError'')
         | Some v \<Rightarrow> (case token_of_body v of
             None \<Rightarrow> Inl (auth_error env Contract ''contract.auth-token'' ''The sign-in service returned unexpected data.'' None None)
           | Some t \<Rightarrow> Inr t)))"

section \<open>The account list\<close>

record suffix_entry =
  sf_login :: string
  sf_suffix :: string
  sf_suffixKnown :: bool
  sf_accountKind :: js_value

record auth_env =
  ae_err :: err_env
  ae_payload :: "nat list \<Rightarrow> js_value option"
  ae_accounts :: "js_value \<Rightarrow> crm_account_dto list option"
  ae_issues :: "js_value \<Rightarrow> string"
  ae_suffixes :: "js_value \<Rightarrow> suffix_entry list option option"

text \<open>\<^verbatim>\<open>new Map(entries)\<close>: the last entry of a login wins.\<close>

definition suffix_map :: "suffix_entry list \<Rightarrow> string \<rightharpoonup> suffix_entry" where
  "suffix_map es = map_of (rev (map (\<lambda>e. (sf_login e, e)) es))"

definition fetchGatewaySuffixes :: "auth_env \<Rightarrow> auth_reply \<Rightarrow> (string \<rightharpoonup> suffix_entry) option" where
  "fetchGatewaySuffixes env r = (case r of
     Unreachable m \<Rightarrow> None
   | Answered status body \<Rightarrow>
       if status = 204 \<or> \<not> status_ok status then None
       else (case body of None \<Rightarrow> None
         | Some v \<Rightarrow> (case ae_suffixes env v of None \<Rightarrow> None | Some None \<Rightarrow> None | Some (Some es) \<Rightarrow> Some (suffix_map es))))"

definition gateway_entry :: "(string \<rightharpoonup> suffix_entry) option \<Rightarrow> string \<Rightarrow> suffix_entry option" where
  "gateway_entry suffixes login = (case suffixes of None \<Rightarrow> None | Some m \<Rightarrow> m login)"

definition resolveSuffix :: "account_option \<Rightarrow> (string \<rightharpoonup> suffix_entry) option \<Rightarrow> string option" where
  "resolveSuffix account suffixes = (case gateway_entry suffixes (ac_login account) of
     Some e \<Rightarrow> if sf_suffixKnown e then Some (sf_suffix e) else suffixForAccountType (ac_typeId account)
   | None \<Rightarrow> suffixForAccountType (ac_typeId account))"

definition resolveKind :: "account_option \<Rightarrow> (string \<rightharpoonup> suffix_entry) option \<Rightarrow> account_funds" where
  "resolveKind account suffixes = accountFundsOf (case gateway_entry suffixes (ac_login account) of
     None \<Rightarrow> JUndefined | Some e \<Rightarrow> sf_accountKind e)"

definition offered_accounts ::
    "auth_env \<Rightarrow> string \<Rightarrow> (string \<rightharpoonup> suffix_entry) option \<Rightarrow> crm_account_dto list \<Rightarrow> account_option list" where
  "offered_accounts env token suffixes dtos =
     (let claimed = set (parseJwtAccounts (ae_payload env) token);
          resolved = map (\<lambda>a. a\<lparr>ac_suffix := resolveSuffix a suffixes, ac_kind := resolveKind a suffixes\<rparr>) (map mapCrmAccount dtos)
      in filter (\<lambda>a. ac_login a \<in> claimed) (filter ac_enabled (filter (\<lambda>a. ac_suffix a \<noteq> None) resolved)))"

text \<open>The reply of the CRM; on success the reply of the gateway is looked at too.\<close>

definition accounts_of_replies ::
    "auth_env \<Rightarrow> string \<Rightarrow> auth_reply \<Rightarrow> auth_reply \<Rightarrow> unit thrown + account_option list" where
  "accounts_of_replies env token crm gateway = (case crm of
     Unreachable m \<Rightarrow> Inl (ThrownOther m)
   | Answered status body \<Rightarrow>
       if status = 401 then Inl (auth_error (ae_err env) Unauthorized ''crm.401'' ''Your session has expired. Please sign in again.'' None None)
       else if \<not> status_ok status then Inl (auth_error (ae_err env) Unavailable (''crm.'' @ show_int (int status))
         ''Could not load your trading accounts.'' None None)
       else (case body of None \<Rightarrow> Inl (ThrownOther ''SyntaxError'')
         | Some v \<Rightarrow> (case ae_accounts env v of
             None \<Rightarrow> Inl (auth_error (ae_err env) Contract ''contract.crm-accounts'' ''The account service returned unexpected data.''
               (Some (ae_issues env v)) None)
           | Some dtos \<Rightarrow> Inr (offered_accounts env token (fetchGatewaySuffixes env gateway) dtos))))"

section \<open>The session\<close>

datatype auth_request =
    ReqCrmLogin string string bool
  | ReqLogin string string bool
  | ReqSession
  | ReqLogout
  | ReqSuffixes string
  | ReqAccounts string

text \<open>
  What a call under way will do with the reply. An exchange knows the CRM token it sent, and whether its
  failure is an exception (a sign-in) or null (a renewal).
\<close>

datatype auth_job =
    WaitCrmLogin string
  | WaitSignIn string
  | WaitRenewal string
  | WaitRestore
  | WaitAccounts string string

datatype auth_result =
    GotTokens session_tokens
  | GotNothing
  | GotSession "string option"
  | GotAccounts "account_option list"
  | Threw "unit thrown"

datatype auth_output =
    Sending auth_request
  | TokensChanged "session_tokens option"
  | Settled nat auth_result

record auth_state =
  as_store :: token_store
  as_cache :: "(account_option list \<times> int) option"
  as_persist :: bool
  as_jobs :: "(nat \<times> auth_job) list"
  as_next :: nat

definition new_session :: "token_store \<Rightarrow> auth_state" where
  "new_session store = \<lparr>as_store = store, as_cache = None, as_persist = False, as_jobs = [], as_next = 0\<rparr>"

definition held_crm :: "auth_state \<Rightarrow> string option" where
  "held_crm S = (case ts_tokens (as_store S) of None \<Rightarrow> None
     | Some t \<Rightarrow> (case tk_crmToken t of None \<Rightarrow> None | Some crm \<Rightarrow> if crm = '''' then None else Some crm))"

definition start :: "auth_job \<Rightarrow> auth_request list \<Rightarrow> auth_state \<Rightarrow> auth_state \<times> auth_output list" where
  "start j reqs S = (S\<lparr>as_jobs := as_jobs S @ [(as_next S, j)], as_next := Suc (as_next S)\<rparr>, map Sending reqs)"

definition settle_now :: "auth_result \<Rightarrow> auth_state \<Rightarrow> auth_state \<times> auth_output list" where
  "settle_now r S = (S\<lparr>as_next := Suc (as_next S)\<rparr>, [Settled (as_next S) r])"

text \<open>\<^verbatim>\<open>tokenStore.set(tokens); accountsCache = null\<close>\<close>

definition adopt :: "session_tokens \<Rightarrow> auth_state \<Rightarrow> auth_state" where
  "adopt t S = S\<lparr>as_store := set_tokens (Some t) (as_store S), as_cache := None\<rparr>"

definition minted :: "auth_env \<Rightarrow> string \<Rightarrow> string \<Rightarrow> session_tokens" where
  "minted env gw crm = \<lparr>tk_gatewayToken = gw, tk_crmToken = Some crm, tk_expiresAt = parseJwtExpiry (ae_payload env) gw\<rparr>"

definition signIn :: "string \<Rightarrow> string \<Rightarrow> bool \<Rightarrow> auth_state \<Rightarrow> auth_state \<times> auth_output list" where
  "signIn email password remember S =
     start (WaitCrmLogin email) [ReqCrmLogin email password remember] (S\<lparr>as_persist := remember\<rparr>)"

definition signInWithCrmToken :: "string \<Rightarrow> string \<Rightarrow> auth_state \<Rightarrow> auth_state \<times> auth_output list" where
  "signInWithCrmToken crm username S = start (WaitSignIn crm) [ReqLogin username crm (as_persist S)] S"

definition renew :: "auth_state \<Rightarrow> auth_state \<times> auth_output list" where
  "renew S = (case held_crm S of None \<Rightarrow> settle_now GotNothing S
     | Some crm \<Rightarrow> start (WaitRenewal crm) [ReqLogin '''' crm (as_persist S)] S)"

definition restore :: "auth_state \<Rightarrow> auth_state \<times> auth_output list" where
  "restore S = start WaitRestore [ReqSession] S"

definition list_afresh :: "err_env \<Rightarrow> auth_state \<Rightarrow> auth_state \<times> auth_output list" where
  "list_afresh env S = (case (ts_tokens (as_store S), held_crm S) of
     (Some t, Some crm) \<Rightarrow> start (WaitAccounts (tk_gatewayToken t) crm) [ReqSuffixes crm, ReqAccounts crm] S
   | _ \<Rightarrow> settle_now (Threw (auth_error env Unauthorized ''auth.no-crm-token''
       ''Sign in again to load your trading accounts.'' None None)) S)"

definition listAccounts :: "err_env \<Rightarrow> int \<Rightarrow> auth_state \<Rightarrow> auth_state \<times> auth_output list" where
  "listAccounts env now S = (case as_cache S of
     Some (accounts, t) \<Rightarrow> if now - t < 60000 then settle_now (GotAccounts accounts) S else list_afresh env S
   | None \<Rightarrow> list_afresh env S)"

definition signOut :: "auth_state \<Rightarrow> auth_state \<times> auth_output list" where
  "signOut S = (S\<lparr>as_store := clear_tokens (as_store S), as_cache := None\<rparr>, [TokensChanged None, Sending ReqLogout])"

text \<open>What a job does with its reply: the state, what is sent or told meanwhile, and its next job or its result.\<close>

definition exchange_reply ::
    "auth_env \<Rightarrow> string \<Rightarrow> auth_reply \<Rightarrow> auth_state \<Rightarrow> (unit thrown + session_tokens) \<times> auth_state \<times> auth_output list" where
  "exchange_reply env crm r S =
     (case token_of_reply (ae_err env) ''Your account could not be authorised for trading.'' r of
        Inl th \<Rightarrow> (Inl th, S, [])
      | Inr gw \<Rightarrow> (Inr (minted env gw crm), adopt (minted env gw crm) S, [TokensChanged (Some (minted env gw crm))]))"

text \<open>
  The gateway's answer to a restore: the session it holds, with its username, or none. A session without its CRM
  token is given up, its cookies too. (A body of \<^verbatim>\<open>null\<close> is JSON, and reading its token throws.)
\<close>

definition restored_tokens :: "auth_env \<Rightarrow> auth_reply \<Rightarrow> js_value option" where
  "restored_tokens env r = (case r of Unreachable m \<Rightarrow> None
     | Answered status body \<Rightarrow> if status = 204 \<or> \<not> status_ok status then None
         else (case body of None \<Rightarrow> None | Some v \<Rightarrow>
           (case js_get v ''token'' of JStr t \<Rightarrow> if t = '''' then None else Some v | _ \<Rightarrow> None)))"

fun nonempty_text :: "js_value \<Rightarrow> string option" where
  "nonempty_text (JStr s) = (if s = '''' then None else Some s)"
| "nonempty_text _ = None"

fun text_of :: "js_value \<Rightarrow> string option" where
  "text_of (JStr s) = Some s"
| "text_of _ = None"

definition null_session :: "auth_reply \<Rightarrow> bool" where
  "null_session r = (case r of Answered status (Some JNull) \<Rightarrow> status_ok status \<and> status \<noteq> 204 | _ \<Rightarrow> False)"

definition restore_reply :: "auth_env \<Rightarrow> auth_reply \<Rightarrow> auth_state \<Rightarrow> auth_result \<times> auth_state \<times> auth_output list" where
  "restore_reply env r S = (if null_session r
   then (Threw (ThrownOther ''TypeError''), S, [])
   else case restored_tokens env r of
     None \<Rightarrow> (GotNothing, S, [])
   | Some v \<Rightarrow>
       (let S1 = S\<lparr>as_persist := (js_get v ''remembered'' = JBool True)\<rparr>;
            gw = or_else (text_of (js_get v ''token'')) ''''
        in case nonempty_text (js_get v ''crmToken'') of
             None \<Rightarrow> (GotNothing, S1, [Sending ReqLogout])
           | Some crm \<Rightarrow> (GotSession (text_of (js_get v ''username'')), adopt (minted env gw crm) S1,
               [TokensChanged (Some (minted env gw crm))])))"

text \<open>One reply (for an account list: the CRM's, and the gateway's beside it) arrives for job \<open>i\<close> at \<open>now\<close>.\<close>

definition job_reply ::
    "auth_env \<Rightarrow> nat \<Rightarrow> auth_job \<Rightarrow> auth_reply \<Rightarrow> auth_reply \<Rightarrow> int \<Rightarrow> auth_state \<Rightarrow> auth_state \<times> auth_output list" where
  "job_reply env i j r gateway now S0 =
     (let S = S0\<lparr>as_jobs := filter (\<lambda>p. fst p \<noteq> i) (as_jobs S0)\<rparr> in
      case j of
        WaitCrmLogin email \<Rightarrow>
          (case token_of_reply (ae_err env) ''Incorrect email or password.'' r of
             Inl th \<Rightarrow> (S, [Settled i (Threw th)])
           | Inr crm \<Rightarrow> (S\<lparr>as_jobs := as_jobs S @ [(i, WaitSignIn crm)]\<rparr>, [Sending (ReqLogin email crm (as_persist S))]))
      | WaitSignIn crm \<Rightarrow>
          (case exchange_reply env crm r S of
             (Inl th, S1, out) \<Rightarrow> (S1, out @ [Settled i (Threw th)])
           | (Inr t, S1, out) \<Rightarrow> (S1, out @ [Settled i (GotTokens t)]))
      | WaitRenewal crm \<Rightarrow>
          (case exchange_reply env crm r S of
             (Inl th, S1, out) \<Rightarrow> (S1, out @ [Settled i GotNothing])
           | (Inr t, S1, out) \<Rightarrow> (S1, out @ [Settled i (GotTokens t)]))
      | WaitRestore \<Rightarrow> (case restore_reply env r S of (res, S1, out) \<Rightarrow> (S1, out @ [Settled i res]))
      | WaitAccounts token crm \<Rightarrow>
          (case accounts_of_replies env token r gateway of
             Inl th \<Rightarrow> (S, [Settled i (Threw th)])
           | Inr accounts \<Rightarrow> (S\<lparr>as_cache := Some (accounts, now)\<rparr>, [Settled i (GotAccounts accounts)])))"

datatype auth_event =
    SignIn string string bool
  | SignInWithCrmToken string string
  | Renew
  | Restore
  | ListAccounts int
  | SignOut
  | Reply nat auth_reply auth_reply int

fun auth_step :: "auth_env \<Rightarrow> auth_event \<Rightarrow> auth_state \<Rightarrow> auth_state \<times> auth_output list" where
  "auth_step env (SignIn email password remember) S = signIn email password remember S"
| "auth_step env (SignInWithCrmToken crm username) S = signInWithCrmToken crm username S"
| "auth_step env Renew S = renew S"
| "auth_step env Restore S = restore S"
| "auth_step env (ListAccounts now) S = listAccounts (ae_err env) now S"
| "auth_step env SignOut S = signOut S"
| "auth_step env (Reply i r gateway now) S = (case map_of (as_jobs S) i of None \<Rightarrow> (S, [])
     | Some j \<Rightarrow> job_reply env i j r gateway now S)"

fun run_auth :: "auth_env \<Rightarrow> auth_event list \<Rightarrow> auth_state \<Rightarrow> auth_state \<times> auth_output list" where
  "run_auth env [] S = (S, [])"
| "run_auth env (x # xs) S = (let (S1, o1) = auth_step env x S; (S2, o2) = run_auth env xs S1 in (S2, o1 @ o2))"

section \<open>Accounts are those of a token\<close>

text \<open>An account list that the claim of one of the tokens \<open>H\<close> authorises.\<close>

definition authorised :: "auth_env \<Rightarrow> string set \<Rightarrow> account_option list \<Rightarrow> bool" where
  "authorised env H accounts \<longleftrightarrow> (\<exists>token \<in> H. \<forall>a \<in> set accounts.
     ac_login a \<in> set (parseJwtAccounts (ae_payload env) token) \<and> ac_enabled a \<and> ac_suffix a \<noteq> None)"

definition tokens_given :: "auth_output list \<Rightarrow> string set" where
  "tokens_given out = {tk_gatewayToken t | t. TokensChanged (Some t) \<in> set out}"

lemma tokens_given_simps [simp]:
  "tokens_given [] = {}" "tokens_given (a @ b) = tokens_given a \<union> tokens_given b"
  "tokens_given (TokensChanged (Some t) # out) = insert (tk_gatewayToken t) (tokens_given out)"
  "tokens_given (TokensChanged None # out) = tokens_given out"
  "tokens_given (Sending q # out) = tokens_given out" "tokens_given (Settled i r # out) = tokens_given out"
  "tokens_given (map Sending qs) = {}"
  by (auto simp: tokens_given_def)

lemma authorised_mono: "authorised env H accounts \<Longrightarrow> H \<subseteq> H' \<Longrightarrow> authorised env H' accounts"
  by (auto simp: authorised_def)

lemma offered_authorised: "token \<in> H \<Longrightarrow> authorised env H (offered_accounts env token suffixes dtos)"
  by (auto simp: authorised_def offered_accounts_def Let_def)

lemma accounts_of_replies_authorised:
  "accounts_of_replies env token r gateway = Inr accounts \<Longrightarrow> token \<in> H \<Longrightarrow> authorised env H accounts"
  by (auto simp: accounts_of_replies_def offered_authorised split: auth_reply.splits if_splits option.splits)

text \<open>What holds of a session that has held the tokens \<open>H\<close>, and that it stays renewable.\<close>

definition session_ok :: "auth_env \<Rightarrow> string set \<Rightarrow> auth_state \<Rightarrow> bool" where
  "session_ok env H S \<longleftrightarrow>
     (\<forall>t. ts_tokens (as_store S) = Some t \<longrightarrow> tk_gatewayToken t \<in> H \<and> tk_crmToken t \<noteq> None \<and>
        tk_expiresAt t = parseJwtExpiry (ae_payload env) (tk_gatewayToken t)) \<and>
     (\<forall>i token crm. (i, WaitAccounts token crm) \<in> set (as_jobs S) \<longrightarrow> token \<in> H) \<and>
     (\<forall>accounts t. as_cache S = Some (accounts, t) \<longrightarrow> authorised env H accounts)"

lemma session_okD:
  assumes "session_ok env H S"
  shows "ts_tokens (as_store S) = Some t \<Longrightarrow> tk_gatewayToken t \<in> H"
    and "(i, WaitAccounts token crm) \<in> set (as_jobs S) \<Longrightarrow> token \<in> H"
    and "as_cache S = Some (accounts, now) \<Longrightarrow> authorised env H accounts"
  using assms by (auto simp: session_ok_def)

lemma session_ok_mono: "session_ok env H S \<Longrightarrow> H \<subseteq> H' \<Longrightarrow> session_ok env H' S"
  unfolding session_ok_def by (blast intro: authorised_mono)

lemma session_ok_jobs:
  "session_ok env H S \<Longrightarrow> set js \<subseteq> set (as_jobs S) \<Longrightarrow> session_ok env H (S\<lparr>as_jobs := js\<rparr>)"
  by (simp add: session_ok_def) blast

lemma session_ok_persist [simp]: "session_ok env H (S\<lparr>as_persist := p\<rparr>) = session_ok env H S"
  by (simp add: session_ok_def)

lemma session_ok_next [simp]: "session_ok env H (S\<lparr>as_next := n\<rparr>) = session_ok env H S"
  by (simp add: session_ok_def)

lemma session_ok_start:
  "session_ok env H S \<Longrightarrow> (\<And>token crm. j = WaitAccounts token crm \<Longrightarrow> token \<in> H) \<Longrightarrow> session_ok env H (fst (start j reqs S))"
  by (simp add: session_ok_def start_def) blast

lemma session_ok_adopt:
  "session_ok env H S \<Longrightarrow> session_ok env (insert gw H) (adopt (minted env gw crm) S)"
  by (auto simp: session_ok_def adopt_def minted_def set_tokens_def)

lemma session_ok_signed_out:
  "session_ok env H S \<Longrightarrow> session_ok env H (S\<lparr>as_store := clear_tokens (as_store S), as_cache := None\<rparr>)"
  by (auto simp: session_ok_def clear_tokens_def set_tokens_def)

lemma minted_simps [simp]: "tk_gatewayToken (minted env gw crm) = gw" "tk_crmToken (minted env gw crm) = Some crm"
  by (simp_all add: minted_def)

definition lists_authorised :: "auth_env \<Rightarrow> string set \<Rightarrow> auth_output list \<Rightarrow> bool" where
  "lists_authorised env H out \<longleftrightarrow> (\<forall>i accounts. Settled i (GotAccounts accounts) \<in> set out \<longrightarrow> authorised env H accounts)"

definition step_keeps :: "auth_env \<Rightarrow> string set \<Rightarrow> auth_state \<times> auth_output list \<Rightarrow> bool" where
  "step_keeps env H = (\<lambda>(S', out). session_ok env (H \<union> tokens_given out) S' \<and> lists_authorised env (H \<union> tokens_given out) out)"

lemma keeps_start:
  "session_ok env H S \<Longrightarrow> (\<And>token crm. j = WaitAccounts token crm \<Longrightarrow> token \<in> H) \<Longrightarrow> step_keeps env H (start j reqs S)"
  using session_ok_start [of env H S j reqs] by (auto simp: step_keeps_def start_def lists_authorised_def)

lemma keeps_settle:
  "session_ok env H S \<Longrightarrow> (\<And>accounts. r = GotAccounts accounts \<Longrightarrow> authorised env H accounts) \<Longrightarrow> step_keeps env H (settle_now r S)"
  by (auto simp: step_keeps_def settle_now_def lists_authorised_def)

lemma keeps_list:
  assumes "session_ok env H S"
  shows "step_keeps env H (listAccounts e now S)"
proof -
  have afresh: "step_keeps env H (list_afresh e S)"
    using assms session_okD(1) [OF assms]
    by (auto simp: list_afresh_def intro!: keeps_start keeps_settle split: option.splits)
  show ?thesis
    using afresh session_okD(3) [OF assms] by (auto simp: listAccounts_def intro!: keeps_settle assms split: option.splits)
qed

lemma keeps_exchange:
  assumes "session_ok env H S" "exchange_reply env crm r S = (res, S', out)"
  shows "session_ok env (H \<union> tokens_given out) S'" "lists_authorised env K out"
  using assms session_ok_adopt [OF assms(1)]
  by (auto simp: exchange_reply_def lists_authorised_def split: sum.splits)

lemma keeps_restore:
  assumes "session_ok env H S" "restore_reply env r S = (res, S', out)"
  shows "session_ok env (H \<union> tokens_given out) S'" "lists_authorised env K out" "\<And>accounts. res \<noteq> GotAccounts accounts"
  using assms session_ok_adopt [of env H "S\<lparr>as_persist := p\<rparr>" for p]
  by (auto simp: restore_reply_def lists_authorised_def Let_def split: option.splits if_splits)

lemma keeps_reply:
  assumes "session_ok env H S0" "(i, j) \<in> set (as_jobs S0)"
  shows "step_keeps env H (job_reply env i j r gateway now S0)"
proof -
  define S where "S = S0\<lparr>as_jobs := filter (\<lambda>p. fst p \<noteq> i) (as_jobs S0)\<rparr>"
  have S: "session_ok env H S" unfolding S_def by (rule session_ok_jobs [OF assms(1)]) auto
  show ?thesis
  proof (cases j)
    case (WaitCrmLogin email)
    have "session_ok env H (S\<lparr>as_jobs := as_jobs S @ [(i, WaitSignIn crm)]\<rparr>)" for crm
      using S by (auto simp: session_ok_def)
    then show ?thesis
      using S by (auto simp: WaitCrmLogin job_reply_def S_def [symmetric] step_keeps_def lists_authorised_def split: sum.splits)
  next
    case (WaitSignIn crm)
    obtain res S1 out where x: "exchange_reply env crm r S = (res, S1, out)" by (metis prod_cases3)
    show ?thesis
      using keeps_exchange [OF S x] by (auto simp: WaitSignIn job_reply_def S_def [symmetric] x step_keeps_def lists_authorised_def split: sum.splits)
  next
    case (WaitRenewal crm)
    obtain res S1 out where x: "exchange_reply env crm r S = (res, S1, out)" by (metis prod_cases3)
    show ?thesis
      using keeps_exchange [OF S x] by (auto simp: WaitRenewal job_reply_def S_def [symmetric] x step_keeps_def lists_authorised_def split: sum.splits)
  next
    case WaitRestore
    obtain res S1 out where x: "restore_reply env r S = (res, S1, out)" by (metis prod_cases3)
    show ?thesis
      using keeps_restore [OF S x] by (auto simp: WaitRestore job_reply_def S_def [symmetric] x step_keeps_def lists_authorised_def)
  next
    case (WaitAccounts token crm)
    have tok: "token \<in> H" using session_okD(2) [OF assms(1)] assms(2) WaitAccounts by blast
    have "session_ok env H (S\<lparr>as_cache := Some (accounts, now)\<rparr>)" if "authorised env H accounts" for accounts
      using S that by (auto simp: session_ok_def)
    then show ?thesis
      using S accounts_of_replies_authorised [OF _ tok]
      by (auto simp: WaitAccounts job_reply_def S_def [symmetric] step_keeps_def lists_authorised_def split: sum.splits)
  qed
qed

lemma auth_step_keeps:
  assumes "session_ok env H S"
  shows "step_keeps env H (auth_step env x S)"
proof (cases x)
  case (SignIn email password remember)
  then show ?thesis using assms by (auto simp: signIn_def intro!: keeps_start)
next
  case (SignInWithCrmToken crm username)
  then show ?thesis using assms by (auto simp: signInWithCrmToken_def intro!: keeps_start)
next
  case Renew
  then show ?thesis using assms by (auto simp: renew_def intro!: keeps_start keeps_settle split: option.splits)
next
  case Restore
  then show ?thesis using assms by (auto simp: restore_def intro!: keeps_start)
next
  case (ListAccounts now)
  then show ?thesis using keeps_list [OF assms] by simp
next
  case SignOut
  then show ?thesis using session_ok_signed_out [OF assms] by (simp add: signOut_def step_keeps_def lists_authorised_def)
next
  case (Reply i r gateway now)
  then show ?thesis
    using assms by (auto simp: step_keeps_def lists_authorised_def split: option.splits
        dest!: map_of_SomeD keeps_reply [of env H S i _ r gateway now, unfolded step_keeps_def lists_authorised_def])
qed

lemma run_auth_keeps:
  assumes "session_ok env H S"
  shows "step_keeps env H (run_auth env xs S)"
  using assms
proof (induction xs arbitrary: H S)
  case (Cons x xs)
  obtain S1 o1 where 1: "auth_step env x S = (S1, o1)" by fastforce
  obtain S2 o2 where 2: "run_auth env xs S1 = (S2, o2)" by fastforce
  have a: "session_ok env (H \<union> tokens_given o1) S1" "lists_authorised env (H \<union> tokens_given o1) o1"
    using auth_step_keeps [OF Cons.prems, of x] by (simp_all add: 1 step_keeps_def)
  have b: "session_ok env (H \<union> tokens_given o1 \<union> tokens_given o2) S2"
    "lists_authorised env (H \<union> tokens_given o1 \<union> tokens_given o2) o2"
    using Cons.IH [OF a(1)] by (simp_all add: 2 step_keeps_def)
  have "lists_authorised env (H \<union> tokens_given o1 \<union> tokens_given o2) o1"
    using a(2) unfolding lists_authorised_def by (blast intro: authorised_mono)
  with b show ?case by (auto simp: 1 2 step_keeps_def lists_authorised_def Un_assoc)
qed (simp add: step_keeps_def lists_authorised_def)

section \<open>Signed out\<close>

fun awaits_list :: "auth_job \<Rightarrow> bool" where
  "awaits_list (WaitAccounts token crm) = True"
| "awaits_list _ = False"

definition outside :: "auth_state \<Rightarrow> bool" where
  "outside S \<longleftrightarrow> ts_tokens (as_store S) = None \<and> (\<forall>p \<in> set (as_jobs S). awaits_list (snd p))"

fun enters :: "auth_event \<Rightarrow> bool" where
  "enters (SignIn email password remember) = True"
| "enters (SignInWithCrmToken crm username) = True"
| "enters Restore = True"
| "enters _ = False"

lemma auth_step_outside:
  assumes "outside S" "\<not> enters x" "auth_step env x S = (S', out)"
  shows "outside S' \<and> (\<forall>t. TokensChanged (Some t) \<notin> set out)"
proof (cases x)
  case (Reply i r gateway now)
  show ?thesis
  proof (cases "map_of (as_jobs S) i")
    case (Some j)
    then have "awaits_list j" using assms(1) by (fastforce simp: outside_def dest: map_of_SomeD)
    then obtain token crm where j: "j = WaitAccounts token crm" by (cases j) auto
    show ?thesis
      using assms Some by (auto simp: Reply j job_reply_def Let_def outside_def split: sum.splits)
  qed (use assms Reply in auto)
next
  case (ListAccounts now)
  have "held_crm S = None" using assms(1) by (simp add: outside_def held_crm_def)
  then have "as_jobs S' = as_jobs S \<and> as_store S' = as_store S \<and> (\<forall>t. TokensChanged (Some t) \<notin> set out)"
    using assms(3) by (auto simp: ListAccounts listAccounts_def list_afresh_def settle_now_def split: option.splits if_splits)
  then show ?thesis using assms(1) by (simp add: outside_def)
next
  case Renew
  have "held_crm S = None" using assms(1) by (simp add: outside_def held_crm_def)
  then show ?thesis using assms by (auto simp: Renew renew_def settle_now_def outside_def)
qed (use assms in \<open>auto simp: signOut_def outside_def clear_tokens_def set_tokens_def\<close>)

lemma run_auth_outside:
  assumes "outside S" "list_all (\<lambda>x. \<not> enters x) xs" "run_auth env xs S = (S', out)"
  shows "outside S' \<and> (\<forall>t. TokensChanged (Some t) \<notin> set out)"
  using assms
proof (induction xs arbitrary: S S' out)
  case (Cons x xs)
  obtain S1 o1 where 1: "auth_step env x S = (S1, o1)" by fastforce
  obtain S2 o2 where 2: "run_auth env xs S1 = (S2, o2)" by fastforce
  from auth_step_outside [OF Cons.prems(1) _ 1] Cons.prems(2) have a: "outside S1 \<and> (\<forall>t. TokensChanged (Some t) \<notin> set o1)" by simp
  with Cons.IH [OF _ _ 2] Cons.prems show ?case by (auto simp: 1 2)
qed simp

text \<open>
  A renewal under way at the sign-out stores its tokens when it is answered: the session that was left is back,
  with its sockets, although the screen says signed out.
\<close>

definition sample_auth :: auth_env where
  "sample_auth = \<lparr>ae_err = \<lparr>env_now = 0, env_uuid = ''u''\<rparr>, ae_payload = (\<lambda>bs. None), ae_accounts = (\<lambda>v. None),
     ae_issues = (\<lambda>v. ''''), ae_suffixes = (\<lambda>v. None)\<rparr>"

definition token_body :: "string \<Rightarrow> auth_reply" where
  "token_body t = Answered 200 (Some (JObj [(''token'', JStr t)]))"

definition signed_in_events :: "auth_event list" where
  "signed_in_events = [SignIn ''e'' ''p'' False, Reply 0 (token_body ''crm'') (Unreachable '''') 1, Reply 0 (token_body ''jwt'') (Unreachable '''') 2]"

definition nobody :: auth_state where
  "nobody = new_session (new_token_store False NoStorage)"

lemma renewal_revives_session:
  "gatewayToken (as_store (fst (run_auth sample_auth (signed_in_events @ [Renew, SignOut]) nobody))) = None"
  "gatewayToken (as_store (fst (run_auth sample_auth (signed_in_events @ [Renew, SignOut, Reply 1 (token_body ''jwt2'') (Unreachable '''') 3]) nobody))) =
     Some ''jwt2''"
  by code_simp+

text \<open>
  An account list asked for before a renewal and answered after it is cached: for a minute the list is that of the
  token replaced.
\<close>

definition one_account :: auth_env where
  "one_account = sample_auth\<lparr>ae_payload := (\<lambda>bs. Some (JObj [(''accounts'', JStr (if bs = [0] then ''7'' else ''''))])),
     ae_accounts := (\<lambda>v. Some [\<lparr>ca_login = ''7'', ca_currency = None, ca_isReadOnly = None, ca_isEnabled = None,
       ca_type = Some \<lparr>ct_id = 58, ct_description = None, ct_title = None, ct_server = None\<rparr>\<rparr>])\<rparr>"

lemma stale_list_cached:
  "let (S, out) = run_auth one_account [SignIn ''e'' ''p'' False, Reply 0 (token_body ''crm'') (Unreachable '''') 1,
       Reply 0 (token_body ''h.AA.s'') (Unreachable '''') 2, ListAccounts 3, Renew, Reply 2 (token_body ''h.AAA.s'') (Unreachable '''') 4,
       Reply 1 (Answered 200 (Some JNull)) (Unreachable '''') 5] nobody
   in map_option (map ac_login \<circ> fst) (as_cache S) = Some [''7''] \<and>
     map_option (parseJwtAccounts (ae_payload one_account)) (gatewayToken (as_store S)) = Some []"
  by code_simp

section \<open>Registration and profile\<close>

record register_input =
  ri_email :: string
  ri_password :: string
  ri_name :: "string option"
  ri_phone :: "string option"
  ri_country :: "string option"
  ri_city :: "string option"
  ri_language :: "string option"
  ri_timezone :: "string option"

definition when_given :: "string \<Rightarrow> string option \<Rightarrow> (string \<times> string) list" where
  "when_given name v = (case v of None \<Rightarrow> [] | Some t \<Rightarrow> if t = '''' then [] else [(name, t)])"

definition register_body :: "register_input \<Rightarrow> (string \<times> string) list" where
  "register_body i = [(''email'', ri_email i), (''password'', ri_password i), (''name'', or_else (ri_name i) '''')] @
     when_given ''phone'' (ri_phone i) @ when_given ''country'' (ri_country i) @ when_given ''city'' (ri_city i) @
     when_given ''language'' (ri_language i) @ when_given ''timezone'' (ri_timezone i)"

record registered =
  rg_id :: js_number
  rg_email :: js_value
  rg_accounts :: "string list"

text \<open>\<^verbatim>\<open>a ?? b\<close> on values.\<close>

fun js_nullish :: "js_value \<Rightarrow> js_value \<Rightarrow> js_value" where
  "js_nullish JUndefined b = b"
| "js_nullish JNull b = b"
| "js_nullish a b = a"

fun message_or :: "js_value \<Rightarrow> string \<Rightarrow> string" where
  "message_or (JStr s) d = s"
| "message_or _ d = d"

text \<open>\<^verbatim>\<open>String(v)\<close>.\<close>

fun js_text :: "js_value \<Rightarrow> string" where
  "js_text JUndefined = ''undefined''"
| "js_text JNull = ''null''"
| "js_text (JBool b) = (if b then ''true'' else ''false'')"
| "js_text (JNum n) = js_String n"
| "js_text (JStr s) = s"
| "js_text (JBigInt n) = show_int n"
| "js_text (JArr vs) = join '','' (map (\<lambda>v. if v = JNull \<or> v = JUndefined then '''' else js_text v) vs)"
| "js_text (JObj ps) = ''[object Object]''"

text \<open>The body of a 201 answer; what throws is reading a property of \<^verbatim>\<open>null\<close>, or mapping what is no array.\<close>

definition registered_of :: "register_input \<Rightarrow> js_value \<Rightarrow> js_number \<Rightarrow> unit thrown + registered" where
  "registered_of i body n =
     (case js_nullish (js_get body ''accounts'') (JArr []) of
        JArr vs \<Rightarrow> Inr \<lparr>rg_id = n, rg_email = js_nullish (js_get body ''email'') (JStr (ri_email i)), rg_accounts = map js_text vs\<rparr>
      | _ \<Rightarrow> Inl (ThrownOther ''TypeError''))"

definition register_reply :: "err_env \<Rightarrow> register_input \<Rightarrow> auth_reply \<Rightarrow> unit thrown + registered" where
  "register_reply env i r = (case r of
     Unreachable m \<Rightarrow> Inl (ThrownTrading (TradingError_from env (ThrownOther m) no_fallback))
   | Answered status body0 \<Rightarrow>
       (let body = or_else body0 (JObj []) in
        if body = JNull \<and> (status = 201 \<or> status = 400) then Inl (ThrownOther ''TypeError'')
        else case (status = 201, js_get body ''id'') of
          (True, JNum n) \<Rightarrow> registered_of i body n
        | _ \<Rightarrow>
          if status = 409 then Inl (auth_error env Validation ''crm.register.conflict''
            ''That email is already registered -- sign in instead.'' None None)
          else if status = 400 then Inl (auth_error env Validation ''crm.register.invalid''
            (message_or (js_get body ''error'') ''Please check the details and try again.'') None None)
          else Inl (auth_error env Unavailable (''crm.register.'' @ show_int (int status))
            ''Could not create the account right now.'' None None)))"

text \<open>A CRM call with the session's bearer: the token it sends, or the error without one; and the verdict on its reply.\<close>

definition crm_bearer :: "err_env \<Rightarrow> auth_state \<Rightarrow> unit thrown + string" where
  "crm_bearer env S = (case held_crm S of
     None \<Rightarrow> Inl (auth_error env Unauthorized ''auth.no-crm-token'' ''Sign in again to load your profile.'' None None)
   | Some crm \<Rightarrow> Inr (''Bearer '' @ crm))"

definition crmFetch_reply :: "err_env \<Rightarrow> auth_reply \<Rightarrow> unit thrown + js_value option" where
  "crmFetch_reply env r = (case r of
     Unreachable m \<Rightarrow> Inl (ThrownTrading (TradingError_from env (ThrownOther m) no_fallback))
   | Answered status body0 \<Rightarrow>
       if status_ok status then Inr body0
       else (let body = or_else body0 (JObj []) in
         if status = 401 then Inl (auth_error env Unauthorized ''crm.profile.unauthorized''
           ''Your session has expired -- sign in again.'' None None)
         else if status = 400 \<or> status = 403 then
           (if body = JNull then Inl (ThrownOther ''TypeError'')
            else Inl (auth_error env Validation (''crm.profile.'' @ show_int (int status))
              (message_or (js_get body ''error'') ''Please check the details and try again.'') None None))
         else Inl (auth_error env Unavailable (''crm.profile.'' @ show_int (int status))
           ''The profile service is not available right now.'' None None)))"

section \<open>Properties\<close>

text \<open>C12. Fail closed: every list of accounts ever handed out names only accounts that the claim of a token the
  session had then been given authorises, enabled ones, of a known suffix. And a session held is always renewable:
  it has the CRM token it was exchanged for and the expiry of its own token.\<close>

theorem listed_accounts_authorised:
  assumes "run_auth env events (new_session (new_token_store False storage)) = (S, out)"
  shows "(\<forall>i accounts. Settled i (GotAccounts accounts) \<in> set out \<longrightarrow>
      (\<exists>t. TokensChanged (Some t) \<in> set out \<and> (\<forall>a \<in> set accounts.
         ac_login a \<in> set (parseJwtAccounts (ae_payload env) (tk_gatewayToken t)) \<and> ac_enabled a \<and> ac_suffix a \<noteq> None))) \<and>
    (\<forall>t. ts_tokens (as_store S) = Some t \<longrightarrow> tk_crmToken t \<noteq> None \<and>
       tk_expiresAt t = parseJwtExpiry (ae_payload env) (tk_gatewayToken t))"
proof -
  have "session_ok env {} (new_session (new_token_store False storage))"
    by (simp add: session_ok_def new_session_def new_token_store_def)
  from run_auth_keeps [OF this, of events] assms
  have "session_ok env (tokens_given out) S" "lists_authorised env (tokens_given out) out" by (simp_all add: step_keeps_def)
  then show ?thesis
    unfolding lists_authorised_def authorised_def tokens_given_def session_ok_def by blast
qed

theorem listed_accounts_authorised_witness:
  "let out = snd (run_auth one_account [SignIn ''e'' ''p'' False, Reply 0 (token_body ''crm'') (Unreachable '''') 1,
       Reply 0 (token_body ''h.AA.s'') (Unreachable '''') 2, ListAccounts 3, Reply 1 (Answered 200 (Some JNull)) (Unreachable '''') 5] nobody)
   in \<exists>t. TokensChanged (Some t) \<in> set out \<and> ''7'' \<in> set (parseJwtAccounts (ae_payload one_account) (tk_gatewayToken t))"
proof -
  define evs where "evs = [SignIn ''e'' ''p'' False, Reply 0 (token_body ''crm'') (Unreachable '''') 1,
    Reply 0 (token_body ''h.AA.s'') (Unreachable '''') 2, ListAccounts 3, Reply 1 (Answered 200 (Some JNull)) (Unreachable '''') 5]"
  define out where "out = snd (run_auth one_account evs nobody)"
  have "list_ex (\<lambda>x. case x of Settled i (GotAccounts accounts) \<Rightarrow> List.member (map ac_login accounts) ''7'' | _ \<Rightarrow> False) out"
    unfolding out_def evs_def by code_simp
  then obtain x where "x \<in> set out" "case x of Settled i (GotAccounts accounts) \<Rightarrow> List.member (map ac_login accounts) ''7'' | _ \<Rightarrow> False"
    unfolding list_ex_iff by blast
  then have "\<exists>i accounts. Settled i (GotAccounts accounts) \<in> set out \<and> (\<exists>a \<in> set accounts. ac_login a = ''7'')"
    by (cases x rule: auth_output.exhaust) (fastforce split: auth_result.splits)+
  with listed_accounts_authorised [OF prod.collapse [symmetric], where env = one_account and events = evs and storage = NoStorage]
  have "\<exists>t. TokensChanged (Some t) \<in> set out \<and> ''7'' \<in> set (parseJwtAccounts (ae_payload one_account) (tk_gatewayToken t))"
    unfolding out_def nobody_def by fastforce
  then show ?thesis by (simp add: Let_def out_def evs_def)
qed

text \<open>C13. Signed out is signed out: with no sign-in, restore or renewal under way, nothing but a new sign-in or
  restore gives the session a token again, whatever replies still come in.\<close>

theorem signed_out_stays_out:
  assumes "\<forall>p \<in> set (as_jobs S). awaits_list (snd p)"
    and "list_all (\<lambda>x. \<not> enters x) events" "run_auth env (SignOut # events) S = (S', out)"
  shows "gatewayToken (as_store S') = None \<and> (\<forall>t. TokensChanged (Some t) \<notin> set out)"
proof -
  obtain S1 o1 where 1: "auth_step env SignOut S = (S1, o1)" by fastforce
  obtain S2 o2 where 2: "run_auth env events S1 = (S2, o2)" by fastforce
  have "outside S1" "\<forall>t. TokensChanged (Some t) \<notin> set o1"
    using assms(1) 1 by (auto simp: signOut_def outside_def clear_tokens_def set_tokens_def)
  with run_auth_outside [OF _ assms(2) 2] assms(3) 1 2 show ?thesis
    by (auto simp: outside_def gatewayToken_def)
qed

theorem signed_out_stays_out_witness:
  "gatewayToken (as_store (fst (run_auth sample_auth [SignOut, Renew, ListAccounts 9]
      (fst (run_auth sample_auth signed_in_events nobody))))) = None"
proof -
  have "as_jobs (fst (run_auth sample_auth signed_in_events nobody)) = []" by code_simp
  then show ?thesis
    using signed_out_stays_out [OF _ _ prod.collapse [symmetric], where env = sample_auth and events = "[Renew, ListAccounts 9]"
        and S = "fst (run_auth sample_auth signed_in_events nobody)"] by simp
qed

text \<open>The verdict on a reply of the sign-in service: a token exactly from a success with a token that is not
  empty; bad credentials exactly from a 401, and they are never retried; anything else is the service's
  fault and not the trader's.\<close>

theorem sign_in_verdict:
  "case token_of_reply env message r of
     Inr t \<Rightarrow> t \<noteq> '''' \<and> (\<exists>status v. r = Answered status (Some v) \<and> 200 \<le> status \<and> status < 300 \<and> js_get v ''token'' = JStr t)
   | Inl (ThrownTrading e) \<Rightarrow> (te_kind e = Unauthorized \<longleftrightarrow> (\<exists>body. r = Answered 401 body)) \<and>
       (te_kind e = Unauthorized \<longrightarrow> te_message e = message \<and> \<not> te_retryable e) \<and>
       te_kind e \<in> {Unauthorized, Network, Unavailable, Contract} \<and> (te_retryable e \<longleftrightarrow> te_kind e \<in> {Network, Unavailable})
   | Inl _ \<Rightarrow> \<exists>status. r = Answered status None \<and> 200 \<le> status \<and> status < 300"
  by (auto simp: token_of_reply_def token_of_body_def auth_error_def new_TradingError_def status_ok_def
      split: auth_reply.splits option.splits js_value.splits if_splits)

text \<open>A restore opens a session exactly on a success that carries a token and a CRM token, neither of them empty; a
  session without its CRM token is also ended at the gateway. It throws on one answer only, a body of \<open>null\<close>.\<close>

theorem restore_opens_iff:
  assumes "restore_reply env r S = (result, S', out)"
  shows "((\<exists>name. result = GotSession name) \<longleftrightarrow> (\<exists>status v gw crm. r = Answered status (Some v) \<and> 200 \<le> status \<and> status < 300 \<and>
      status \<noteq> 204 \<and> js_get v ''token'' = JStr gw \<and> gw \<noteq> '''' \<and> js_get v ''crmToken'' = JStr crm \<and> crm \<noteq> '''')) \<and>
    ((\<exists>th. result = Threw th) \<longleftrightarrow> null_session r) \<and>
    (Sending ReqLogout \<in> set out \<longrightarrow> result = GotNothing \<and> as_store S' = as_store S)"
proof (cases "restored_tokens env r")
  case None
  then show ?thesis
    using assms by (auto simp: restore_reply_def restored_tokens_def null_session_def status_ok_def
        split: if_splits auth_reply.splits option.splits js_value.splits)
next
  case (Some v)
  then obtain status gw where r: "r = Answered status (Some v)" "200 \<le> status" "status < 300" "status \<noteq> 204"
    "js_get v ''token'' = JStr gw" "gw \<noteq> ''''"
    by (auto simp: restored_tokens_def status_ok_def split: auth_reply.splits if_splits option.splits js_value.splits)
  then have "\<not> null_session r" by (auto simp: null_session_def split: js_value.splits)
  moreover have "nonempty_text x = (case x of JStr s \<Rightarrow> if s = '''' then None else Some s | _ \<Rightarrow> None)" for x
    by (cases x) auto
  ultimately show ?thesis
    using assms r Some by (auto simp: restore_reply_def Let_def split: option.splits js_value.splits if_splits)
qed

theorem restore_opens_iff_witness:
  "\<exists>name. fst (restore_reply sample_auth (Answered 200 (Some (JObj [(''token'', JStr ''a''), (''crmToken'', JStr ''b'')]))) nobody) = GotSession name"
proof -
  have "js_get (JObj [(''token'', JStr ''a''), (''crmToken'', JStr ''b'')]) ''token'' = JStr ''a''"
    "js_get (JObj [(''token'', JStr ''a''), (''crmToken'', JStr ''b'')]) ''crmToken'' = JStr ''b''" by code_simp+
  moreover obtain result S' out where
    "restore_reply sample_auth (Answered 200 (Some (JObj [(''token'', JStr ''a''), (''crmToken'', JStr ''b'')]))) nobody = (result, S', out)"
    by (metis prod_cases3)
  ultimately show ?thesis using restore_opens_iff [of sample_auth _ nobody result S' out] by fastforce
qed

theorem sign_in_verdict_witness:
  "te_kind (new_TradingError \<lparr>env_now = 0, env_uuid = ''u''\<rparr> \<lparr>ei_kind = Unauthorized, ei_message = ''no'', ei_code = Some ''auth.401'',
     ei_requestId = None, ei_detail = None, ei_retryable = Some False, ei_payload = None :: unit option\<rparr>) = Unauthorized"
  using sign_in_verdict [where env = "\<lparr>env_now = 0, env_uuid = ''u''\<rparr>" and message = "''no''" and r = "Answered 401 None"]
  by (simp add: token_of_reply_def auth_error_def)

end
