(* ===== verification/SessionStore.thy ===== *)
theory SessionStore
  imports AuthSession
begin

text \<open>
  Which account is active: \<^verbatim>\<open>frontend/src/stores/session-store.ts\<close>, the choice of an account once the
  list is there (\<^verbatim>\<open>frontend/src/app/App.tsx\<close>), the switch behind a fresh token
  (\<^verbatim>\<open>frontend/src/app/account-switch.ts\<close>) and the probe of a symbol suffix
  (\<^verbatim>\<open>frontend/src/integrations/gateway/suffix-probe.ts\<close>).

  A storage is the list of its items in the order \<^verbatim>\<open>key(i)\<close> gives them; turning the account snapshot into
  text and back (\<^verbatim>\<open>JSON\<close>) is an argument.

  Shown: the suffix in use is always the active account's; a fast boot adopts an account of the session's own claim or
  none, and one the authoritative list then corrects; after a sign-out no account-scoped item is left.
\<close>

section \<open>What signing out leaves\<close>

definition starts_with :: "string \<Rightarrow> string \<Rightarrow> bool" where
  "starts_with s p \<longleftrightarrow> take (length p) s = p"

definition SURVIVES_SIGN_OUT :: "string list" where
  "SURVIVES_SIGN_OUT = [''tradeplatform.workspace.'', ''tradeplatform.chunk-reload-at'']"

definition LEGACY_AUTH_KEYS :: "string list" where
  "LEGACY_AUTH_KEYS = [''token'', ''crm_token'']"

definition KNOWN_ACCOUNT_SCOPED_KEYS :: "string list" where
  "KNOWN_ACCOUNT_SCOPED_KEYS = [''tradeplatform.last-account'', ''tradeplatform.last-account-snapshot'', ''tradeplatform.order-draft'',
     ''tradeplatform.journal.v1'', ''tradeplatform.tv-qty-default.v2'', ''tradeplatform.last-activity'', ''tradeplatform.tv.charts'',
     ''tradeplatform.tv.drawings''] @ LEGACY_AUTH_KEYS"

type_synonym items = "(string \<times> string) list"

definition doomed :: "string \<Rightarrow> bool" where
  "doomed key \<longleftrightarrow> List.member LEGACY_AUTH_KEYS key \<or>
     (starts_with key ''tradeplatform.'' \<and> \<not> list_ex (starts_with key) SURVIVES_SIGN_OUT)"

text \<open>A storage that cannot be enumerated loses the keys known by name only.\<close>

definition clearAccountScopedIn :: "bool \<Rightarrow> items \<Rightarrow> items" where
  "clearAccountScopedIn enumerable st =
     (let st1 = fold alist_del KNOWN_ACCOUNT_SCOPED_KEYS st
      in if \<not> enumerable then st1 else fold alist_del (filter doomed (map fst st1)) st1)"

lemma fold_alist_del: "fold alist_del ks st = filter (\<lambda>p. fst p \<notin> set ks) st"
  by (induction ks arbitrary: st) (auto simp: alist_del_def intro: filter_cong)

section \<open>The account in use\<close>

datatype auth_status = Initialising | SignedOut | SigningIn | SignedIn | StatusExpired

datatype accounts_status = AccountsIdle | AccountsLoading | AccountsReady | AccountsError

record session_state =
  ss_status :: auth_status
  ss_username :: "string option"
  ss_accounts :: "account_option list"
  ss_accountsStatus :: accounts_status
  ss_accountsError :: "string option"
  ss_activeLogin :: "string option"
  ss_suffixPolicy :: suffix_policy
  ss_readOnly :: bool
  ss_error :: "string option"

definition initial_session :: session_state where
  "initial_session = \<lparr>ss_status = Initialising, ss_username = None, ss_accounts = [], ss_accountsStatus = AccountsIdle,
     ss_accountsError = None, ss_activeLogin = None, ss_suffixPolicy = NO_SUFFIX_POLICY, ss_readOnly = False, ss_error = None\<rparr>"

record account_snapshot =
  sn_login :: string
  sn_suffix :: string
  sn_readOnly :: bool

definition LAST_ACCOUNT_KEY :: string where "LAST_ACCOUNT_KEY = ''tradeplatform.last-account''"

definition ACCOUNT_SNAPSHOT_KEY :: string where "ACCOUNT_SNAPSHOT_KEY = ''tradeplatform.last-account-snapshot''"

text \<open>The browser: its local storage (\<open>None\<close> when it is blocked) and its session storage.\<close>

record browser =
  br_local :: "items option"
  br_session :: "items option"

definition set_local :: "string \<Rightarrow> string \<Rightarrow> browser \<Rightarrow> browser" where
  "set_local k v b = b\<lparr>br_local := map_option (alist_set k v) (br_local b)\<rparr>"

definition rememberLastAccount :: "string \<Rightarrow> browser \<Rightarrow> browser" where
  "rememberLastAccount login = set_local LAST_ACCOUNT_KEY login"

definition recallLastAccount :: "browser \<Rightarrow> string option" where
  "recallLastAccount b = (case br_local b of None \<Rightarrow> None | Some st \<Rightarrow> map_of st LAST_ACCOUNT_KEY)"

definition rememberAccountSnapshot :: "(account_snapshot \<Rightarrow> string) \<Rightarrow> account_snapshot \<Rightarrow> browser \<Rightarrow> browser" where
  "rememberAccountSnapshot stringify s = set_local ACCOUNT_SNAPSHOT_KEY (stringify s)"

definition recallAccountSnapshot :: "(string \<Rightarrow> js_value option) \<Rightarrow> browser \<Rightarrow> account_snapshot option" where
  "recallAccountSnapshot parse b = (case br_local b of None \<Rightarrow> None
     | Some st \<Rightarrow> (case map_of st ACCOUNT_SNAPSHOT_KEY of None \<Rightarrow> None
       | Some raw \<Rightarrow> if raw = '''' then None else
           (case parse raw of None \<Rightarrow> None
            | Some v \<Rightarrow> (case (js_get v ''login'', js_get v ''suffix'', js_get v ''readOnly'') of
                (JStr login, JStr suffix, JBool ro) \<Rightarrow>
                  if login = '''' then None else Some \<lparr>sn_login = login, sn_suffix = suffix, sn_readOnly = ro\<rparr>
              | _ \<Rightarrow> None))))"

definition forgetAccountSnapshot :: "browser \<Rightarrow> browser" where
  "forgetAccountSnapshot b = b\<lparr>br_local := map_option (alist_del ACCOUNT_SNAPSHOT_KEY) (br_local b)\<rparr>"

definition clearAccountScopedStorage :: "browser \<Rightarrow> browser" where
  "clearAccountScopedStorage b = b\<lparr>br_local := map_option (clearAccountScopedIn True) (br_local b),
     br_session := map_option (clearAccountScopedIn True) (br_session b)\<rparr>"

definition find_account :: "account_option list \<Rightarrow> string \<Rightarrow> account_option option" where
  "find_account accounts login = find (\<lambda>a. ac_login a = login) accounts"

definition policy_of_account :: "account_option option \<Rightarrow> suffix_policy" where
  "policy_of_account account = (case account of
     Some a \<Rightarrow> (case ac_suffix a of Some suf \<Rightarrow> \<lparr>sp_suffix = suf\<rparr> | None \<Rightarrow> forAccountType (ac_typeId a))
   | None \<Rightarrow> forAccountType None)"

definition read_only_of_account :: "account_option option \<Rightarrow> bool" where
  "read_only_of_account account = (case account of Some a \<Rightarrow> ac_readOnly a | None \<Rightarrow> False)"

definition setStatus :: "auth_status \<Rightarrow> string option \<Rightarrow> session_state \<Rightarrow> session_state" where
  "setStatus status err S = S\<lparr>ss_status := status, ss_error := err\<rparr>"

definition setAccounts :: "account_option list \<Rightarrow> session_state \<Rightarrow> session_state" where
  "setAccounts accounts S = S\<lparr>ss_accounts := accounts\<rparr>"

definition setAccountsStatus :: "accounts_status \<Rightarrow> string option \<Rightarrow> session_state \<Rightarrow> session_state" where
  "setAccountsStatus status err S = S\<lparr>ss_accountsStatus := status, ss_accountsError := err\<rparr>"

type_synonym app = "session_state \<times> browser"

definition setActiveAccount :: "(account_snapshot \<Rightarrow> string) \<Rightarrow> string option \<Rightarrow> app \<Rightarrow> app" where
  "setActiveAccount stringify login = (\<lambda>(S, b). case login of
     None \<Rightarrow> (S\<lparr>ss_activeLogin := None, ss_suffixPolicy := NO_SUFFIX_POLICY, ss_readOnly := False\<rparr>, b)
   | Some l \<Rightarrow>
       (let account = find_account (ss_accounts S) l; policy = policy_of_account account; ro = read_only_of_account account;
            S1 = (if ss_activeLogin S \<noteq> Some l \<or> sp_suffix (ss_suffixPolicy S) \<noteq> sp_suffix policy \<or> ss_readOnly S \<noteq> ro
              then S\<lparr>ss_activeLogin := Some l, ss_suffixPolicy := policy, ss_readOnly := ro\<rparr> else S);
            b1 = rememberLastAccount l b
        in (S1, if account = None then b1
                else rememberAccountSnapshot stringify \<lparr>sn_login = l, sn_suffix = sp_suffix policy, sn_readOnly = ro\<rparr> b1)))"

definition setReadOnly :: "(account_snapshot \<Rightarrow> string) \<Rightarrow> bool \<Rightarrow> app \<Rightarrow> app" where
  "setReadOnly stringify ro = (\<lambda>(S, b). (S\<lparr>ss_readOnly := ro\<rparr>,
     case ss_activeLogin S of None \<Rightarrow> b
     | Some l \<Rightarrow> rememberAccountSnapshot stringify \<lparr>sn_login = l, sn_suffix = sp_suffix (ss_suffixPolicy S), sn_readOnly = ro\<rparr> b))"

definition correctSuffix :: "(account_snapshot \<Rightarrow> string) \<Rightarrow> string \<Rightarrow> string \<Rightarrow> app \<Rightarrow> app" where
  "correctSuffix stringify login suffix = (\<lambda>(S, b).
     if ss_activeLogin S \<noteq> Some login \<or> sp_suffix (ss_suffixPolicy S) = suffix then (S, b)
     else (S\<lparr>ss_suffixPolicy := \<lparr>sp_suffix = suffix\<rparr>\<rparr>,
       rememberAccountSnapshot stringify \<lparr>sn_login = login, sn_suffix = suffix, sn_readOnly = ss_readOnly S\<rparr> b))"

definition adoptRecalledAccount :: "(string \<Rightarrow> js_value option) \<Rightarrow> string list \<Rightarrow> app \<Rightarrow> bool \<times> app" where
  "adoptRecalledAccount parse claimedLogins = (\<lambda>(S, b).
     if ss_activeLogin S \<noteq> None then (False, S, b)
     else case recallAccountSnapshot parse b of
       None \<Rightarrow> (False, S, b)
     | Some s \<Rightarrow> if \<not> List.member claimedLogins (sn_login s) then (False, S, forgetAccountSnapshot b)
         else (True, S\<lparr>ss_activeLogin := Some (sn_login s), ss_suffixPolicy := \<lparr>sp_suffix = sn_suffix s\<rparr>,
           ss_readOnly := sn_readOnly s\<rparr>, b))"

definition reset_session :: "app \<Rightarrow> app" where
  "reset_session = (\<lambda>(S, b). (initial_session\<lparr>ss_status := SignedOut\<rparr>, clearAccountScopedStorage b))"

text \<open>The list has arrived (\<^verbatim>\<open>App.tsx\<close>): \<open>requested\<close> is the account of the address, if there is one.\<close>

definition listed :: "account_option list \<Rightarrow> string option \<Rightarrow> bool" where
  "listed accounts login = (case login of None \<Rightarrow> False | Some l \<Rightarrow> list_ex (\<lambda>a. ac_login a = l) accounts)"

definition preferred_account :: "account_option list \<Rightarrow> browser \<Rightarrow> string option" where
  "preferred_account accounts b = (if listed accounts (recallLastAccount b) then recallLastAccount b
     else case accounts of [] \<Rightarrow> None | a # _ \<Rightarrow> Some (ac_login a))"

definition accounts_arrived ::
    "(account_snapshot \<Rightarrow> string) \<Rightarrow> account_option list \<Rightarrow> string option \<Rightarrow> app \<Rightarrow> app" where
  "accounts_arrived stringify accounts requested = (\<lambda>(S, b).
     (let S1 = setAccountsStatus AccountsReady None (setAccounts accounts S) in
      if listed accounts requested then setActiveAccount stringify requested (S1, b)
      else if \<not> listed accounts (ss_activeLogin S1) then setActiveAccount stringify (preferred_account accounts b) (S1, b)
      else setActiveAccount stringify (ss_activeLogin S1) (S1, b)))"

section \<open>Switching\<close>

text \<open>
  \<open>renewed\<close> is what \<^verbatim>\<open>auth.renew()\<close> resolved to; by then the replacement is in the token store.
\<close>

definition switchTradingAccount ::
    "err_env \<Rightarrow> (nat list \<Rightarrow> js_value option) \<Rightarrow> (account_snapshot \<Rightarrow> string) \<Rightarrow> session_tokens option \<Rightarrow> string \<Rightarrow> app \<Rightarrow>
     (unit thrown + unit) \<times> app" where
  "switchTradingAccount env payload stringify renewed login S = (case renewed of
     None \<Rightarrow> (Inl (auth_error env Unavailable ''auth.switch-renewal''
       ''Your session could not be refreshed for the account switch. The current account remains active -- please try again.'' None None), S)
   | Some t \<Rightarrow>
       if \<not> List.member (parseJwtAccounts payload (tk_gatewayToken t)) login
       then (Inl (auth_error env Forbidden ''auth.switch-unauthorized'' ''Your session does not authorize this account.'' None (Some False)), S)
       else (Inr (), setActiveAccount stringify (Some login) S))"

section \<open>Probing a suffix\<close>

datatype probe_result = ProbeOk | ProbeCorrected | ProbeMisconfigured string "string list" | ProbeIndeterminate

definition PROBE_STEM :: string where "PROBE_STEM = ''EURUSD''"

text \<open>\<open>bars\<close> is the number of daily bars a name serves, \<open>None\<close> for a request that failed.\<close>

definition alive :: "(string \<Rightarrow> nat option) \<Rightarrow> string \<Rightarrow> bool" where
  "alive bars name = (case bars name of None \<Rightarrow> False | Some n \<Rightarrow> 0 < n)"

definition probeSuffix :: "(string \<Rightarrow> nat option) \<Rightarrow> string \<Rightarrow> probe_result" where
  "probeSuffix bars suffix = (case bars (PROBE_STEM @ suffix) of
     None \<Rightarrow> ProbeIndeterminate
   | Some configured \<Rightarrow>
       if 0 < configured then ProbeOk
       else if suffix \<noteq> '''' \<and> alive bars PROBE_STEM then ProbeCorrected
       else (let others = filter (\<lambda>d. d \<noteq> suffix \<and> alive bars (PROBE_STEM @ d)) SUFFIX_DELIMITERS
             in if others = [] then ProbeIndeterminate else ProbeMisconfigured suffix others))"

section \<open>Lemmas\<close>

lemma known_doomed: "k \<in> set KNOWN_ACCOUNT_SCOPED_KEYS \<Longrightarrow> doomed k"
proof -
  have "\<forall>k \<in> set KNOWN_ACCOUNT_SCOPED_KEYS. doomed k" by code_simp
  then show "k \<in> set KNOWN_ACCOUNT_SCOPED_KEYS \<Longrightarrow> doomed k" by blast
qed

lemma clear_enumerable: "clearAccountScopedIn True st = filter (\<lambda>p. \<not> doomed (fst p)) st"
  using known_doomed
  by (auto simp: clearAccountScopedIn_def fold_alist_del Let_def intro!: filter_cong)

lemma clear_by_name: "clearAccountScopedIn False st = filter (\<lambda>p. fst p \<notin> set KNOWN_ACCOUNT_SCOPED_KEYS) st"
  by (simp add: clearAccountScopedIn_def fold_alist_del)

lemma setActiveAccount_session:
  "setActiveAccount stringify (Some l) (S, b) = (S', b') \<Longrightarrow> ss_activeLogin S' = Some l \<and>
     ss_suffixPolicy S' = policy_of_account (find_account (ss_accounts S) l) \<and>
     ss_readOnly S' = read_only_of_account (find_account (ss_accounts S) l) \<and>
     ss_accounts S' = ss_accounts S \<and> ss_accountsStatus S' = ss_accountsStatus S"
  by (auto simp: setActiveAccount_def Let_def split: if_splits)

lemma find_account_listed: "listed accounts (Some l) \<longleftrightarrow> find_account accounts l \<noteq> None"
  by (auto simp: listed_def find_account_def list_ex_iff find_None_iff)

lemma find_account_Some: "find_account accounts l = Some a \<Longrightarrow> a \<in> set accounts \<and> ac_login a = l"
  by (auto simp: find_account_def find_Some_iff)

lemma preferred_listed: "accounts \<noteq> [] \<Longrightarrow> listed accounts (preferred_account accounts b)"
  by (cases accounts) (auto simp: preferred_account_def listed_def split: option.splits)

lemma preferred_none: "preferred_account [] b = None"
  by (auto simp: preferred_account_def listed_def split: option.splits)

text \<open>
  A live correction of the suffix holds until the account list is next applied: the row's configured suffix
  then replaces it, to be probed and corrected again.
\<close>

lemma refresh_undoes_correction:
  assumes "listed accounts (Some l)" "ss_activeLogin S = Some l" "requested = None"
  shows "ss_suffixPolicy (fst (accounts_arrived stringify accounts requested (correctSuffix stringify l suffix (S, b)))) =
    policy_of_account (find_account accounts l)"
proof -
  obtain S1 b1 where c: "correctSuffix stringify l suffix (S, b) = (S1, b1)" by fastforce
  have "ss_activeLogin S1 = Some l" using c assms(2) by (auto simp: correctSuffix_def split: if_splits)
  then show ?thesis
    using assms(1,3) setActiveAccount_session [OF prod.collapse [symmetric], of stringify l "setAccountsStatus AccountsReady None (setAccounts accounts S1)" b1]
    by (simp add: c accounts_arrived_def Let_def listed_def setAccountsStatus_def setAccounts_def)
qed

section \<open>Properties\<close>

text \<open>Signing out clears the browser: of both storages exactly the items remain that carry no account data - none
  under \<open>tradeplatform.\<close> but saved layouts and the reload marker, no legacy token - unchanged and in order; and a
  storage that cannot be enumerated still loses every key known by name.\<close>

theorem sign_out_clears:
  "reset_session (S, b) = (initial_session\<lparr>ss_status := SignedOut\<rparr>,
     \<lparr>br_local = map_option (filter (\<lambda>p. \<not> doomed (fst p))) (br_local b),
      br_session = map_option (filter (\<lambda>p. \<not> doomed (fst p))) (br_session b)\<rparr>) \<and>
   (\<forall>key. doomed key \<longleftrightarrow> List.member LEGACY_AUTH_KEYS key \<or> starts_with key ''tradeplatform.'' \<and>
      \<not> starts_with key ''tradeplatform.workspace.'' \<and> \<not> starts_with key ''tradeplatform.chunk-reload-at'') \<and>
   clearAccountScopedIn False st = filter (\<lambda>p. fst p \<notin> set KNOWN_ACCOUNT_SCOPED_KEYS) st"
proof -
  have "clearAccountScopedIn True = filter (\<lambda>p. \<not> doomed (fst p))" by (rule ext) (rule clear_enumerable)
  then show ?thesis
    by (simp add: reset_session_def clearAccountScopedStorage_def clear_by_name doomed_def SURVIVES_SIGN_OUT_def)
qed


text \<open>A fast boot adopts nobody else's account: it adopts a remembered account only when none is active and the
  session's own claim names it, and otherwise leaves the session as it was; a snapshot outside the claim is forgotten.\<close>

theorem adopted_account_claimed:
  assumes "adoptRecalledAccount parse claimed (S, b) = (adopted, S', b')"
  shows "(adopted \<longrightarrow> ss_activeLogin S = None \<and> (\<exists>s. recallAccountSnapshot parse b = Some s \<and> sn_login s \<in> set claimed \<and>
      ss_activeLogin S' = Some (sn_login s) \<and> sp_suffix (ss_suffixPolicy S') = sn_suffix s \<and> ss_readOnly S' = sn_readOnly s) \<and> b' = b) \<and>
    (\<not> adopted \<longrightarrow> S' = S) \<and>
    (ss_activeLogin S = None \<and> \<not> adopted \<longrightarrow> recallAccountSnapshot parse b' = None)"
proof -
  have forgotten: "recallAccountSnapshot parse (forgetAccountSnapshot b) = None"
    by (cases "br_local b") (simp_all add: recallAccountSnapshot_def forgetAccountSnapshot_def map_of_alist_del)
  show ?thesis
    using assms forgotten by (auto simp: adoptRecalledAccount_def split: if_splits option.splits)
qed

text \<open>The account survives a reload: the snapshot written when a listed account was made active is adopted as it was -
  login, suffix, right to trade - by the next session whose claim names the account.\<close>

theorem account_survives_reload:
  assumes "\<And>s. stringify s \<noteq> '''' \<and> parse (stringify s) = Some (JObj [(''login'', JStr (sn_login s)), (''suffix'', JStr (sn_suffix s)), (''readOnly'', JBool (sn_readOnly s))])"
    and "find_account (ss_accounts S) l = Some a" "br_local b = Some st" "l \<noteq> ''''" "l \<in> set claimed"
    and "setActiveAccount stringify (Some l) (S, b) = (S1, b1)"
  shows "\<exists>S2. adoptRecalledAccount parse claimed (initial_session, b1) = (True, S2, b1) \<and> ss_activeLogin S2 = ss_activeLogin S1 \<and>
    ss_suffixPolicy S2 = ss_suffixPolicy S1 \<and> ss_readOnly S2 = ss_readOnly S1"
proof -
  note s = setActiveAccount_session [OF assms(6)]
  define snap where "snap = \<lparr>sn_login = l, sn_suffix = sp_suffix (policy_of_account (Some a)), sn_readOnly = ac_readOnly a\<rparr>"
  have "b1 = rememberAccountSnapshot stringify snap (rememberLastAccount l b)"
    using assms(2,6) by (simp add: setActiveAccount_def Let_def snap_def read_only_of_account_def)
  then have "\<exists>st1. br_local b1 = Some st1 \<and> map_of st1 ACCOUNT_SNAPSHOT_KEY = Some (stringify snap)"
    using assms(3) by (simp add: rememberAccountSnapshot_def rememberLastAccount_def set_local_def)
  moreover have "js_get (JObj [(''login'', JStr x), (''suffix'', JStr y), (''readOnly'', JBool z)]) ''login'' = JStr x"
    "js_get (JObj [(''login'', JStr x), (''suffix'', JStr y), (''readOnly'', JBool z)]) ''suffix'' = JStr y"
    "js_get (JObj [(''login'', JStr x), (''suffix'', JStr y), (''readOnly'', JBool z)]) ''readOnly'' = JBool z" for x y z
    by simp_all
  ultimately have "recallAccountSnapshot parse b1 = Some snap"
    using assms(1) [of snap] assms(4) by (auto simp: recallAccountSnapshot_def snap_def)
  then show ?thesis
    using s assms(2,5)
    by (simp add: adoptRecalledAccount_def initial_session_def snap_def read_only_of_account_def)
qed

text \<open>The probe of a suffix never guesses: it corrects to bare names only, on evidence that the configured name serves
  no history and the bare one does; a corrected policy then probes well, so that the correction does not
  loop; and a failed request changes nothing.\<close>

theorem probe_never_guesses:
  "(probeSuffix bars suffix = ProbeCorrected \<longleftrightarrow> suffix \<noteq> '''' \<and> bars (PROBE_STEM @ suffix) = Some 0 \<and> alive bars PROBE_STEM) \<and>
   (probeSuffix bars suffix = ProbeCorrected \<longrightarrow> probeSuffix bars '''' = ProbeOk) \<and>
   (bars (PROBE_STEM @ suffix) = None \<longrightarrow> probeSuffix bars suffix = ProbeIndeterminate) \<and>
   (\<forall>c ds. probeSuffix bars suffix = ProbeMisconfigured c ds \<longrightarrow> c = suffix \<and> ds \<noteq> [] \<and>
      (\<forall>d \<in> set ds. d \<noteq> suffix \<and> alive bars (PROBE_STEM @ d)) \<and> \<not> alive bars (PROBE_STEM @ suffix) \<and> \<not> alive bars PROBE_STEM)"
  by (auto simp: probeSuffix_def alive_def Let_def filter_empty_conv split: option.splits if_splits)

section \<open>Witnesses\<close>

definition sample_account :: "string \<Rightarrow> account_option" where
  "sample_account login = \<lparr>ac_login = login, ac_name = login, ac_kind = FundsUnknown, ac_typeId = Some 58, ac_server = None,
     ac_currency = None, ac_readOnly = True, ac_enabled = True, ac_suffix = Some ''!''\<rparr>"

text \<open>A text of a snapshot that is simpler than JSON, and its reading: the login after its length in strokes.\<close>

definition plain_text :: "account_snapshot \<Rightarrow> string" where
  "plain_text s = (if sn_readOnly s then CHR ''r'' else CHR ''w'') # replicate (length (sn_login s)) CHR ''x'' @ ''/'' @ sn_login s @ sn_suffix s"

definition read_plain :: "string \<Rightarrow> js_value option" where
  "read_plain t = (let n = length (takeWhile (\<lambda>c. c = CHR ''x'') (tl t)); body = drop (Suc n) (tl t) in
     Some (JObj [(''login'', JStr (take n body)), (''suffix'', JStr (drop n body)), (''readOnly'', JBool (hd t = CHR ''r''))]))"

lemma read_plain_text: "plain_text s \<noteq> '''' \<and> read_plain (plain_text s) =
    Some (JObj [(''login'', JStr (sn_login s)), (''suffix'', JStr (sn_suffix s)), (''readOnly'', JBool (sn_readOnly s))])"
proof -
  have "takeWhile (\<lambda>c. c = CHR ''x'') (replicate n CHR ''x'' @ CHR ''/'' # r) = replicate n CHR ''x''" for n r
    by (induction n) simp_all
  then show ?thesis by (simp add: plain_text_def read_plain_def Let_def)
qed


theorem adopted_account_claimed_witness:
  "\<exists>s. recallAccountSnapshot read_plain \<lparr>br_local = Some [(ACCOUNT_SNAPSHOT_KEY, ''wx/7!'')], br_session = None\<rparr> = Some s \<and> sn_login s \<in> {''7'', ''8''}"
proof -
  define b where "b = \<lparr>br_local = Some [(ACCOUNT_SNAPSHOT_KEY, ''wx/7!'')], br_session = (None :: items option)\<rparr>"
  have "fst (adoptRecalledAccount read_plain [''7'', ''8''] (initial_session, b))" unfolding b_def by code_simp
  then obtain S' b' where "adoptRecalledAccount read_plain [''7'', ''8''] (initial_session, b) = (True, S', b')"
    by (metis prod.collapse)
  from adopted_account_claimed [OF this] show ?thesis by (auto simp: b_def)
qed

theorem probe_never_guesses_witness:
  "probeSuffix (\<lambda>name. Some (if name = ''EURUSD'' then 9 else 0)) '''' = ProbeOk"
proof -
  have "probeSuffix (\<lambda>name. Some (if name = ''EURUSD'' then 9 else 0)) ''!'' = ProbeCorrected" by code_simp
  then show ?thesis using probe_never_guesses [of "\<lambda>name. Some (if name = ''EURUSD'' then 9 else 0)" "''!''"] by blast
qed

theorem account_survives_reload_witness:
  "\<exists>S2. adoptRecalledAccount read_plain [''7''] (initial_session, snd (setActiveAccount plain_text (Some ''7'')
       (setAccounts [sample_account ''7''] initial_session, \<lparr>br_local = Some [], br_session = None\<rparr>))) =
     (True, S2, snd (setActiveAccount plain_text (Some ''7'')
       (setAccounts [sample_account ''7''] initial_session, \<lparr>br_local = Some [], br_session = None\<rparr>))) \<and> ss_readOnly S2"
proof -
  define S b where "S = setAccounts [sample_account ''7''] initial_session" and "b = \<lparr>br_local = Some [], br_session = (None :: items option)\<rparr>"
  have a: "find_account (ss_accounts S) ''7'' = Some (sample_account ''7'')" unfolding S_def by code_simp
  have ro: "ss_readOnly (fst (setActiveAccount plain_text (Some ''7'') (S, b)))" unfolding S_def b_def by code_simp
  show ?thesis
    using account_survives_reload [OF read_plain_text a, of b "[]" "[''7'']" "fst (setActiveAccount plain_text (Some ''7'') (S, b))"
        "snd (setActiveAccount plain_text (Some ''7'') (S, b))"] ro
    unfolding S_def [symmetric] b_def [symmetric] by (auto simp: b_def)
qed

end
