(* ===== verification/MarketSession.thy ===== *)
theory MarketSession
  imports Jwt
begin

text \<open>
  When a market is open: \<^verbatim>\<open>frontend/src/domain/market/session.ts\<close>. A session text is the gateway's
  (\<open>0000-2359:1|0100-0200,1000-1100:3\<close>, 1 is Sunday); the clock in the symbol's time zone is the platform's
  (\<^verbatim>\<open>Intl\<close>), an argument that gives the weekday and the minute, or nothing for an unknown zone.

  Shown: the market is open exactly at the minutes of the weekly schedule, ranges
  past midnight included; the next opening that is announced is the next minute the schedule covers; a text
  that cannot be understood is unknown and never closed.
\<close>

section \<open>Reading a session\<close>

record session_range =
  sr_startMinute :: int
  sr_endMinute :: int

record parsed_session =
  pd_alwaysOpen :: bool
  pd_days :: "(int \<times> session_range list) list"

definition MINUTES_PER_DAY :: int where "MINUTES_PER_DAY = 1440"

definition toMinutes :: "string \<Rightarrow> int option" where
  "toMinutes hhmm = (case (read_digits 0 (take 2 hhmm), read_digits 0 (take 2 (drop 2 hhmm))) of
     (Some h, Some m) \<Rightarrow> if 24 < h \<or> 59 < m then None else Some (h * 60 + m)
   | _ \<Rightarrow> None)"

text \<open>\<^verbatim>\<open>/^(\d{4})-(\d{4})$/\<close>\<close>

definition four_digits :: "string \<Rightarrow> bool" where
  "four_digits s \<longleftrightarrow> length s = 4 \<and> list_all is_digit s"

definition parse_range :: "string \<Rightarrow> session_range option" where
  "parse_range chunk = (let t = js_trim chunk in
     if four_digits (take 4 t) \<and> take 1 (drop 4 t) = ''-'' \<and> four_digits (drop 5 t) then
       (case (toMinutes (take 4 t), toMinutes (drop 5 t)) of
          (Some s, Some e) \<Rightarrow> Some \<lparr>sr_startMinute = s, sr_endMinute = (if s < e then e else e + MINUTES_PER_DAY)\<rparr>
        | _ \<Rightarrow> None)
     else None)"

definition parseRanges :: "string \<Rightarrow> session_range list" where
  "parseRanges text = or_else (traverse parse_range (js_split CHR '','' text)) []"

definition day_digit :: "char \<Rightarrow> int option" where
  "day_digit c = (case digit_val c of Some d \<Rightarrow> if 1 \<le> d \<and> d \<le> 7 then Some (d - 1) else None | None \<Rightarrow> None)"

definition parseDayMask :: "string \<Rightarrow> int list option" where
  "parseDayMask text = (case traverse day_digit (js_trim text) of Some (d # ds) \<Rightarrow> Some (d # ds) | _ \<Rightarrow> None)"

definition splitOnLastColon :: "string \<Rightarrow> string \<times> string option" where
  "splitOnLastColon part = (if CHR '':'' \<notin> set part then (part, None)
     else (let r = rev part; days = takeWhile (\<lambda>c. c \<noteq> CHR '':'') r
           in (rev (drop (Suc (length days)) r), Some (rev days))))"

definition add_ranges :: "session_range list \<Rightarrow> int \<Rightarrow> (int \<times> session_range list) list \<Rightarrow> (int \<times> session_range list) list" where
  "add_ranges ranges day byDay = alist_set day (or_else (map_of byDay day) [] @ ranges) byDay"

fun parse_segments :: "string list \<Rightarrow> (int \<times> session_range list) list \<Rightarrow> (int \<times> session_range list) list option" where
  "parse_segments [] byDay = Some byDay"
| "parse_segments (segment # rest) byDay =
     (let part = js_trim segment in
      if part = '''' then parse_segments rest byDay
      else let (rangesText, daysText) = splitOnLastColon part; ranges = parseRanges rangesText in
        if ranges = [] then None
        else case (case daysText of None \<Rightarrow> Some [0, 1, 2, 3, 4, 5, 6] | Some t \<Rightarrow> parseDayMask t) of
          None \<Rightarrow> None
        | Some days \<Rightarrow> parse_segments rest (fold (add_ranges ranges) days byDay))"

definition parseSession :: "string option \<Rightarrow> parsed_session option" where
  "parseSession session = (let trimmed = js_trim (or_else session '''') in
     if trimmed = '''' then None
     else if js_lower trimmed = ''24x7'' then Some \<lparr>pd_alwaysOpen = True, pd_days = []\<rparr>
     else case parse_segments (js_split CHR ''|'' trimmed) [] of
       None \<Rightarrow> None
     | Some byDay \<Rightarrow> if byDay = [] then None else Some \<lparr>pd_alwaysOpen = False, pd_days = sort_key fst byDay\<rparr>)"

section \<open>The market now\<close>

datatype market_state = MarketOpen | MarketClosed | MarketUnknown

record zoned_now =
  zn_day :: int
  zn_minute :: int

definition range_covers :: "zoned_now \<Rightarrow> int \<Rightarrow> session_range \<Rightarrow> bool" where
  "range_covers z day r \<longleftrightarrow>
     (day = zn_day z \<and> sr_startMinute r \<le> zn_minute z \<and> zn_minute z < sr_endMinute r) \<or>
     (MINUTES_PER_DAY < sr_endMinute r \<and> (day + 1) mod 7 = zn_day z \<and> zn_minute z < sr_endMinute r - MINUTES_PER_DAY)"

definition within_session :: "parsed_session \<Rightarrow> zoned_now \<Rightarrow> bool" where
  "within_session p z \<longleftrightarrow> list_ex (\<lambda>(day, ranges). list_ex (range_covers z day) ranges) (pd_days p)"

definition marketState :: "(string \<Rightarrow> zoned_now option) \<Rightarrow> string option \<Rightarrow> string option \<Rightarrow> market_state" where
  "marketState zonedNow session timezone = (case parseSession session of
     None \<Rightarrow> MarketUnknown
   | Some p \<Rightarrow> if pd_alwaysOpen p then MarketOpen
       else (case zonedNow (or_str (or_else timezone '''') ''Etc/UTC'') of
         None \<Rightarrow> MarketUnknown
       | Some z \<Rightarrow> if within_session p z then MarketOpen else MarketClosed))"

text \<open>The openings of one day of the scan, in minutes from now.\<close>

definition day_openings :: "parsed_session \<Rightarrow> zoned_now \<Rightarrow> int \<Rightarrow> int list" where
  "day_openings p z offset = (case find (\<lambda>d. fst d = (zn_day z + offset) mod 7) (pd_days p) of
     None \<Rightarrow> []
   | Some (day, ranges) \<Rightarrow> map (\<lambda>r. offset * MINUTES_PER_DAY + sr_startMinute r - zn_minute z) ranges)"

definition nearer :: "int \<Rightarrow> int option \<Rightarrow> int option" where
  "nearer delta best = (if 0 < delta \<and> (case best of None \<Rightarrow> True | Some b \<Rightarrow> delta < b) then Some delta else best)"

definition next_opening :: "parsed_session \<Rightarrow> zoned_now \<Rightarrow> int option" where
  "next_opening p z = fold (\<lambda>offset. fold nearer (day_openings p z offset)) [0, 1, 2, 3, 4, 5, 6, 7] None"

definition minutesUntilOpen :: "(string \<Rightarrow> zoned_now option) \<Rightarrow> string option \<Rightarrow> string option \<Rightarrow> int option" where
  "minutesUntilOpen zonedNow session timezone = (case parseSession session of
     None \<Rightarrow> None
   | Some p \<Rightarrow> if pd_alwaysOpen p then None
       else (case zonedNow (or_str (or_else timezone '''') ''Etc/UTC'') of
         None \<Rightarrow> None
       | Some z \<Rightarrow> if marketState zonedNow session timezone = MarketOpen then None else next_opening p z))"

definition formatDuration :: "int \<Rightarrow> string" where
  "formatDuration minutes = (if minutes < 60 then show_int minutes @ ''m''
     else let hours = minutes div 60; remainder = minutes mod 60 in
       if hours < 24 then (if remainder = 0 then show_int hours @ ''h'' else show_int hours @ ''h '' @ show_int remainder @ ''m'')
       else show_int (hours div 24) @ ''d '' @ show_int (hours mod 24) @ ''h'')"

section \<open>The weekly schedule\<close>

text \<open>Minute \<open>a\<close>, counted from a Sunday's midnight, is in the schedule that repeats every week.\<close>

definition scheduled :: "parsed_session \<Rightarrow> int \<Rightarrow> bool" where
  "scheduled p a \<longleftrightarrow> (\<exists>(day, ranges) \<in> set (pd_days p). \<exists>r \<in> set ranges. \<exists>week.
     1440 * (day + 7 * week) + sr_startMinute r \<le> a \<and> a < 1440 * (day + 7 * week) + sr_endMinute r)"

definition opens_at :: "parsed_session \<Rightarrow> int \<Rightarrow> bool" where
  "opens_at p a \<longleftrightarrow> (\<exists>(day, ranges) \<in> set (pd_days p). \<exists>r \<in> set ranges. \<exists>week. a = 1440 * (day + 7 * week) + sr_startMinute r)"

definition sane_session :: "parsed_session \<Rightarrow> bool" where
  "sane_session p \<longleftrightarrow> distinct (map fst (pd_days p)) \<and> (\<forall>(day, ranges) \<in> set (pd_days p). 0 \<le> day \<and> day < 7 \<and>
     (\<forall>r \<in> set ranges. 0 \<le> sr_startMinute r \<and> sr_startMinute r < 1440 \<and> sr_startMinute r < sr_endMinute r \<and> sr_endMinute r \<le> 2880))"

definition clock_minute :: "zoned_now \<Rightarrow> int" where
  "clock_minute z = 1440 * zn_day z + zn_minute z"

definition clock_ok :: "zoned_now \<Rightarrow> bool" where
  "clock_ok z \<longleftrightarrow> 0 \<le> zn_day z \<and> zn_day z < 7 \<and> 0 \<le> zn_minute z \<and> zn_minute z < 1440"

lemma range_covers_iff:
  assumes "clock_ok z" "0 \<le> day" "day < 7" "0 \<le> sr_startMinute r" "sr_startMinute r < 1440" "sr_endMinute r \<le> 2880"
  shows "range_covers z day r \<longleftrightarrow> (\<exists>week. 1440 * (day + 7 * week) + sr_startMinute r \<le> clock_minute z \<and>
    clock_minute z < 1440 * (day + 7 * week) + sr_endMinute r)"
proof
  define s e d m where "s = sr_startMinute r" and "e = sr_endMinute r" and "d = zn_day z" and "m = zn_minute z"
  note defs = s_def [symmetric] e_def [symmetric] d_def [symmetric] m_def [symmetric]
  have b: "0 \<le> d" "d < 7" "0 \<le> m" "m < 1440" "0 \<le> s" "s < 1440" "e \<le> 2880"
    using assms by (simp_all add: clock_ok_def defs)
  {
    assume "range_covers z day r"
    then consider "day = d" "s \<le> m" "m < e" | "1440 < e" "(day + 1) mod 7 = d" "m < e - 1440"
      by (auto simp: range_covers_def MINUTES_PER_DAY_def defs)
    then show "\<exists>week. 1440 * (day + 7 * week) + s \<le> clock_minute z \<and> clock_minute z < 1440 * (day + 7 * week) + e"
      unfolding clock_minute_def defs
    proof cases
      case 1
      then show "\<exists>week. 1440 * (day + 7 * week) + s \<le> 1440 * d + m \<and> 1440 * d + m < 1440 * (day + 7 * week) + e"
        by (intro exI [of _ 0]) simp
    next
      case 2
      have "day + 1 = d \<or> (day = 6 \<and> d = 0)" using 2(2) assms(2,3) b(1,2) by presburger
      then show "\<exists>week. 1440 * (day + 7 * week) + s \<le> 1440 * d + m \<and> 1440 * d + m < 1440 * (day + 7 * week) + e"
      proof
        assume "day + 1 = d"
        then show ?thesis using 2 b by (intro exI [of _ 0]) auto
      next
        assume "day = 6 \<and> d = 0"
        then show ?thesis using 2 b by (intro exI [of _ "- 1"]) auto
      qed
    qed
  }
  assume "\<exists>week. 1440 * (day + 7 * week) + s \<le> clock_minute z \<and> clock_minute z < 1440 * (day + 7 * week) + e"
  then obtain week where w: "1440 * (day + 7 * week) + s \<le> 1440 * d + m" "1440 * d + m < 1440 * (day + 7 * week) + e"
    by (auto simp: clock_minute_def defs)
  obtain D where D: "day + 7 * week = D" by blast
  have "D \<le> d" using w(1) b unfolding D by linarith
  moreover have "d - 2 < D" using w(2) b unfolding D by linarith
  ultimately have "day + 7 * week = d \<or> day + 7 * week = d - 1" unfolding D by linarith
  then show "range_covers z day r"
  proof
    assume D: "day + 7 * week = d"
    moreover from this have "week = 0" using assms(2,3) b by linarith
    ultimately have "day = d" by simp
    then show ?thesis using w D by (simp add: range_covers_def defs)
  next
    assume D: "day + 7 * week = d - 1"
    then have "day + 1 = d - 7 * week" by simp
    then have "(day + 1) mod 7 = d mod 7" by (simp add: mod_diff_eq [symmetric])
    then have "(day + 1) mod 7 = d" using b by simp
    moreover have "1440 < e \<and> m < e - 1440" using w(2) b unfolding D by auto
    ultimately show ?thesis by (simp add: range_covers_def defs MINUTES_PER_DAY_def)
  qed
qed

lemma within_session_iff:
  assumes "sane_session p" "clock_ok z"
  shows "within_session p z \<longleftrightarrow> scheduled p (clock_minute z)"
proof -
  have "range_covers z day r \<longleftrightarrow> (\<exists>week. 1440 * (day + 7 * week) + sr_startMinute r \<le> clock_minute z \<and>
      clock_minute z < 1440 * (day + 7 * week) + sr_endMinute r)"
    if "(day, ranges) \<in> set (pd_days p)" "r \<in> set ranges" for day ranges r
    using that assms by (intro range_covers_iff) (auto simp: sane_session_def)
  then show ?thesis
    by (fastforce simp: within_session_def scheduled_def list_ex_iff)
qed

section \<open>The next opening\<close>

definition best_of :: "int set \<Rightarrow> int option \<Rightarrow> bool" where
  "best_of P best \<longleftrightarrow> (case best of None \<Rightarrow> P = {} | Some b \<Rightarrow> b \<in> P \<and> (\<forall>x \<in> P. b \<le> x))"

lemma best_of_nearer: "best_of P best \<Longrightarrow> best_of (P \<union> (if 0 < x then {x} else {})) (nearer x best)"
  by (auto simp: best_of_def nearer_def split: option.splits)

lemma best_of_day: "best_of P best \<Longrightarrow> best_of (P \<union> {x \<in> set xs. 0 < x}) (fold nearer xs best)"
proof (induction xs arbitrary: P best)
  case (Cons x xs)
  have "P \<union> {y \<in> set (x # xs). 0 < y} = P \<union> (if 0 < x then {x} else {}) \<union> {y \<in> set xs. 0 < y}" by auto
  then show ?case using Cons.IH [OF best_of_nearer [OF Cons.prems]] by simp
qed simp

lemma best_of_days:
  "best_of P best \<Longrightarrow> best_of (P \<union> {x. \<exists>o' \<in> set offsets. x \<in> set (f o') \<and> 0 < x}) (fold (\<lambda>o'. fold nearer (f o')) offsets best)"
proof (induction offsets arbitrary: P best)
  case (Cons o' offsets)
  have "P \<union> {x. \<exists>k \<in> set (o' # offsets). x \<in> set (f k) \<and> 0 < x} =
      P \<union> {x \<in> set (f o'). 0 < x} \<union> {x. \<exists>k \<in> set offsets. x \<in> set (f k) \<and> 0 < x}" by auto
  then show ?case using Cons.IH [OF best_of_day [OF Cons.prems, of "f o'"]] by simp
qed simp

lemma next_opening_best:
  "best_of {x. \<exists>o' \<in> {0..7}. x \<in> set (day_openings p z o') \<and> 0 < x} (next_opening p z)"
proof -
  have "set [0, 1, 2, 3, 4, 5, 6, 7] = {0..7 :: int}" by auto
  moreover have "best_of {} None" by (simp add: best_of_def)
  ultimately show ?thesis
    using best_of_days [of "{}" None "[0, 1, 2, 3, 4, 5, 6, 7]" "day_openings p z"] by (simp add: next_opening_def)
qed

lemma find_day:
  assumes "distinct (map fst ds)" "(day, ranges) \<in> set ds"
  shows "find (\<lambda>d. fst d = day) ds = Some (day, ranges)"
  using assms by (induction ds) (auto simp: rev_image_eqI)

lemma find_sat: "find P xs = Some x \<Longrightarrow> x \<in> set xs \<and> P x"
  by (induction xs) (auto split: if_splits)

lemma opens_atI:
  "(day, ranges) \<in> set (pd_days p) \<Longrightarrow> r \<in> set ranges \<Longrightarrow> a = 1440 * (day + 7 * week) + sr_startMinute r \<Longrightarrow> opens_at p a"
  unfolding opens_at_def by (rule bexI [of _ "(day, ranges)"]) blast+

lemma day_openings_iff:
  assumes "sane_session p" "clock_ok z"
  shows "x \<in> set (day_openings p z k) \<longleftrightarrow> (\<exists>(day, ranges) \<in> set (pd_days p). \<exists>r \<in> set ranges.
    day = (zn_day z + k) mod 7 \<and> clock_minute z + x = 1440 * (zn_day z + k) + sr_startMinute r)"
proof (cases "find (\<lambda>d. fst d = (zn_day z + k) mod 7) (pd_days p)")
  case None
  then have "day_openings p z k = []" by (simp add: day_openings_def)
  with None show ?thesis by (auto simp: find_None_iff)
next
  case (Some e)
  obtain day ranges where e: "e = (day, ranges)" by fastforce
  have in_days: "(day, ranges) \<in> set (pd_days p)" "day = (zn_day z + k) mod 7"
    using find_sat [OF Some] by (auto simp: e)
  have unique: "rs = ranges" if "(day, rs) \<in> set (pd_days p)" for rs
    using assms(1) that in_days(1) by (auto simp: sane_session_def intro: eq_key_imp_eq_value)
  have "day_openings p z k = map (\<lambda>r. k * 1440 + sr_startMinute r - zn_minute z) ranges"
    by (simp add: day_openings_def Some e MINUTES_PER_DAY_def)
  then have "x \<in> set (day_openings p z k) \<longleftrightarrow> (\<exists>r \<in> set ranges. x = k * 1440 + sr_startMinute r - zn_minute z)"
    by auto
  also have "\<dots> \<longleftrightarrow> (\<exists>r \<in> set ranges. clock_minute z + x = 1440 * (zn_day z + k) + sr_startMinute r)"
    by (intro bex_cong refl) (auto simp: clock_minute_def)
  also have "\<dots> \<longleftrightarrow> (\<exists>(d, rs) \<in> set (pd_days p). \<exists>r \<in> set rs.
      d = (zn_day z + k) mod 7 \<and> clock_minute z + x = 1440 * (zn_day z + k) + sr_startMinute r)"
    using in_days unique by blast
  finally show ?thesis .
qed

lemma opens_at_scheduled: "sane_session p \<Longrightarrow> opens_at p a \<Longrightarrow> scheduled p a"
  by (fastforce simp: opens_at_def scheduled_def sane_session_def)

lemma scheduledI:
  assumes "(day, ranges) \<in> set (pd_days p)" "r \<in> set ranges" "1440 * (day + 7 * week) + sr_startMinute r \<le> a"
    "a < 1440 * (day + 7 * week) + sr_endMinute r"
  shows "scheduled p a"
  unfolding scheduled_def by (rule bexI [OF _ assms(1)]) (use assms(2-4) in blast)

text \<open>From a closed minute on, whatever the schedule covers comes after an opening.\<close>

lemma scheduled_after_opening:
  assumes "\<not> scheduled p a" "scheduled p b" "a \<le> b"
  shows "\<exists>s. opens_at p s \<and> a < s \<and> s \<le> b"
proof -
  obtain day ranges r week where r: "(day, ranges) \<in> set (pd_days p)" "r \<in> set ranges"
    "1440 * (day + 7 * week) + sr_startMinute r \<le> b" "b < 1440 * (day + 7 * week) + sr_endMinute r"
    using assms(2) by (auto simp: scheduled_def)
  have "a < 1440 * (day + 7 * week) + sr_startMinute r"
  proof (rule ccontr)
    assume "\<not> ?thesis"
    then have "scheduled p a" using r assms(3) by (intro scheduledI [OF r(1,2), of week]) simp_all
    with assms(1) show False by simp
  qed
  moreover have "opens_at p (1440 * (day + 7 * week) + sr_startMinute r)" using r by (auto simp: opens_at_def)
  ultimately show ?thesis using r(3) by blast
qed

lemma opening_listed:
  assumes "sane_session p" "clock_ok z" "opens_at p s" "clock_minute z < s"
  shows "\<exists>k \<in> {0..7}. \<exists>x \<in> set (day_openings p z k). 0 < x \<and> x \<le> s - clock_minute z"
proof -
  obtain day ranges r week where r: "(day, ranges) \<in> set (pd_days p)" "r \<in> set ranges"
    "s = 1440 * (day + 7 * week) + sr_startMinute r"
    using assms(3) by (auto simp: opens_at_def)
  have b: "0 \<le> day" "day < 7" "0 \<le> sr_startMinute r" "sr_startMinute r < 1440"
    using assms(1) r by (auto simp: sane_session_def)
  have z: "0 \<le> zn_minute z" "zn_minute z < 1440" using assms(2) by (simp_all add: clock_ok_def)
  obtain k where k: "zn_day z + k = day + 7 * week" by (metis add.commute diff_add_cancel)
  have "- 1440 < 1440 * k"
    using assms(4) b z unfolding r(3) k [symmetric] clock_minute_def by simp
  then have k0: "0 \<le> k" by simp
  define k' where "k' = (if k \<le> 7 then k else (k - 1) mod 7 + 1)"
  have k': "0 \<le> k'" "k' \<le> 7" "k' \<le> k" "k' mod 7 = k mod 7" "k' = k \<or> 1 \<le> k'"
  proof -
    have "(k - 1) mod 7 \<le> k - 1" if "7 < k" using that by (simp add: zmod_le_nonneg_dividend)
    moreover have "((k - 1) mod 7 + 1) mod 7 = k mod 7" by (simp add: mod_add_left_eq)
    ultimately show "0 \<le> k'" "k' \<le> 7" "k' \<le> k" "k' mod 7 = k mod 7" "k' = k \<or> 1 \<le> k'"
      using k0 pos_mod_bound [of 7 "k - 1"] by (auto simp: k'_def)
  qed
  define x where "x = 1440 * (zn_day z + k') + sr_startMinute r - clock_minute z"
  have "(zn_day z + k') mod 7 = (zn_day z + k) mod 7" using k'(4) by (metis mod_add_right_eq)
  also have "\<dots> = day" unfolding k using b by simp
  finally have "x \<in> set (day_openings p z k')"
    using r by (auto simp: day_openings_iff [OF assms(1,2)] x_def)
  moreover have "x \<le> s - clock_minute z" using k'(3) unfolding x_def r(3) k [symmetric] by simp
  moreover have "0 < x"
  proof (cases "k' = k")
    case True
    then show ?thesis using assms(4) unfolding x_def r(3) True k by simp
  next
    case False
    then have "1 \<le> k'" using k'(5) by simp
    then show ?thesis using b z by (simp add: x_def clock_minute_def)
  qed
  ultimately show ?thesis using k' by auto
qed

lemma next_opening_first:
  assumes "sane_session p" "clock_ok z" "\<not> scheduled p (clock_minute z)"
  shows "case next_opening p z of
      Some d \<Rightarrow> 0 < d \<and> scheduled p (clock_minute z + d) \<and> (\<forall>e. 0 \<le> e \<and> e < d \<longrightarrow> \<not> scheduled p (clock_minute z + e))
    | None \<Rightarrow> \<forall>e. 0 \<le> e \<longrightarrow> \<not> scheduled p (clock_minute z + e)"
proof -
  define P where "P = {x. \<exists>o' \<in> {0..7}. x \<in> set (day_openings p z o') \<and> 0 < x}"
  have best: "best_of P (next_opening p z)" using next_opening_best by (simp add: P_def)
  have below: "\<exists>x \<in> P. x \<le> e" if "scheduled p (clock_minute z + e)" "0 \<le> e" for e
  proof -
    have "clock_minute z \<le> clock_minute z + e" using that(2) by simp
    from scheduled_after_opening [OF assms(3) that(1) this]
    obtain s where s: "opens_at p s" "clock_minute z < s" "s \<le> clock_minute z + e" by blast
    from opening_listed [OF assms(1,2) s(1,2)] obtain k x where
      "k \<in> {0..7}" "x \<in> set (day_openings p z k)" "0 < x" "x \<le> s - clock_minute z" by blast
    then show ?thesis using s(3) by (intro bexI [of _ x]) (auto simp: P_def)
  qed
  have hit: "scheduled p (clock_minute z + x)" if "x \<in> P" for x
  proof -
    have "\<exists>k. x \<in> set (day_openings p z k)" using that unfolding P_def by blast
    then obtain k where k: "x \<in> set (day_openings p z k)" ..
    then obtain day ranges r where r: "(day, ranges) \<in> set (pd_days p)" "r \<in> set ranges" "day = (zn_day z + k) mod 7"
      "clock_minute z + x = 1440 * (zn_day z + k) + sr_startMinute r"
      unfolding day_openings_iff [OF assms(1,2)] by auto
    have "zn_day z + k = day + 7 * ((zn_day z + k) div 7)" unfolding r(3) by simp
    then have "opens_at p (clock_minute z + x)"
      unfolding r(4) by (intro opens_atI [OF r(1,2), of _ "(zn_day z + k) div 7"]) simp
    then show ?thesis by (rule opens_at_scheduled [OF assms(1)])
  qed
  show ?thesis
  proof (cases "next_opening p z")
    case None
    then have "P = {}" using best by (simp add: best_of_def)
    then show ?thesis using None below by auto
  next
    case (Some d)
    then have d: "d \<in> P" "\<forall>x \<in> P. d \<le> x" using best by (simp_all add: best_of_def)
    have "0 < d" using d(1) by (simp add: P_def)
    moreover have "\<not> scheduled p (clock_minute z + e)" if "0 \<le> e" "e < d" for e
      using below [of e] that d(2) by fastforce
    ultimately show ?thesis using Some hit [OF d(1)] by simp
  qed
qed

section \<open>What is read\<close>

definition read_range_ok :: "session_range \<Rightarrow> bool" where
  "read_range_ok r \<longleftrightarrow> 0 \<le> sr_startMinute r \<and>
     (sr_startMinute r < 1440 \<longrightarrow> sr_startMinute r < sr_endMinute r \<and> sr_endMinute r \<le> 2880)"

definition read_days_ok :: "(int \<times> session_range list) list \<Rightarrow> bool" where
  "read_days_ok ds \<longleftrightarrow> distinct (map fst ds) \<and> (\<forall>(day, ranges) \<in> set ds. 0 \<le> day \<and> day < 7 \<and> list_all read_range_ok ranges)"

lemma read_digits_nonneg: "read_digits a xs = Some n \<Longrightarrow> 0 \<le> a \<Longrightarrow> 0 \<le> n"
proof (induction xs arbitrary: a)
  case (Cons c cs)
  then obtain d where d: "digit_val c = Some d" by (auto split: option.splits)
  have "0 \<le> d" using d by (auto simp: digit_val_def split: if_splits)
  then show ?case using Cons d by auto
qed simp

lemma toMinutes_bounds:
  assumes "toMinutes s = Some n"
  shows "0 \<le> n" "n \<le> 1499"
proof -
  obtain h m where hm: "read_digits 0 (take 2 s) = Some h" "read_digits 0 (take 2 (drop 2 s)) = Some m"
    "h \<le> 24" "m \<le> 59" "n = h * 60 + m"
    using assms by (auto simp: toMinutes_def split: option.splits if_splits)
  moreover have "0 \<le> h" "0 \<le> m" using hm(1,2) by (auto dest: read_digits_nonneg)
  ultimately show "0 \<le> n" "n \<le> 1499" by simp_all
qed

lemma parse_range_ok: "parse_range c = Some r \<Longrightarrow> read_range_ok r"
proof -
  assume "parse_range c = Some r"
  then obtain s e where r: "toMinutes (take 4 (js_trim c)) = Some s" "toMinutes (drop 5 (js_trim c)) = Some e"
    "r = \<lparr>sr_startMinute = s, sr_endMinute = (if s < e then e else e + 1440)\<rparr>"
    by (auto simp: parse_range_def Let_def MINUTES_PER_DAY_def split: option.splits if_splits)
  show ?thesis using toMinutes_bounds [OF r(1)] toMinutes_bounds [OF r(2)] by (auto simp: read_range_ok_def r(3))
qed

lemma traverse_all: "traverse f xs = Some ys \<Longrightarrow> (\<And>x y. f x = Some y \<Longrightarrow> P y) \<Longrightarrow> list_all P ys"
  by (induction xs arbitrary: ys) (auto split: option.splits)

lemma parseRanges_ok: "list_all read_range_ok (parseRanges s)"
  by (cases "traverse parse_range (js_split CHR '','' s)") (auto simp: parseRanges_def intro: traverse_all parse_range_ok)

lemma parseDayMask_ok: "parseDayMask s = Some ds \<Longrightarrow> list_all (\<lambda>d. 0 \<le> d \<and> d < 7) ds"
proof -
  assume "parseDayMask s = Some ds"
  then have "traverse day_digit (js_trim s) = Some ds" by (auto simp: parseDayMask_def split: option.splits list.splits)
  then show ?thesis by (rule traverse_all) (auto simp: day_digit_def split: option.splits if_splits)
qed

lemma add_ranges_ok:
  assumes "read_days_ok byDay" "list_all read_range_ok ranges" "0 \<le> day" "day < 7"
  shows "read_days_ok (add_ranges ranges day byDay)"
proof -
  have "list_all read_range_ok (or_else (map_of byDay day) [])"
    using assms(1) by (cases "map_of byDay day") (auto simp: read_days_ok_def dest!: map_of_SomeD)
  then show ?thesis
    using assms by (auto simp: read_days_ok_def add_ranges_def distinct_alist_set dest!: set_alist_set)
qed

lemma add_days_ok:
  "read_days_ok byDay \<Longrightarrow> list_all read_range_ok ranges \<Longrightarrow> list_all (\<lambda>d. 0 \<le> d \<and> d < 7) days \<Longrightarrow>
   read_days_ok (fold (add_ranges ranges) days byDay)"
  by (induction days arbitrary: byDay) (auto intro: add_ranges_ok)

lemma parse_segments_ok: "parse_segments segs byDay = Some ds \<Longrightarrow> read_days_ok byDay \<Longrightarrow> read_days_ok ds"
proof (induction segs arbitrary: byDay)
  case (Cons segment rest)
  define part where "part = js_trim segment"
  obtain rt dt where sp: "splitOnLastColon part = (rt, dt)" by fastforce
  show ?case
  proof (cases "part = ''''")
    case True
    then show ?thesis using Cons by (simp add: part_def)
  next
    case False
    obtain days where days: "(case dt of None \<Rightarrow> Some [0, 1, 2, 3, 4, 5, 6] | Some t \<Rightarrow> parseDayMask t) = Some days"
      and rest: "parse_segments rest (fold (add_ranges (parseRanges rt)) days byDay) = Some ds"
      using Cons.prems(1) False by (auto simp: Let_def part_def [symmetric] sp split: if_splits option.splits)
    have "list_all (\<lambda>d. 0 \<le> d \<and> d < 7) days"
      using days by (cases dt) (auto dest: parseDayMask_ok)
    then have "read_days_ok (fold (add_ranges (parseRanges rt)) days byDay)"
      using Cons.prems(2) by (intro add_days_ok parseRanges_ok)
    then show ?thesis by (rule Cons.IH [OF rest])
  qed
qed simp

definition starts_in_day :: "parsed_session \<Rightarrow> bool" where
  "starts_in_day p \<longleftrightarrow> list_all (\<lambda>(day, ranges). list_all (\<lambda>r. sr_startMinute r < 1440) ranges) (pd_days p)"

lemma parsed_sane:
  assumes "parseSession s = Some p" "starts_in_day p"
  shows "sane_session p"
proof -
  have "read_days_ok (pd_days p)"
  proof (cases "pd_days p = []")
    case False
    then obtain ds where ds: "parse_segments (js_split CHR ''|'' (js_trim (or_else s ''''))) [] = Some ds" "pd_days p = sort_key fst ds"
      using assms(1) by (auto simp: parseSession_def Let_def split: if_splits option.splits)
    have ok: "read_days_ok ds" by (rule parse_segments_ok [OF ds(1)]) (simp add: read_days_ok_def)
    moreover have "distinct (map fst (sort_key fst ds))"
      using ok by (simp add: read_days_ok_def distinct_map)
    ultimately show ?thesis by (auto simp: ds(2) read_days_ok_def)
  qed (simp add: read_days_ok_def)
  with assms(2) show ?thesis
    by (fastforce simp: sane_session_def starts_in_day_def read_days_ok_def list_all_iff read_range_ok_def)
qed

text \<open>C23. For a session that is understood and is not always open, in a time zone the platform knows, the market is open at
  exactly the minutes of the weekly schedule the session names, ranges past midnight included, and closed at the others;
  while it is closed, the minutes until it opens that are shown lead to the first minute the schedule covers, and are missing
  exactly when the schedule covers no later minute.\<close>

theorem market_follows_schedule:
  assumes "parseSession session = Some p" "\<not> pd_alwaysOpen p" "starts_in_day p"
    "zonedNow (or_str (or_else timezone '''') ''Etc/UTC'') = Some z" "clock_ok z"
  shows "marketState zonedNow session timezone = (if scheduled p (clock_minute z) then MarketOpen else MarketClosed) \<and>
    (\<not> scheduled p (clock_minute z) \<longrightarrow> (case minutesUntilOpen zonedNow session timezone of
       Some d \<Rightarrow> 0 < d \<and> scheduled p (clock_minute z + d) \<and> (\<forall>e. 0 \<le> e \<and> e < d \<longrightarrow> \<not> scheduled p (clock_minute z + e))
     | None \<Rightarrow> \<forall>e. 0 \<le> e \<longrightarrow> \<not> scheduled p (clock_minute z + e)))"
proof -
  note sane = parsed_sane [OF assms(1,3)]
  have m: "marketState zonedNow session timezone = (if scheduled p (clock_minute z) then MarketOpen else MarketClosed)"
    using assms within_session_iff [OF sane assms(5)] by (simp add: marketState_def)
  have "minutesUntilOpen zonedNow session timezone = next_opening p z" if "\<not> scheduled p (clock_minute z)"
    using assms m that by (simp add: minutesUntilOpen_def)
  then show ?thesis using m next_opening_first [OF sane assms(5)] by auto
qed

definition weekdays :: "string option" where
  "weekdays = Some ''0100-2300:23456|2200-0100:1''"

definition sunday_noon :: "string \<Rightarrow> zoned_now option" where
  "sunday_noon tz = (if tz = ''Etc/UTC'' then Some \<lparr>zn_day = 0, zn_minute = 720\<rparr> else None)"

lemma weekdays_parsed: "parseSession weekdays = Some \<lparr>pd_alwaysOpen = False, pd_days =
  (0, [\<lparr>sr_startMinute = 1320, sr_endMinute = 1500\<rparr>]) # map (\<lambda>d. (d, [\<lparr>sr_startMinute = 60, sr_endMinute = 1380\<rparr>])) [1, 2, 3, 4, 5]\<rparr>"
  by code_simp

lemma sunday_closed: "marketState sunday_noon weekdays None = MarketClosed \<and> minutesUntilOpen sunday_noon weekdays None = Some 600"
  by code_simp

theorem market_follows_schedule_witness: "\<exists>p. parseSession weekdays = Some p \<and> \<not> scheduled p 720 \<and> scheduled p 1320 \<and>
  (\<forall>e. 0 \<le> e \<and> e < 600 \<longrightarrow> \<not> scheduled p (720 + e))"
proof -
  define p where "p = \<lparr>pd_alwaysOpen = False, pd_days = (0, [\<lparr>sr_startMinute = 1320, sr_endMinute = 1500\<rparr>]) #
    map (\<lambda>d. (d, [\<lparr>sr_startMinute = 60, sr_endMinute = 1380\<rparr>])) [1, 2, 3, 4, 5]\<rparr>"
  have p: "parseSession weekdays = Some p" by (simp add: p_def weekdays_parsed)
  have z: "sunday_noon (or_str (or_else None '''') ''Etc/UTC'') = Some \<lparr>zn_day = 0, zn_minute = 720\<rparr>" by code_simp
  have s: "\<not> pd_alwaysOpen p" "starts_in_day p" by (simp_all add: p_def starts_in_day_def)
  note c = market_follows_schedule [where zonedNow = sunday_noon and timezone = None, OF p s z]
  have "\<not> scheduled p 720" using c sunday_closed by (simp add: clock_ok_def clock_minute_def split: if_splits)
  then show ?thesis using c p sunday_closed by (simp add: clock_ok_def clock_minute_def)
qed

end
