(* ===== verification/Calendar.thy ===== *)
theory Calendar
  imports JsArith
begin

text \<open>
  The calendar of JavaScript's \<^verbatim>\<open>Date\<close> in UTC, as the language defines it (proleptic Gregorian, days counted from
  1970-01-01), and the clock of \<^verbatim>\<open>frontend/src/domain/common/broker-time.ts\<close>. Months are counted from 0.

  Shown: the year, month and date of a day are the ones that contain it, and building a day from them gives it back.
\<close>

section \<open>Years and months\<close>

definition day_from_year :: "int \<Rightarrow> int" where
  "day_from_year y = 365 * (y - 1970) + (y - 1969) div 4 - (y - 1901) div 100 + (y - 1601) div 400"

definition leap_year :: "int \<Rightarrow> bool" where
  "leap_year y \<longleftrightarrow> y mod 4 = 0 \<and> (y mod 100 \<noteq> 0 \<or> y mod 400 = 0)"

lemma year_length: "day_from_year (y + 1) = day_from_year y + (if leap_year y then 366 else 365)"
proof -
  have "(n + 1) div k = n div k + (if (n + 1) mod k = 0 then 1 else 0)" if "0 < k" for n k :: int
  proof (cases "n mod k + 1 = k")
    case True
    then have "n + 1 = k * (n div k) + k" using mult_div_mod_eq [of k n] by linarith
    then have "n + 1 = k * (n div k + 1)" by (simp add: distrib_left)
    then show ?thesis using that by simp
  next
    case False
    then have r: "0 < n mod k + 1" "n mod k + 1 < k"
      using pos_mod_bound [OF that, of n] pos_mod_sign [OF that, of n] by linarith+
    have "n + 1 = k * (n div k) + (n mod k + 1)" by simp
    then have "(n + 1) div k = n div k \<and> (n + 1) mod k = n mod k + 1"
      using r by (metis int_div_pos_eq int_mod_pos_eq less_imp_le)
    then show ?thesis using r by simp
  qed
  note step = this
  have divs: "(y - 1968) div 4 = (y - 1969) div 4 + (if (y - 1968) mod 4 = 0 then 1 else 0)"
    "(y - 1900) div 100 = (y - 1901) div 100 + (if (y - 1900) mod 100 = 0 then 1 else 0)"
    "(y - 1600) div 400 = (y - 1601) div 400 + (if (y - 1600) mod 400 = 0 then 1 else 0)"
  proof -
    have next_year: "y - 1969 + 1 = y - 1968" "y - 1901 + 1 = y - 1900" "y - 1601 + 1 = y - 1600" by simp_all
    show "(y - 1968) div 4 = (y - 1969) div 4 + (if (y - 1968) mod 4 = 0 then 1 else 0)"
      using step [of 4 "y - 1969", OF zero_less_numeral] unfolding next_year .
    show "(y - 1900) div 100 = (y - 1901) div 100 + (if (y - 1900) mod 100 = 0 then 1 else 0)"
      using step [of 100 "y - 1901", OF zero_less_numeral] unfolding next_year .
    show "(y - 1600) div 400 = (y - 1601) div 400 + (if (y - 1600) mod 400 = 0 then 1 else 0)"
      using step [of 400 "y - 1601", OF zero_less_numeral] unfolding next_year .
  qed
  have mods: "(y - 1968) mod 4 = y mod 4" "(y - 1900) mod 100 = y mod 100" "(y - 1600) mod 400 = y mod 400"
    using mod_mult_self2 [of "y - 1968" 4 492] mod_mult_self2 [of "y - 1900" 100 19] mod_mult_self2 [of "y - 1600" 400 4]
    by simp_all
  have "day_from_year (y + 1) = 365 * (y - 1970) + 365 + (y - 1968) div 4 - (y - 1900) div 100 + (y - 1600) div 400"
    by (simp add: day_from_year_def)
  also have "\<dots> = day_from_year y + 365 + (if y mod 4 = 0 then 1 else 0) - (if y mod 100 = 0 then 1 else 0) +
      (if y mod 400 = 0 then 1 else 0)"
    unfolding divs mods day_from_year_def by simp
  also have "\<dots> = day_from_year y + (if leap_year y then 366 else 365)"
  proof -
    have nested: "y mod 400 = 0 \<Longrightarrow> y mod 100 = 0" "y mod 100 = 0 \<Longrightarrow> y mod 4 = 0"
      using mod_mod_cancel [of 100 400 y] mod_mod_cancel [of 4 100 y] by simp_all
    consider "y mod 400 = 0" "y mod 100 = 0" "y mod 4 = 0" | "y mod 400 \<noteq> 0" "y mod 100 = 0" "y mod 4 = 0"
      | "y mod 400 \<noteq> 0" "y mod 100 \<noteq> 0" using nested by (cases "y mod 400 = 0"; cases "y mod 100 = 0") simp_all
    then show ?thesis by cases (simp_all add: leap_year_def)
  qed
  finally show ?thesis .
qed

lemma year_mono: "a \<le> b \<Longrightarrow> day_from_year a + 365 * (b - a) \<le> day_from_year b"
proof (induction "nat (b - a)" arbitrary: b)
  case (Suc n)
  then have "day_from_year a + 365 * (b - 1 - a) \<le> day_from_year (b - 1)" by (intro Suc.hyps(1)) simp_all
  moreover have "day_from_year (b - 1) + 365 \<le> day_from_year b" using year_length [of "b - 1"] by simp
  ultimately show ?case by simp
qed simp

lemma year_step: "day_from_year y + 365 \<le> day_from_year (y + 1)"
  by (simp add: year_length)

function year_from :: "int \<Rightarrow> int \<Rightarrow> int" where
  "year_from y d = (if day_from_year (y + 1) \<le> d then year_from (y + 1) d else y)"
  by pat_completeness auto
termination
proof (relation "measure (\<lambda>(y, d). nat (d - day_from_year y))")
  fix y d assume "day_from_year (y + 1) \<le> d"
  then show "((y + 1, d), y, d) \<in> measure (\<lambda>(y, d). nat (d - day_from_year y))" using year_step [of y] by simp
qed simp

declare year_from.simps [simp del]

definition year_of_day :: "int \<Rightarrow> int" where
  "year_of_day d = year_from (1970 + (if 0 \<le> d then d div 366 else d div 365 - 1)) d"

lemma year_from_bounds: "day_from_year y \<le> d \<Longrightarrow> day_from_year (year_from y d) \<le> d \<and> d < day_from_year (year_from y d + 1)"
proof (induction y d rule: year_from.induct)
  case (1 y d)
  then show ?case by (cases "day_from_year (y + 1) \<le> d") (simp_all add: year_from.simps [of y d])
qed

lemma year_linear: "400 * day_from_year (1970 + k) \<le> 400 * (365 * k) + 97 * k + 589"
proof -
  define a b c where "a = (k + 1) div 4" and "b = (k + 69) div 100" and "c = (k + 369) div 400"
  have "day_from_year (1970 + k) = 365 * k + a - b + c"
    by (simp add: day_from_year_def algebra_simps a_def b_def c_def)
  moreover have "4 * a \<le> k + 1" "400 * c \<le> k + 369" by (simp_all add: a_def c_def)
  moreover have "k + 69 - 99 \<le> 100 * b"
    using mult_div_mod_eq [of 100 "k + 69"] pos_mod_bound [of 100 "k + 69"] unfolding b_def [symmetric] by linarith
  ultimately show ?thesis by simp
qed

lemma year_guess: "day_from_year (1970 + (if 0 \<le> d then d div 366 else d div 365 - 1)) \<le> d"
proof (cases "0 \<le> d")
  case True
  define k where "k = d div 366"
  have k: "0 \<le> k" "366 * k \<le> d" using True by (simp_all add: k_def)
  consider "k = 0" | "k = 1" | "2 \<le> k" using k(1) by linarith
  then have "day_from_year (1970 + k) \<le> 366 * k"
    using year_linear [of k] by cases (simp_all add: day_from_year_def)
  then show ?thesis using True k(2) by (simp add: k_def)
next
  case False
  define k where "k = d div 365 - 1"
  have "d div 365 < 0" using False by simp
  moreover have "365 * (d div 365) \<le> d" by simp
  ultimately have k: "k < - 1" "365 * k + 365 \<le> d" by (simp_all add: k_def)
  have "400 * day_from_year (1970 + k) \<le> 400 * (365 * k + 365)" using k(1) year_linear [of k] by simp
  then have "day_from_year (1970 + k) \<le> 365 * k + 365" by simp
  then show ?thesis using False k(2) by (simp add: k_def)
qed

lemma year_of_day_bounds: "day_from_year (year_of_day d) \<le> d" "d < day_from_year (year_of_day d + 1)"
  using year_from_bounds [OF year_guess] by (simp_all add: year_of_day_def)

lemma year_of_day_unique:
  assumes "day_from_year y \<le> d" "d < day_from_year (y + 1)"
  shows "year_of_day d = y"
proof (rule ccontr)
  assume "year_of_day d \<noteq> y"
  then consider (less) "year_of_day d + 1 \<le> y" | (more) "y + 1 \<le> year_of_day d" by linarith
  then show False
  proof cases
    case less
    then have "day_from_year (year_of_day d + 1) \<le> day_from_year y" using year_mono [OF less] by simp
    then show False using assms year_of_day_bounds [of d] by simp
  next
    case more
    then have "day_from_year (y + 1) \<le> day_from_year (year_of_day d)" using year_mono [OF more] by simp
    then show False using assms year_of_day_bounds [of d] by simp
  qed
qed

text \<open>The days before each month of a year.\<close>

definition month_offsets :: "bool \<Rightarrow> int list" where
  "month_offsets leap = [0, 31] @ map (\<lambda>n. if leap then n + 1 else n) [59, 90, 120, 151, 181, 212, 243, 273, 304, 334]"

definition month_offset :: "int \<Rightarrow> int \<Rightarrow> int" where
  "month_offset y m = month_offsets (leap_year y) ! nat m"

definition month_of_day :: "int \<Rightarrow> int" where
  "month_of_day d = (let y = year_of_day d in
     int (length (filter (\<lambda>n. n \<le> d - day_from_year y) (month_offsets (leap_year y)))) - 1)"

definition date_of_day :: "int \<Rightarrow> int" where
  "date_of_day d = d - day_from_year (year_of_day d) - month_offset (year_of_day d) (month_of_day d) + 1"

definition weekday_of_day :: "int \<Rightarrow> int" where
  "weekday_of_day d = (d + 4) mod 7"

text \<open>\<^verbatim>\<open>MakeDay\<close>, for a month within the year.\<close>

definition make_day :: "int \<Rightarrow> int \<Rightarrow> int \<Rightarrow> int" where
  "make_day y m date = day_from_year y + month_offset y m + date - 1"

lemma make_day_back: "make_day (year_of_day d) (month_of_day d) (date_of_day d) = d"
  by (simp add: make_day_def date_of_day_def)

lemma month_offset_values:
  "month_offset y 0 = 0" "month_offset y 1 = 31"
  "month_offset y 2 = (if leap_year y then 60 else 59)" "month_offset y 3 = (if leap_year y then 91 else 90)"
  "month_offset y 4 = (if leap_year y then 121 else 120)" "month_offset y 5 = (if leap_year y then 152 else 151)"
  "month_offset y 6 = (if leap_year y then 182 else 181)" "month_offset y 7 = (if leap_year y then 213 else 212)"
  "month_offset y 8 = (if leap_year y then 244 else 243)" "month_offset y 9 = (if leap_year y then 274 else 273)"
  "month_offset y 10 = (if leap_year y then 305 else 304)" "month_offset y 11 = (if leap_year y then 335 else 334)"
  by (simp_all add: month_offset_def month_offsets_def)

lemma month_cases:
  assumes "0 \<le> m" "m < 12"
  obtains "m = 0" | "m = 1" | "m = 2" | "m = 3" | "m = 4" | "m = 5" | "m = 6" | "m = 7" | "m = 8" | "m = 9" | "m = 10" | "m = (11 :: int)"
proof -
  have "m = 0 \<or> m = 1 \<or> m = 2 \<or> m = 3 \<or> m = 4 \<or> m = 5 \<or> m = 6 \<or> m = 7 \<or> m = 8 \<or> m = 9 \<or> m = 10 \<or> m = 11"
    using assms by presburger
  then show ?thesis using that by blast
qed

lemma month_offset_bounds: "0 \<le> m \<Longrightarrow> m < 12 \<Longrightarrow> 0 \<le> month_offset y m \<and> month_offset y m < (if leap_year y then 366 else 365)"
  by (erule (1) month_cases) (auto simp: month_offset_values)

lemma filter_le_takeWhile: "sorted xs \<Longrightarrow> filter (\<lambda>x. x \<le> n) xs = takeWhile (\<lambda>x. x \<le> n) (xs :: int list)"
proof (induction xs)
  case (Cons x xs)
  show ?case
  proof (cases "x \<le> n")
    case True
    then show ?thesis using Cons by simp
  next
    case False
    then have "filter (\<lambda>x. x \<le> n) xs = []" using Cons.prems by (auto simp: filter_empty_conv)
    then show ?thesis using False by simp
  qed
qed simp

text \<open>The month of a day is the last one that starts by then.\<close>

lemma month_of_day_bounds:
  fixes d
  defines "y \<equiv> year_of_day d"
  shows "0 \<le> month_of_day d \<and> month_of_day d < 12 \<and> month_offset y (month_of_day d) \<le> d - day_from_year y \<and>
    (\<forall>m. 0 \<le> m \<longrightarrow> m < 12 \<longrightarrow> month_offset y m \<le> d - day_from_year y \<longrightarrow> m \<le> month_of_day d)"
proof -
  define n where "n = d - day_from_year y"
  have n: "0 \<le> n" "n < (if leap_year y then 366 else 365)"
    using year_of_day_bounds [of d] year_length [of y] by (simp_all add: n_def y_def)
  define xs where "xs = month_offsets (leap_year y)"
  have sorted: "sorted xs" and len: "length xs = 12" by (simp_all add: xs_def month_offsets_def)
  define k where "k = length (filter (\<lambda>x. x \<le> n) xs)"
  have pre: "filter (\<lambda>x. x \<le> n) xs = take k xs"
    using filter_le_takeWhile [OF sorted, of n] unfolding k_def by (metis takeWhile_eq_take)
  have k: "0 < k" "k \<le> 12"
    using n(1) length_filter_le [of "\<lambda>x. x \<le> n" xs] len by (simp_all add: k_def xs_def month_offsets_def)
  have m: "month_of_day d = int k - 1" by (simp add: month_of_day_def Let_def k_def n_def xs_def y_def)
  have below: "xs ! i \<le> n" if "i < k" for i
  proof -
    have "xs ! i = take k xs ! i" using that by simp
    also have "\<dots> \<in> set (take k xs)" using that k len by (intro nth_mem) simp
    finally show ?thesis unfolding pre [symmetric] by simp
  qed
  have "i < k" if "i < 12" "xs ! i \<le> n" for i
  proof (rule ccontr)
    assume "\<not> i < k"
    have "length (filter (\<lambda>x. x \<le> n) (drop k xs)) = 0"
    proof -
      have "length (filter (\<lambda>x. x \<le> n) xs) = length (filter (\<lambda>x. x \<le> n) (take k xs)) + length (filter (\<lambda>x. x \<le> n) (drop k xs))"
        by (simp flip: length_append filter_append)
      moreover have "filter (\<lambda>x. x \<le> n) (take k xs) = take k xs" by (simp flip: pre)
      ultimately show ?thesis using k len by (simp add: k_def [symmetric])
    qed
    moreover have "xs ! i \<in> set (drop k xs)"
    proof -
      have "drop k xs ! (i - k) = xs ! i" "i - k < length (drop k xs)" using that \<open>\<not> i < k\<close> len by simp_all
      then show ?thesis by (metis nth_mem)
    qed
    ultimately show False using that(2) by (auto simp: filter_empty_conv)
  qed
  note above' = this
  show ?thesis
    unfolding m n_def [symmetric]
  proof (intro conjI allI impI)
    show "month_offset y (int k - 1) \<le> n" using below [of "k - 1"] k by (simp add: month_offset_def xs_def nat_diff_distrib)
    fix i assume i: "0 \<le> i" "i < 12" "month_offset y i \<le> n"
    then have "nat i < k" using above' [of "nat i"] by (simp add: month_offset_def xs_def)
    then show "i \<le> int k - 1" using i(1) by simp
  qed (use k in simp_all)
qed

section \<open>Times\<close>

definition DAY_MS :: int where "DAY_MS = 86400000"

text \<open>The time value of a number of milliseconds: truncated, and none beyond a hundred million days.\<close>

definition time_clip :: "js_number \<Rightarrow> int option" where
  "time_clip x = (case x of Fin v \<Rightarrow>
       if \<bar>v\<bar> \<le> 8640000000000000 then Some (if v < 0 then - \<lfloor>- v\<rfloor> else \<lfloor>v\<rfloor>) else None
     | _ \<Rightarrow> None)"

lemma time_clip_int: "\<bar>n\<bar> \<le> 8640000000000000 \<Longrightarrow> time_clip (js_int n) = Some n"
proof -
  assume n: "\<bar>n\<bar> \<le> 8640000000000000"
  have "\<bar>of_int n :: rat\<bar> \<le> 8640000000000000" using n by (simp flip: of_int_abs)
  moreover have "\<lfloor>- (of_int n :: rat)\<rfloor> = - n" by (simp flip: of_int_minus)
  ultimately show ?thesis by (simp add: time_clip_def js_int_def)
qed

definition js_time :: "int option \<Rightarrow> js_number" where
  "js_time t = (case t of None \<Rightarrow> NaN | Some ms \<Rightarrow> js_int ms)"

text \<open>\<^verbatim>\<open>Date.UTC\<close> of a year, a month and a date; a year of two digits is one of the nineteen hundreds.\<close>

definition date_utc :: "int \<Rightarrow> int \<Rightarrow> int \<Rightarrow> js_number" where
  "date_utc y m date = js_time (time_clip (js_int (DAY_MS * make_day (if 0 \<le> y \<and> y \<le> 99 then 1900 + y else y) m date)))"

definition js_floor :: "js_number \<Rightarrow> js_number" where
  "js_floor x = (case x of Fin v \<Rightarrow> js_int \<lfloor>v\<rfloor> | _ \<Rightarrow> x)"

definition js_trunc :: "js_number \<Rightarrow> js_number" where
  "js_trunc x = (case x of Fin v \<Rightarrow> js_int (if v < 0 then - \<lfloor>- v\<rfloor> else \<lfloor>v\<rfloor>) | _ \<Rightarrow> x)"

section \<open>The broker's clock\<close>

text \<open>Offsets are whole seconds. Truncating the quotient by sixty is exact on them.\<close>

definition brokerZoneLabel :: "int option \<Rightarrow> string" where
  "brokerZoneLabel offset = (case offset of None \<Rightarrow> ''UTC''
     | Some n \<Rightarrow> if n = 0 then ''UTC'' else
         let sign = (if n < 0 then ''-'' else ''+''); whole = \<bar>n\<bar> div 60; hours = whole div 60; minutes = whole mod 60 in
         if minutes = 0 then ''UTC'' @ sign @ show_int hours
         else ''UTC'' @ sign @ show_int hours @ '':'' @ pad_zeros 2 (show_int minutes))"

record broker_parts =
  bp_year :: int
  bp_month :: int
  bp_day :: int
  bp_hour :: int
  bp_minute :: int
  bp_second :: int

text \<open>The fields of a valid date; those of an invalid one are NaN.\<close>

definition brokerParts :: "int \<Rightarrow> int option \<Rightarrow> broker_parts option" where
  "brokerParts msEpoch offset = map_option (\<lambda>t. let d = t div DAY_MS; ms = t mod DAY_MS in
     \<lparr>bp_year = year_of_day d, bp_month = month_of_day d + 1, bp_day = date_of_day d, bp_hour = ms div 3600000,
       bp_minute = ms div 60000 mod 60, bp_second = ms div 1000 mod 60\<rparr>)
     (time_clip (js_int (msEpoch + or_else offset 0 * 1000)))"

definition pad2 :: "int \<Rightarrow> string" where
  "pad2 n = pad_zeros 2 (show_int n)"

definition formatBrokerTime :: "int \<Rightarrow> int option \<Rightarrow> string" where
  "formatBrokerTime msEpoch offset = (case brokerParts msEpoch offset of
     None \<Rightarrow> ''NaN-NaN-NaN NaN:NaN:NaN''
   | Some p \<Rightarrow> show_int (bp_year p) @ ''-'' @ pad2 (bp_month p) @ ''-'' @ pad2 (bp_day p) @ '' '' @
       pad2 (bp_hour p) @ '':'' @ pad2 (bp_minute p) @ '':'' @ pad2 (bp_second p))"

definition formatBrokerDate :: "int \<Rightarrow> int option \<Rightarrow> string" where
  "formatBrokerDate msEpoch offset = (case brokerParts msEpoch offset of
     None \<Rightarrow> ''NaN-NaN-NaN''
   | Some p \<Rightarrow> show_int (bp_year p) @ ''-'' @ pad2 (bp_month p) @ ''-'' @ pad2 (bp_day p))"

definition withZone :: "string \<Rightarrow> int option \<Rightarrow> string" where
  "withZone label offset = label @ '' ('' @ brokerZoneLabel offset @ '')''"

lemma clock_of_day:
  assumes "(0 :: int) \<le> ms" "ms < 86400000"
  shows "3600 * (ms div 3600000) + 60 * (ms div 60000 mod 60) + ms div 1000 mod 60 = ms div 1000 \<and> ms div 3600000 < 24"
proof -
  define n k h where "n = ms div 1000" and "k = n div 60" and "h = k div 60"
  have parts: "ms div 1000 = n" "ms div 60000 = k" "ms div 3600000 = h"
    using zdiv_zmult2_eq [of 60 ms 1000] zdiv_zmult2_eq [of 60 ms 60000] by (simp_all add: n_def k_def h_def)
  have "60 * k + n mod 60 = n" "60 * h + k mod 60 = k"
    unfolding k_def h_def by (rule mult_div_mod_eq)+
  then have "3600 * h + 60 * (k mod 60) + n mod 60 = n" by linarith
  moreover have "3600000 * (ms div 3600000) + ms mod 3600000 = ms" "0 \<le> ms mod 3600000" by simp_all
  then have "3600000 * h \<le> ms" unfolding parts(3) by linarith
  then have "h < 24" using assms(2) by linarith
  ultimately show ?thesis unfolding parts by simp
qed

lemma printed_two: "0 \<le> n \<Longrightarrow> n < 100 \<Longrightarrow> length (pad2 n) = 2 \<and> read_digits 0 (pad2 n) = Some n"
  using show_pos_length [of n 1] by (simp add: pad2_def show_int_def)

text \<open>The stamp of a trade: its fields are two digits each after the year, in the order year, month, date, hour, minute,
  second, and read back as the second of the broker's clock.\<close>

definition stamp_second :: "int \<Rightarrow> int \<Rightarrow> int \<Rightarrow> int \<Rightarrow> int \<Rightarrow> int \<Rightarrow> int" where
  "stamp_second y mo d h mi s = 86400 * make_day y (mo - 1) d + 3600 * h + 60 * mi + s"

definition month_length :: "int \<Rightarrow> int \<Rightarrow> int" where
  "month_length y m = (if m = 11 then (if leap_year y then 366 else 365) else month_offset y (m + 1)) - month_offset y m"

lemma date_of_day_bounds: "1 \<le> date_of_day d \<and> date_of_day d \<le> month_length (year_of_day d) (month_of_day d)"
proof -
  define y m where "y = year_of_day d" and "m = month_of_day d"
  have last: "0 \<le> m \<and> m < 12 \<and> month_offset y m \<le> d - day_from_year y \<and>
      (\<forall>k. 0 \<le> k \<longrightarrow> k < 12 \<longrightarrow> month_offset y k \<le> d - day_from_year y \<longrightarrow> k \<le> m)"
    unfolding y_def m_def by (rule month_of_day_bounds)
  then have b: "0 \<le> m" "m < 12" "month_offset y m \<le> d - day_from_year y" by (blast+)
  have next_month: "d - day_from_year y < month_offset y (m + 1)" if "m \<noteq> 11"
  proof (rule ccontr)
    assume "\<not> ?thesis"
    moreover have "0 \<le> m + 1" "m + 1 < 12" using b(1,2) that by simp_all
    ultimately have "m + 1 \<le> m" using last by (meson linorder_not_le)
    then show False by simp
  qed
  have "d - day_from_year y < (if leap_year y then 366 else 365)"
    using year_of_day_bounds(2) [of d] year_length [of y] by (simp add: y_def)
  then have "d - day_from_year y - month_offset y m + 1 \<le> month_length y m"
    using next_month by (cases "m = 11") (simp_all add: month_length_def not_le)
  then show ?thesis using b(3) unfolding date_of_day_def y_def [symmetric] m_def [symmetric] by simp
qed

lemma month_length_31: "0 \<le> m \<Longrightarrow> m < 12 \<Longrightarrow> month_length y m \<le> 31"
  by (erule (1) month_cases) (auto simp: month_length_def month_offset_values)

text \<open>The stamp of a server time is the wall clock of the broker's zone: the second it names - a date of the calendar, with
  the month and the date within their ranges - is the second of the instant shifted by the broker's offset, and every
  field but the year is two digits that read back as the field.\<close>

theorem stamp_is_broker_clock:
  assumes "\<bar>ms + or_else offset 0 * 1000\<bar> \<le> 8640000000000000"
  shows "\<exists>y mo d h mi s. formatBrokerTime ms offset =
      show_int y @ ''-'' @ pad2 mo @ ''-'' @ pad2 d @ '' '' @ pad2 h @ '':'' @ pad2 mi @ '':'' @ pad2 s \<and>
    formatBrokerDate ms offset = show_int y @ ''-'' @ pad2 mo @ ''-'' @ pad2 d \<and>
    stamp_second y mo d h mi s = (ms + or_else offset 0 * 1000) div 1000 \<and>
    mo \<in> {1..12} \<and> d \<in> {1..month_length y (mo - 1)} \<and> h \<in> {0..23} \<and> mi \<in> {0..59} \<and> s \<in> {0..59} \<and>
    list_all (\<lambda>n. length (pad2 n) = 2 \<and> read_digits 0 (pad2 n) = Some n) [mo, d, h, mi, s]"
proof -
  define t where "t = ms + or_else offset 0 * 1000"
  define day r where "day = t div 86400000" and "r = t mod 86400000"
  define y mo d where "y = year_of_day day" and "mo = month_of_day day + 1" and "d = date_of_day day"
  define h mi s where "h = r div 3600000" and "mi = r div 60000 mod 60" and "s = r div 1000 mod 60"
  have clip: "time_clip (js_int t) = Some t"
    using assms by (intro time_clip_int) (simp add: t_def)
  have r: "0 \<le> r" "r < 86400000" by (simp_all add: r_def)
  from clock_of_day [OF this] have clock: "3600 * h + 60 * mi + s = r div 1000" "h < 24"
    unfolding h_def mi_def s_def by blast+
  have ranges: "0 \<le> h" "0 \<le> mi" "mi < 60" "0 \<le> s" "s < 60" using r(1) by (simp_all add: h_def mi_def s_def pos_imp_zdiv_nonneg_iff)
  have month: "0 \<le> mo - 1" "mo - 1 < 12" using month_of_day_bounds [of day] by (simp_all add: mo_def)
  have date: "1 \<le> d" "d \<le> month_length y (mo - 1)" using date_of_day_bounds [of day] by (simp_all add: y_def mo_def d_def)
  have d31: "d \<le> 31" using date(2) month_length_31 [OF month, of y] by linarith
  have "make_day y (mo - 1) d = day" using make_day_back [of day] by (simp add: y_def mo_def d_def)
  then have "stamp_second y mo d h mi s = 86400 * day + r div 1000" unfolding stamp_second_def using clock(1) by simp
  also have "\<dots> = (r + 86400 * day * 1000) div 1000" using div_mult_self1 [of 1000 r "86400 * day"] by simp
  also have "r + 86400 * day * 1000 = t" using mult_div_mod_eq [of 86400000 t] unfolding day_def r_def by linarith
  finally have second: "stamp_second y mo d h mi s = t div 1000" .
  have parts: "brokerParts ms offset = Some \<lparr>bp_year = y, bp_month = mo, bp_day = d, bp_hour = h, bp_minute = mi, bp_second = s\<rparr>"
    using clip by (simp add: brokerParts_def Let_def DAY_MS_def t_def [symmetric] day_def [symmetric] r_def [symmetric]
      y_def mo_def d_def h_def mi_def s_def)
  have two: "list_all (\<lambda>n. length (pad2 n) = 2 \<and> read_digits 0 (pad2 n) = Some n) [mo, d, h, mi, s]"
    using printed_two [of mo] printed_two [of d] printed_two [of h] printed_two [of mi] printed_two [of s] ranges month date(1) d31 clock(2)
    by simp
  show ?thesis
    unfolding formatBrokerTime_def formatBrokerDate_def parts option.case broker_parts.simps
    by (rule exI [of _ y], rule exI [of _ mo], rule exI [of _ d], rule exI [of _ h], rule exI [of _ mi], rule exI [of _ s])
      (use two second ranges month date clock(2) in \<open>simp add: t_def\<close>)
qed

theorem stamp_is_broker_clock_witness:
  "formatBrokerTime 1787586191000 (Some 10800) = ''2026-08-24 18:43:11'' \<and>
   (\<exists>y mo d h mi s. formatBrokerTime 1787586191000 (Some 10800) =
      show_int y @ ''-'' @ pad2 mo @ ''-'' @ pad2 d @ '' '' @ pad2 h @ '':'' @ pad2 mi @ '':'' @ pad2 s)"
proof -
  have "\<bar>1787586191000 + or_else (Some 10800) 0 * 1000\<bar> \<le> (8640000000000000 :: int)" by simp
  from stamp_is_broker_clock [OF this] show ?thesis
  proof (intro conjI)
    show "formatBrokerTime 1787586191000 (Some 10800) = ''2026-08-24 18:43:11''" by code_simp
  qed blast
qed

section \<open>Buckets of time\<close>

text \<open>A rule that cuts time at given starts: each time belongs to the last start at or before it.\<close>

locale bucketing =
  fixes starts :: "int set" and start :: "int \<Rightarrow> int"
  assumes start_in: "start t \<in> starts"
    and start_le: "start t \<le> t"
    and start_last: "u \<in> starts \<Longrightarrow> u \<le> t \<Longrightarrow> u \<le> start t"
begin

lemma start_mono: "t \<le> u \<Longrightarrow> start t \<le> start u"
  by (meson order_trans start_in start_last start_le)

lemma start_of_start: "u \<in> starts \<Longrightarrow> start u = u"
  by (simp add: antisym start_last start_le)

lemma start_idem [simp]: "start (start t) = start t"
  by (rule start_of_start [OF start_in])

lemma same_bucket_between: "start t \<le> u \<Longrightarrow> u \<le> t \<Longrightarrow> start u = start t"
  by (metis antisym start_idem start_mono)

end

end
