(* ===== verification/Bars.thy ===== *)
theory Bars
  imports Calendar Mappers
begin

text \<open>
  Candles: \<^verbatim>\<open>frontend/src/features/chart/bars.ts\<close>. Numbers are JavaScript's; the theorems are about times that are
  whole seconds up to \<open>2 ^ 38\<close>.

  Shown: \<open>bucketStart\<close> is the last start of a bucket at or before a time; \<open>normalize\<close> gives each time once, in order, with
  the last bar of that time; \<open>aggregate\<close> gives one candle per bucket, which is the reference candle of the bars in
  it; a streamed bar or a tick extends the last candle or starts a later one and never moves back.
\<close>

section \<open>Intervals\<close>

datatype interval = I1 | I5 | I15 | I30 | I60 | I240 | I1D | I1W | I1M

definition INTERVALS :: "(interval \<times> string) list" where
  "INTERVALS = [(I1, ''1''), (I5, ''5''), (I15, ''15''), (I30, ''30''), (I60, ''60''), (I240, ''240''), (I1D, ''1D''), (I1W, ''1W''), (I1M, ''1M'')]"

definition INTERVAL_LABELS :: "interval \<Rightarrow> string" where
  "INTERVAL_LABELS i = (case i of I1 \<Rightarrow> ''1m'' | I5 \<Rightarrow> ''5m'' | I15 \<Rightarrow> ''15m'' | I30 \<Rightarrow> ''30m'' | I60 \<Rightarrow> ''1h'' | I240 \<Rightarrow> ''4h''
     | I1D \<Rightarrow> ''1D'' | I1W \<Rightarrow> ''1W'' | I1M \<Rightarrow> ''1M'')"

definition isInterval :: "string \<Rightarrow> bool" where
  "isInterval v = (v \<in> snd ` set INTERVALS)"

definition isDailyInterval :: "interval \<Rightarrow> bool" where
  "isDailyInterval i = (i = I1D \<or> i = I1W \<or> i = I1M)"

definition intervalSeconds :: "interval \<Rightarrow> int" where
  "intervalSeconds i = (case i of I1D \<Rightarrow> 86400 | I1W \<Rightarrow> 7 * 86400 | I1M \<Rightarrow> 30 * 86400
     | I1 \<Rightarrow> 1 * 60 | I5 \<Rightarrow> 5 * 60 | I15 \<Rightarrow> 15 * 60 | I30 \<Rightarrow> 30 * 60 | I60 \<Rightarrow> 60 * 60 | I240 \<Rightarrow> 240 * 60)"

definition bucketStart :: "js_number \<Rightarrow> interval \<Rightarrow> js_number" where
  "bucketStart timeSeconds i =
     (let date = time_clip (js_mul timeSeconds (js_int 1000));
          calendar = (\<lambda>f. case date of None \<Rightarrow> NaN | Some ms \<Rightarrow> f (ms div DAY_MS)) in
      case i of
        I1D \<Rightarrow> calendar (\<lambda>d. js_div (date_utc (year_of_day d) (month_of_day d) (date_of_day d)) (js_int 1000))
      | I1W \<Rightarrow> calendar (\<lambda>d. js_sub (js_div (date_utc (year_of_day d) (month_of_day d) (date_of_day d)) (js_int 1000))
          (js_mul (js_int ((weekday_of_day d + 6) mod 7)) (js_int 86400)))
      | I1M \<Rightarrow> calendar (\<lambda>d. js_div (date_utc (year_of_day d) (month_of_day d) 1) (js_int 1000))
      | _ \<Rightarrow> js_mul (js_floor (js_div timeSeconds (js_int (intervalSeconds i)))) (js_int (intervalSeconds i)))"

section \<open>Bars\<close>

record bar =
  b_time :: js_number
  b_open :: js_number
  b_high :: js_number
  b_low :: js_number
  b_close :: js_number
  b_volume :: "js_number option"

record tv_bar_dto =
  tb_time :: js_number
  tb_open :: string
  tb_high :: string
  tb_low :: string
  tb_close :: string
  tb_volume :: "string option"

definition fromDto :: "tv_bar_dto \<Rightarrow> bar option" where
  "fromDto dto = (let b = \<lparr>b_time = tb_time dto, b_open = js_Number (tb_open dto), b_high = js_Number (tb_high dto),
       b_low = js_Number (tb_low dto), b_close = js_Number (tb_close dto), b_volume = None\<rparr> in
     if \<not> list_all js_is_finite [b_time b, b_open b, b_high b, b_low b, b_close b] then None
     else if \<not> js_less (Fin 0) (b_time b) then None
     else case tb_volume dto of None \<Rightarrow> Some b
       | Some v \<Rightarrow> let volume = js_Number v in Some (if js_is_finite volume then b\<lparr>b_volume := Some volume\<rparr> else b))"

text \<open>A stable sort by the difference of two times.\<close>

definition sooner :: "bar \<Rightarrow> bar \<Rightarrow> bool" where
  "sooner a b = js_less (js_sub (b_time a) (b_time b)) (Fin 0)"

fun insert_bar :: "bar \<Rightarrow> bar list \<Rightarrow> bar list" where
  "insert_bar b [] = [b]"
| "insert_bar b (c # cs) = (if sooner b c then b # c # cs else c # insert_bar b cs)"

definition by_time :: "bar list \<Rightarrow> (js_number \<times> bar) list" where
  "by_time bars = fold (\<lambda>b. alist_set (b_time b) b) bars []"

definition normalize_bars :: "bar list \<Rightarrow> bar list" where
  "normalize_bars bars = fold insert_bar (map snd (by_time bars)) []"

fun closer_than :: "int \<Rightarrow> bar list \<Rightarrow> bool" where
  "closer_than gap (a # b # bs) = (js_less (js_sub (b_time b) (b_time a)) (js_int gap) \<or> closer_than gap (b # bs))"
| "closer_than gap _ = False"

definition looksLikeRawM1 :: "bar list \<Rightarrow> interval \<Rightarrow> bool" where
  "looksLikeRawM1 bars i = (if isDailyInterval i \<or> i = I1 \<or> length bars < 2 then False else closer_than (intervalSeconds i) bars)"

text \<open>\<^verbatim>\<open>===\<close> on numbers\<close>

definition js_same :: "js_number \<Rightarrow> js_number \<Rightarrow> bool" where
  "js_same a b \<longleftrightarrow> a = b \<and> a \<noteq> NaN"

definition add_volume :: "js_number option \<Rightarrow> js_number option \<Rightarrow> js_number option" where
  "add_volume a b = (if a \<noteq> None \<or> b \<noteq> None then Some (js_add (or_else a (Fin 0)) (or_else b (Fin 0))) else a)"

definition absorb :: "bar \<Rightarrow> bar \<Rightarrow> bar" where
  "absorb current b = current\<lparr>b_high := js_max (b_high current) (b_high b), b_low := js_min (b_low current) (b_low b),
     b_close := b_close b, b_volume := add_volume (b_volume current) (b_volume b)\<rparr>"

text \<open>The result list is built at its end; the last candle is changed in place.\<close>

definition aggregate_step :: "interval \<Rightarrow> bar list \<Rightarrow> bar \<Rightarrow> bar list" where
  "aggregate_step i result b = (let time = bucketStart (b_time b) i in
     if result = [] \<or> \<not> js_same (b_time (last result)) time then result @ [b\<lparr>b_time := time\<rparr>]
     else butlast result @ [absorb (last result) b])"

definition aggregate :: "bar list \<Rightarrow> interval \<Rightarrow> bar list" where
  "aggregate bars i = foldl (aggregate_step i) [] bars"

definition mergeStreamBar :: "bar option \<Rightarrow> bar \<Rightarrow> interval \<Rightarrow> bar option" where
  "mergeStreamBar lst incoming i = (let time = bucketStart (b_time incoming) i in
     case lst of None \<Rightarrow> Some (incoming\<lparr>b_time := time\<rparr>)
     | Some l \<Rightarrow> if js_less (b_time l) time then Some (incoming\<lparr>b_time := time\<rparr>)
         else if js_less time (b_time l) then None
         else Some \<lparr>b_time = time, b_open = b_open l, b_high = js_max (b_high l) (b_high incoming),
           b_low = js_min (b_low l) (b_low incoming), b_close = b_close incoming,
           b_volume = (if b_volume l = None \<and> b_volume incoming = None then None
             else Some (js_max (or_else (b_volume l) (Fin 0)) (or_else (b_volume incoming) (Fin 0))))\<rparr>)"

definition formingPrice :: "quote \<Rightarrow> js_number option" where
  "formingPrice q = (let lst = js_Number (q_last q); bid = js_Number (q_bid q) in
     if js_is_finite lst \<and> js_less (Fin 0) lst then Some lst
     else if js_is_finite bid \<and> js_less (Fin 0) bid then Some bid else None)"

definition applyTick :: "bar option \<Rightarrow> js_number \<Rightarrow> js_number \<Rightarrow> interval \<Rightarrow> bar option" where
  "applyTick lst price atSeconds i =
     (if isDailyInterval i then None
      else let time = bucketStart atSeconds i;
               fresh = Some \<lparr>b_time = time, b_open = price, b_high = price, b_low = price, b_close = price, b_volume = None\<rparr> in
        case lst of None \<Rightarrow> fresh
        | Some l \<Rightarrow> if js_less (b_time l) time then fresh
            else if js_less time (b_time l) then None
            else Some (l\<lparr>b_high := js_max (b_high l) price, b_low := js_min (b_low l) price, b_close := price\<rparr>))"

section \<open>Bucket starts\<close>

text \<open>The start of a bucket on whole seconds.\<close>

definition bucket_int :: "interval \<Rightarrow> int \<Rightarrow> int" where
  "bucket_int i t = (let d = t div 86400 in case i of
     I1W \<Rightarrow> 86400 * (d - (d + 3) mod 7)
   | I1M \<Rightarrow> 86400 * make_day (year_of_day d) (month_of_day d) 1
   | _ \<Rightarrow> t div intervalSeconds i * intervalSeconds i)"

text \<open>Where buckets may start: at the multiples of a size within the hour or the day, at midnight, at a Monday's midnight, at
  the midnight of the first of a month.\<close>

definition bucket_starts :: "interval \<Rightarrow> int set" where
  "bucket_starts i = (case i of
     I1W \<Rightarrow> {t. \<exists>d. t = 86400 * d \<and> weekday_of_day d = 1}
   | I1M \<Rightarrow> {t. \<exists>y m. t = 86400 * make_day y m 1 \<and> 0 \<le> m \<and> m < 12}
   | _ \<Rightarrow> {t. intervalSeconds i dvd t})"

lemma month_offset_mono: "0 \<le> m \<Longrightarrow> m \<le> n \<Longrightarrow> n < 12 \<Longrightarrow> month_offset y m \<le> month_offset y n"
proof -
  assume "0 \<le> m" "m \<le> n" "n < 12"
  moreover have "sorted (month_offsets (leap_year y))" "length (month_offsets (leap_year y)) = 12"
    by (simp_all add: month_offsets_def)
  ultimately show ?thesis by (simp add: month_offset_def sorted_nth_mono)
qed

lemma month_start_last:
  assumes "0 \<le> m" "m < 12" "make_day y m 1 \<le> d"
  shows "make_day y m 1 \<le> make_day (year_of_day d) (month_of_day d) 1"
proof -
  define Y where "Y = year_of_day d"
  have md: "0 \<le> month_of_day d" "month_of_day d < 12" using month_of_day_bounds [of d] by simp_all
  have Yd: "day_from_year Y \<le> d" "d < day_from_year (Y + 1)" using year_of_day_bounds [of d] by (simp_all add: Y_def)
  have off: "0 \<le> month_offset y m" "month_offset y m < 366" using month_offset_bounds [OF assms(1,2), of y] by (simp_all split: if_splits)
  consider (less) "y + 1 \<le> Y" | (same) "y = Y" | (more) "Y + 1 \<le> y" by linarith
  then show ?thesis
  proof cases
    case less
    have "make_day y m 1 < day_from_year (y + 1)"
      using month_offset_bounds [OF assms(1,2), of y] by (simp add: make_day_def year_length)
    also have "\<dots> \<le> day_from_year Y" using year_mono [OF less] less by simp
    also have "\<dots> \<le> make_day Y (month_of_day d) 1" using month_offset_bounds [OF md, of Y] by (simp add: make_day_def)
    finally show ?thesis by (simp add: Y_def)
  next
    case same
    then have "month_offset Y m \<le> d - day_from_year Y" using assms(3) by (simp add: make_day_def)
    then have "m \<le> month_of_day d" using month_of_day_bounds [of d] assms(1,2) unfolding Y_def by blast
    then have "month_offset Y m \<le> month_offset Y (month_of_day d)" using assms(1) md by (intro month_offset_mono)
    then show ?thesis using same by (simp add: make_day_def Y_def)
  next
    case more
    have "day_from_year (Y + 1) \<le> day_from_year y" using year_mono [OF more] more by simp
    also have "\<dots> \<le> make_day y m 1" using off by (simp add: make_day_def)
    finally show ?thesis using assms(3) Yd by simp
  qed
qed

lemma multiple_bucketing:
  assumes "0 < (k :: int)"
  shows "bucketing {t. k dvd t} (\<lambda>t. t div k * k)"
proof
  fix u t assume u: "u \<in> {t. k dvd t}" "u \<le> t"
  then obtain q where q: "u = k * q" by (auto elim: dvdE)
  then have "k * q div k \<le> t div k" using u(2) assms by (intro zdiv_mono1) simp_all
  then have "q \<le> t div k" using assms by simp
  then have "q * k \<le> t div k * k" using assms by (intro mult_right_mono) simp_all
  then show "u \<le> t div k * k" by (simp add: q mult.commute)
next
  fix t
  have "t div k * k + t mod k = t" "0 \<le> t mod k" using assms by simp_all
  then show "t div k * k \<le> t" by linarith
qed simp

lemma week_bucketing: "bucketing {t. \<exists>d. t = 86400 * d \<and> weekday_of_day d = 1} (\<lambda>t. 86400 * (t div 86400 - (t div 86400 + 3) mod 7))"
proof
  fix t :: int
  have "weekday_of_day (d - (d + 3) mod 7) = 1" for d unfolding weekday_of_day_def by presburger
  then show "86400 * (t div 86400 - (t div 86400 + 3) mod 7) \<in> {t. \<exists>d. t = 86400 * d \<and> weekday_of_day d = 1}" by blast
  have "86400 * (t div 86400 - (t div 86400 + 3) mod 7) \<le> 86400 * (t div 86400)" by simp
  also have "\<dots> \<le> t" by simp
  finally show "86400 * (t div 86400 - (t div 86400 + 3) mod 7) \<le> t" .
next
  fix u t :: int
  assume "u \<in> {t. \<exists>d. t = 86400 * d \<and> weekday_of_day d = 1}" "u \<le> t"
  then obtain e where e: "u = 86400 * e" "(e + 4) mod 7 = 1" "e \<le> t div 86400" by (auto simp: weekday_of_day_def)
  have "e \<le> d - (d + 3) mod 7" if "e \<le> d" for d using e(2) that by presburger
  from this [OF e(3)] show "u \<le> 86400 * (t div 86400 - (t div 86400 + 3) mod 7)" unfolding e(1) by (intro mult_left_mono) simp_all
qed

lemma month_bucketing:
  "bucketing {t. \<exists>y m. t = 86400 * make_day y m 1 \<and> 0 \<le> m \<and> m < 12}
     (\<lambda>t. 86400 * make_day (year_of_day (t div 86400)) (month_of_day (t div 86400)) 1)"
proof
  fix t :: int
  define d where "d = t div 86400"
  have m: "0 \<le> month_of_day d" "month_of_day d < 12" using month_of_day_bounds [of d] by simp_all
  then show "86400 * make_day (year_of_day (t div 86400)) (month_of_day (t div 86400)) 1 \<in>
      {t. \<exists>y m. t = 86400 * make_day y m 1 \<and> 0 \<le> m \<and> m < 12}" unfolding d_def by blast
  have "make_day (year_of_day d) (month_of_day d) 1 \<le> d"
    using month_of_day_bounds [of d] by (simp add: make_day_def)
  then have "86400 * make_day (year_of_day d) (month_of_day d) 1 \<le> 86400 * d" by simp
  also have "86400 * d \<le> t" by (simp add: d_def)
  finally show "86400 * make_day (year_of_day (t div 86400)) (month_of_day (t div 86400)) 1 \<le> t" unfolding d_def .
next
  fix u t :: int
  assume "u \<in> {t. \<exists>y m. t = 86400 * make_day y m 1 \<and> 0 \<le> m \<and> m < 12}" "u \<le> t"
  then obtain y m where u: "u = 86400 * make_day y m 1" "0 \<le> m" "m < 12" by blast
  then have "make_day y m 1 \<le> t div 86400" using \<open>u \<le> t\<close> by auto
  from month_start_last [OF u(2,3) this] show "u \<le> 86400 * make_day (year_of_day (t div 86400)) (month_of_day (t div 86400)) 1"
    using u(1) by simp
qed

interpretation bucket: bucketing "bucket_starts i" "bucket_int i" for i
proof (cases "i = I1W \<or> i = I1M")
  case True
  have "bucket_int I1W = (\<lambda>t. 86400 * (t div 86400 - (t div 86400 + 3) mod 7))"
    "bucket_int I1M = (\<lambda>t. 86400 * make_day (year_of_day (t div 86400)) (month_of_day (t div 86400)) 1)"
    by (simp_all add: bucket_int_def Let_def fun_eq_iff)
  then show "bucketing (bucket_starts i) (bucket_int i)"
    using week_bucketing month_bucketing True by (auto simp only: bucket_starts_def interval.case)
next
  case False
  have "0 < intervalSeconds i" by (cases i) (simp_all add: intervalSeconds_def)
  from multiple_bucketing [OF this] have "bucketing {t. intervalSeconds i dvd t} (\<lambda>t. t div intervalSeconds i * intervalSeconds i)" .
  moreover have "bucket_starts i = {t. intervalSeconds i dvd t}" using False by (cases i) (simp_all add: bucket_starts_def)
  moreover have "bucket_int i = (\<lambda>t. t div intervalSeconds i * intervalSeconds i)"
    using False by (cases i) (simp_all only: bucket_int_def fun_eq_iff Let_def interval.case interval.distinct simp_thms)
  ultimately show "bucketing (bucket_starts i) (bucket_int i)" by simp
qed

section \<open>On JavaScript numbers\<close>

text \<open>The quotient of a whole number by a small one is rounded below the next whole number, so its floor is exact.\<close>

lemma floor_quotient:
  assumes "0 \<le> t" "t \<le> 2 ^ 38" "0 < k" "k < 2 ^ 14"
  shows "js_floor (js_div (js_int t) (js_int k)) = js_int (t div k)"
proof -
  define q where "q = t div k"
  have q: "0 \<le> q" "q \<le> 2 ^ 38" "k * q \<le> t" "t \<le> k * q + (k - 1)"
  proof -
    have e: "k * q + t mod k = t" by (simp add: q_def)
    show q0: "0 \<le> q" using assms by (simp add: q_def pos_imp_zdiv_nonneg_iff)
    show kq: "k * q \<le> t" using e pos_mod_sign [OF assms(3), of t] by linarith
    have "1 * q \<le> k * q" using q0 assms(3) by (intro mult_right_mono) simp_all
    then show "q \<le> 2 ^ 38" using kq assms(2) by linarith
    show "t \<le> k * q + (k - 1)" using e pos_mod_bound [OF assms(3), of t] by linarith
  qed
  define x :: rat where "x = of_int t / of_int k"
  define b :: rat where "b = of_int (2 ^ 14 * (q + 1) - 1) / 2 ^ 14"
  have k: "(0 :: rat) < of_int k" using assms(3) by simp
  have "of_int q * of_int k \<le> (of_int t :: rat)" using q(3) by (simp flip: of_int_mult add: mult.commute)
  then have lower: "of_int q \<le> x" using k by (simp add: x_def le_divide_eq)
  have "2 ^ 14 * t \<le> (2 ^ 14 * (q + 1) - 1) * k"
  proof -
    have "2 ^ 14 * t \<le> 2 ^ 14 * (k * q + (k - 1))" using q(4) by simp
    also have "\<dots> = 2 ^ 14 * (k * q + k) - 2 ^ 14" by (simp add: algebra_simps)
    also have "\<dots> \<le> 2 ^ 14 * (k * q + k) - k" using assms(4) by simp
    also have "\<dots> = (2 ^ 14 * (q + 1) - 1) * k" by (simp add: algebra_simps)
    finally show ?thesis .
  qed
  then have "(of_int (2 ^ 14 * t) :: rat) \<le> of_int ((2 ^ 14 * (q + 1) - 1) * k)" by (simp only: of_int_le_iff)
  then have upper: "x \<le> b" using k by (simp add: x_def b_def field_simps)
  have "fl b = Fin b"
  proof (rule fl_exact [of _ "2 ^ 14 * (q + 1) - 1" "- 14"])
    show "b = of_int (2 ^ 14 * (q + 1) - 1) * p2 (- 14)" by (simp add: b_def p2_def)
    show "\<bar>2 ^ 14 * (q + 1) - 1\<bar> \<le> 2 ^ 53" using q(1,2) by simp
    have "b \<le> of_int (q + 1)" "0 \<le> b" using q(1) by (simp_all add: b_def)
    moreover have "(of_int (q + 1) :: rat) \<le> of_int (2 ^ 41)" using q(2) by (simp only: of_int_le_iff) simp
    moreover have "(of_int (2 ^ 41) :: rat) < p2 1024" by (simp add: p2_def)
    ultimately show "\<bar>b\<bar> < p2 1024" by linarith
  qed simp
  moreover have "0 \<le> x" using lower q(1) by (meson of_int_0_le_iff order_trans)
  ultimately obtain a where a: "fl x = Fin a" "a \<le> b" using fl_mono [of x b b] upper by blast
  have "fl (of_int q) = Fin (of_int q)" using q(1,2) fl_int [of q] by (simp add: js_int_def)
  then have "of_int q \<le> a" using fl_mono [of "of_int q" x a] lower q(1) a(1) by auto
  moreover have "a < of_int (q + 1)" using a(2) by (simp add: b_def)
  ultimately have "\<lfloor>a\<rfloor> = q" by (simp add: floor_unique)
  moreover have "js_div (js_int t) (js_int k) = Fin a" using assms(3) a(1) by (simp add: js_int_def x_def)
  ultimately show ?thesis by (simp add: js_floor_def q_def)
qed

lemma js_mul_int: "\<bar>a * b\<bar> \<le> 2 ^ 53 \<Longrightarrow> js_mul (js_int a) (js_int b) = js_int (a * b)"
  using fl_int [of "a * b"] by (simp add: js_int_def)

lemma js_sub_int: "\<bar>a - b\<bar> \<le> 2 ^ 53 \<Longrightarrow> js_sub (js_int a) (js_int b) = js_int (a - b)"
  using fl_int [of "a - b"] by (simp add: js_int_def js_sub_def)

lemma js_less_int [simp]: "js_less (js_int a) (js_int b) \<longleftrightarrow> a < b"
  by (simp add: js_int_def)

lemma js_int_eq [simp]: "js_int a = js_int b \<longleftrightarrow> a = b"
  by (simp add: js_int_def)

lemma js_same_int [simp]: "js_same (js_int a) (js_int b) \<longleftrightarrow> a = b"
  by (auto simp: js_same_def js_int_def)

lemma js_seconds: "\<bar>86400 * d\<bar> \<le> 2 ^ 41 \<Longrightarrow> js_div (js_time (time_clip (js_int (DAY_MS * d)))) (js_int 1000) = js_int (86400 * d)"
proof -
  assume d: "\<bar>86400 * d\<bar> \<le> 2 ^ 41"
  then have "time_clip (js_int (DAY_MS * d)) = Some (DAY_MS * d)" by (intro time_clip_int) (simp add: DAY_MS_def)
  moreover have "fl (of_int (86400 * d)) = js_int (86400 * d)" using d by (intro fl_int) simp
  ultimately show ?thesis by (simp add: js_time_def js_int_def DAY_MS_def)
qed

lemma year_of_day_mono: "d \<le> e \<Longrightarrow> year_of_day d \<le> year_of_day e"
proof (rule ccontr)
  assume de: "d \<le> e" and "\<not> ?thesis"
  then have less: "year_of_day e + 1 \<le> year_of_day d" by simp
  then have "day_from_year (year_of_day e + 1) \<le> day_from_year (year_of_day d)" using year_mono [OF less] by simp
  then show False using year_of_day_bounds(1) [of d] year_of_day_bounds(2) [of e] de by simp
qed

lemma year_since_1970: "0 \<le> d \<Longrightarrow> 1970 \<le> year_of_day d"
  using year_of_day_mono [of 0 d] year_of_day_unique [of 1970 0] by (simp add: day_from_year_def)

lemma bucket_int_near: "t - 31 * 86400 < bucket_int i t"
proof -
  define d where "d = t div 86400"
  have d: "t < 86400 * d + 86400" "86400 * d \<le> t"
    using mult_div_mod_eq [of 86400 t] pos_mod_bound [of 86400 t] pos_mod_sign [of 86400 t] unfolding d_def by linarith+
  consider "i = I1W" | "i = I1M" | "i \<noteq> I1W" "i \<noteq> I1M" by blast
  then show ?thesis
  proof cases
    case 1
    have "(d + 3) mod 7 < 7" by simp
    moreover have "bucket_int i t = 86400 * d - 86400 * ((d + 3) mod 7)" by (simp add: 1 bucket_int_def d_def Let_def)
    ultimately show ?thesis using d by linarith
  next
    case 2
    have "date_of_day d \<le> 31"
      using date_of_day_bounds [of d] month_length_31 [of "month_of_day d" "year_of_day d"] month_of_day_bounds [of d] by linarith
    then have "d - 30 \<le> make_day (year_of_day d) (month_of_day d) 1" by (simp add: date_of_day_def make_day_def)
    moreover have "bucket_int i t = 86400 * make_day (year_of_day d) (month_of_day d) 1" by (simp add: 2 bucket_int_def d_def Let_def)
    ultimately show ?thesis using d by linarith
  next
    case 3
    define k where "k = intervalSeconds i"
    have k: "0 < k" "k \<le> 86400" using 3 by (cases i; simp add: intervalSeconds_def k_def)+
    have "bucket_int i t = t div k * k" using 3 by (cases i) (simp_all only: bucket_int_def Let_def interval.case k_def simp_thms)
    moreover have "t div k * k + t mod k = t" "t mod k < k" using k by simp_all
    ultimately show ?thesis using k by linarith
  qed
qed

lemma bucketStart_int:
  assumes "0 \<le> t" "t \<le> 2 ^ 38"
  shows "bucketStart (js_int t) i = js_int (bucket_int i t)"
proof -
  define d where "d = t div 86400"
  have d: "0 \<le> d" "86400 * d \<le> t" using assms by (simp_all add: d_def pos_imp_zdiv_nonneg_iff)
  have "js_mul (js_int t) (js_int 1000) = js_int (t * 1000)" using assms by (intro js_mul_int) simp
  then have clip: "time_clip (js_mul (js_int t) (js_int 1000)) = Some (t * 1000)"
    using assms by (simp only:) (intro time_clip_int, simp)
  have day: "t * 1000 div DAY_MS = d"
    using div_mult_mult2 [of 1000 t 86400] by (simp add: DAY_MS_def d_def)
  have year: "(0 \<le> year_of_day d \<and> year_of_day d \<le> 99) = False" using year_since_1970 [OF d(1)] by simp
  have utc: "js_div (date_utc (year_of_day d) m k) (js_int 1000) = js_int (86400 * make_day (year_of_day d) m k)"
    if "\<bar>86400 * make_day (year_of_day d) m k\<bar> \<le> 2 ^ 41" for m k
    unfolding date_utc_def year if_False by (rule js_seconds [OF that])
  have today: "js_div (date_utc (year_of_day d) (month_of_day d) (date_of_day d)) (js_int 1000) = js_int (86400 * d)"
    using utc [of "month_of_day d" "date_of_day d"] d assms by (simp add: make_day_back)
  consider "i = I1D" | "i = I1W" | "i = I1M" | "i \<noteq> I1D" "i \<noteq> I1W" "i \<noteq> I1M" by blast
  then show ?thesis
  proof cases
    case 1
    moreover have "bucket_int I1D t = 86400 * d" by (simp only: bucket_int_def Let_def interval.case intervalSeconds_def d_def mult.commute)
    ultimately show ?thesis by (simp add: bucketStart_def Let_def clip day today)
  next
    case 2
    have "(weekday_of_day d + 6) mod 7 = (d + 3 + 7) mod 7" unfolding weekday_of_day_def mod_add_left_eq by simp
    also have "\<dots> = (d + 3) mod 7" by (rule mod_add_self2)
    finally have wd: "(weekday_of_day d + 6) mod 7 = (d + 3) mod 7" .
    have w: "0 \<le> (d + 3) mod 7" "(d + 3) mod 7 < 7" by simp_all
    have "js_mul (js_int ((d + 3) mod 7)) (js_int 86400) = js_int ((d + 3) mod 7 * 86400)"
      using w by (intro js_mul_int) (simp add: abs_mult)
    moreover have "js_sub (js_int (86400 * d)) (js_int ((d + 3) mod 7 * 86400)) = js_int (86400 * d - (d + 3) mod 7 * 86400)"
    proof (rule js_sub_int)
      obtain w' where "(d + 3) mod 7 = w'" "0 \<le> w'" "w' < 7" using w by blast
      then show "\<bar>86400 * d - (d + 3) mod 7 * 86400\<bar> \<le> 2 ^ 53" using d assms by simp
    qed
    ultimately show ?thesis
      using 2 by (simp add: bucketStart_def Let_def clip day today wd bucket_int_def d_def [symmetric] right_diff_distrib mult.commute)
  next
    case 3
    have near: "t - 31 * 86400 < bucket_int I1M t" "bucket_int I1M t \<le> t" using bucket_int_near bucket.start_le by blast+
    have b: "bucket_int I1M t = 86400 * make_day (year_of_day d) (month_of_day d) 1" by (simp add: bucket_int_def d_def Let_def)
    have "\<bar>86400 * make_day (year_of_day d) (month_of_day d) 1\<bar> \<le> 2 ^ 41" using near assms unfolding b by (simp add: abs_le_iff)
    from utc [OF this] show ?thesis using 3 by (simp add: bucketStart_def Let_def clip day b)
  next
    case 4
    define k where "k = intervalSeconds i"
    have k: "0 < k" "k < 2 ^ 14" using 4 by (cases i; simp add: intervalSeconds_def k_def)+
    have "t div k * k + t mod k = t" "0 \<le> t mod k" using k by simp_all
    then have "t div k * k \<le> t" by linarith
    moreover have "0 \<le> t div k * k" using k assms by (simp add: pos_imp_zdiv_nonneg_iff)
    ultimately have "js_mul (js_int (t div k)) (js_int k) = js_int (t div k * k)" using assms by (intro js_mul_int) (simp add: abs_le_iff)
    moreover have "bucketStart (js_int t) i = js_mul (js_floor (js_div (js_int t) (js_int k))) (js_int k)"
      using 4 by (cases i) (simp_all only: bucketStart_def Let_def interval.case k_def, simp_all)
    moreover have "bucket_int i t = t div k * k" using 4 by (cases i) (simp_all only: bucket_int_def Let_def interval.case k_def, simp_all)
    ultimately show ?thesis using floor_quotient [OF assms k] by simp
  qed
qed

text \<open>C27. For every interval and every whole second from 1970 on (to the year 10680), \<open>bucketStart\<close> computed in floating point is
  the last start of a bucket at or before it: the multiples of the interval within the day, midnights, the midnights of Mondays
  and the midnights of the first of a month.\<close>

theorem bucket_start_is_last_start:
  assumes "0 \<le> t" "t \<le> 2 ^ 38"
  shows "\<exists>b. bucketStart (js_int t) i = js_int b \<and> b \<in> bucket_starts i \<and> b \<le> t \<and> (\<forall>u \<in> bucket_starts i. u \<le> t \<longrightarrow> u \<le> b)"
  using bucketStart_int [OF assms] bucket.start_in bucket.start_le bucket.start_last by blast

text \<open>Thursday 2026-09-10 01:00: its week starts on Monday the 7th, its month on Tuesday the 1st.\<close>

theorem bucket_start_is_last_start_witness:
  "\<exists>b. bucketStart (js_int 1789002000) I1W = js_int b \<and> (\<exists>d. b = 86400 * d \<and> weekday_of_day d = 1) \<and> b \<le> 1789002000"
proof -
  from bucket_start_is_last_start [of 1789002000 I1W] show ?thesis by (force simp: bucket_starts_def)
qed

lemma september_2026: "bucketStart (js_int 1789002000) I1W = js_int 1788739200 \<and> bucketStart (js_int 1789002000) I1M = js_int 1788220800 \<and>
  bucketStart (js_int 1789002899) I15 = js_int 1789002000"
  by code_simp

section \<open>Candles\<close>

definition secs :: "bar \<Rightarrow> int" where
  "secs b = (case b_time b of Fin x \<Rightarrow> \<lfloor>x\<rfloor> | _ \<Rightarrow> 0)"

definition timed :: "bar \<Rightarrow> bool" where
  "timed b \<longleftrightarrow> b_time b = js_int (secs b) \<and> 0 \<le> secs b \<and> secs b \<le> 2 ^ 38"

definition ascending :: "bar list \<Rightarrow> bool" where
  "ascending bs \<longleftrightarrow> sorted_wrt (\<lambda>a b. js_less (b_time a) (b_time b)) bs"

text \<open>The bars of one bucket after another, and the candle of a bucket: it opens with its first bar, closes with its last and
  spans their highs and lows.\<close>

function buckets :: "interval \<Rightarrow> bar list \<Rightarrow> bar list list" where
  "buckets i [] = []"
| "buckets i (b # bs) = (let same = (\<lambda>c. bucketStart (b_time c) i = bucketStart (b_time b) i) in
     (b # takeWhile same bs) # buckets i (dropWhile same bs))"
  by pat_completeness auto
termination by (relation "measure (length \<circ> snd)") (auto simp: le_imp_less_Suc length_dropWhile_le)

definition candle_of :: "interval \<Rightarrow> bar list \<Rightarrow> bar" where
  "candle_of i g = \<lparr>b_time = bucketStart (b_time (hd g)) i, b_open = b_open (hd g),
     b_high = foldl js_max (b_high (hd g)) (map b_high (tl g)), b_low = foldl js_min (b_low (hd g)) (map b_low (tl g)),
     b_close = b_close (last g), b_volume = foldl add_volume (b_volume (hd g)) (map b_volume (tl g))\<rparr>"

lemma absorb_all:
  "foldl absorb c bs = c\<lparr>b_high := foldl js_max (b_high c) (map b_high bs), b_low := foldl js_min (b_low c) (map b_low bs),
     b_close := last (b_close c # map b_close bs), b_volume := foldl add_volume (b_volume c) (map b_volume bs)\<rparr>"
  by (induction bs arbitrary: c) (simp_all add: absorb_def)

lemma candle_of_absorb: "candle_of i (b # bs) = foldl absorb (b\<lparr>b_time := bucketStart (b_time b) i\<rparr>) bs"
  by (cases bs rule: rev_cases; cases b) (simp_all add: absorb_all absorb_def candle_of_def)

lemma absorb_time [simp]: "b_time (absorb c b) = b_time c"
  by (simp add: absorb_def)

lemma fold_absorb_time [simp]: "b_time (foldl absorb c bs) = b_time c"
  by (induction bs arbitrary: c) simp_all

lemma timed_bucket: "timed b \<Longrightarrow> bucketStart (b_time b) i = js_int (bucket_int i (secs b))"
  by (simp add: timed_def bucketStart_int [of "secs b", symmetric])

lemma aggregate_same:
  "list_all (\<lambda>b. bucketStart (b_time b) i = b_time c) bs \<Longrightarrow> b_time c \<noteq> NaN \<Longrightarrow>
   foldl (aggregate_step i) (res @ [c]) bs = res @ [foldl absorb c bs]"
  by (induction bs arbitrary: c) (simp_all add: aggregate_step_def js_same_def)

lemma aggregate_buckets:
  "list_all timed bs \<Longrightarrow> (res = [] \<or> bs = [] \<or> b_time (last res) \<noteq> bucketStart (b_time (hd bs)) i) \<Longrightarrow>
   foldl (aggregate_step i) res bs = res @ map (candle_of i) (buckets i bs)"
proof (induction i bs arbitrary: res rule: buckets.induct)
  case (2 i b bs)
  define same where "same = (\<lambda>c :: bar. bucketStart (b_time c) i = bucketStart (b_time b) i)"
  define c where "c = b\<lparr>b_time := bucketStart (b_time b) i\<rparr>"
  have ne: "bucketStart (b_time b) i \<noteq> NaN" using 2(2) by (simp add: timed_bucket js_int_def)
  have first: "aggregate_step i res b = res @ [c]"
    using 2(3) by (auto simp: aggregate_step_def js_same_def c_def)
  have all_same: "list_all (\<lambda>x. bucketStart (b_time x) i = b_time c) (takeWhile same bs)"
    by (auto simp: list_all_iff same_def c_def dest: set_takeWhileD)
  have "foldl (aggregate_step i) (aggregate_step i res b) bs =
      foldl (aggregate_step i) (foldl (aggregate_step i) (res @ [c]) (takeWhile same bs)) (dropWhile same bs)"
    unfolding first by (metis foldl_append takeWhile_dropWhile_id)
  also have "foldl (aggregate_step i) (res @ [c]) (takeWhile same bs) = res @ [candle_of i (b # takeWhile same bs)]"
    using aggregate_same [OF all_same] ne by (simp add: candle_of_absorb c_def)
  also have "foldl (aggregate_step i) (res @ [candle_of i (b # takeWhile same bs)]) (dropWhile same bs) =
      (res @ [candle_of i (b # takeWhile same bs)]) @ map (candle_of i) (buckets i (dropWhile same bs))"
  proof (rule 2(1) [OF same_def])
    show "list_all timed (dropWhile same bs)" using 2(2) by (auto simp: list_all_iff dest: set_dropWhileD)
    show "res @ [candle_of i (b # takeWhile same bs)] = [] \<or> dropWhile same bs = [] \<or>
        b_time (last (res @ [candle_of i (b # takeWhile same bs)])) \<noteq> bucketStart (b_time (hd (dropWhile same bs))) i"
    proof (cases "dropWhile same bs = []")
      case False
      then have "\<not> same (hd (dropWhile same bs))" by (rule hd_dropWhile)
      then show ?thesis by (simp add: same_def candle_of_def)
    qed simp
  qed
  finally show ?case by (simp add: same_def Let_def)
qed simp

lemma ascending_secs: "list_all timed bs \<Longrightarrow> ascending bs \<Longrightarrow> sorted_wrt (\<lambda>a b. secs a < secs b) bs"
  unfolding ascending_def
proof (erule sorted_wrt_mono_rel [rotated])
  fix a b assume "list_all timed bs" "a \<in> set bs" "b \<in> set bs" "js_less (b_time a) (b_time b)"
  then show "secs a < secs b" by (metis js_less_int list_all_iff timed_def)
qed

definition one_bucket :: "interval \<Rightarrow> bar list \<Rightarrow> bool" where
  "one_bucket i g \<longleftrightarrow> g \<noteq> [] \<and> (\<forall>b \<in> set g. bucketStart (b_time b) i = b_time (candle_of i g))"

lemma buckets_concat: "concat (buckets i bs) = bs"
  by (induction i bs rule: buckets.induct) (simp_all add: Let_def)

lemma buckets_one: "g \<in> set (buckets i bs) \<Longrightarrow> one_bucket i g"
proof (induction i bs rule: buckets.induct)
  case (2 i b bs)
  define same where "same = (\<lambda>c :: bar. bucketStart (b_time c) i = bucketStart (b_time b) i)"
  have eq: "buckets i (b # bs) = (b # takeWhile same bs) # buckets i (dropWhile same bs)" by (simp add: same_def Let_def)
  have "\<forall>c \<in> set (takeWhile same bs). same c" by (auto dest: set_takeWhileD)
  moreover have "same b" by (simp add: same_def)
  ultimately have "\<forall>c \<in> set (b # takeWhile same bs). same c" by (simp only: list.set ball_simps simp_thms)
  have "one_bucket i (b # takeWhile same bs)"
    unfolding one_bucket_def
  proof (intro conjI ballI)
    fix c assume "c \<in> set (b # takeWhile same bs)"
    then have "same c" using \<open>\<forall>c \<in> set (b # takeWhile same bs). same c\<close> by blast
    then show "bucketStart (b_time c) i = b_time (candle_of i (b # takeWhile same bs))"
      by (simp only: same_def candle_of_def list.sel bar.simps)
  qed simp
  then show ?case using 2(1) [OF same_def] 2(2) unfolding eq by auto
qed simp

lemma bucket_members: "g \<in> set (buckets i bs) \<Longrightarrow> hd g \<in> set bs"
proof -
  assume g: "g \<in> set (buckets i bs)"
  then have "hd g \<in> set g" using buckets_one [OF g] by (simp add: one_bucket_def)
  then have "hd g \<in> set (concat (buckets i bs))" using g by auto
  then show ?thesis by (simp add: buckets_concat)
qed

lemma later_buckets:
  "list_all timed bs \<Longrightarrow> sorted_wrt (\<lambda>a b. secs a < secs b) bs \<Longrightarrow>
   sorted_wrt (<) (map (\<lambda>g. bucket_int i (secs (hd g))) (buckets i bs))"
proof (induction i bs rule: buckets.induct)
  case (2 i b bs)
  define same where "same = (\<lambda>c :: bar. bucketStart (b_time c) i = bucketStart (b_time b) i)"
  define rest where "rest = dropWhile same bs"
  have eq: "buckets i (b # bs) = (b # takeWhile same bs) # buckets i rest" by (simp add: same_def Let_def rest_def)
  have in_bs: "set rest \<subseteq> set bs" by (auto simp: rest_def dest: set_dropWhileD)
  have tm: "timed b" "list_all timed rest" using 2(2) in_bs by (auto simp: list_all_iff)
  have "bs = takeWhile same bs @ rest" by (simp add: rest_def)
  then have srt: "sorted_wrt (\<lambda>a b. secs a < secs b) rest" using 2(3) by (metis sorted_wrt.simps(2) sorted_wrt_append)
  have later: "bucket_int i (secs b) < bucket_int i (secs x)" if "x \<in> set rest" for x
  proof -
    obtain y ys where y: "rest = y # ys" using \<open>x \<in> set rest\<close> by (cases rest) auto
    then have "\<not> same y" using hd_dropWhile [of same bs] by (simp add: rest_def)
    moreover have "timed y" "secs b < secs y" using tm(2) 2(3) in_bs y by auto
    ultimately have "bucket_int i (secs b) \<noteq> bucket_int i (secs y)" using tm(1) by (simp add: same_def timed_bucket)
    moreover have "bucket_int i (secs b) \<le> bucket_int i (secs y)" using \<open>secs b < secs y\<close> by (intro bucket.start_mono) simp
    moreover have "secs y \<le> secs x" using that srt y by auto
    then have "bucket_int i (secs y) \<le> bucket_int i (secs x)" by (rule bucket.start_mono)
    ultimately show ?thesis by simp
  qed
  show ?case unfolding eq using later bucket_members [of _ i rest] 2(1) [OF same_def] tm(2) srt by (simp add: rest_def)
qed simp

lemma candle_time: "g \<noteq> [] \<Longrightarrow> timed (hd g) \<Longrightarrow> b_time (candle_of i g) = js_int (bucket_int i (secs (hd g)))"
  by (simp add: candle_of_def timed_bucket)

lemma aggregate_map: "list_all timed bars \<Longrightarrow> aggregate bars i = map (candle_of i) (buckets i bars)"
  using aggregate_buckets [of bars "[]" i] by (simp add: aggregate_def)

lemma aggregate_times:
  "list_all timed bars \<Longrightarrow> g \<in> set (buckets i bars) \<Longrightarrow> b_time (candle_of i g) = js_int (bucket_int i (secs (hd g)))"
  using bucket_members [of g i bars] buckets_one [of g i bars] by (auto simp: list_all_iff one_bucket_def intro: candle_time)

lemma aggregate_ascending: "list_all timed bars \<Longrightarrow> ascending bars \<Longrightarrow> ascending (aggregate bars i)"
proof -
  assume tm: "list_all timed bars" and a: "ascending bars"
  show ?thesis
    unfolding ascending_def aggregate_map [OF tm] sorted_wrt_map
    using later_buckets [OF tm ascending_secs [OF tm a], of i]
    unfolding sorted_wrt_map by (rule sorted_wrt_mono_rel [rotated]) (simp add: aggregate_times [OF tm])
qed

text \<open>C26. Rolling bars in the order of time into an interval gives exactly one candle for each bucket that has a bar, which is the
  reference candle of the bars in it - open of the first, close of the last, greatest high, least low, summed volumes - in
  the strict order of time, with no bar left out.\<close>

theorem aggregate_is_candles:
  assumes "list_all timed bars" "ascending bars"
  shows "aggregate bars i = map (candle_of i) (buckets i bars) \<and> concat (buckets i bars) = bars \<and>
    ascending (aggregate bars i) \<and>
    list_all (one_bucket i) (buckets i bars)"
  using aggregate_map [OF assms(1)] aggregate_ascending [OF assms] buckets_concat [of i bars] buckets_one [of _ i bars]
  by (simp add: list_all_iff)

definition minute_bar :: "int \<Rightarrow> int \<Rightarrow> bar" where
  "minute_bar t price = \<lparr>b_time = js_int t, b_open = js_int price, b_high = js_int (price + 2), b_low = js_int (price - 2),
     b_close = js_int (price + 1), b_volume = Some (js_int 1)\<rparr>"

definition three_minutes :: "bar list" where
  "three_minutes = [minute_bar 240 10, minute_bar 300 11, minute_bar 360 9]"

theorem aggregate_is_candles_witness:
  "ascending (aggregate three_minutes I5) \<and>
   map b_low (aggregate three_minutes I5) = [js_int 8, js_int 7]"
proof -
  have "list_all timed three_minutes" "ascending three_minutes"
    by (simp_all add: three_minutes_def minute_bar_def timed_def secs_def ascending_def js_int_def)
  from aggregate_is_candles [OF this, of I5] have "ascending (aggregate three_minutes I5)" by blast
  moreover have "map b_low (aggregate three_minutes I5) = [js_int 8, js_int 7]" by code_simp
  ultimately show ?thesis by simp
qed

end
