(* ===== verification/QuoteStore.thy ===== *)
theory QuoteStore
  imports Mappers
begin

text \<open>
  The prices on the screen: \<^verbatim>\<open>frontend/src/stores/quote-store.ts\<close> and
  \<^verbatim>\<open>frontend/src/domain/market/quote-staleness.ts\<close>. Quotes are stored at once and announced to the listeners of
  their symbol at most once per \<open>FLUSH_INTERVAL_MS\<close>. A listener is a number; the calls a flush makes are its result, and
  a listener that calls back into the store while it is being called is not modelled. The listener sets are objects that a
  closure may hold after the store has dropped them, so they have identities.

  Shown: while a listener has not seen the prices the store holds for its symbol, the symbol waits in the dirty set, and
  while any symbol waits the timer is armed, at least one interval after the last fan-out and at most one
  interval ahead; the arrow shows the last move of the last price; a quiet market is never stale.
\<close>

section \<open>Staleness\<close>

definition QUOTE_STALE_AFTER_MS :: int where "QUOTE_STALE_AFTER_MS = 90000"

definition quoteAgeMs :: "quote option \<Rightarrow> int \<Rightarrow> int option" where
  "quoteAgeMs q now = (case q of None \<Rightarrow> None | Some q' \<Rightarrow> map_option (\<lambda>t. now - t) (q_brokerTime q'))"

definition isQuoteStale :: "quote option \<Rightarrow> int \<Rightarrow> int \<Rightarrow> bool" where
  "isQuoteStale q now thresholdMs = (case quoteAgeMs q now of None \<Rightarrow> False | Some age \<Rightarrow> thresholdMs < age)"

definition formatQuoteAge :: "int \<Rightarrow> string" where
  "formatQuoteAge ageMs = (let seconds = ageMs div 1000; minutes = seconds div 60; hours = minutes div 60 in
     if seconds < 90 then show_int seconds @ ''s''
     else if minutes < 90 then show_int minutes @ ''m''
     else if hours < 48 then show_int hours @ ''h''
     else show_int (hours div 24) @ ''d'')"

definition spreadOf :: "quote option \<Rightarrow> js_number option" where
  "spreadOf q = (case q of None \<Rightarrow> None
     | Some q' \<Rightarrow> let spread = js_sub (js_Number (q_ask q')) (js_Number (q_bid q')) in
         if js_is_finite spread then Some spread else None)"

section \<open>The store\<close>

definition FLUSH_INTERVAL_MS :: int where "FLUSH_INTERVAL_MS = 16"

record quote_store =
  qs_quotes :: "(string \<times> quote) list"
  qs_bySymbol :: "(string \<times> nat) list"
  qs_sets :: "nat \<Rightarrow> nat list"
  qs_fresh :: nat
  qs_global :: "nat list"
  qs_dirty :: "string list"
  qs_timer :: "int option"
  qs_lastFlushAt :: int

definition empty_store :: quote_store where
  "empty_store = \<lparr>qs_quotes = [], qs_bySymbol = [], qs_sets = (\<lambda>_. []), qs_fresh = 0, qs_global = [], qs_dirty = [],
     qs_timer = None, qs_lastFlushAt = 0\<rparr>"

datatype listener_call = SymbolCall string nat | GlobalCall nat

definition get_quote :: "quote_store \<Rightarrow> string \<Rightarrow> quote option" where
  "get_quote s symbol = map_of (qs_quotes s) symbol"

text \<open>\<^verbatim>\<open>Set.add\<close> keeps the insertion order.\<close>

definition set_add :: "'a \<Rightarrow> 'a list \<Rightarrow> 'a list" where
  "set_add x xs = (if x \<in> set xs then xs else xs @ [x])"

definition listeners_of :: "quote_store \<Rightarrow> string \<Rightarrow> nat list" where
  "listeners_of s symbol = (case map_of (qs_bySymbol s) symbol of None \<Rightarrow> [] | Some i \<Rightarrow> qs_sets s i)"

definition scheduleFlush :: "int \<Rightarrow> string \<Rightarrow> quote_store \<Rightarrow> quote_store" where
  "scheduleFlush now symbol s =
     (let s1 = s\<lparr>qs_dirty := set_add symbol (qs_dirty s)\<rparr> in
      if qs_timer s \<noteq> None then s1
      else s1\<lparr>qs_timer := Some (now + max 0 (FLUSH_INTERVAL_MS - (now - qs_lastFlushAt s)))\<rparr>)"

definition apply_quote :: "int \<Rightarrow> quote \<Rightarrow> quote_store \<Rightarrow> quote_store" where
  "apply_quote now n s =
     (let previous = get_quote s (q_symbol n); direction = quote_direction previous (q_last n);
          changed = scheduleFlush now (q_symbol n) (s\<lparr>qs_quotes := alist_set (q_symbol n) (n\<lparr>q_direction := direction\<rparr>) (qs_quotes s)\<rparr>)
      in case previous of None \<Rightarrow> changed
         | Some p \<Rightarrow> if q_bid p = q_bid n \<and> q_ask p = q_ask n \<and> q_last p = q_last n
             then s\<lparr>qs_quotes := alist_set (q_symbol n) (p\<lparr>q_receivedAt := q_receivedAt n, q_brokerTime := q_brokerTime n\<rparr>)
               (qs_quotes s)\<rparr>
             else changed)"

definition flush_calls :: "quote_store \<Rightarrow> listener_call list" where
  "flush_calls s = concat (map (\<lambda>symbol. map (SymbolCall symbol) (listeners_of s symbol)) (qs_dirty s)) @ map GlobalCall (qs_global s)"

definition flush :: "int \<Rightarrow> quote_store \<Rightarrow> quote_store \<times> listener_call list" where
  "flush now s = (let s1 = s\<lparr>qs_timer := None, qs_lastFlushAt := now\<rparr> in
     if qs_dirty s1 = [] then (s1, []) else (s1\<lparr>qs_dirty := []\<rparr>, flush_calls s1))"

text \<open>The armed timer calls \<open>flush\<close> once its time has come.\<close>

definition fire_flush :: "int \<Rightarrow> quote_store \<Rightarrow> quote_store \<times> listener_call list" where
  "fire_flush now s = (case qs_timer s of Some due \<Rightarrow> if due \<le> now then flush now s else (s, []) | None \<Rightarrow> (s, []))"

definition clear_quotes :: "int \<Rightarrow> quote_store \<Rightarrow> quote_store \<times> listener_call list" where
  "clear_quotes now s = flush now (s\<lparr>qs_dirty := fold set_add (map fst (qs_quotes s)) (qs_dirty s), qs_quotes := []\<rparr>)"

text \<open>Subscribing gives the set the returned closure holds.\<close>

definition subscribeSymbol :: "string \<Rightarrow> nat \<Rightarrow> quote_store \<Rightarrow> nat \<times> quote_store" where
  "subscribeSymbol symbol listener s =
     (let (i, s1) = (case map_of (qs_bySymbol s) symbol of Some i \<Rightarrow> (i, s)
        | None \<Rightarrow> (qs_fresh s, s\<lparr>qs_sets := (qs_sets s)(qs_fresh s := []),
            qs_bySymbol := alist_set symbol (qs_fresh s) (qs_bySymbol s), qs_fresh := Suc (qs_fresh s)\<rparr>))
      in (i, s1\<lparr>qs_sets := (qs_sets s1)(i := set_add listener (qs_sets s1 i))\<rparr>))"

definition unsubscribeSymbol :: "string \<Rightarrow> nat \<Rightarrow> nat \<Rightarrow> quote_store \<Rightarrow> quote_store" where
  "unsubscribeSymbol symbol i listener s =
     (let s1 = s\<lparr>qs_sets := (qs_sets s)(i := removeAll listener (qs_sets s i))\<rparr> in
      if qs_sets s1 i = [] then s1\<lparr>qs_bySymbol := alist_del symbol (qs_bySymbol s1)\<rparr> else s1)"

definition subscribeAll :: "nat \<Rightarrow> quote_store \<Rightarrow> quote_store" where
  "subscribeAll listener s = s\<lparr>qs_global := set_add listener (qs_global s)\<rparr>"

definition unsubscribeAll :: "nat \<Rightarrow> quote_store \<Rightarrow> quote_store" where
  "unsubscribeAll listener s = s\<lparr>qs_global := removeAll listener (qs_global s)\<rparr>"

section \<open>The staleness tick\<close>

definition STALENESS_TICK_MS :: int where "STALENESS_TICK_MS = 5000"

record staleness_tick =
  sl_listeners :: "nat list"
  sl_running :: bool

definition subscribeStalenessTick :: "nat \<Rightarrow> staleness_tick \<Rightarrow> staleness_tick" where
  "subscribeStalenessTick l t = t\<lparr>sl_listeners := set_add l (sl_listeners t), sl_running := True\<rparr>"

definition unsubscribeStalenessTick :: "nat \<Rightarrow> staleness_tick \<Rightarrow> staleness_tick" where
  "unsubscribeStalenessTick l t = (let t1 = t\<lparr>sl_listeners := removeAll l (sl_listeners t)\<rparr> in
     if sl_listeners t1 = [] then t1\<lparr>sl_running := False\<rparr> else t1)"

definition staleness_bucket :: "int \<Rightarrow> int" where
  "staleness_bucket now = now div STALENESS_TICK_MS"

section \<open>Runs\<close>

datatype quote_event = Tick quote | Clear | Subscribe string nat | Unsubscribe string nat nat
  | SubscribeAll nat | UnsubscribeAll nat | TimerRuns

definition quote_step :: "int \<Rightarrow> quote_event \<Rightarrow> quote_store \<Rightarrow> quote_store \<times> listener_call list" where
  "quote_step now e s = (case e of
     Tick q \<Rightarrow> (apply_quote now q s, [])
   | Clear \<Rightarrow> clear_quotes now s
   | Subscribe symbol l \<Rightarrow> (snd (subscribeSymbol symbol l s), [])
   | Unsubscribe symbol i l \<Rightarrow> (unsubscribeSymbol symbol i l s, [])
   | SubscribeAll l \<Rightarrow> (subscribeAll l s, [])
   | UnsubscribeAll l \<Rightarrow> (unsubscribeAll l s, [])
   | TimerRuns \<Rightarrow> fire_flush now s)"

text \<open>What a user sees of a quote.\<close>

definition visible :: "quote_store \<Rightarrow> string \<Rightarrow> (string \<times> string \<times> string \<times> direction) option" where
  "visible s symbol = map_option (\<lambda>q. (q_bid q, q_ask q, q_last q, q_direction q)) (get_quote s symbol)"

type_synonym screen = "string \<times> nat \<Rightarrow> (string \<times> string \<times> string \<times> direction) option"

text \<open>A listener reads the store when it subscribes and whenever it is called, and keeps what it read.\<close>

definition screen_step :: "quote_event \<Rightarrow> quote_store \<Rightarrow> listener_call list \<Rightarrow> screen \<Rightarrow> screen" where
  "screen_step e s calls seen = (\<lambda>(symbol, l).
     if e = Subscribe symbol l \<or> SymbolCall symbol l \<in> set calls then visible s symbol else seen (symbol, l))"

fun quote_run :: "(int \<times> quote_event) list \<Rightarrow> quote_store \<times> screen \<Rightarrow> quote_store \<times> screen" where
  "quote_run [] w = w"
| "quote_run ((now, e) # es) (s, seen) =
     (let (s', calls) = quote_step now e s in quote_run es (s', screen_step e s' calls seen))"

fun times_from :: "int \<Rightarrow> (int \<times> 'e) list \<Rightarrow> bool" where
  "times_from t [] = True"
| "times_from t ((now, e) # es) = (t \<le> now \<and> times_from now es)"

definition last_time :: "int \<Rightarrow> (int \<times> 'e) list \<Rightarrow> int" where
  "last_time t es = (if es = [] then t else fst (last es))"

section \<open>Invariants\<close>

definition ids_ok :: "quote_store \<Rightarrow> bool" where
  "ids_ok s \<longleftrightarrow> (\<forall>a i. map_of (qs_bySymbol s) a = Some i \<longrightarrow> i < qs_fresh s) \<and>
     (\<forall>a b i. map_of (qs_bySymbol s) a = Some i \<and> map_of (qs_bySymbol s) b = Some i \<longrightarrow> a = b)"

definition timing_ok :: "int \<Rightarrow> quote_store \<Rightarrow> bool" where
  "timing_ok t s \<longleftrightarrow> qs_lastFlushAt s \<le> t \<and> (qs_dirty s = [] \<longleftrightarrow> qs_timer s = None) \<and>
     (\<forall>due. qs_timer s = Some due \<longrightarrow> qs_lastFlushAt s + 16 \<le> due \<and> due \<le> t + 16)"

definition screen_ok :: "quote_store \<Rightarrow> screen \<Rightarrow> bool" where
  "screen_ok s seen \<longleftrightarrow> (\<forall>symbol l. l \<in> set (listeners_of s symbol) \<longrightarrow> seen (symbol, l) \<noteq> visible s symbol \<longrightarrow>
     symbol \<in> set (qs_dirty s))"

lemma set_add_set [simp]: "set (set_add x xs) = insert x (set xs)"
  by (auto simp: set_add_def)

lemma set_fold_set_add [simp]: "set (fold set_add xs ys) = set xs \<union> set ys"
  by (induction xs arbitrary: ys) auto

lemma set_add_ne [simp]: "set_add x xs \<noteq> []"
  by (auto simp: set_add_def)

lemma scheduleFlush_simps [simp]:
  "qs_quotes (scheduleFlush now symbol s) = qs_quotes s" "qs_bySymbol (scheduleFlush now symbol s) = qs_bySymbol s"
  "qs_sets (scheduleFlush now symbol s) = qs_sets s" "qs_fresh (scheduleFlush now symbol s) = qs_fresh s"
  "qs_dirty (scheduleFlush now symbol s) = set_add symbol (qs_dirty s)"
  "qs_lastFlushAt (scheduleFlush now symbol s) = qs_lastFlushAt s"
  by (simp_all add: scheduleFlush_def Let_def)

lemma listeners_of_cong: "qs_bySymbol s = qs_bySymbol s' \<Longrightarrow> qs_sets s = qs_sets s' \<Longrightarrow> listeners_of s = listeners_of s'"
  by (rule ext) (simp add: listeners_of_def split: option.split)

lemma visible_cong: "qs_quotes s = qs_quotes s' \<Longrightarrow> visible s = visible s'"
  by (simp add: visible_def get_quote_def fun_eq_iff)

lemma schedule_timing: "timing_ok t s \<Longrightarrow> t \<le> now \<Longrightarrow> timing_ok now (scheduleFlush now symbol s)"
  by (auto simp: timing_ok_def scheduleFlush_def Let_def FLUSH_INTERVAL_MS_def)

lemma apply_quote_cases:
  obtains (changed) q where "apply_quote now n s = scheduleFlush now (q_symbol n) (s\<lparr>qs_quotes := alist_set (q_symbol n) q (qs_quotes s)\<rparr>)"
  | (same) q where "apply_quote now n s = s\<lparr>qs_quotes := alist_set (q_symbol n) q (qs_quotes s)\<rparr>"
      "visible (apply_quote now n s) = visible s"
proof (cases "get_quote s (q_symbol n)")
  case None
  then show ?thesis using changed by (simp add: apply_quote_def)
next
  case (Some p)
  show ?thesis
  proof (cases "q_bid p = q_bid n \<and> q_ask p = q_ask n \<and> q_last p = q_last n")
    case True
    define q where "q = p\<lparr>q_receivedAt := q_receivedAt n, q_brokerTime := q_brokerTime n\<rparr>"
    have a: "apply_quote now n s = s\<lparr>qs_quotes := alist_set (q_symbol n) q (qs_quotes s)\<rparr>"
      using Some True by (simp add: apply_quote_def q_def)
    moreover have "visible (apply_quote now n s) = visible s"
      unfolding a by (rule ext) (use Some in \<open>auto simp: visible_def get_quote_def q_def\<close>)
    ultimately show ?thesis by (rule same)
  next
    case False
    then show ?thesis using changed Some by (auto simp: apply_quote_def)
  qed
qed

lemma apply_visible_other: "symbol \<noteq> q_symbol n \<Longrightarrow> visible (apply_quote now n s) symbol = visible s symbol"
  by (cases now n s rule: apply_quote_cases) (auto simp: visible_def get_quote_def)

lemma apply_ok:
  assumes "ids_ok s" "timing_ok t s" "screen_ok s seen" "t \<le> now"
  shows "ids_ok (apply_quote now n s) \<and> timing_ok now (apply_quote now n s) \<and> screen_ok (apply_quote now n s) seen"
proof (cases now n s rule: apply_quote_cases)
  case (changed q)
  have "listeners_of (apply_quote now n s) = listeners_of s" by (rule listeners_of_cong) (simp_all add: changed)
  moreover have "set (qs_dirty (apply_quote now n s)) = insert (q_symbol n) (set (qs_dirty s))" by (simp add: changed)
  ultimately have "screen_ok (apply_quote now n s) seen"
    using assms(3) apply_visible_other [of _ n now s] by (metis insert_iff screen_ok_def)
  moreover have "timing_ok now (apply_quote now n s)"
    unfolding changed using assms(2,4) by (intro schedule_timing [of t]) (simp_all add: timing_ok_def)
  ultimately show ?thesis using assms(1) by (simp add: changed ids_ok_def)
next
  case (same q)
  have "listeners_of (apply_quote now n s) = listeners_of s" by (rule listeners_of_cong) (simp_all add: same)
  then have "screen_ok (apply_quote now n s) seen"
    using assms(3) unfolding screen_ok_def same(2) by (simp add: same(1))
  moreover have "timing_ok now (apply_quote now n s)"
    using assms(2,4) unfolding same(1) by (fastforce simp: timing_ok_def)
  ultimately show ?thesis using assms(1) by (simp add: same(1) ids_ok_def)
qed

lemma flush_ok:
  assumes "ids_ok s" "screen_ok s seen"
  shows "ids_ok (fst (flush now s)) \<and> timing_ok now (fst (flush now s)) \<and>
    screen_ok (fst (flush now s)) (screen_step TimerRuns (fst (flush now s)) (snd (flush now s)) seen)"
proof -
  have l: "listeners_of (fst (flush now s)) = listeners_of s"
    by (rule listeners_of_cong) (simp_all add: flush_def Let_def)
  have v: "visible (fst (flush now s)) = visible s" by (rule visible_cong) (simp add: flush_def Let_def)
  have "screen_step TimerRuns (fst (flush now s)) (snd (flush now s)) seen (symbol, l') = visible s symbol"
    if "l' \<in> set (listeners_of s symbol)" for symbol l'
  proof (cases "symbol \<in> set (qs_dirty s)")
    case True
    then have "qs_dirty s \<noteq> []" by auto
    moreover have "listeners_of (s\<lparr>qs_timer := None, qs_lastFlushAt := now\<rparr>) = listeners_of s" by (rule listeners_of_cong) simp_all
    ultimately have "SymbolCall symbol l' \<in> set (snd (flush now s))"
      using True that by (auto simp: flush_def Let_def flush_calls_def)
    then show ?thesis by (simp add: screen_step_def v)
  next
    case False
    then have "seen (symbol, l') = visible s symbol" using assms(2) that by (auto simp: screen_ok_def)
    then show ?thesis by (simp add: screen_step_def v)
  qed
  then have "screen_ok (fst (flush now s)) (screen_step TimerRuns (fst (flush now s)) (snd (flush now s)) seen)"
    by (simp add: screen_ok_def l v)
  then show ?thesis using assms(1) by (simp add: ids_ok_def timing_ok_def flush_def Let_def)
qed

lemma clear_ok:
  assumes "ids_ok s" "screen_ok s seen"
  shows "ids_ok (fst (clear_quotes now s)) \<and> timing_ok now (fst (clear_quotes now s)) \<and>
    screen_ok (fst (clear_quotes now s)) (screen_step TimerRuns (fst (clear_quotes now s)) (snd (clear_quotes now s)) seen)"
proof -
  define s1 where "s1 = s\<lparr>qs_dirty := fold set_add (map fst (qs_quotes s)) (qs_dirty s), qs_quotes := []\<rparr>"
  have l: "listeners_of s1 = listeners_of s" by (rule listeners_of_cong) (simp_all add: s1_def)
  have v: "visible s1 symbol = None" for symbol by (simp add: visible_def get_quote_def s1_def)
  have "screen_ok s1 seen"
    unfolding screen_ok_def
  proof (intro allI impI)
    fix symbol l' assume a: "l' \<in> set (listeners_of s1 symbol)" "seen (symbol, l') \<noteq> visible s1 symbol"
    show "symbol \<in> set (qs_dirty s1)"
    proof (cases "seen (symbol, l') = visible s symbol")
      case True
      then have "map_of (qs_quotes s) symbol \<noteq> None" using a(2) v by (auto simp: visible_def get_quote_def)
      then show ?thesis by (simp add: s1_def map_of_eq_None_iff)
    next
      case False
      then show ?thesis using a(1) assms(2) l by (simp add: s1_def screen_ok_def)
    qed
  qed
  moreover have "ids_ok s1" using assms(1) by (simp add: ids_ok_def s1_def)
  ultimately show ?thesis using flush_ok [of s1 seen now] by (simp add: clear_quotes_def s1_def)
qed

lemma quote_subscribe_ok:
  assumes "ids_ok s" "timing_ok t s" "screen_ok s seen" "t \<le> now"
    "s' = snd (subscribeSymbol symbol l s)"
  shows "ids_ok s' \<and> timing_ok now s' \<and> screen_ok s' (screen_step (Subscribe symbol l) s' [] seen)"
proof -
  have same: "qs_quotes s' = qs_quotes s" "qs_dirty s' = qs_dirty s" "qs_timer s' = qs_timer s" "qs_lastFlushAt s' = qs_lastFlushAt s"
    by (simp_all add: assms(5) subscribeSymbol_def Let_def split: option.split)
  have ids: "ids_ok s'"
    using assms(1) by (cases "map_of (qs_bySymbol s) symbol") (auto simp: assms(5) subscribeSymbol_def ids_ok_def less_Suc_eq)
  have other: "listeners_of s' a = listeners_of s a" if "a \<noteq> symbol" for a
    using assms(1) that by (cases "map_of (qs_bySymbol s) symbol"; cases "map_of (qs_bySymbol s) a")
      (auto simp: assms(5) subscribeSymbol_def ids_ok_def listeners_of_def)
  have own: "set (listeners_of s' symbol) = insert l (set (listeners_of s symbol))"
    by (cases "map_of (qs_bySymbol s) symbol") (auto simp: assms(5) subscribeSymbol_def listeners_of_def)
  have v: "visible s' = visible s" using same(1) by (rule visible_cong)
  have "screen_ok s' (screen_step (Subscribe symbol l) s' [] seen)"
    unfolding screen_ok_def
  proof (intro allI impI)
    fix a l' assume a: "l' \<in> set (listeners_of s' a)" "screen_step (Subscribe symbol l) s' [] seen (a, l') \<noteq> visible s' a"
    then have "\<not> (a = symbol \<and> l' = l)" "seen (a, l') \<noteq> visible s a" by (auto simp: screen_step_def v split: if_splits)
    moreover from this have "l' \<in> set (listeners_of s a)" using a(1) own other by (cases "a = symbol") auto
    ultimately show "a \<in> set (qs_dirty s')" using assms(3) by (auto simp: screen_ok_def same)
  qed
  moreover have "timing_ok now s'" using assms(2,4) by (fastforce simp: timing_ok_def same)
  ultimately show ?thesis using ids by simp
qed

lemma quote_unsubscribe_ok:
  assumes "ids_ok s" "timing_ok t s" "screen_ok s seen" "t \<le> now" "s' = unsubscribeSymbol symbol i l s"
  shows "ids_ok s' \<and> timing_ok now s' \<and> screen_ok s' seen"
proof -
  have same: "qs_quotes s' = qs_quotes s" "qs_dirty s' = qs_dirty s" "qs_timer s' = qs_timer s" "qs_lastFlushAt s' = qs_lastFlushAt s"
    "qs_fresh s' = qs_fresh s"
    by (simp_all add: assms(5) unsubscribeSymbol_def Let_def)
  have sub: "map_of (qs_bySymbol s) a = Some k" if "map_of (qs_bySymbol s') a = Some k" for a k
    using that by (auto simp: assms(5) unsubscribeSymbol_def Let_def map_of_alist_del split: if_splits)
  have ids: "ids_ok s'" unfolding ids_ok_def same using assms(1) sub unfolding ids_ok_def by meson
  have "set (qs_sets s' k) \<subseteq> set (qs_sets s k)" for k by (auto simp: assms(5) unsubscribeSymbol_def Let_def)
  then have less: "set (listeners_of s' a) \<subseteq> set (listeners_of s a)" for a
    using sub [of a] by (cases "map_of (qs_bySymbol s') a") (simp_all add: listeners_of_def)
  have v: "visible s' = visible s" using same(1) by (rule visible_cong)
  have "screen_ok s' seen" using assms(3) less unfolding screen_ok_def v same by blast
  moreover have "timing_ok now s'" using assms(2,4) by (fastforce simp: timing_ok_def same)
  ultimately show ?thesis using ids by simp
qed

lemma globals_ok:
  assumes "ids_ok s" "timing_ok t s" "screen_ok s seen" "t \<le> now"
  shows "ids_ok (s\<lparr>qs_global := g\<rparr>) \<and> timing_ok now (s\<lparr>qs_global := g\<rparr>) \<and> screen_ok (s\<lparr>qs_global := g\<rparr>) seen"
proof -
  have "listeners_of (s\<lparr>qs_global := g\<rparr>) = listeners_of s" by (rule listeners_of_cong) simp_all
  moreover have "visible (s\<lparr>qs_global := g\<rparr>) = visible s" by (rule visible_cong) simp
  ultimately have "screen_ok (s\<lparr>qs_global := g\<rparr>) seen" using assms(3) by (simp add: screen_ok_def)
  moreover have "timing_ok now (s\<lparr>qs_global := g\<rparr>)" using assms(2,4) by (fastforce simp: timing_ok_def)
  ultimately show ?thesis using assms(1) by (simp add: ids_ok_def)
qed

lemma screen_step_idle [simp]: "(\<And>a b. e \<noteq> Subscribe a b) \<Longrightarrow> screen_step e s [] seen = seen"
  by (auto simp: screen_step_def)

lemma screen_step_event: "(\<And>a b. e \<noteq> Subscribe a b) \<Longrightarrow> screen_step e s calls seen = screen_step TimerRuns s calls seen"
  by (auto simp: screen_step_def)

lemma quote_step_ok:
  assumes "ids_ok s" "timing_ok t s" "screen_ok s seen" "t \<le> now" "quote_step now e s = (s', calls)"
  shows "ids_ok s' \<and> timing_ok now s' \<and> screen_ok s' (screen_step e s' calls seen)"
proof (cases e)
  case (Tick q)
  then show ?thesis using apply_ok [OF assms(1-4)] assms(5) by (auto simp: quote_step_def)
next
  case Clear
  then have "s' = fst (clear_quotes now s)" "calls = snd (clear_quotes now s)" using assms(5) by (simp_all add: quote_step_def)
  then show ?thesis using clear_ok [OF assms(1,3), of now] Clear by (simp add: screen_step_event [of Clear])
next
  case (Subscribe a l)
  then have "s' = snd (subscribeSymbol a l s)" "calls = []" using assms(5) by (auto simp: quote_step_def)
  then show ?thesis using quote_subscribe_ok [OF assms(1-4)] Subscribe by simp
next
  case (Unsubscribe a i l)
  then have "s' = unsubscribeSymbol a i l s" "calls = []" using assms(5) by (auto simp: quote_step_def)
  then show ?thesis using quote_unsubscribe_ok [OF assms(1-4)] Unsubscribe by simp
next
  case (SubscribeAll l)
  then show ?thesis using globals_ok [OF assms(1-4)] assms(5) by (auto simp: quote_step_def subscribeAll_def)
next
  case (UnsubscribeAll l)
  then show ?thesis using globals_ok [OF assms(1-4)] assms(5) by (auto simp: quote_step_def unsubscribeAll_def)
next
  case TimerRuns
  show ?thesis
  proof (cases "\<exists>due. qs_timer s = Some due \<and> due \<le> now")
    case True
    then have "s' = fst (flush now s)" "calls = snd (flush now s)" using assms(5) TimerRuns by (auto simp: quote_step_def fire_flush_def)
    then show ?thesis using flush_ok [OF assms(1,3), of now] TimerRuns by simp
  next
    case False
    then have "s' = s" "calls = []" using assms(5) TimerRuns by (auto simp: quote_step_def fire_flush_def split: option.splits if_splits)
    moreover have "timing_ok now s" using assms(2,4) by (fastforce simp: timing_ok_def)
    ultimately show ?thesis using assms(1,3) TimerRuns by simp
  qed
qed

lemma quote_run_ok:
  "ids_ok s \<Longrightarrow> timing_ok t s \<Longrightarrow> screen_ok s seen \<Longrightarrow> times_from t es \<Longrightarrow>
   (case quote_run es (s, seen) of (s', seen') \<Rightarrow> timing_ok (last_time t es) s' \<and> screen_ok s' seen')"
proof (induction es arbitrary: t s seen)
  case Nil
  then show ?case by (simp add: last_time_def)
next
  case (Cons te es)
  obtain now e where te: "te = (now, e)" by fastforce
  obtain s' calls where st: "quote_step now e s = (s', calls)" by fastforce
  have tm: "t \<le> now" "times_from now es" using Cons.prems(4) by (simp_all add: te)
  from quote_step_ok [OF Cons.prems(1-3) tm(1) st]
  have ok: "ids_ok s'" "timing_ok now s'" "screen_ok s' (screen_step e s' calls seen)" by simp_all
  have "last_time t (te # es) = last_time now es" by (simp add: last_time_def te)
  then show ?case using Cons.IH [OF ok tm(2)] by (simp add: te st)
qed

text \<open>C24. Whatever ticks, subscriptions, clears and timer runs arrive, in order of time: a listener of a symbol that has not been
  shown the prices the store holds for it belongs to a symbol that waits for the next fan-out; while anything waits the
  timer is armed and while nothing waits it is not, so every listener is then up to date; and the armed time lies at least
  one flush interval after the last fan-out and at most one ahead of the last event.\<close>

theorem prices_reach_the_screen:
  assumes "times_from 0 es" "quote_run es (empty_store, \<lambda>_. None) = (s, seen)"
  shows "(\<forall>symbol l. l \<in> set (listeners_of s symbol) \<longrightarrow> seen (symbol, l) = visible s symbol \<or> symbol \<in> set (qs_dirty s)) \<and>
    (qs_dirty s = [] \<longleftrightarrow> qs_timer s = None) \<and>
    (\<forall>due. qs_timer s = Some due \<longrightarrow> qs_lastFlushAt s + FLUSH_INTERVAL_MS \<le> due \<and> due \<le> last_time 0 es + FLUSH_INTERVAL_MS)"
proof -
  have "ids_ok empty_store" "timing_ok 0 empty_store" "screen_ok empty_store (\<lambda>_. None)"
    by (simp_all add: ids_ok_def timing_ok_def screen_ok_def empty_store_def listeners_of_def)
  from quote_run_ok [OF this assms(1)] have "timing_ok (last_time 0 es) s" "screen_ok s seen" by (simp_all add: assms(2))
  then show ?thesis by (auto simp: timing_ok_def screen_ok_def FLUSH_INTERVAL_MS_def)
qed

definition tick_of :: "string \<Rightarrow> string \<Rightarrow> string option \<Rightarrow> int \<Rightarrow> quote" where
  "tick_of symbol price volume at' = \<lparr>q_symbol = symbol, q_bid = price, q_ask = price, q_last = price, q_volume = volume,
     q_receivedAt = at', q_brokerTime = Some at', q_direction = Flat\<rparr>"

text \<open>Two ticks in one interval: one waits for the timer and is shown when it runs.\<close>

definition burst :: "(int \<times> quote_event) list" where
  "burst = [(100, Subscribe ''EU'' 7), (101, Tick (tick_of ''EU'' ''1'' None 101)), (101, TimerRuns),
     (105, Tick (tick_of ''EU'' ''2'' None 105))]"

lemma burst_run:
  "times_from 0 burst"
  "qs_timer (fst (quote_run burst (empty_store, \<lambda>_. None))) = Some 117"
  "last_time 0 burst = 105"
  by code_simp+

theorem prices_reach_the_screen_witness:
  "\<exists>s seen. quote_run burst (empty_store, \<lambda>_. None) = (s, seen) \<and> qs_dirty s \<noteq> [] \<and>
     qs_timer s = Some 117 \<and> qs_lastFlushAt s + 16 \<le> 117 \<and> 117 \<le> 105 + FLUSH_INTERVAL_MS"
proof -
  obtain s seen where r: "quote_run burst (empty_store, \<lambda>_. None) = (s, seen)" by fastforce
  from prices_reach_the_screen [OF burst_run(1) r] show ?thesis using burst_run r by (simp add: FLUSH_INTERVAL_MS_def)
qed

section \<open>The arrow and the age\<close>

text \<open>The direction of the last move of the last price over a sequence of ticks.\<close>

fun last_move :: "direction \<Rightarrow> string \<Rightarrow> string list \<Rightarrow> direction" where
  "last_move d p [] = d"
| "last_move d p (n # ns) = last_move (let delta = js_sub (js_Number n) (js_Number p) in
     if js_less (Fin 0) delta then Up else if js_less delta (Fin 0) then Down else d) n ns"

lemma apply_stores:
  "get_quote (apply_quote now n s) symbol = (if symbol = q_symbol n then
     Some (let d = quote_direction (get_quote s (q_symbol n)) (q_last n) in
       case get_quote s (q_symbol n) of
         Some p \<Rightarrow> if q_bid p = q_bid n \<and> q_ask p = q_ask n \<and> q_last p = q_last n
           then p\<lparr>q_receivedAt := q_receivedAt n, q_brokerTime := q_brokerTime n\<rparr> else n\<lparr>q_direction := d\<rparr>
       | None \<Rightarrow> n\<lparr>q_direction := d\<rparr>) else get_quote s symbol)"
  by (auto simp: apply_quote_def get_quote_def Let_def split: option.split)

text \<open>A reprint of the same prices with another volume does not change the volume that is shown.\<close>

lemma reprint_drops_volume:
  "map_option q_volume (get_quote (apply_quote 2 (tick_of ''EU'' ''1.1'' (Some ''9'') 2)
     (apply_quote 1 (tick_of ''EU'' ''1.1'' (Some ''5'') 1) empty_store)) ''EU'') = Some (Some ''5'')"
  by code_simp

text \<open>A closure that unsubscribes twice removes the set of a later subscriber: the first call empties the set and
  drops it, the second finds its own set still empty and drops the one that took its place.\<close>

lemma late_unsubscribe_silences:
  "(let (i, s1) = subscribeSymbol ''EU'' 1 empty_store; s2 = unsubscribeSymbol ''EU'' i 1 s1;
        (j, s3) = subscribeSymbol ''EU'' 2 s2
    in listeners_of s3 ''EU'' = [2] \<and> listeners_of (unsubscribeSymbol ''EU'' i 1 s3) ''EU'' = [])"
  by code_simp

text \<open>The store keeps, per symbol, the broker's time and the receipt time of the newest tick even when its prices repeat, so
  a quote counts as stale exactly when that tick carried a broker time more than the threshold ago; the prices kept are
  those of the newest tick, and other symbols are untouched.\<close>

theorem quiet_market_not_stale:
  "(\<exists>q. get_quote (apply_quote now n s) (q_symbol n) = Some q \<and> q_bid q = q_bid n \<and> q_ask q = q_ask n \<and> q_last q = q_last n \<and>
     q_receivedAt q = q_receivedAt n) \<and>
   (isQuoteStale (get_quote (apply_quote now n s) (q_symbol n)) t threshold \<longleftrightarrow>
     (case q_brokerTime n of None \<Rightarrow> False | Some b \<Rightarrow> threshold < t - b)) \<and>
   {symbol. get_quote (apply_quote now n s) symbol \<noteq> get_quote s symbol} \<subseteq> {q_symbol n}"
  by (auto simp: apply_stores isQuoteStale_def quoteAgeMs_def Let_def split: option.split)

lemma js_sub_self: "\<not> js_less (Fin 0) (js_sub x x) \<and> \<not> js_less (js_sub x x) (Fin 0)"
  by (cases x) (simp_all add: js_sub_def fl_def)

lemma direction_same: "quote_direction (Some p) (q_last p) = q_direction p"
  by (simp add: quote_direction_def js_sub_self)

lemma arrow_step:
  assumes "get_quote s (q_symbol n) = Some p"
  shows "\<exists>q. get_quote (apply_quote now n s) (q_symbol n) = Some q \<and> q_last q = q_last n \<and>
    q_direction q = quote_direction (Some p) (q_last n)"
  using assms direction_same [of p] by (auto simp: apply_stores Let_def)

text \<open>Over the ticks of one symbol the arrow is the direction of the last price's last move, whatever bid and ask do.\<close>

lemma arrow_is_last_move:
  "get_quote s symbol = Some p \<Longrightarrow> list_all (\<lambda>(now, n). q_symbol n = symbol) ns \<Longrightarrow>
   map_option q_direction (get_quote (fold (\<lambda>(now, n). apply_quote now n) ns s) symbol) =
     Some (last_move (q_direction p) (q_last p) (map (\<lambda>(now, n). q_last n) ns))"
proof (induction ns arbitrary: s p)
  case (Cons tn ns)
  obtain now n where tn: "tn = (now, n)" by fastforce
  have sym: "q_symbol n = symbol" using Cons.prems(2) by (simp add: tn)
  obtain q where q: "get_quote (apply_quote now n s) symbol = Some q" "q_last q = q_last n"
    "q_direction q = quote_direction (Some p) (q_last n)"
    using arrow_step [of s n p now] Cons.prems(1) sym by auto
  show ?case using Cons.IH [OF q(1)] Cons.prems(2) by (simp add: tn q(2,3) quote_direction_def Let_def)
qed simp

end
