(* ===== verification/ChartSeries.thy ===== *)
theory ChartSeries
  imports Bars QuoteStore
begin

text \<open>
  The candles of one chart: \<^verbatim>\<open>frontend/src/features/chart/use-chart-series.ts\<close>, as a state machine of its effect, its
  pages, its streams and the earlier pages a scroll asks for. What the refs hold and what the component is shown are both
  state; a request is named by the run of the effect that made it.

  Shown: a normalised page has each time once, in order, with the last bar of that time; while no earlier page
  outlives the series it was asked for, the series stays in strict order of time, whatever frames and ticks arrive, and a
  live step changes at most its last candle. An earlier page that does outlive its series is put in front of another
  symbol's candles, which a concrete run shows.
\<close>

section \<open>Normalised pages\<close>

definition last_of_time :: "bar list \<Rightarrow> bar \<Rightarrow> bool" where
  "last_of_time bars b \<longleftrightarrow> (\<exists>pre post. bars = pre @ b # post \<and> b_time b \<notin> b_time ` set post)"

lemma last_of_time_snoc: "last_of_time (bars @ [a]) b \<longleftrightarrow> b = a \<or> (last_of_time bars b \<and> b_time b \<noteq> b_time a)"
proof
  assume "last_of_time (bars @ [a]) b"
  then obtain pre post where p: "bars @ [a] = pre @ b # post" "b_time b \<notin> b_time ` set post" by (auto simp: last_of_time_def)
  show "b = a \<or> (last_of_time bars b \<and> b_time b \<noteq> b_time a)"
  proof (cases post rule: rev_cases)
    case Nil
    then show ?thesis using p(1) by simp
  next
    case (snoc post' x)
    then have "bars @ [a] = (pre @ b # post') @ [x]" using p(1) by simp
    then have "bars = pre @ b # post'" "x = a" by (simp_all only: append1_eq_conv)
    then show ?thesis using p(2) snoc unfolding last_of_time_def by auto
  qed
next
  assume "b = a \<or> (last_of_time bars b \<and> b_time b \<noteq> b_time a)"
  then show "last_of_time (bars @ [a]) b"
  proof
    assume "b = a"
    then show ?thesis unfolding last_of_time_def by (intro exI [of _ bars] exI [of _ "[]"]) simp
  next
    assume "last_of_time bars b \<and> b_time b \<noteq> b_time a"
    then obtain pre post where "bars = pre @ b # post" "b_time b \<notin> b_time ` set post" "b_time b \<noteq> b_time a"
      by (auto simp: last_of_time_def)
    then show ?thesis unfolding last_of_time_def by (intro exI [of _ pre] exI [of _ "post @ [a]"]) auto
  qed
qed

lemma set_alist_set_iff:
  "distinct (map fst ps) \<Longrightarrow> x \<in> set (alist_set k v ps) \<longleftrightarrow> x = (k, v) \<or> (x \<in> set ps \<and> fst x \<noteq> k)"
proof (induction k v ps rule: alist_set.induct)
  case (2 k v k' v' ps)
  then show ?case by (cases "k' = k") (force simp: image_iff)+
qed auto

lemma by_time_parts:
  "distinct (map fst (by_time bars)) \<and> (\<forall>t b. (t, b) \<in> set (by_time bars) \<longleftrightarrow> t = b_time b \<and> last_of_time bars b)"
proof (induction bars rule: rev_induct)
  case Nil
  then show ?case by (simp add: by_time_def last_of_time_def)
next
  case (snoc a bars)
  have step: "by_time (bars @ [a]) = alist_set (b_time a) a (by_time bars)" by (simp add: by_time_def)
  then have "distinct (map fst (by_time (bars @ [a])))" using snoc by (simp only: distinct_alist_set)
  then show ?case unfolding step using snoc set_alist_set_iff [of "by_time bars"] by (auto simp: last_of_time_snoc)
qed

lemma set_insert_bar [simp]: "set (insert_bar b bs) = insert b (set bs)"
  by (induction bs) auto

lemma sooner_timed: "timed a \<Longrightarrow> timed b \<Longrightarrow> sooner a b \<longleftrightarrow> secs a < secs b"
proof -
  assume "timed a" "timed b"
  then have t: "b_time a = js_int (secs a)" "b_time b = js_int (secs b)" "\<bar>secs a - secs b\<bar> \<le> 2 ^ 53"
    by (auto simp: timed_def)
  have "sooner a b \<longleftrightarrow> js_less (js_int (secs a - secs b)) (js_int 0)"
    unfolding sooner_def t(1,2) js_sub_int [OF t(3)] by (simp add: js_int_def)
  then show ?thesis by simp
qed

lemma timed_less: "timed a \<Longrightarrow> timed b \<Longrightarrow> js_less (b_time a) (b_time b) \<longleftrightarrow> secs a < secs b"
  by (metis js_less_int timed_def)

lemma insert_bar_ascending:
  "ascending bs \<Longrightarrow> timed b \<Longrightarrow> list_all timed bs \<Longrightarrow> b_time b \<notin> b_time ` set bs \<Longrightarrow> ascending (insert_bar b bs)"
proof (induction bs)
  case (Cons c cs)
  have t: "timed c" "list_all timed cs" "ascending cs" "\<forall>x \<in> set cs. js_less (b_time c) (b_time x)"
    using Cons.prems by (simp_all add: ascending_def)
  show ?case
  proof (cases "sooner b c")
    case True
    then have bc: "secs b < secs c" using Cons.prems(2) t(1) by (simp add: sooner_timed)
    have "\<forall>x \<in> set (c # cs). js_less (b_time b) (b_time x)"
    proof
      fix x assume x: "x \<in> set (c # cs)"
      then have "timed x" "secs c \<le> secs x" using t by (auto simp: list_all_iff timed_less intro: less_imp_le)
      then show "js_less (b_time b) (b_time x)" using bc Cons.prems(2) by (simp add: timed_less)
    qed
    then show ?thesis using True Cons.prems(1) by (simp add: ascending_def)
  next
    case False
    have "b_time b \<noteq> b_time c" using Cons.prems(4) by simp
    then have "secs b \<noteq> secs c" using Cons.prems(2) t(1) by (metis timed_def)
    then have "js_less (b_time c) (b_time b)" using False Cons.prems(2) t(1) by (simp add: sooner_timed timed_less)
    moreover have "ascending (insert_bar b cs)" using Cons t by simp
    ultimately show ?thesis using False t(4) by (simp add: ascending_def)
  qed
qed (simp add: ascending_def)

lemma insert_all_bars:
  "list_all timed (bs @ acc) \<Longrightarrow> distinct (map b_time bs) \<Longrightarrow> b_time ` set bs \<inter> b_time ` set acc = {} \<Longrightarrow> ascending acc \<Longrightarrow>
   ascending (fold insert_bar bs acc) \<and> set (fold insert_bar bs acc) = set bs \<union> set acc"
proof (induction bs arbitrary: acc)
  case (Cons b bs)
  have "ascending (insert_bar b acc)" using Cons.prems by (intro insert_bar_ascending) auto
  moreover have "list_all timed (bs @ insert_bar b acc)" using Cons.prems(1) by (auto simp: list_all_iff)
  moreover have "b_time ` set bs \<inter> b_time ` set (insert_bar b acc) = {}" using Cons.prems(2,3) by auto
  ultimately show ?case using Cons.IH [of "insert_bar b acc"] Cons.prems(2) by auto
qed simp

lemma normalize_parts:
  assumes "list_all timed bars"
  shows "ascending (normalize_bars bars) \<and> set (normalize_bars bars) = {b. last_of_time bars b}"
proof -
  have parts: "distinct (map fst (by_time bars))" "\<And>t b. (t, b) \<in> set (by_time bars) \<longleftrightarrow> t = b_time b \<and> last_of_time bars b"
    using by_time_parts [of bars] by blast+
  have fst_time: "map b_time (map snd (by_time bars)) = map fst (by_time bars)" using parts(2) by auto
  have members: "set (map snd (by_time bars)) = {b. last_of_time bars b}" using parts(2) by force
  then have "list_all timed (map snd (by_time bars) @ [])" using assms by (auto simp: list_all_iff last_of_time_def)
  moreover have "distinct (map b_time (map snd (by_time bars)))" unfolding fst_time by (rule parts(1))
  ultimately show ?thesis
    using insert_all_bars [of "map snd (by_time bars)" "[]"] members by (simp add: normalize_bars_def ascending_def)
qed

text \<open>Normalising a page of whole-second bars gives exactly the last bar of each time that occurs, once, in strict order of
  time.\<close>

theorem normalize_keeps_last:
  assumes "list_all timed bars"
  shows "ascending (normalize_bars bars) \<and> set (normalize_bars bars) = {b. last_of_time bars b}"
  using assms by (rule normalize_parts)

theorem normalize_keeps_last_witness:
  "ascending (normalize_bars [minute_bar 300 11, minute_bar 240 10, minute_bar 300 12]) \<and>
   map b_open (normalize_bars [minute_bar 300 11, minute_bar 240 10, minute_bar 300 12]) = [js_int 10, js_int 12]"
proof -
  have "list_all timed [minute_bar 300 11, minute_bar 240 10, minute_bar 300 12]"
    by (simp add: minute_bar_def timed_def secs_def js_int_def)
  from normalize_keeps_last [OF this] have "ascending (normalize_bars [minute_bar 300 11, minute_bar 240 10, minute_bar 300 12])" ..
  moreover have "map b_open (normalize_bars [minute_bar 300 11, minute_bar 240 10, minute_bar 300 12]) = [js_int 10, js_int 12]"
    by code_simp
  ultimately show ?thesis by simp
qed

section \<open>The state of a chart\<close>

definition PAGE_BARS :: int where "PAGE_BARS = 500"
definition MAX_MONTHLY_YEARS :: int where "MAX_MONTHLY_YEARS = 20"

datatype series_status = SeriesLoading | SeriesReady | SeriesEmpty | SeriesError

type_synonym page_window = "js_number \<times> js_number"

definition pageWindow :: "interval \<Rightarrow> js_number \<Rightarrow> page_window" where
  "pageWindow i to' = (let span = js_min (js_int (PAGE_BARS * intervalSeconds i))
       (if i = I1M then js_int (MAX_MONTHLY_YEARS * 365 * 86400) else PosInf)
     in (js_max (Fin 0) (js_sub to' span), to'))"

text \<open>What became of an answered page.\<close>

definition page_of :: "interval \<Rightarrow> tv_bar_dto list \<Rightarrow> bar list" where
  "page_of i dtos = (let page = normalize_bars (List.map_filter fromDto dtos) in
     if looksLikeRawM1 page i then aggregate page i else page)"

text \<open>A request for an earlier page: the callback of \<open>loadEarlier\<close> closes over the symbol and the interval it was made for. The
  run is the one it was made in, which the code does not look at.\<close>

record earlier_request =
  er_symbol :: string
  er_interval :: interval
  er_window :: page_window
  er_oldest :: js_number
  er_run :: nat

text \<open>The refs, the streams and the run of the effect; then what the component is shown.\<close>

record chart_state =
  ch_symbol :: string
  ch_interval :: interval
  ch_run :: nat
  ch_window :: page_window
  ch_waiting :: bool
  ch_streams :: bool
  ch_bars :: "bar list"
  ch_oldest :: "js_number option"
  ch_exhausted :: bool
  ch_earlier :: "earlier_request option"
  cv_bars :: "bar list"
  cv_lastBar :: "bar option"
  cv_status :: series_status
  cv_error :: "string option"
  cv_exhausted :: bool
  cv_loadingEarlier :: bool

definition last_bar :: "bar list \<Rightarrow> bar option" where
  "last_bar bs = (if bs = [] then None else Some (last bs))"

text \<open>The effect runs again when the symbol, the account's suffix or the interval changes, or on a retry. The refs are
  reset, but for the flag of an earlier page in flight.\<close>

definition run_effect :: "string \<Rightarrow> interval \<Rightarrow> int \<Rightarrow> chart_state \<Rightarrow> chart_state" where
  "run_effect symbol i now s = s\<lparr>ch_symbol := symbol, ch_interval := i, ch_run := Suc (ch_run s),
     ch_window := pageWindow i (js_floor (js_div (js_int now) (js_int 1000))), ch_waiting := True, ch_streams := False,
     ch_bars := [], ch_oldest := None, ch_exhausted := False, cv_bars := [], cv_lastBar := None, cv_status := SeriesLoading,
     cv_error := None, cv_exhausted := False, cv_loadingEarlier := False\<rparr>"

definition mount_chart :: "string \<Rightarrow> interval \<Rightarrow> int \<Rightarrow> chart_state" where
  "mount_chart symbol i now = run_effect symbol i now
     \<lparr>ch_symbol = symbol, ch_interval = i, ch_run = 0, ch_window = (Fin 0, Fin 0), ch_waiting = False, ch_streams = False, ch_bars = [],
      ch_oldest = None, ch_exhausted = False, ch_earlier = None, cv_bars = [], cv_lastBar = None, cv_status = SeriesLoading,
      cv_error = None, cv_exhausted = False, cv_loadingEarlier = False\<rparr>"

text \<open>The first page of run \<open>r\<close>; that of a disposed run is dropped.\<close>

definition first_page :: "nat \<Rightarrow> tv_bar_dto list \<Rightarrow> chart_state \<Rightarrow> chart_state" where
  "first_page r dtos s = (if r \<noteq> ch_run s \<or> \<not> ch_waiting s then s
     else let page = page_of (ch_interval s) dtos in
       s\<lparr>ch_waiting := False, ch_streams := True, ch_bars := page,
         ch_oldest := (case page of [] \<Rightarrow> None | b # _ \<Rightarrow> Some (b_time b)),
         cv_bars := page, cv_lastBar := last_bar page, cv_status := (if page = [] then SeriesEmpty else SeriesReady)\<rparr>)"

definition first_page_failed :: "nat \<Rightarrow> string \<Rightarrow> chart_state \<Rightarrow> chart_state" where
  "first_page_failed r err s = (if r \<noteq> ch_run s \<or> \<not> ch_waiting s then s
     else s\<lparr>ch_waiting := False, cv_error := Some err, cv_status := SeriesError\<rparr>)"

definition publish :: "bar \<Rightarrow> chart_state \<Rightarrow> chart_state" where
  "publish b s = (let series = ch_bars s in
     s\<lparr>ch_bars := (if series \<noteq> [] \<and> js_same (b_time b) (b_time (last series)) then butlast series @ [b] else series @ [b]),
       cv_lastBar := Some b\<rparr>)"

definition merge_bar :: "bar \<Rightarrow> chart_state \<Rightarrow> chart_state" where
  "merge_bar b s = (case mergeStreamBar (last_bar (ch_bars s)) b (ch_interval s) of None \<Rightarrow> s | Some m \<Rightarrow> publish m s)"

text \<open>A frame of the bar stream that the schema accepts.\<close>

definition bar_frame :: "tv_bar_dto list \<Rightarrow> chart_state \<Rightarrow> chart_state" where
  "bar_frame dtos s = (if \<not> ch_streams s then s
     else let incoming = normalize_bars (List.map_filter fromDto dtos);
              rolled = (if isDailyInterval (ch_interval s) then incoming else aggregate incoming (ch_interval s))
          in if incoming = [] then s else fold merge_bar rolled s)"

text \<open>A tick moves the forming candle of an intraday chart.\<close>

definition tick_chart :: "quote \<Rightarrow> chart_state \<Rightarrow> chart_state" where
  "tick_chart q s = (case formingPrice q of None \<Rightarrow> s
     | Some price \<Rightarrow>
         let at' = js_div (js_int (case q_brokerTime q of Some t \<Rightarrow> t | None \<Rightarrow> q_receivedAt q)) (js_int 1000) in
         (case applyTick (last_bar (ch_bars s)) price at' (ch_interval s) of None \<Rightarrow> s | Some n \<Rightarrow> publish n s))"

text \<open>The first quote of a frame feeds the shared quote store and then the chart.\<close>

definition quote_frame :: "'d decimal_lib \<Rightarrow> tv_quote_dto \<Rightarrow> int \<Rightarrow> chart_state \<times> quote_store \<Rightarrow> chart_state \<times> quote_store" where
  "quote_frame D dto receivedAt w = (let (s, qs) = w in
     if \<not> ch_streams s \<or> isDailyInterval (ch_interval s) then (s, qs)
     else case mapTvQuote D dto (get_quote qs (ch_symbol s)) receivedAt (Some (ch_symbol s)) of
       None \<Rightarrow> (s, qs)
     | Some q \<Rightarrow> (tick_chart q s, apply_quote receivedAt q qs))"

definition loadEarlier :: "chart_state \<Rightarrow> chart_state" where
  "loadEarlier s = (if ch_earlier s \<noteq> None \<or> ch_exhausted s then s
     else case ch_oldest s of None \<Rightarrow> s
     | Some oldest \<Rightarrow> s\<lparr>ch_earlier := Some \<lparr>er_symbol = ch_symbol s, er_interval = ch_interval s,
           er_window = pageWindow (ch_interval s) (js_sub oldest (Fin 1)), er_oldest = oldest, er_run = ch_run s\<rparr>,
         cv_loadingEarlier := True\<rparr>)"

definition earlier_done :: "chart_state \<Rightarrow> chart_state" where
  "earlier_done s = s\<lparr>ch_earlier := None, cv_loadingEarlier := False\<rparr>"

definition earlier_page :: "tv_bar_dto list \<Rightarrow> chart_state \<Rightarrow> chart_state" where
  "earlier_page dtos s = (case ch_earlier s of None \<Rightarrow> s
     | Some r \<Rightarrow>
         let older = filter (\<lambda>b. js_less (b_time b) (er_oldest r)) (page_of (er_interval r) dtos) in
         earlier_done (case older of
           [] \<Rightarrow> s\<lparr>ch_exhausted := True, cv_exhausted := True\<rparr>
         | b # _ \<Rightarrow> s\<lparr>ch_bars := older @ ch_bars s, ch_oldest := Some (b_time b), cv_bars := older @ ch_bars s\<rparr>))"

definition earlier_failed :: "chart_state \<Rightarrow> chart_state" where
  "earlier_failed s = (case ch_earlier s of None \<Rightarrow> s
     | Some _ \<Rightarrow> earlier_done (s\<lparr>ch_exhausted := True, cv_exhausted := True\<rparr>))"

section \<open>Runs\<close>

datatype chart_event = RunEffect string interval int | FirstPage nat "tv_bar_dto list" | FirstPageFailed nat string
  | BarFrame "tv_bar_dto list" | TickOf quote | LoadEarlier | EarlierPage "tv_bar_dto list" | EarlierFailed

definition chart_step :: "chart_event \<Rightarrow> chart_state \<Rightarrow> chart_state" where
  "chart_step e s = (case e of RunEffect symbol i now \<Rightarrow> run_effect symbol i now s
     | FirstPage r dtos \<Rightarrow> first_page r dtos s | FirstPageFailed r err \<Rightarrow> first_page_failed r err s
     | BarFrame dtos \<Rightarrow> bar_frame dtos s | TickOf q \<Rightarrow> (if ch_streams s \<and> \<not> isDailyInterval (ch_interval s) then tick_chart q s else s)
     | LoadEarlier \<Rightarrow> loadEarlier s | EarlierPage dtos \<Rightarrow> earlier_page dtos s | EarlierFailed \<Rightarrow> earlier_failed s)"

text \<open>No earlier page outlives the series it was asked for.\<close>

definition in_time :: "chart_event \<Rightarrow> chart_state \<Rightarrow> bool" where
  "in_time e s = (case e of EarlierPage _ \<Rightarrow> (case ch_earlier s of Some r \<Rightarrow> er_run r = ch_run s | None \<Rightarrow> True) | _ \<Rightarrow> True)"

fun replies_in_time :: "chart_event list \<Rightarrow> chart_state \<Rightarrow> bool" where
  "replies_in_time [] s = True"
| "replies_in_time (e # es) s = (in_time e s \<and> replies_in_time es (chart_step e s))"

text \<open>The times the gateway sends, whole seconds after January 1970.\<close>

definition dto_timed :: "tv_bar_dto \<Rightarrow> bool" where
  "dto_timed dto \<longleftrightarrow> (case tb_time dto of Fin x \<Rightarrow> x = of_int \<lfloor>x\<rfloor> \<and> 31 * 86400 \<le> \<lfloor>x\<rfloor> \<and> \<lfloor>x\<rfloor> \<le> 2 ^ 38 | _ \<Rightarrow> False)"

definition event_timed :: "chart_event \<Rightarrow> bool" where
  "event_timed e = (case e of FirstPage _ dtos \<Rightarrow> list_all dto_timed dtos | BarFrame dtos \<Rightarrow> list_all dto_timed dtos
     | EarlierPage dtos \<Rightarrow> list_all dto_timed dtos
     | TickOf q \<Rightarrow> (let t = (case q_brokerTime q of Some t \<Rightarrow> t | None \<Rightarrow> q_receivedAt q) in 0 \<le> t \<and> t \<le> 2 ^ 47)
     | _ \<Rightarrow> True)"

section \<open>Order\<close>

definition whole :: "bar \<Rightarrow> bool" where
  "whole b \<longleftrightarrow> (\<exists>n. b_time b = js_int n)"

definition late :: "bar \<Rightarrow> bool" where
  "late b \<longleftrightarrow> timed b \<and> 31 * 86400 \<le> secs b"

lemma late_timed: "late b \<Longrightarrow> timed b"
  by (simp add: late_def)

lemma timed_whole: "timed b \<Longrightarrow> whole b"
  unfolding timed_def whole_def by blast

lemma js_int_floor: "x = of_int n \<Longrightarrow> Fin x = js_int n"
  by (simp add: js_int_def)

lemma fromDto_late:
  assumes "dto_timed dto" "fromDto dto = Some b"
  shows "late b"
proof -
  have time: "b_time b = tb_time dto"
    using assms(2) by (auto simp: fromDto_def Let_def split: if_splits option.splits)
  obtain x where x: "tb_time dto = Fin x" "x = of_int \<lfloor>x\<rfloor>" "31 * 86400 \<le> \<lfloor>x\<rfloor>" "\<lfloor>x\<rfloor> \<le> 2 ^ 38"
    using assms(1) by (auto simp: dto_timed_def split: js_number.splits)
  have "secs b = \<lfloor>x\<rfloor>" by (simp add: secs_def time x(1))
  moreover have "b_time b = js_int \<lfloor>x\<rfloor>" unfolding time x(1) using x(2) by (rule js_int_floor)
  ultimately show ?thesis using x(3,4) by (simp add: late_def timed_def)
qed

lemma dtos_late: "list_all dto_timed dtos \<Longrightarrow> list_all late (List.map_filter fromDto dtos)"
  by (auto simp: list_all_iff List.map_filter_def intro: fromDto_late)

lemma normalize_late:
  assumes "list_all late bars"
  shows "ascending (normalize_bars bars)" "list_all late (normalize_bars bars)" "list_all timed (normalize_bars bars)"
proof -
  have tm: "list_all timed bars" using assms by (simp add: list_all_iff late_def)
  have "set (normalize_bars bars) \<subseteq> set bars" using normalize_parts [OF tm] by (auto simp: last_of_time_def)
  then show "ascending (normalize_bars bars)" "list_all late (normalize_bars bars)" "list_all timed (normalize_bars bars)"
    using normalize_parts [OF tm] assms tm by (auto simp: list_all_iff)
qed

lemma aggregate_timed:
  assumes "list_all late bars"
  shows "list_all timed (aggregate bars i)"
proof -
  have tm: "list_all timed bars" using assms by (simp add: list_all_iff late_def)
  have "timed (candle_of i g)" if g: "g \<in> set (buckets i bars)" for g
  proof -
    have h: "late (hd g)" using bucket_members [OF g] assms by (simp add: list_all_iff)
    have "0 \<le> bucket_int i (secs (hd g))" "bucket_int i (secs (hd g)) \<le> 2 ^ 38"
      using bucket_int_near [of "secs (hd g)" i] bucket.start_le [of i "secs (hd g)"] h by (auto simp: late_def timed_def)
    then show ?thesis using aggregate_times [OF tm g] by (simp add: timed_def secs_def js_int_def)
  qed
  then show ?thesis by (simp add: list_all_iff aggregate_map [OF tm])
qed

lemma page_of_ok: "list_all dto_timed dtos \<Longrightarrow> ascending (page_of i dtos) \<and> list_all whole (page_of i dtos)"
  using normalize_late [OF dtos_late, of dtos] aggregate_ascending [of "normalize_bars (List.map_filter fromDto dtos)" i]
    aggregate_timed [of "normalize_bars (List.map_filter fromDto dtos)" i]
  by (auto simp: page_of_def Let_def list_all_iff timed_whole)

text \<open>A series that is extended keeps all but its last candle.\<close>

definition extends :: "bar list \<Rightarrow> bar list \<Rightarrow> bool" where
  "extends bs bs' \<longleftrightarrow> (\<exists>more. bs' = butlast bs @ more) \<and> length bs \<le> length bs'"

lemma extends_refl [simp]: "extends bs bs"
  by (cases bs rule: rev_cases) (auto simp: extends_def)

lemma extends_trans: "extends bs bs' \<Longrightarrow> extends bs' bs'' \<Longrightarrow> extends bs bs''"
proof -
  assume "extends bs bs'" "extends bs' bs''"
  then obtain m m' where m: "bs' = butlast bs @ m" "length bs \<le> length bs'" "bs'' = butlast bs' @ m'" "length bs' \<le> length bs''"
    by (auto simp: extends_def)
  show ?thesis
  proof (cases "m = []")
    case True
    then have "bs = []" using m(1,2) by (cases bs rule: rev_cases) auto
    then show ?thesis by (simp add: extends_def)
  next
    case False
    then have "bs'' = butlast bs @ (butlast m @ m')" using m(1,3) by (simp add: butlast_append)
    then show ?thesis using m(2,4) unfolding extends_def by auto
  qed
qed

definition series_ok :: "bar list \<Rightarrow> bool" where
  "series_ok bs \<longleftrightarrow> ascending bs \<and> list_all whole bs"

text \<open>A bar that may be published: of the last candle's time, or later.\<close>

definition next_of :: "bar list \<Rightarrow> bar \<Rightarrow> bool" where
  "next_of bs b \<longleftrightarrow> whole b \<and> (bs \<noteq> [] \<longrightarrow> b_time b = b_time (last bs) \<or> js_less (b_time (last bs)) (b_time b))"

lemma whole_less_trans: "whole b \<Longrightarrow> js_less (b_time a) (b_time b) \<Longrightarrow> js_less (b_time b) (b_time c) \<Longrightarrow> js_less (b_time a) (b_time c)"
  by (cases "b_time a"; cases "b_time c") (auto simp: whole_def js_int_def)

lemma ascending_snoc: "ascending (bs @ [b]) \<longleftrightarrow> ascending bs \<and> (\<forall>a \<in> set bs. js_less (b_time a) (b_time b))"
  by (simp add: ascending_def sorted_wrt_append)

lemma publish_ok:
  assumes "series_ok (ch_bars s)" "next_of (ch_bars s) b"
  shows "series_ok (ch_bars (publish b s)) \<and> extends (ch_bars s) (ch_bars (publish b s)) \<and>
    (ch_bars s \<noteq> [] \<longrightarrow> b_time (hd (ch_bars (publish b s))) = b_time (hd (ch_bars s)))"
proof (cases "ch_bars s" rule: rev_cases)
  case Nil
  then show ?thesis using assms(2) by (simp add: publish_def series_ok_def ascending_def next_of_def extends_def)
next
  case (snoc bs l)
  have b: "whole b" "b_time b = b_time l \<or> js_less (b_time l) (b_time b)" using assms(2) snoc by (simp_all add: next_of_def)
  have ok: "ascending bs" "\<forall>a \<in> set bs. js_less (b_time a) (b_time l)" "whole l" "list_all whole bs"
    using assms(1) by (simp_all add: snoc series_ok_def ascending_snoc)
  show ?thesis
  proof (cases "b_time b = b_time l")
    case True
    then have same: "js_same (b_time b) (b_time l)" using b(1) by (auto simp: js_same_def whole_def js_int_def)
    then have p: "ch_bars (publish b s) = bs @ [b]" by (simp add: publish_def snoc)
    have "hd (bs @ [b]) = hd (bs @ [l]) \<or> (bs = [] \<and> b_time b = b_time l)" using True by (cases bs) simp_all
    then have "b_time (hd (bs @ [b])) = b_time (hd (bs @ [l]))" by auto
    then show ?thesis unfolding p snoc using ok b(1) True by (auto simp: series_ok_def ascending_snoc extends_def)
  next
    case False
    then have p: "ch_bars (publish b s) = (bs @ [l]) @ [b]" by (simp add: publish_def snoc js_same_def)
    have less: "js_less (b_time l) (b_time b)" using b(2) False by simp
    have "\<forall>a \<in> set (bs @ [l]). js_less (b_time a) (b_time b)"
      using ok(2,3) less whole_less_trans by auto
    then have "ascending ((bs @ [l]) @ [b])" using ok(1,2) unfolding ascending_snoc by blast
    moreover have "b_time (hd ((bs @ [l]) @ [b])) = b_time (hd (bs @ [l]))" by (cases bs) simp_all
    ultimately show ?thesis unfolding p snoc using ok(3,4) b(1) by (auto simp: series_ok_def extends_def)
  qed
qed

lemma last_bar_simps [simp]: "last_bar [] = None" "bs \<noteq> [] \<Longrightarrow> last_bar bs = Some (last bs)"
  by (simp_all add: last_bar_def)

text \<open>Of two whole times one is earlier or they are the same.\<close>

lemma whole_trichotomy: "\<not> js_less (js_int m) (js_int n) \<Longrightarrow> \<not> js_less (js_int n) (js_int m) \<Longrightarrow> m = n"
  by simp

lemma merge_next:
  assumes "list_all whole bs" "timed b" "mergeStreamBar (last_bar bs) b i = Some m"
  shows "next_of bs m"
proof (cases "bs = []")
  case True
  then show ?thesis using assms(2,3) by (auto simp: mergeStreamBar_def next_of_def whole_def timed_bucket)
next
  case False
  then have "whole (last bs)" using assms(1) by (simp add: list_all_iff)
  then obtain n where n: "b_time (last bs) = js_int n" by (auto simp: whole_def)
  have t: "bucketStart (b_time b) i = js_int (bucket_int i (secs b))" by (rule timed_bucket [OF assms(2)])
  consider "n < bucket_int i (secs b)" | "n = bucket_int i (secs b)" | "bucket_int i (secs b) < n" by linarith
  then show ?thesis
  proof cases
    case 1
    then have "m = b\<lparr>b_time := js_int (bucket_int i (secs b))\<rparr>" using assms(3) False by (simp add: mergeStreamBar_def n t)
    then show ?thesis using 1 by (auto simp: next_of_def whole_def n)
  next
    case 2
    then have "b_time m = js_int n" using assms(3) False by (auto simp: mergeStreamBar_def n t)
    then show ?thesis by (auto simp: next_of_def whole_def n)
  next
    case 3
    then show ?thesis using assms(3) False by (simp add: mergeStreamBar_def n t)
  qed
qed

text \<open>A tick of the platform's clock or of the broker's, in milliseconds, has a bucket of whole seconds.\<close>

lemma tick_bucket:
  assumes "0 \<le> t" "t \<le> 2 ^ 47" "\<not> isDailyInterval i"
  shows "\<exists>n. bucketStart (js_div (js_int t) (js_int 1000)) i = js_int n"
proof -
  define k where "k = intervalSeconds i"
  have k: "0 < k" "k < 2 ^ 14" using assms(3) by (cases i; simp add: intervalSeconds_def k_def isDailyInterval_def)+
  have "(of_int t :: rat) / 1000 \<le> of_int (2 ^ 38)"
  proof -
    have "(of_int t :: rat) \<le> of_int (2 ^ 47)" using assms(2) by (simp only: of_int_le_iff)
    then show ?thesis by simp
  qed
  then have "in_range 0 (2 ^ 38) (fl (of_int t / 1000))" using assms(1) by (intro in_range_fl) simp_all
  then obtain a where a: "js_div (js_int t) (js_int 1000) = Fin a" "0 \<le> a" "a \<le> of_int (2 ^ 38)"
    by (auto elim!: in_rangeE simp: js_int_def)
  have k1: "(1 :: rat) \<le> of_int k" using k(1) by simp
  have "a / of_int k \<le> a / 1" using a(2) k1 by (intro divide_left_mono) simp_all
  then have "a / of_int k \<le> of_int (2 ^ 38)" using a(3) by simp
  moreover have "0 \<le> a / of_int k" using a(2) k1 by simp
  ultimately have "in_range 0 (2 ^ 38) (fl (a / of_int k))" by (intro in_range_fl) simp_all
  then obtain c where c: "fl (a / of_int k) = Fin c" "0 \<le> c" "c \<le> of_int (2 ^ 38)" by (auto elim: in_rangeE)
  have n: "0 \<le> \<lfloor>c\<rfloor>" "\<lfloor>c\<rfloor> \<le> 2 ^ 38" using c(2,3) by (simp_all add: floor_le_iff)
  have "\<lfloor>c\<rfloor> * k \<le> 2 ^ 38 * 2 ^ 14" using n k by (intro mult_mono) simp_all
  then have m: "js_mul (js_int \<lfloor>c\<rfloor>) (js_int k) = js_int (\<lfloor>c\<rfloor> * k)" using n k by (intro js_mul_int) simp
  have "js_div (Fin a) (js_int k) = Fin c" using k(1) c(1) by (simp add: js_int_def)
  then have "js_mul (js_floor (js_div (Fin a) (js_int k))) (js_int k) = js_int (\<lfloor>c\<rfloor> * k)" using m by (simp add: js_floor_def)
  moreover have "bucketStart (Fin a) i = js_mul (js_floor (js_div (Fin a) (js_int k))) (js_int k)"
    using assms(3) by (cases i) (simp_all only: bucketStart_def Let_def interval.case k_def isDailyInterval_def simp_thms)
  ultimately show ?thesis unfolding a(1) by auto
qed

lemma tick_next:
  assumes "list_all whole bs" "applyTick (last_bar bs) price at' i = Some m" "bucketStart at' i = js_int k"
  shows "next_of bs m"
proof (cases "bs = []")
  case True
  then show ?thesis using assms(2,3) by (auto simp: applyTick_def next_of_def whole_def split: if_splits)
next
  case False
  then have "whole (last bs)" using assms(1) by (simp add: list_all_iff)
  then obtain n where n: "b_time (last bs) = js_int n" by (auto simp: whole_def)
  consider "n < k" | "n = k" | "k < n" by linarith
  then show ?thesis
  proof cases
    case 1
    then show ?thesis using assms(2) False by (auto simp: applyTick_def Let_def n assms(3) next_of_def whole_def split: if_splits)
  next
    case 2
    then have "b_time m = js_int n" using assms(2) False by (auto simp: applyTick_def n assms(3) split: if_splits)
    then show ?thesis by (auto simp: next_of_def whole_def n)
  next
    case 3
    then show ?thesis using assms(2) False by (simp add: applyTick_def n assms(3) split: if_splits)
  qed
qed

text \<open>What holds of the refs while the earlier page in flight, if any, is of the series it was asked for.\<close>

definition chart_ok :: "chart_state \<Rightarrow> bool" where
  "chart_ok s \<longleftrightarrow> series_ok (ch_bars s) \<and> (ch_waiting s \<longrightarrow> ch_oldest s = None) \<and>
     (\<forall>t. ch_oldest s = Some t \<longrightarrow> ch_bars s \<noteq> [] \<and> b_time (hd (ch_bars s)) = t) \<and>
     (\<forall>r. ch_earlier s = Some r \<longrightarrow> er_run r \<le> ch_run s \<and> (er_run r = ch_run s \<longrightarrow> ch_oldest s = Some (er_oldest r)))"

lemma series_ok_nil [simp]: "series_ok []"
  by (simp add: series_ok_def ascending_def)

lemma publish_keeps [simp]:
  "ch_interval (publish b s) = ch_interval s" "ch_oldest (publish b s) = ch_oldest s" "ch_earlier (publish b s) = ch_earlier s"
  "ch_run (publish b s) = ch_run s" "ch_waiting (publish b s) = ch_waiting s" "ch_bars (publish b s) \<noteq> []"
  by (simp_all add: publish_def Let_def)

lemma publish_chart_ok:
  assumes "chart_ok s" "next_of (ch_bars s) b"
  shows "chart_ok (publish b s) \<and> extends (ch_bars s) (ch_bars (publish b s))"
proof -
  have "series_ok (ch_bars s)" using assms(1) by (simp add: chart_ok_def)
  note p = publish_ok [OF this assms(2)]
  then show ?thesis using assms(1) unfolding chart_ok_def by auto
qed

lemma merge_bar_ok: "chart_ok s \<Longrightarrow> timed b \<Longrightarrow> chart_ok (merge_bar b s) \<and> extends (ch_bars s) (ch_bars (merge_bar b s))"
proof (cases "mergeStreamBar (last_bar (ch_bars s)) b (ch_interval s)")
  case (Some m)
  assume "chart_ok s" "timed b"
  then show ?thesis using Some merge_next [of "ch_bars s" b "ch_interval s" m] publish_chart_ok [of s m]
    by (simp add: merge_bar_def chart_ok_def series_ok_def)
qed (simp add: merge_bar_def)

lemma merge_bars_ok:
  "chart_ok s \<Longrightarrow> list_all timed bs \<Longrightarrow> chart_ok (fold merge_bar bs s) \<and> extends (ch_bars s) (ch_bars (fold merge_bar bs s))"
proof (induction bs arbitrary: s)
  case (Cons b bs)
  then have "chart_ok (merge_bar b s)" "extends (ch_bars s) (ch_bars (merge_bar b s))" using merge_bar_ok [of s b] by simp_all
  then show ?case using Cons.IH [of "merge_bar b s"] Cons.prems(2) extends_trans by auto
qed simp

lemma bar_frame_ok:
  assumes "chart_ok s" "list_all dto_timed dtos"
  shows "chart_ok (bar_frame dtos s) \<and> extends (ch_bars s) (ch_bars (bar_frame dtos s))"
proof -
  note n = normalize_late [OF dtos_late [OF assms(2)]]
  show ?thesis
    using merge_bars_ok [OF assms(1) n(3)] merge_bars_ok [OF assms(1) aggregate_timed [OF n(2), of "ch_interval s"]] assms(1)
    by (simp add: bar_frame_def Let_def)
qed

lemma tick_chart_ok:
  assumes "chart_ok s" "event_timed (TickOf q)" "\<not> isDailyInterval (ch_interval s)"
  shows "chart_ok (tick_chart q s) \<and> extends (ch_bars s) (ch_bars (tick_chart q s))"
proof -
  define t where "t = (case q_brokerTime q of Some t \<Rightarrow> t | None \<Rightarrow> q_receivedAt q)"
  obtain n where n: "bucketStart (js_div (js_int t) (js_int 1000)) (ch_interval s) = js_int n"
    using tick_bucket [of t "ch_interval s"] assms(2,3) by (auto simp: event_timed_def Let_def t_def)
  show ?thesis
  proof (cases "formingPrice q")
    case (Some price)
    show ?thesis
    proof (cases "applyTick (last_bar (ch_bars s)) price (js_div (js_int t) (js_int 1000)) (ch_interval s)")
      case (Some m)
      then have "next_of (ch_bars s) m" using assms(1) n by (intro tick_next) (simp_all add: chart_ok_def series_ok_def)
      then show ?thesis using publish_chart_ok [OF assms(1)] Some \<open>formingPrice q = Some price\<close>
        by (simp add: tick_chart_def Let_def t_def [symmetric])
    qed (use Some assms(1) in \<open>simp add: tick_chart_def Let_def t_def [symmetric]\<close>)
  qed (use assms(1) in \<open>simp add: tick_chart_def\<close>)
qed

lemma ascending_append:
  "ascending (as @ bs) \<longleftrightarrow> ascending as \<and> ascending bs \<and> (\<forall>a \<in> set as. \<forall>b \<in> set bs. js_less (b_time a) (b_time b))"
  by (simp add: ascending_def sorted_wrt_append)

lemma earlier_page_ok:
  assumes "chart_ok s" "list_all dto_timed dtos" "\<And>r. ch_earlier s = Some r \<Longrightarrow> er_run r = ch_run s"
  shows "chart_ok (earlier_page dtos s)"
proof (cases "ch_earlier s")
  case None
  then show ?thesis using assms(1) by (simp add: earlier_page_def)
next
  case (Some r)
  define older where "older = filter (\<lambda>b. js_less (b_time b) (er_oldest r)) (page_of (er_interval r) dtos)"
  have r: "ch_oldest s = Some (er_oldest r)" "ch_bars s \<noteq> []" "b_time (hd (ch_bars s)) = er_oldest r" "\<not> ch_waiting s"
    using assms(1,3) Some by (auto simp: chart_ok_def)
  have older: "series_ok older" "\<forall>b \<in> set older. js_less (b_time b) (er_oldest r)"
    using page_of_ok [OF assms(2), of "er_interval r"]
    by (auto simp: older_def series_ok_def ascending_def list_all_iff intro: sorted_wrt_filter)
  have s: "ascending (ch_bars s)" "list_all whole (ch_bars s)" using assms(1) by (simp_all add: chart_ok_def series_ok_def)
  have head: "whole (hd (ch_bars s))" "\<forall>b \<in> set (tl (ch_bars s)). js_less (b_time (hd (ch_bars s))) (b_time b)"
    using s r(2) by (cases "ch_bars s"; simp add: ascending_def)+
  have "js_less (b_time a) (b_time b)" if "a \<in> set older" "b \<in> set (ch_bars s)" for a b
  proof -
    have a: "js_less (b_time a) (b_time (hd (ch_bars s)))" using older(2) that(1) r(3) by simp
    show ?thesis
    proof (cases "b = hd (ch_bars s)")
      case False
      then have "b \<in> set (tl (ch_bars s))" using that(2) by (cases "ch_bars s") auto
      then show ?thesis using whole_less_trans [OF head(1) a] head(2) by blast
    qed (use a in simp)
  qed
  then have joined: "series_ok (older @ ch_bars s)"
    using older(1) s by (simp add: series_ok_def ascending_append)
  show ?thesis
  proof (cases older)
    case Nil
    then show ?thesis using assms(1) Some by (simp add: earlier_page_def older_def [symmetric] earlier_done_def chart_ok_def)
  next
    case (Cons b rest)
    then show ?thesis using joined Some r(4) by (simp add: earlier_page_def older_def [symmetric] earlier_done_def chart_ok_def)
  qed
qed

lemma chart_step_ok:
  assumes "chart_ok s" "event_timed e" "\<And>d r. e = EarlierPage d \<Longrightarrow> ch_earlier s = Some r \<Longrightarrow> er_run r = ch_run s"
  shows "chart_ok (chart_step e s)"
proof (cases e)
  case (RunEffect symbol i now)
  have "er_run r \<noteq> Suc (ch_run s)" "er_run r \<le> Suc (ch_run s)" if "ch_earlier s = Some r" for r
    using assms(1) that by (auto simp: chart_ok_def dest: le_imp_less_Suc)
  then show ?thesis using RunEffect by (simp add: chart_step_def run_effect_def chart_ok_def)
next
  case (FirstPage r dtos)
  show ?thesis
  proof (cases "r = ch_run s \<and> ch_waiting s")
    case True
    define page where "page = page_of (ch_interval s) dtos"
    have "series_ok page" using page_of_ok [of dtos "ch_interval s"] assms(2) FirstPage by (simp add: page_def series_ok_def event_timed_def)
    then show ?thesis using FirstPage True assms(1)
      by (cases page) (auto simp: chart_step_def first_page_def page_def [symmetric] chart_ok_def Let_def)
  qed (use FirstPage assms(1) in \<open>auto simp: chart_step_def first_page_def\<close>)
next
  case (BarFrame dtos)
  then show ?thesis using bar_frame_ok [OF assms(1), of dtos] assms(2) by (simp add: chart_step_def event_timed_def)
next
  case (TickOf q)
  then show ?thesis using tick_chart_ok [OF assms(1), of q] assms(1,2) by (simp add: chart_step_def)
next
  case (EarlierPage dtos)
  then show ?thesis using earlier_page_ok [OF assms(1), of dtos] assms(2,3) by (simp add: chart_step_def event_timed_def)
qed (use assms(1) in \<open>auto simp: chart_step_def chart_ok_def first_page_failed_def loadEarlier_def earlier_failed_def earlier_done_def
    split: option.split\<close>)

definition live_event :: "chart_event \<Rightarrow> bool" where
  "live_event e = (case e of BarFrame _ \<Rightarrow> True | TickOf _ \<Rightarrow> True | _ \<Rightarrow> False)"

lemma live_extends: "chart_ok s \<Longrightarrow> event_timed e \<Longrightarrow> live_event e \<Longrightarrow> extends (ch_bars s) (ch_bars (chart_step e s))"
  using bar_frame_ok [of s] tick_chart_ok [of s]
  by (cases e) (auto simp: live_event_def chart_step_def event_timed_def)

lemma chart_run_ok: "chart_ok s \<Longrightarrow> list_all event_timed es \<Longrightarrow> replies_in_time es s \<Longrightarrow> chart_ok (fold chart_step es s)"
proof (induction es arbitrary: s)
  case (Cons e es)
  then have "chart_ok (chart_step e s)" by (intro chart_step_ok) (auto simp: in_time_def)
  then show ?case using Cons by simp
qed simp

lemma chart_ok_mount: "chart_ok (mount_chart symbol i now)"
  by (simp add: mount_chart_def run_effect_def chart_ok_def)

text \<open>C25. Whatever pages, frames, ticks, scrolls, retries and changes of symbol or interval arrive, as long as no earlier page
  outlives the series it was asked for: the candles are in strict order of time, and a frame or a tick changes at most the
  last of them and appends, so that no late frame rewrites drawn history.\<close>

theorem drawn_history_stands:
  assumes "list_all event_timed es" "replies_in_time es (mount_chart symbol i now)"
    "s = fold chart_step es (mount_chart symbol i now)"
  shows "ascending (ch_bars s) \<and>
    (\<forall>e. event_timed e \<and> live_event e \<longrightarrow> extends (ch_bars s) (ch_bars (chart_step e s)))"
proof -
  have "chart_ok s" unfolding assms(3) by (rule chart_run_ok [OF chart_ok_mount assms(1,2)])
  then show ?thesis using live_extends by (auto simp: chart_ok_def series_ok_def)
qed

definition dto_at :: "int \<Rightarrow> string \<Rightarrow> tv_bar_dto" where
  "dto_at t price = \<lparr>tb_time = js_int t, tb_open = price, tb_high = price, tb_low = price, tb_close = price, tb_volume = None\<rparr>"

definition flat_bar :: "int \<Rightarrow> int \<Rightarrow> bar" where
  "flat_bar t v = \<lparr>b_time = js_int t, b_open = js_int v, b_high = js_int v, b_low = js_int v, b_close = js_int v, b_volume = None\<rparr>"

lemma one_row_page:
  assumes "js_Number price = js_int v" "0 < t"
  shows "page_of I1 [dto_at t price] = [flat_bar t v]"
proof -
  have "fromDto (dto_at t price) = Some (flat_bar t v)"
    using assms by (simp add: fromDto_def dto_at_def flat_bar_def Let_def js_int_def)
  then show ?thesis
    by (simp add: page_of_def List.map_filter_def normalize_bars_def by_time_def looksLikeRawM1_def)
qed

lemma empty_page: "page_of I1 [] = []"
  by (simp add: page_of_def List.map_filter_def normalize_bars_def by_time_def looksLikeRawM1_def)

lemma the_prices: "js_Number ''1'' = js_int 1" "js_Number ''2'' = js_int 2" "js_Number ''3'' = js_int 3"
  by code_simp+

lemmas chart_ops = chart_step_def mount_chart_def run_effect_def first_page_def loadEarlier_def earlier_page_def earlier_done_def in_time_def

text \<open>A first page and an earlier one.\<close>

definition scroll_back :: "chart_event list" where
  "scroll_back = [FirstPage 1 [dto_at 2678460 ''2''], LoadEarlier, EarlierPage [dto_at 2678400 ''1'']]"

lemma dto_at_timed: "dto_timed (dto_at t price) \<longleftrightarrow> 31 * 86400 \<le> t \<and> t \<le> 2 ^ 38"
  by (simp add: dto_timed_def dto_at_def js_int_def)

lemma scroll_back_run:
  "list_all event_timed scroll_back" "replies_in_time scroll_back (mount_chart ''EU'' I1 now)"
  "ch_bars (fold chart_step scroll_back (mount_chart ''EU'' I1 now)) = [flat_bar 2678400 1, flat_bar 2678460 2]"
  by (simp_all add: scroll_back_def event_timed_def dto_at_timed chart_ops one_row_page the_prices Let_def)
    (simp_all add: flat_bar_def)

theorem drawn_history_stands_witness:
  "ascending [flat_bar 2678400 1, flat_bar 2678460 2]"
  using drawn_history_stands [OF scroll_back_run(1,2) refl] unfolding scroll_back_run(3) by blast

text \<open>An earlier page asked for one symbol and answered after a change to another: its candle, of the old symbol, stands first
  in the new symbol's series and on its screen; an empty answer would instead stop the new chart's own paging.\<close>

definition switched :: "chart_event list" where
  "switched = [FirstPage 1 [dto_at 2678460 ''1''], LoadEarlier, RunEffect ''XAU'' I1 2678500000, FirstPage 2 [dto_at 2678400 ''3'']]"

lemma earlier_page_outlives_symbol:
  "(let s = fold chart_step (switched @ [EarlierPage [dto_at 2678430 ''2'']]) (mount_chart ''EU'' I1 2678500000) in
     ch_symbol s = ''XAU'' \<and> ch_bars s = [flat_bar 2678430 2, flat_bar 2678400 3] \<and> cv_bars s = ch_bars s)"
  by (simp add: switched_def chart_ops one_row_page the_prices Let_def) (simp add: flat_bar_def)

lemma empty_page_outlives_symbol:
  "(let s = fold chart_step (switched @ [EarlierPage []]) (mount_chart ''EU'' I1 2678500000) in
     ch_symbol s = ''XAU'' \<and> ch_exhausted s \<and> cv_exhausted s)"
  by (simp add: switched_def chart_ops one_row_page the_prices Let_def empty_page)

end
