(* ===== verification/Journal.thy ===== *)
theory Journal
  imports WorkspaceSchema
begin

text \<open>
  The trader's notes: \<^verbatim>\<open>frontend/src/features/journal/journal-store.ts\<close>. The constraints of the schema are modelled; taking a
  JSON text or a value of the server's bundle apart is the packages' work and an argument.

  Shown: a merge with the server's copy keeps the newest version of every note of either side, newest note first, up
  to the cap; what the store keeps in memory is what a reload reads, through every sequence of its actions.
\<close>

datatype mood = Neutral | Good | Bad

record journal_entry =
  je_id :: string
  je_createdAt :: int
  je_updatedAt :: int
  je_symbol :: "string option"
  je_body :: string
  je_mood :: mood
  je_tags :: "string list"

definition journalEntrySchema :: "journal_entry \<Rightarrow> bool" where
  "journalEntrySchema e \<longleftrightarrow> 1 \<le> length (je_id e) \<and> 0 \<le> je_createdAt e \<and> 0 \<le> je_updatedAt e \<and>
     (case je_symbol e of None \<Rightarrow> True | Some s \<Rightarrow> length s \<le> 40) \<and> length (je_body e) \<le> 4000 \<and>
     list_all (\<lambda>t. 1 \<le> length t \<and> length t \<le> 24) (je_tags e) \<and> length (je_tags e) \<le> 8"

definition journalDocumentSchema :: "journal_entry list \<Rightarrow> bool" where
  "journalDocumentSchema es \<longleftrightarrow> list_all journalEntrySchema es \<and> length es \<le> 2000"

text \<open>\<open>jc_parse\<close> is the document a text holds, before its constraints; nothing for a text that is not one.\<close>

record 'text journal_codec =
  jc_parse :: "'text \<Rightarrow> journal_entry list option"
  jc_stringify :: "journal_entry list \<Rightarrow> 'text"

record 'text note_storage =
  ns_item :: "'text option"
  ns_readable :: bool
  ns_writable :: bool

record 'text journal =
  jn_entries :: "journal_entry list"
  jn_hydrated :: bool
  jn_storage :: "'text note_storage option"
  jn_pokes :: nat

definition load_notes :: "'text journal_codec \<Rightarrow> 'text note_storage option \<Rightarrow> journal_entry list" where
  "load_notes C st = (case st of None \<Rightarrow> []
   | Some b \<Rightarrow> if \<not> ns_readable b then []
       else case ns_item b of None \<Rightarrow> []
         | Some raw \<Rightarrow> (case jc_parse C raw of None \<Rightarrow> [] | Some es \<Rightarrow> if journalDocumentSchema es then es else []))"

definition persist :: "'text journal_codec \<Rightarrow> journal_entry list \<Rightarrow> 'text note_storage option \<Rightarrow> 'text note_storage option" where
  "persist C es st = map_option (\<lambda>b. if ns_writable b then b\<lparr>ns_item := Some (jc_stringify C es)\<rparr> else b) st"

definition readJournalEntries :: "'text journal_codec \<Rightarrow> 'text journal \<Rightarrow> journal_entry list" where
  "readJournalEntries C j = (if jn_hydrated j then jn_entries j else load_notes C (jn_storage j))"

definition hydrate_notes :: "'text journal_codec \<Rightarrow> 'text note_storage option \<Rightarrow> 'text journal \<Rightarrow> 'text journal" where
  "hydrate_notes C storage j = (let st = (case storage of None \<Rightarrow> jn_storage j | Some b \<Rightarrow> Some b) in
     j\<lparr>jn_storage := st, jn_entries := load_notes C st, jn_hydrated := True\<rparr>)"

text \<open>A mutation persists, sets and pokes the hook of the mirrored store.\<close>

definition settle_notes :: "'text journal_codec \<Rightarrow> journal_entry list \<Rightarrow> 'text journal \<Rightarrow> 'text journal" where
  "settle_notes C es j = j\<lparr>jn_storage := persist C es (jn_storage j), jn_entries := es, jn_pokes := Suc (jn_pokes j)\<rparr>"

definition add_note :: "'text journal_codec \<Rightarrow> int \<Rightarrow> string \<Rightarrow> string option \<Rightarrow> string \<Rightarrow> mood \<Rightarrow> string list \<Rightarrow> 'text journal \<Rightarrow> 'text journal" where
  "add_note C now rnd symbol body mood tags j = settle_notes C (take 2000 (
     \<lparr>je_id = ''j'' @ show36 now @ rnd, je_createdAt = now, je_updatedAt = now, je_symbol = symbol, je_body = take 4000 body,
       je_mood = mood, je_tags = tags\<rparr> # jn_entries j)) j"

record note_patch =
  np_body :: "string option"
  np_mood :: "mood option"
  np_tags :: "string list option"

definition patched_note :: "int \<Rightarrow> note_patch \<Rightarrow> journal_entry \<Rightarrow> journal_entry" where
  "patched_note now p e = e\<lparr>je_mood := or_else (np_mood p) (je_mood e), je_tags := or_else (np_tags p) (je_tags e),
     je_body := take 4000 (or_else (np_body p) (je_body e)), je_updatedAt := now\<rparr>"

definition update_note :: "'text journal_codec \<Rightarrow> int \<Rightarrow> string \<Rightarrow> note_patch \<Rightarrow> 'text journal \<Rightarrow> 'text journal" where
  "update_note C now i p j = settle_notes C (map (\<lambda>e. if je_id e = i then patched_note now p e else e) (jn_entries j)) j"

definition remove_note :: "'text journal_codec \<Rightarrow> string \<Rightarrow> 'text journal \<Rightarrow> 'text journal" where
  "remove_note C i j = settle_notes C (filter (\<lambda>e. je_id e \<noteq> i) (jn_entries j)) j"

section \<open>The merge\<close>

definition merge_one :: "journal_entry \<Rightarrow> (string \<times> journal_entry) list \<Rightarrow> (string \<times> journal_entry) list" where
  "merge_one e byId = (case map_of byId (je_id e) of
     Some x \<Rightarrow> if je_updatedAt x < je_updatedAt e then alist_set (je_id e) e byId else byId
   | None \<Rightarrow> alist_set (je_id e) e byId)"

definition merged_notes :: "journal_entry list \<Rightarrow> journal_entry list \<Rightarrow> journal_entry list" where
  "merged_notes own_notes incoming =
     (let byId = fold merge_one incoming (fold (\<lambda>e. alist_set (je_id e) e) own_notes [])
      in take 2000 (sort_key (\<lambda>e. - je_createdAt e) (map snd byId)))"

text \<open>\<open>shape\<close> is the entry a value of the bundle has the fields of, defaults filled in.\<close>

definition safe_entry :: "('c \<Rightarrow> journal_entry option) \<Rightarrow> 'c \<Rightarrow> journal_entry option" where
  "safe_entry shape c = (case shape c of None \<Rightarrow> None | Some e \<Rightarrow> if journalEntrySchema e then Some e else None)"

definition mergeRemoteJournal :: "'text journal_codec \<Rightarrow> ('c \<Rightarrow> journal_entry option) \<Rightarrow> 'c list \<Rightarrow> 'text journal \<Rightarrow> 'text journal" where
  "mergeRemoteJournal C shape remote j = (let incoming = List.map_filter (safe_entry shape) remote in
     if incoming = [] then j
     else let es = merged_notes (readJournalEntries C j) incoming;
              j1 = j\<lparr>jn_storage := persist C es (jn_storage j)\<rparr> in
       if jn_hydrated j then j1\<lparr>jn_entries := es\<rparr> else j1)"

text \<open>The map holds, under each id, a version at least as new as any it was given.\<close>

definition newest_of :: "journal_entry set \<Rightarrow> (string \<times> journal_entry) list \<Rightarrow> bool" where
  "newest_of S m \<longleftrightarrow> distinct (map fst m) \<and> (\<forall>(i, e) \<in> set m. je_id e = i \<and> e \<in> S) \<and>
     (\<forall>e \<in> S. \<exists>x. map_of m (je_id e) = Some x \<and> je_updatedAt e \<le> je_updatedAt x)"

lemma own_notes_map:
  "distinct (map je_id (seen @ own_notes)) \<Longrightarrow> newest_of (set seen) m \<Longrightarrow>
   newest_of (set (seen @ own_notes)) (fold (\<lambda>e. alist_set (je_id e) e) own_notes m)"
proof (induction own_notes arbitrary: seen m)
  case (Cons e es)
  have "newest_of (set (seen @ [e])) (alist_set (je_id e) e m)"
    using Cons.prems by (auto simp: newest_of_def distinct_alist_set dest!: set_alist_set) (metis image_eqI)
  then show ?case using Cons.IH [of "seen @ [e]"] Cons.prems(1) by simp
qed simp

lemma merge_one_newest: "newest_of S m \<Longrightarrow> newest_of (insert e S) (merge_one e m)"
proof (cases "map_of m (je_id e)")
  case None
  assume m: "newest_of S m"
  then have "\<forall>x \<in> S. je_id x \<noteq> je_id e" using None unfolding newest_of_def by (metis option.distinct(1))
  then show ?thesis using m None by (auto simp: merge_one_def newest_of_def distinct_alist_set dest!: set_alist_set)
next
  case (Some x)
  assume m: "newest_of S m"
  show ?thesis
  proof (cases "je_updatedAt x < je_updatedAt e")
    case True
    have "je_updatedAt y \<le> je_updatedAt e" if "y \<in> S" "je_id y = je_id e" for y
      using m that Some True unfolding newest_of_def by (metis less_imp_le option.inject order_trans)
    then show ?thesis using m Some True by (auto simp: merge_one_def newest_of_def distinct_alist_set dest!: set_alist_set)
  next
    case False
    then show ?thesis using m Some by (auto simp: merge_one_def newest_of_def)
  qed
qed

lemma merge_all_newest: "newest_of S m \<Longrightarrow> newest_of (S \<union> set es) (fold merge_one es m)"
proof (induction es arbitrary: S m)
  case (Cons e es)
  then show ?case using Cons.IH [OF merge_one_newest [OF Cons.prems]] by simp
qed simp

lemma take_sorted_desc: "sorted_wrt (\<lambda>a b. je_createdAt b \<le> je_createdAt a) (take n (sort_key (\<lambda>e. - je_createdAt e) es))"
proof -
  have "sorted (map (\<lambda>e. - je_createdAt e) (sort_key (\<lambda>e. - je_createdAt e) es))" by simp
  then have "sorted_wrt (\<lambda>a b. je_createdAt b \<le> je_createdAt a) (sort_key (\<lambda>e. - je_createdAt e) es)"
    by (simp add: sorted_wrt_map)
  then show ?thesis by (rule sorted_wrt_take)
qed

lemma distinct_sort_ids: "distinct (map je_id es) \<Longrightarrow> distinct (map je_id (take n (sort_key f es)))"
proof -
  assume d: "distinct (map je_id es)"
  then have "distinct (map je_id (sort_key f es))" by (simp add: distinct_map)
  then show ?thesis by (simp add: distinct_take flip: take_map)
qed

text \<open>C32. Merging the server's notes into this browser's: every note of the result is a version one of the sides has, at least as new
  as any version of that note on either side; no note is twice in it; the newest notes come first; and a note that either
  side has is missing only when the cap of 2000 is reached.\<close>

theorem notes_survive_merge:
  assumes "distinct (map je_id own_notes)" "r = merged_notes own_notes incoming"
  shows "set r \<subseteq> set own_notes \<union> set incoming \<and> distinct (map je_id r) \<and> length r \<le> 2000 \<and>
    sorted_wrt (\<lambda>a b. je_createdAt b \<le> je_createdAt a) r \<and>
    (\<forall>e \<in> set r. \<forall>v \<in> set own_notes \<union> set incoming. je_id v = je_id e \<longrightarrow> je_updatedAt v \<le> je_updatedAt e) \<and>
    (\<forall>v \<in> set own_notes \<union> set incoming. (\<exists>e \<in> set r. je_id e = je_id v) \<or> length r = 2000)"
proof -
  define m where "m = fold merge_one incoming (fold (\<lambda>e. alist_set (je_id e) e) own_notes [])"
  define es where "es = sort_key (\<lambda>e. - je_createdAt e) (map snd m)"
  have r: "r = take 2000 es" by (simp add: assms(2) merged_notes_def m_def es_def Let_def)
  have "newest_of (set ([] @ own_notes)) (fold (\<lambda>e. alist_set (je_id e) e) own_notes [])"
    using assms(1) by (intro own_notes_map) (simp_all add: newest_of_def)
  from merge_all_newest [OF this, of incoming] have m: "newest_of (set own_notes \<union> set incoming) m" by (simp add: m_def)
  have ids: "map je_id (map snd m) = map fst m" using m by (auto simp: newest_of_def)
  have es_set: "set es = snd ` set m" by (simp add: es_def)
  have "set r \<subseteq> snd ` set m" using set_take_subset [of 2000 es] by (simp add: r es_set)
  then have version: "e \<in> set own_notes \<union> set incoming" "(je_id e, e) \<in> set m" if "e \<in> set r" for e
  proof -
    have "e \<in> snd ` set m" using \<open>set r \<subseteq> snd ` set m\<close> that by (rule subsetD)
    then obtain i where i: "(i, e) \<in> set m" by auto
    then have "je_id e = i \<and> e \<in> set own_notes \<union> set incoming" using m unfolding newest_of_def by blast
    then show "e \<in> set own_notes \<union> set incoming" "(je_id e, e) \<in> set m" using i by simp_all
  qed
  have "distinct (map je_id r)"
    unfolding r es_def by (rule distinct_sort_ids) (use m in \<open>simp only: ids newest_of_def\<close>)
  moreover have "je_updatedAt v \<le> je_updatedAt e" if "e \<in> set r" "v \<in> set own_notes \<union> set incoming" "je_id v = je_id e" for e v
  proof -
    have v: "v \<in> set own_notes \<union> set incoming" by (rule that(2))
    have d: "distinct (map fst m)" using m unfolding newest_of_def by blast
    obtain x where x: "map_of m (je_id v) = Some x" "je_updatedAt v \<le> je_updatedAt x"
      using m v unfolding newest_of_def by blast
    have "map_of m (je_id e) = Some e" by (rule map_of_is_SomeI [OF d version(2) [OF that(1)]])
    then show ?thesis using x that(3) by simp
  qed
  moreover have "(\<exists>e \<in> set r. je_id e = je_id v) \<or> length r = 2000" if "v \<in> set own_notes \<union> set incoming" for v
  proof (cases "length es \<le> 2000")
    case True
    obtain x where x: "map_of m (je_id v) = Some x" using m \<open>v \<in> _\<close> unfolding newest_of_def by blast
    then have "(je_id v, x) \<in> set m" by (rule map_of_SomeD)
    then have "x \<in> set r" "je_id x = je_id v" using m True by (auto simp: r es_set newest_of_def rev_image_eqI)
    then show ?thesis by blast
  qed (simp add: r)
  ultimately show ?thesis using version(1) take_sorted_desc by (auto simp: r es_def)
qed

definition note_at :: "string \<Rightarrow> int \<Rightarrow> int \<Rightarrow> string \<Rightarrow> journal_entry" where
  "note_at i created updated body = \<lparr>je_id = i, je_createdAt = created, je_updatedAt = updated, je_symbol = None, je_body = body,
     je_mood = Neutral, je_tags = []\<rparr>"

text \<open>Two devices that edited different notes both keep their work.\<close>

definition here_notes :: "journal_entry list" where
  "here_notes = [note_at ''a'' 1 9 ''edited here'', note_at ''b'' 2 2 ''old'']"

definition there_notes :: "journal_entry list" where
  "there_notes = [note_at ''a'' 1 1 ''old'', note_at ''b'' 2 8 ''edited there'', note_at ''c'' 3 3 ''new'']"

theorem notes_survive_merge_witness:
  "map je_body (merged_notes here_notes there_notes) = [''new'', ''edited there'', ''edited here''] \<and>
   distinct (map je_id (merged_notes here_notes there_notes))"
proof -
  have "distinct (map je_id here_notes)" by (simp add: here_notes_def note_at_def)
  from notes_survive_merge [OF this refl] have "distinct (map je_id (merged_notes here_notes there_notes))" by blast
  moreover have "map je_body (merged_notes here_notes there_notes) = [''new'', ''edited there'', ''edited here'']" by code_simp
  ultimately show ?thesis by simp
qed

section \<open>Reloading\<close>

datatype 'c note_action = NoteAdd int string "string option" string mood "string list" | NoteUpdate int string note_patch
  | NoteRemove string | NoteMerge "'c list"

definition note_step :: "'text journal_codec \<Rightarrow> ('c \<Rightarrow> journal_entry option) \<Rightarrow> 'c note_action \<Rightarrow> 'text journal \<Rightarrow> 'text journal" where
  "note_step C shape a j = (case a of NoteAdd now rnd symbol body mood tags \<Rightarrow> add_note C now rnd symbol body mood tags j
     | NoteUpdate now i p \<Rightarrow> update_note C now i p j | NoteRemove i \<Rightarrow> remove_note C i j
     | NoteMerge remote \<Rightarrow> mergeRemoteJournal C shape remote j)"

text \<open>The inputs the schema would take.\<close>

definition tags_ok :: "string list \<Rightarrow> bool" where
  "tags_ok tags \<longleftrightarrow> list_all (\<lambda>t. 1 \<le> length t \<and> length t \<le> 24) tags \<and> length tags \<le> 8"

definition action_ok :: "'c note_action \<Rightarrow> bool" where
  "action_ok a = (case a of
     NoteAdd now _ symbol _ _ tags \<Rightarrow> 0 \<le> now \<and> (case symbol of None \<Rightarrow> True | Some s \<Rightarrow> length s \<le> 40) \<and> tags_ok tags
   | NoteUpdate now _ p \<Rightarrow> 0 \<le> now \<and> tags_ok (or_else (np_tags p) []) | _ \<Rightarrow> True)"

definition stored_ok :: "'text journal_codec \<Rightarrow> 'text journal \<Rightarrow> bool" where
  "stored_ok C j \<longleftrightarrow> jn_hydrated j \<and> journalDocumentSchema (jn_entries j) \<and> load_notes C (jn_storage j) = jn_entries j \<and>
     (\<exists>b. jn_storage j = Some b \<and> ns_readable b \<and> ns_writable b)"

lemma persisted_reads:
  assumes "\<forall>es. jc_parse C (jc_stringify C es) = Some es" "journalDocumentSchema es" "st = Some b" "ns_readable b" "ns_writable b"
  shows "load_notes C (persist C es st) = es" "\<exists>b. persist C es st = Some b \<and> ns_readable b \<and> ns_writable b"
  using assms by (simp_all add: load_notes_def persist_def)

lemma settle_ok:
  assumes "\<forall>es. jc_parse C (jc_stringify C es) = Some es" "stored_ok C j" "journalDocumentSchema es"
  shows "stored_ok C (settle_notes C es j)"
  using assms persisted_reads [OF assms(1,3)] by (auto simp: stored_ok_def settle_notes_def)

lemma merged_schema:
  assumes "list_all journalEntrySchema own_notes" "list_all journalEntrySchema incoming"
  shows "journalDocumentSchema (merged_notes own_notes incoming)"
proof -
  have step: "list_all (\<lambda>p. journalEntrySchema (snd p)) (fold (\<lambda>e. alist_set (je_id e) e) es m)"
    if "list_all journalEntrySchema es" "list_all (\<lambda>p. journalEntrySchema (snd p)) m" for es m
    using that
  proof (induction es arbitrary: m)
    case (Cons e es)
    then have "list_all (\<lambda>p. journalEntrySchema (snd p)) (alist_set (je_id e) e m)" by (auto simp: list_all_iff dest!: set_alist_set)
    then show ?case using Cons by simp
  qed simp
  have merge: "list_all (\<lambda>p. journalEntrySchema (snd p)) (fold merge_one es m)"
    if "list_all journalEntrySchema es" "list_all (\<lambda>p. journalEntrySchema (snd p)) m" for es m
    using that
  proof (induction es arbitrary: m)
    case (Cons e es)
    then have "list_all (\<lambda>p. journalEntrySchema (snd p)) (merge_one e m)"
      by (auto simp: merge_one_def list_all_iff split: option.split dest!: set_alist_set)
    then show ?case using Cons by simp
  qed simp
  have "list_all (\<lambda>p. journalEntrySchema (snd p)) (fold merge_one incoming (fold (\<lambda>e. alist_set (je_id e) e) own_notes []))"
    using merge [OF assms(2) step [OF assms(1), of "[]"]] by simp
  then show ?thesis
    by (auto simp: journalDocumentSchema_def merged_notes_def Let_def list_all_iff dest!: in_set_takeD)
qed

lemma note_step_ok:
  assumes "\<forall>es. jc_parse C (jc_stringify C es) = Some es" "stored_ok C j" "action_ok a"
  shows "stored_ok C (note_step C shape a j)"
proof -
  have j: "list_all journalEntrySchema (jn_entries j)" "length (jn_entries j) \<le> 2000"
    using assms(2) by (simp_all add: stored_ok_def journalDocumentSchema_def)
  show ?thesis
  proof (cases a)
    case (NoteAdd now rnd symbol body mood tags)
    then have ok: "0 \<le> now" "case symbol of None \<Rightarrow> True | Some s \<Rightarrow> length s \<le> 40" "tags_ok tags"
      using assms(3) by (simp_all add: action_ok_def)
    have "journalDocumentSchema (take 2000 (\<lparr>je_id = ''j'' @ show36 now @ rnd, je_createdAt = now, je_updatedAt = now,
        je_symbol = symbol, je_body = take 4000 body, je_mood = mood, je_tags = tags\<rparr> # jn_entries j))"
      using j ok by (auto simp: journalDocumentSchema_def journalEntrySchema_def tags_ok_def list_all_iff dest: in_set_takeD)
    from settle_ok [OF assms(1,2) this] show ?thesis using NoteAdd by (simp add: note_step_def add_note_def)
  next
    case (NoteUpdate now i p)
    have "journalEntrySchema (patched_note now p e)" if "journalEntrySchema e" for e
      using assms(3) that NoteUpdate by (cases "np_tags p")
        (simp_all add: patched_note_def journalEntrySchema_def action_ok_def tags_ok_def)
    then have "journalDocumentSchema (map (\<lambda>e. if je_id e = i then patched_note now p e else e) (jn_entries j))"
      using j by (auto simp: journalDocumentSchema_def list_all_iff)
    from settle_ok [OF assms(1,2) this] show ?thesis using NoteUpdate by (simp add: note_step_def update_note_def)
  next
    case (NoteRemove i)
    have "journalDocumentSchema (filter (\<lambda>e. je_id e \<noteq> i) (jn_entries j))"
      using j le_trans [OF length_filter_le j(2)] by (auto simp: journalDocumentSchema_def list_all_iff)
    from settle_ok [OF assms(1,2) this] show ?thesis using NoteRemove by (simp add: note_step_def remove_note_def)
  next
    case (NoteMerge remote)
    define incoming where "incoming = List.map_filter (safe_entry shape) remote"
    have "list_all journalEntrySchema incoming"
      by (auto simp: incoming_def List.map_filter_def list_all_iff safe_entry_def split: option.splits if_splits)
    from merged_schema [OF j(1) this] have es: "journalDocumentSchema (merged_notes (jn_entries j) incoming)" .
    show ?thesis using assms(2) persisted_reads [OF assms(1) es] es NoteMerge
      by (auto simp: note_step_def mergeRemoteJournal_def Let_def incoming_def [symmetric] readJournalEntries_def stored_ok_def)
  qed
qed

text \<open>C33. Through every sequence of new, changed and removed notes and of merges with the server's, given a JSON that reads back what
  it wrote, a storage that takes writes and inputs within the schema's limits: the notes in memory are the notes a reload
  reads, and they meet the schema, so that no reload drops them.\<close>

theorem notes_survive_reload:
  assumes "\<forall>es. jc_parse C (jc_stringify C es) = Some es" "list_all action_ok as"
    "j = hydrate_notes C (Some b) j0" "ns_readable b" "ns_writable b" "j' = fold (note_step C shape) as j"
  shows "jn_entries (hydrate_notes C None j') = jn_entries j' \<and> journalDocumentSchema (jn_entries j')"
proof -
  have "journalDocumentSchema (load_notes C (Some b))"
    by (auto simp: load_notes_def journalDocumentSchema_def split: option.split)
  then have "stored_ok C j" using assms(3-5) by (simp add: stored_ok_def hydrate_notes_def Let_def)
  then have "stored_ok C j'" unfolding assms(6) using assms(2)
    by (induction as arbitrary: j) (simp_all add: note_step_ok [OF assms(1)])
  then show ?thesis by (simp add: stored_ok_def hydrate_notes_def Let_def)
qed

definition plain_codec :: "journal_entry list journal_codec" where
  "plain_codec = \<lparr>jc_parse = Some, jc_stringify = (\<lambda>es. es)\<rparr>"

definition empty_journal :: "journal_entry list journal" where
  "empty_journal = \<lparr>jn_entries = [], jn_hydrated = False, jn_storage = None, jn_pokes = 0\<rparr>"

definition fresh_notes :: "journal_entry list note_storage" where
  "fresh_notes = \<lparr>ns_item = None, ns_readable = True, ns_writable = True\<rparr>"

definition note_day :: "journal_entry note_action list" where
  "note_day = [NoteAdd 5 ''x'' (Some ''EURUSD'') ''long'' Good [], NoteMerge [note_at ''b'' 2 8 ''there'']]"

definition day_journal :: "journal_entry list journal" where
  "day_journal = fold (note_step plain_codec Some) note_day (hydrate_notes plain_codec (Some fresh_notes) empty_journal)"

theorem notes_survive_reload_witness:
  "jn_entries (hydrate_notes plain_codec None day_journal) = jn_entries day_journal \<and> map je_body (jn_entries day_journal) = [''long'', ''there'']"
proof -
  have ok: "list_all action_ok note_day" by (simp add: note_day_def action_ok_def tags_ok_def)
  have codec: "\<forall>es. jc_parse plain_codec (jc_stringify plain_codec es) = Some es" by (simp add: plain_codec_def)
  have st: "ns_readable fresh_notes" "ns_writable fresh_notes" by (simp_all add: fresh_notes_def)
  have "map je_body (jn_entries day_journal) = [''long'', ''there'']" by code_simp
  then show ?thesis using notes_survive_reload [OF codec ok refl st day_journal_def] by simp
qed

end
