(* ===== verification/Spec2Isabelle.thy ===== *)
theory Spec2Isabelle
  imports TradeGuarantees Economics PoolGuarantees AccountSync OrderDraft SyncedStore
    History Renewal SessionStore MarketSession ChartSeries Journal
begin

text \<open>
  A verification of the trading terminal in \<^verbatim>\<open>frontend/src\<close>: the TypeScript client that shows an
  account over a gateway and sends its orders. The theories model the client's own logic, function by
  function, and prove what makes it safe to trade with.

  \<^bold>\<open>The program and its parts.\<close> The gateway (another program) answers REST calls and pushes frames over web
  sockets. Its payloads are decoded against schemas of a package (zod) and mapped to a domain model; stores hold
  the account, the working order and the layout; domain functions validate, size and price an order; the trading
  service turns a trader's intent into one gateway call and reports what became of it; providers keep
  the stores current through reconnects and account switches; the workspace keeps the layout of panels and mirrors
  it to the gateway. React components draw all this and are not modelled.

  \<^bold>\<open>Foundations.\<close> \<open>Prelude\<close>: JavaScript values, decimal digits, insertion-ordered maps, \<open>option\<close> as the exception
  and as null. \<open>DecimalLib\<close>: the interface of the package decimal.js as the record \<open>decimal_lib\<close> and the locale
  \<open>decimal_js\<close> of its documented laws; \<open>DecimalRef\<close> is an implementation that meets them, so that the witnesses
  can compute. \<open>Decimal\<close>: \<^verbatim>\<open>domain/common/decimal.ts\<close>. \<open>JsFloat\<close>, \<open>JsArith\<close>, \<open>JsText\<close>: doubles with their rounding,
  the arithmetic on them, and \<^verbatim>\<open>Number(text)\<close>.

  \<^bold>\<open>Domain.\<close> \<open>Models\<close> (\<^verbatim>\<open>models.ts\<close>, \<^verbatim>\<open>ids.ts\<close>), \<open>Errors\<close> (\<^verbatim>\<open>errors.ts\<close>), \<open>Validation\<close>, \<open>Risk\<close>, \<open>Brackets\<close>, \<open>Economics\<close>
  (\<^verbatim>\<open>domain/orders/*\<close>, \<^verbatim>\<open>close-volume.ts\<close>): when an order is accepted, that unknown limits never block, that a size
  stays within its risk budget, that a bracket is on its side, and exactly when these functions throw.

  \<^bold>\<open>Trading.\<close> \<open>TradeCodes\<close> (wire codes and symbol suffixes), \<open>TradeResult\<close> and \<open>TradingApi\<close> (what is sent and how a
  reply is judged: \<^verbatim>\<open>trading-api.ts\<close>), \<open>TradingService\<close> (\<^verbatim>\<open>trading-service.ts\<close>, over an environment that may change at every
  await) and \<open>TradeGuarantees\<close>: no call without an account, one call then one reconciliation, a replacement order
  is placed only after its original is surely gone, and an orphan is always reported.

  \<^bold>\<open>The gateway client.\<close> \<open>Wire\<close> (the record of every answer and the lenient readings of \<^verbatim>\<open>contracts/schemas.ts\<close>) and
  \<open>Mappers\<close> (\<^verbatim>\<open>mappers/to-domain.ts\<close>): what a row becomes, a price of zero never being a quote. \<open>History\<close>: pairing deals into
  closed positions refines a plain description, entry commission is billed once, and the walk through the pages of
  deals is complete. \<open>HttpClient\<close> (\<^verbatim>\<open>http-client.ts\<close>, \<^verbatim>\<open>envelope.ts\<close>): attempts, timeouts, retries and shared reads; a mutation is
  sent once.

  \<^bold>\<open>Signing in.\<close> \<open>Jwt\<close> (claims of a token), \<open>AuthSession\<close> (\<^verbatim>\<open>crm-session.ts\<close>, \<^verbatim>\<open>token-store.ts\<close> as a state machine of calls
  under way: only authorised accounts are offered, a signed-out session stays out), \<open>Renewal\<close> (\<^verbatim>\<open>unauthorized-policy.ts\<close>,
  \<^verbatim>\<open>session-renewal.ts\<close>: renewals are bounded and in time), \<open>SessionStore\<close> (\<^verbatim>\<open>session-store.ts\<close>, \<^verbatim>\<open>account-switch.ts\<close>,
  \<^verbatim>\<open>suffix-probe.ts\<close>: the account a session runs on).

  \<^bold>\<open>Markets and charts.\<close> \<open>MarketSession\<close> (\<^verbatim>\<open>domain/market/session.ts\<close>): open at exactly the minutes of the weekly
  schedule. \<open>QuoteStore\<close> (\<^verbatim>\<open>quote-store.ts\<close>, \<^verbatim>\<open>quote-staleness.ts\<close>): every listener is shown the stored prices or waits for an
  armed fan-out. \<open>Calendar\<close> (the calendar of \<^verbatim>\<open>Date\<close>, \<^verbatim>\<open>broker-time.ts\<close>) and \<open>Bars\<close> (\<^verbatim>\<open>features/chart/bars.ts\<close>): buckets of
  time, whose contract is the locale \<open>bucketing\<close>, and the candle of each. \<open>ChartSeries\<close> (\<^verbatim>\<open>use-chart-series.ts\<close>): the series of a chart
  through pages, frames and ticks; no late frame rewrites drawn history.

  \<^bold>\<open>Live data.\<close> \<open>Subscription\<close> (keys of streams), \<open>Pool\<close> with \<open>PoolInvariants\<close> and \<open>PoolGuarantees\<close>
  (\<^verbatim>\<open>subscription-pool.ts\<close> as a state machine of sockets, timers and network events; the locales \<open>channel_operation\<close>
  and \<open>channel_sweep\<close> are the contract every callback meets), \<open>Session\<close> (generations and snapshot gates),
  \<open>TradingStore\<close>, \<open>AccountSync\<close> (\<^verbatim>\<open>use-account-sync.ts\<close>: a stale session or response changes nothing, snapshots and buffered
  frames compose).

  \<^bold>\<open>The trader's own state.\<close> \<open>OrderDraft\<close> (\<^verbatim>\<open>order-draft-store.ts\<close>). \<open>WorkspaceSchema\<close>, \<open>Migrations\<close>, \<open>Workspace\<close>,
  \<open>WorkspaceInvariants\<close>, \<open>WorkspaceGuarantees\<close> (\<^verbatim>\<open>workspace/persistence/schema.ts\<close>, \<^verbatim>\<open>migrations.ts\<close> and
  \<^verbatim>\<open>workspace/layout/workspace-store.ts\<close>): the document, its actions, and that every sequence of them keeps it
  well-formed; the locale \<open>region_mutation\<close> is the contract of an operation on a region. \<open>WorkspaceStorage\<close>
  (\<^verbatim>\<open>storage.ts\<close> and the loading actions) and \<open>SyncedStore\<close> (\<^verbatim>\<open>synced-store.ts\<close> as a state machine of pulls and pushes).
  \<open>Journal\<close> (\<^verbatim>\<open>journal-store.ts\<close>): the trader's notes, no edit of which a merge or a reload loses.

  \<^bold>\<open>Conventions.\<close> A function that may throw returns an \<open>option\<close>; a value that may be null is one too, never
  the same one. The clock, random numbers and fresh identifiers are arguments. Asynchronous code is a step
  relation or a function per continuation: what happens between two awaits is one step, and the environment
  may change at each await. Text is a list of 8-bit characters.

  \<^bold>\<open>Bounds.\<close> Recursions are structural or have a measure; the migration loop keeps the code's guard of 33
  rounds and is proved never to need it. Doubles are exact rationals with round-to-even, integers are exact
  up to \<open>2 ^ 53\<close>; decimals carry 28 significant digits. The theorems on candles are about whole seconds up to \<open>2 ^ 38\<close>, the
  year 10680.

  \<^bold>\<open>Not modelled.\<close> The React components and hooks beyond the effects named above, the Go gateway, the parsing of zod
  (the lenient readings are modelled, the walk over a schema is the package's), the decoding of UTF-8, the time zones of
  \<^verbatim>\<open>Intl\<close>, the building of addresses by \<^verbatim>\<open>URL\<close>, the browser's interfaces (storage, sockets and timers appear as state or as
  arguments), \<^verbatim>\<open>JSON.parse\<close> and \<^verbatim>\<open>JSON.stringify\<close> (arguments, with the round trip as a named hypothesis), the sign
  of a zero, and characters beyond 8 bits.
\<close>

end
